(* ===== verification/Gw_Prelude.thy ===== *)
theory Gw_Prelude
  imports Main "HOL-Library.AList"
begin

text \<open>
  Shared vocabulary of the development.

  \<^item> JavaScript's \<open>Map\<close> as an insertion-ordered association list: \<open>set\<close> on a present key keeps
    the key's position and on an absent one appends, \<open>delete\<close> keeps the order of the rest, and
    the iterators run in that order.  The locale \<open>js_map\<close> states what the components rely on,
    and its interpretation discharges it for the operations below.
  \<^item> A generic invariant argument for step relations (locale \<open>invariant_machine\<close>).
  \<^item> String helpers of the JavaScript standard library the source uses (\<open>join\<close>, \<open>startsWith\<close>,
    \<open>slice\<close>, \<open>trim\<close>, \<open>toLowerCase\<close>).
\<close>

named_theorems frame
  "fields of a state record that an operation leaves alone"
named_theorems jmap_simps
  "lookups after updates of JavaScript maps"

section \<open>JavaScript maps\<close>

type_synonym ('k, 'v) jmap = "('k \<times> 'v) list"

definition jm_get :: "('k, 'v) jmap \<Rightarrow> 'k \<Rightarrow> 'v option" where
  "jm_get m k = map_of m k"

definition jm_set :: "'k \<Rightarrow> 'v \<Rightarrow> ('k, 'v) jmap \<Rightarrow> ('k, 'v) jmap" where
  "jm_set k v m = AList.update k v m"

definition jm_del :: "'k \<Rightarrow> ('k, 'v) jmap \<Rightarrow> ('k, 'v) jmap" where
  "jm_del k m = AList.delete k m"

definition jm_has :: "('k, 'v) jmap \<Rightarrow> 'k \<Rightarrow> bool" where
  "jm_has m k = (jm_get m k \<noteq> None)"

definition jm_keys :: "('k, 'v) jmap \<Rightarrow> 'k list" where
  "jm_keys m = map fst m"

definition jm_vals :: "('k, 'v) jmap \<Rightarrow> 'v list" where
  "jm_vals m = map snd m"

text \<open>
  Writing a field of an object that the map holds: every entry of the key refers to the same
  object, so the position is kept and nothing happens for an absent key.
\<close>

definition jm_upd :: "'k \<Rightarrow> ('v \<Rightarrow> 'v) \<Rightarrow> ('k, 'v) jmap \<Rightarrow> ('k, 'v) jmap" where
  "jm_upd k f m = map (\<lambda>(k', v). (k', if k' = k then f v else v)) m"

text \<open>Deleting, during an iteration, every entry that satisfies a test.\<close>

definition jm_filter :: "('k \<Rightarrow> 'v \<Rightarrow> bool) \<Rightarrow> ('k, 'v) jmap \<Rightarrow> ('k, 'v) jmap" where
  "jm_filter P m = filter (\<lambda>(k, v). P k v) m"

text \<open>A map holds each key once.\<close>

definition jm_ok :: "('k, 'v) jmap \<Rightarrow> bool" where
  "jm_ok m = distinct (jm_keys m)"

lemma jm_get_Nil [simp]: "jm_get [] k = None"
  by (simp add: jm_get_def)

lemma jm_get_Cons [simp]: "jm_get ((k', v) # m) k = (if k = k' then Some v else jm_get m k)"
  by (simp add: jm_get_def)

lemma jm_get_set [simp, jmap_simps]:
  "jm_get (jm_set k v m) k' = (if k' = k then Some v else jm_get m k')"
  by (simp add: jm_get_def jm_set_def update_conv)

lemma jm_get_del [simp, jmap_simps]:
  "jm_get (jm_del k m) k' = (if k' = k then None else jm_get m k')"
  by (simp add: jm_get_def jm_del_def delete_conv)

lemma jm_get_upd [simp, jmap_simps]:
  "jm_get (jm_upd k f m) k' = (if k' = k then map_option f (jm_get m k) else jm_get m k')"
  by (induction m) (auto simp: jm_get_def jm_upd_def)

lemma jm_keys_set [simp]:
  "jm_keys (jm_set k v m) = (if k \<in> set (jm_keys m) then jm_keys m else jm_keys m @ [k])"
  by (simp add: jm_keys_def jm_set_def update_keys)

lemma jm_keys_del [simp]: "jm_keys (jm_del k m) = filter (\<lambda>k'. k' \<noteq> k) (jm_keys m)"
  by (induction m) (auto simp: jm_keys_def jm_del_def)

lemma jm_keys_upd [simp]: "jm_keys (jm_upd k f m) = jm_keys m"
  by (induction m) (auto simp: jm_keys_def jm_upd_def)

lemma jm_ok_Nil [simp]: "jm_ok []"
  by (simp add: jm_ok_def jm_keys_def)

lemma jm_ok_set [simp]: "jm_ok m \<Longrightarrow> jm_ok (jm_set k v m)"
  by (auto simp: jm_ok_def)

lemma jm_ok_del [simp]: "jm_ok m \<Longrightarrow> jm_ok (jm_del k m)"
  by (auto simp: jm_ok_def)

lemma jm_ok_upd [simp]: "jm_ok (jm_upd k f m) = jm_ok m"
  by (auto simp: jm_ok_def)

lemma jm_ok_filter [simp]: "jm_ok m \<Longrightarrow> jm_ok (jm_filter P m)"
  by (induction m) (auto simp: jm_ok_def jm_keys_def jm_filter_def)

lemma jm_get_filter [jmap_simps]:
  "jm_ok m \<Longrightarrow> jm_get (jm_filter P m) k =
     (case jm_get m k of None \<Rightarrow> None | Some v \<Rightarrow> if P k v then Some v else None)"
  by (induction m) (auto simp: jm_ok_def jm_keys_def jm_filter_def jm_get_def map_of_eq_None_iff
      split: option.splits)

lemma jm_get_in: "jm_get m k = Some v \<Longrightarrow> (k, v) \<in> set m"
  by (auto simp: jm_get_def dest: map_of_SomeD)

lemma jm_in_get: "jm_ok m \<Longrightarrow> (k, v) \<in> set m \<Longrightarrow> jm_get m k = Some v"
  by (auto simp: jm_ok_def jm_keys_def jm_get_def)

lemma jm_in_iff: "jm_ok m \<Longrightarrow> (k, v) \<in> set m \<longleftrightarrow> jm_get m k = Some v"
  by (auto intro: jm_in_get jm_get_in)

lemma jm_vals_iff: "jm_ok m \<Longrightarrow> v \<in> set (jm_vals m) \<longleftrightarrow> (\<exists>k. jm_get m k = Some v)"
  by (force simp: jm_vals_def dest: jm_in_get jm_get_in)

lemma jm_get_vals: "jm_get m k = Some v \<Longrightarrow> v \<in> set (jm_vals m)"
  by (force simp: jm_vals_def dest: jm_get_in)

lemma jm_keys_iff: "k \<in> set (jm_keys m) \<longleftrightarrow> jm_get m k \<noteq> None"
  by (force simp: jm_keys_def jm_get_def map_of_eq_None_iff)

lemma jm_has_iff [simp]: "jm_has m k \<longleftrightarrow> (\<exists>v. jm_get m k = Some v)"
  by (auto simp: jm_has_def)

lemma jm_length: "length m = length (jm_keys m)"
  by (simp add: jm_keys_def)

lemma jm_set_length: "length (jm_set k v m) = (if jm_has m k then length m else Suc (length m))"
  by (simp add: jm_length [of "jm_set k v m"] jm_length [of m] jm_keys_iff)

lemma jm_filter_filter [simp]:
  "jm_filter P (jm_filter Q m) = jm_filter (\<lambda>k v. Q k v \<and> P k v) m"
  by (induction m) (auto simp: jm_filter_def)

lemma jm_filter_True [simp]: "jm_filter (\<lambda>_ _. True) m = m"
  by (simp add: jm_filter_def)

lemma jm_filter_Cons [simp]:
  "jm_filter P ((k, v) # m) = (if P k v then (k, v) # jm_filter P m else jm_filter P m)"
  "jm_filter P [] = []"
  by (simp_all add: jm_filter_def)

lemma jm_del_filter: "jm_del k m = jm_filter (\<lambda>k' _. k' \<noteq> k) m"
  by (induction m) (auto simp: jm_del_def jm_filter_def)

lemma jm_filter_cong:
  "(\<And>k v. (k, v) \<in> set m \<Longrightarrow> P k v = Q k v) \<Longrightarrow> jm_filter P m = jm_filter Q m"
  by (auto simp: jm_filter_def intro!: filter_cong)

lemma jm_filter_id: "(\<And>k v. (k, v) \<in> set m \<Longrightarrow> P k v) \<Longrightarrow> jm_filter P m = m"
  by (auto simp: jm_filter_def filter_id_conv)

section \<open>The interface of a map, and of a map whose entries expire\<close>

text \<open>
  What the components rely on.  \<open>keys\<close> is the iteration order: a key that is set again keeps its
  place.
\<close>

locale js_map =
  fixes get :: "'m \<Rightarrow> 'k \<Rightarrow> 'v option"
    and put :: "'k \<Rightarrow> 'v \<Rightarrow> 'm \<Rightarrow> 'm"
    and del :: "'k \<Rightarrow> 'm \<Rightarrow> 'm"
    and keys :: "'m \<Rightarrow> 'k list"
    and ok :: "'m \<Rightarrow> bool"
  assumes get_put: "get (put k v m) k' = (if k' = k then Some v else get m k')"
    and get_del: "get (del k m) k' = (if k' = k then None else get m k')"
    and keys_put: "keys (put k v m) = (if k \<in> set (keys m) then keys m else keys m @ [k])"
    and keys_del: "keys (del k m) = filter (\<lambda>k'. k' \<noteq> k) (keys m)"
    and keys_get: "k \<in> set (keys m) \<longleftrightarrow> get m k \<noteq> None"
    and ok_put: "ok m \<Longrightarrow> ok (put k v m)"
    and ok_del: "ok m \<Longrightarrow> ok (del k m)"
begin

lemma put_twice: "get (put k v (put k v' m)) = get (put k v m)"
  by (auto simp: get_put)

lemma put_keeps_order: "k \<in> set (keys m) \<Longrightarrow> keys (put k v m) = keys m"
  by (simp add: keys_put)

lemma del_absent: "get m k = None \<Longrightarrow> keys (del k m) = keys m"
  by (metis (mono_tags, lifting) filter_id_conv keys_del keys_get)

end

text \<open>
  Rate buckets, admin sessions and channel tickets carry a deadline, are refused by their reader
  once it has passed, and are dropped by a periodic sweep.
\<close>

locale expiring_map = js_map get put del keys ok
  for get :: "'m \<Rightarrow> 'k \<Rightarrow> 'v option"
    and put :: "'k \<Rightarrow> 'v \<Rightarrow> 'm \<Rightarrow> 'm"
    and del :: "'k \<Rightarrow> 'm \<Rightarrow> 'm"
    and keys :: "'m \<Rightarrow> 'k list"
    and ok :: "'m \<Rightarrow> bool" +
  fixes deadline :: "'v \<Rightarrow> int"
    and sweep :: "int \<Rightarrow> 'm \<Rightarrow> 'm"
  assumes get_sweep: "ok m \<Longrightarrow> get (sweep now m) k =
            (case get m k of None \<Rightarrow> None | Some v \<Rightarrow> if deadline v < now then None else Some v)"
    and ok_sweep: "ok m \<Longrightarrow> ok (sweep now m)"
begin

lemma sweep_keeps_live:
  "ok m \<Longrightarrow> get m k = Some v \<Longrightarrow> now \<le> deadline v \<Longrightarrow> get (sweep now m) k = Some v"
  by (simp add: get_sweep)

lemma sweep_only_drops:
  "ok m \<Longrightarrow> get (sweep now m) k = Some v \<Longrightarrow> get m k = Some v \<and> now \<le> deadline v"
  by (auto simp: get_sweep split: option.splits if_splits)

text \<open>A reader that checks the deadline cannot tell whether a sweep ran before it.\<close>

lemma sweep_unobservable:
  assumes "ok m" and "now \<le> t"
  shows "(\<exists>v. get (sweep now m) k = Some v \<and> t \<le> deadline v \<and> P v) \<longleftrightarrow>
         (\<exists>v. get m k = Some v \<and> t \<le> deadline v \<and> P v)"
  using assms by (auto simp: get_sweep split: option.splits if_splits)

lemma sweep_sweep:
  "ok m \<Longrightarrow> t \<le> t' \<Longrightarrow> get (sweep t' (sweep t m)) k = get (sweep t' m) k"
  by (auto simp: get_sweep ok_sweep split: option.splits)

end

definition jm_sweep :: "('v \<Rightarrow> int) \<Rightarrow> int \<Rightarrow> ('k, 'v) jmap \<Rightarrow> ('k, 'v) jmap" where
  "jm_sweep dl now m = jm_filter (\<lambda>_ v. \<not> dl v < now) m"

lemma jm_get_sweep: "jm_ok m \<Longrightarrow> jm_get (jm_sweep dl now m) k =
    (case jm_get m k of None \<Rightarrow> None | Some v \<Rightarrow> if dl v < now then None else Some v)"
  by (simp add: jm_sweep_def jm_get_filter split: option.splits)

lemma jm_ok_sweep [simp]: "jm_ok m \<Longrightarrow> jm_ok (jm_sweep dl now m)"
  by (simp add: jm_sweep_def)

interpretation jm: js_map jm_get jm_set jm_del jm_keys jm_ok
  by unfold_locales (auto simp: jm_keys_iff)

section \<open>Machines with an invariant\<close>

locale invariant_machine =
  fixes start :: "'s \<Rightarrow> bool"
    and step :: "'s \<Rightarrow> 's \<Rightarrow> bool"
    and inv :: "'s \<Rightarrow> bool"
  assumes start_inv: "start s \<Longrightarrow> inv s"
    and step_inv: "inv s \<Longrightarrow> step s t \<Longrightarrow> inv t"
begin

lemma steps_inv: "rtranclp step s t \<Longrightarrow> inv s \<Longrightarrow> inv t"
  by (induction rule: rtranclp_induct) (auto intro: step_inv)

lemma reachable_inv: "start s \<Longrightarrow> rtranclp step s t \<Longrightarrow> inv t"
  by (blast intro: steps_inv start_inv)

end

section \<open>Strings\<close>

text \<open>
  Strings are lists of characters; the source compares, concatenates, slices and tests them, and
  never depends on characters outside the first 256.
\<close>

fun join_with :: "string \<Rightarrow> string list \<Rightarrow> string" where
  "join_with sep [] = []"
| "join_with sep [x] = x"
| "join_with sep (x # y # ys) = x @ sep @ join_with sep (y # ys)"

definition starts_with :: "string \<Rightarrow> string \<Rightarrow> bool" where
  "starts_with p s = (take (length p) s = p)"

definition is_js_space :: "char \<Rightarrow> bool" where
  "is_js_space c = (of_char c \<in> {9, 10, 11, 12, 13, 32, 160 :: nat})"

definition js_trim :: "string \<Rightarrow> string" where
  "js_trim s = rev (dropWhile is_js_space (rev (dropWhile is_js_space s)))"

definition lower_char :: "char \<Rightarrow> char" where
  "lower_char c = (let n = (of_char c :: nat) in if 65 \<le> n \<and> n \<le> 90 then char_of (n + 32) else c)"

definition to_lower :: "string \<Rightarrow> string" where
  "to_lower s = map lower_char s"

fun split_on :: "char \<Rightarrow> string \<Rightarrow> string list" where
  "split_on c [] = [[]]"
| "split_on c (x # xs) =
     (if x = c then [] # split_on c xs
      else case split_on c xs of [] \<Rightarrow> [[x]] | y # ys \<Rightarrow> (x # y) # ys)"

lemma starts_with_append [simp]: "starts_with p (p @ s)"
  by (simp add: starts_with_def)

lemma starts_with_iff: "starts_with p s \<longleftrightarrow> (\<exists>t. s = p @ t)"
  by (metis append_take_drop_id starts_with_append starts_with_def)

lemma split_on_nonempty: "split_on c s \<noteq> []"
  by (induction s) (auto split: list.splits)

lemma split_on_join: "join_with [c] (split_on c s) = s"
proof (induction s)
  case Nil
  then show ?case by simp
next
  case (Cons x xs)
  obtain y ys where sp: "split_on c xs = y # ys"
    using split_on_nonempty [of c xs] by (cases "split_on c xs") auto
  with Cons show ?case by (cases ys) auto
qed

text \<open>A join with a separator that no part contains determines the parts.\<close>

lemma split_on_plain [simp]: "c \<notin> set x \<Longrightarrow> split_on c x = [x]"
  by (induction x) auto

lemma split_on_plain_sep: "c \<notin> set x \<Longrightarrow> split_on c (x @ c # s) = x # split_on c s"
  by (induction x) auto

lemma split_on_join_with:
  "xs \<noteq> [] \<Longrightarrow> (\<forall>x\<in>set xs. c \<notin> set x) \<Longrightarrow> split_on c (join_with [c] xs) = xs"
  by (induction "[c]" xs rule: join_with.induct) (auto simp: split_on_plain_sep)

lemma join_with_inj:
  assumes "xs \<noteq> []" "ys \<noteq> []" "\<forall>x\<in>set xs. c \<notin> set x" "\<forall>y\<in>set ys. c \<notin> set y"
    and "join_with [c] xs = join_with [c] ys"
  shows "xs = ys"
  using assms by (metis split_on_join_with)

text \<open>The decimal digits of a number, as JavaScript prints array indices.\<close>

fun show_nat :: "nat \<Rightarrow> string" where
  "show_nat n = (if n < 10 then [char_of (n + 48)] else show_nat (n div 10) @ [char_of (n mod 10 + 48)])"

declare show_nat.simps [simp del]

lemma show_nat_digits: "c \<in> set (show_nat n) \<Longrightarrow> 48 \<le> (of_char c :: nat) \<and> of_char c \<le> (57 :: nat)"
proof (induction n rule: show_nat.induct)
  case (1 n)
  then show ?case
    by (subst (asm) (2) show_nat.simps) (auto split: if_splits simp: take_bit_eq_mod)
qed

lemma show_nat_not_Nil: "show_nat n \<noteq> []"
  by (subst show_nat.simps) simp

section \<open>Deleting several keys\<close>

lemma jm_del_absent: "jm_get m k = None \<Longrightarrow> jm_del k m = m"
  by (induction m) (auto simp: jm_del_def jm_get_def split: if_splits)

lemma fold_jm_del: "fold jm_del ks m = jm_filter (\<lambda>k _. k \<notin> set ks) m"
  by (induction ks arbitrary: m) (auto simp: jm_del_filter intro!: jm_filter_cong)

lemma jm_get_filter_key: "jm_get (jm_filter (\<lambda>k _. P k) m) k = (if P k then jm_get m k else None)"
  by (induction m) auto

lemma jm_upd_upd [simp]: "jm_upd k f (jm_upd k h m) = jm_upd k (\<lambda>v. f (h v)) m"
  by (induction m) (auto simp: jm_upd_def)

lemma jm_set_absent: "jm_get m k = None \<Longrightarrow> jm_set k v m = m @ [(k, v)]"
  by (induction m) (auto simp: jm_get_def jm_set_def split: if_splits)

lemma filter_jm_del:
  "jm_ok m \<Longrightarrow> jm_get m k = Some v \<Longrightarrow>
     length (filter (\<lambda>(k, v). P v) m) = length (filter (\<lambda>(k, v). P v) (jm_del k m)) + (if P v then 1 else 0)"
proof (induction m)
  case (Cons x m)
  obtain k' v' where x: "x = (k', v')" by fastforce
  show ?case
  proof (cases "k' = k")
    case True
    then have "jm_get m k = None"
      using Cons.prems(1) jm_keys_iff [of k m] by (auto simp: x jm_ok_def jm_keys_def)
    then show ?thesis using True Cons.prems x jm_del_absent [of m k] by (simp add: jm_del_def)
  next
    case False
    then show ?thesis using Cons x by (auto simp: jm_ok_def jm_keys_def jm_del_def)
  qed
qed simp

end
