(* ===== verification/Gw_Json.thy ===== *)
theory Gw_Json
  imports Complex_Main Gw_Prelude
begin

text \<open>
  JavaScript values as \<open>JSON.parse\<close> makes them.  A number is an exact rational or one of the two
  infinities (a literal such as 1e999 parses to one); rounding of doubles is not modelled, and no
  property of the gateway depends on it.  A property that is absent reads as \<open>undefined\<close>, so the
  values an expression can have are \<open>json option\<close>, with \<open>None\<close> for \<open>undefined\<close>.
\<close>

datatype jsnum = NFin rat | NInf bool

datatype json =
    JNull
  | JBool bool
  | JNum jsnum
  | JStr string
  | JArr "json list"
  | JObj "(string \<times> json) list"

type_synonym jsval = "json option"

fun js_field :: "json \<Rightarrow> string \<Rightarrow> jsval" where
  "js_field (JObj fs) k = map_of fs k"
| "js_field _ k = None"

fun js_typeof :: "jsval \<Rightarrow> string" where
  "js_typeof None = ''undefined''"
| "js_typeof (Some (JBool _)) = ''boolean''"
| "js_typeof (Some (JNum _)) = ''number''"
| "js_typeof (Some (JStr _)) = ''string''"
| "js_typeof (Some _) = ''object''"

fun js_truthy :: "jsval \<Rightarrow> bool" where
  "js_truthy None = False"
| "js_truthy (Some JNull) = False"
| "js_truthy (Some (JBool b)) = b"
| "js_truthy (Some (JNum n)) = (n \<noteq> NFin 0)"
| "js_truthy (Some (JStr s)) = (s \<noteq> [])"
| "js_truthy (Some _) = True"

fun js_is_array :: "jsval \<Rightarrow> bool" where
  "js_is_array (Some (JArr _)) = True"
| "js_is_array _ = False"

text \<open>\<open>Number.isFinite\<close> and \<open>Number.isInteger\<close>, both false of a value that is not a number.\<close>

fun js_is_finite :: "jsval \<Rightarrow> bool" where
  "js_is_finite (Some (JNum (NFin _))) = True"
| "js_is_finite _ = False"

definition rat_is_int :: "rat \<Rightarrow> bool" where
  "rat_is_int q = (of_int \<lfloor>q\<rfloor> = q)"

fun js_is_integer :: "jsval \<Rightarrow> bool" where
  "js_is_integer (Some (JNum (NFin q))) = rat_is_int q"
| "js_is_integer _ = False"

fun js_string :: "jsval \<Rightarrow> string option" where
  "js_string (Some (JStr s)) = Some s"
| "js_string _ = None"

fun js_number :: "jsval \<Rightarrow> rat option" where
  "js_number (Some (JNum (NFin q))) = Some q"
| "js_number _ = None"

text \<open>\<open>Object.entries\<close>: the own properties of an object, the indices of an array or string.\<close>

fun js_entries :: "json \<Rightarrow> (string \<times> json) list" where
  "js_entries (JObj fs) = fs"
| "js_entries (JArr xs) = zip (map show_nat [0..<length xs]) xs"
| "js_entries (JStr s) = zip (map show_nat [0..<length s]) (map (\<lambda>c. JStr [c]) s)"
| "js_entries _ = []"

lemma js_typeof_object:
  "js_typeof v = ''object'' \<longleftrightarrow> v = Some JNull \<or> (\<exists>xs. v = Some (JArr xs)) \<or> (\<exists>fs. v = Some (JObj fs))"
  by (cases v rule: js_typeof.cases) auto

lemma js_typeof_string: "js_typeof v = ''string'' \<longleftrightarrow> (\<exists>s. v = Some (JStr s))"
  by (cases v rule: js_typeof.cases) auto

lemma js_typeof_number: "js_typeof v = ''number'' \<longleftrightarrow> (\<exists>n. v = Some (JNum n))"
  by (cases v rule: js_typeof.cases) auto

lemma js_typeof_boolean: "js_typeof v = ''boolean'' \<longleftrightarrow> (\<exists>b. v = Some (JBool b))"
  by (cases v rule: js_typeof.cases) auto

lemmas js_typeof_iffs = js_typeof_object js_typeof_string js_typeof_number js_typeof_boolean

lemma js_is_array_iff: "js_is_array v \<longleftrightarrow> (\<exists>xs. v = Some (JArr xs))"
  by (cases v rule: js_is_array.cases) auto

lemma js_is_finite_iff: "js_is_finite v \<longleftrightarrow> (\<exists>q. v = Some (JNum (NFin q)))"
  by (cases v rule: js_is_finite.cases) auto

lemma js_is_integer_iff:
  "js_is_integer v \<longleftrightarrow> (\<exists>q. v = Some (JNum (NFin q)) \<and> rat_is_int q)"
  by (cases v rule: js_is_integer.cases) auto

lemma js_string_iff: "js_string v = Some s \<longleftrightarrow> v = Some (JStr s)"
  by (cases v rule: js_string.cases) auto

lemma js_number_iff: "js_number v = Some q \<longleftrightarrow> v = Some (JNum (NFin q))"
  by (cases v rule: js_number.cases) auto

end
