(* ===== verification/Gw_Validation.thy ===== *)
theory Gw_Validation
  imports Gw_Json
begin

text \<open>
  src/validation.ts: the per-type field specifications, \<open>checkField\<close>, \<open>validateGatewayMessage\<close>
  and the header allowlists of the HTTP proxy.  The lookup \<open>MESSAGE_SPECS[type]\<close> of a type that
  the table lacks gives no specification; a type named like a property of \<open>Object.prototype\<close> reads
  an inherited value without entries there, which the loop treats the same way.
\<close>

section \<open>Message validation\<close>

datatype field_kind =
  KString | KNonEmptyString | KNumber | KStatusCode | KObject | KArray | KPresent

record field_spec =
  fs_kind :: field_kind
  fs_optional :: bool
  fs_oneOf :: "string list option"

definition req :: "field_kind \<Rightarrow> field_spec" where
  "req k = \<lparr>fs_kind = k, fs_optional = False, fs_oneOf = None\<rparr>"

definition opt :: "field_kind \<Rightarrow> field_spec" where
  "opt k = \<lparr>fs_kind = k, fs_optional = True, fs_oneOf = None\<rparr>"

definition MESSAGE_SPECS :: "(string \<times> (string \<times> field_spec) list) list" where
  "MESSAGE_SPECS =
    [(''backend_heartbeat'', [(''epoch'', req KNumber), (''observedAt'', opt KNumber)]),
     (''request_registry_snapshot'', []),
     (''backend_server_message'',
        [(''backendId'', req KNonEmptyString), (''targetPeerSessionId'', opt KString)]),
     (''push_notification_request'', [(''event'', req KPresent)]),
     (''ping'', [(''ts'', opt KNumber)]),
     (''channel_open'', [(''target'', req KNonEmptyString), (''kind'', opt KString)]),
     (''channel_reject'', [(''channelId'', req KNonEmptyString), (''reason'', opt KString)]),
     (''channel_close'', [(''channelId'', req KNonEmptyString)]),
     (''topic_subscribe'', [(''backendId'', req KNonEmptyString), (''topic'', req KNonEmptyString)]),
     (''topic_unsubscribe'', [(''backendId'', req KNonEmptyString), (''topic'', req KNonEmptyString)]),
     (''topic_publish'', [(''topic'', req KNonEmptyString)])]"

fun check_kind :: "jsval \<Rightarrow> field_kind \<Rightarrow> string option" where
  "check_kind v KString = (if js_typeof v \<noteq> ''string'' then Some ''must be a string'' else None)"
| "check_kind v KNonEmptyString =
     (if js_typeof v \<noteq> ''string'' \<or> v = Some (JStr '''') then Some ''must be a non-empty string'' else None)"
| "check_kind v KNumber =
     (if js_typeof v \<noteq> ''number'' \<or> \<not> js_is_finite v then Some ''must be a finite number'' else None)"
| "check_kind v KStatusCode =
     (if js_typeof v \<noteq> ''number'' \<or> \<not> js_is_integer v
         \<or> (case js_number v of None \<Rightarrow> True | Some q \<Rightarrow> q < 100 \<or> q > 599)
      then Some ''must be an integer HTTP status code (100-599)'' else None)"
| "check_kind v KObject =
     (if js_typeof v \<noteq> ''object'' \<or> v = Some JNull \<or> js_is_array v then Some ''must be an object'' else None)"
| "check_kind v KArray = (if \<not> js_is_array v then Some ''must be an array'' else None)"
| "check_kind v KPresent = (if v = None then Some ''is required'' else None)"

definition checkField :: "jsval \<Rightarrow> field_spec \<Rightarrow> string option" where
  "checkField v spec =
     (case check_kind v (fs_kind spec) of
        Some e \<Rightarrow> Some e
      | None \<Rightarrow>
          (case (fs_oneOf spec, js_string v) of
             (Some allowed, Some s) \<Rightarrow>
               if s \<notin> set allowed then Some (''must be one of: '' @ join_with '', '' allowed) else None
           | _ \<Rightarrow> None))"

text \<open>The loop over the fields of one specification, left at the first error.\<close>

fun validate_fields :: "string \<Rightarrow> json \<Rightarrow> (string \<times> field_spec) list \<Rightarrow> string option" where
  "validate_fields t m [] = None"
| "validate_fields t m ((field, spec) # rest) =
     (let v = js_field m field in
      if v = None then
        (if fs_optional spec \<or> fs_kind spec = KPresent then
           (if fs_kind spec = KPresent then Some (t @ ''.'' @ field @ '' is required'')
            else validate_fields t m rest)
         else Some (t @ ''.'' @ field @ '' is required''))
      else
        (case checkField v spec of
           Some e \<Rightarrow> Some (t @ ''.'' @ field @ '' '' @ e)
         | None \<Rightarrow> validate_fields t m rest))"

definition validateGatewayMessage :: "json \<Rightarrow> string option" where
  "validateGatewayMessage m =
     (if \<not> js_truthy (Some m) \<or> js_typeof (Some m) \<noteq> ''object'' then Some ''message must be an object''
      else case js_string (js_field m ''type'') of
             None \<Rightarrow> Some ''message.type must be a string''
           | Some t \<Rightarrow>
               (case map_of MESSAGE_SPECS t of
                  None \<Rightarrow> None
                | Some spec \<Rightarrow> validate_fields t m spec))"

section \<open>Proxy header hygiene\<close>

definition PROXY_REQUEST_HEADER_ALLOWLIST :: "string list" where
  "PROXY_REQUEST_HEADER_ALLOWLIST =
     [''content-type'', ''accept'', ''x-request-id'', ''range'', ''if-none-match'', ''if-modified-since'']"

definition PROXY_RESPONSE_HEADER_ALLOWLIST :: "string list" where
  "PROXY_RESPONSE_HEADER_ALLOWLIST =
     [''content-type'', ''content-length'', ''content-disposition'', ''content-encoding'',
      ''content-range'', ''accept-ranges'', ''cache-control'', ''etag'', ''last-modified'',
      ''expires'', ''vary'', ''location'', ''x-request-id'']"

text \<open>The loop over \<open>Object.entries\<close>: \<open>filtered[key] = value\<close> writes a JavaScript object.\<close>

fun filter_header_entries :: "(string \<times> json) list \<Rightarrow> (string, string) jmap \<Rightarrow> (string, string) jmap" where
  "filter_header_entries [] acc = acc"
| "filter_header_entries ((key, value) # rest) acc =
     (case value of
        JStr s \<Rightarrow>
          (if to_lower key \<in> set PROXY_RESPONSE_HEADER_ALLOWLIST
           then filter_header_entries rest (jm_set key s acc)
           else filter_header_entries rest acc)
      | _ \<Rightarrow> filter_header_entries rest acc)"

definition filterProxyResponseHeaders :: "jsval \<Rightarrow> (string, string) jmap" where
  "filterProxyResponseHeaders headers =
     (case headers of
        None \<Rightarrow> []
      | Some h \<Rightarrow> if \<not> js_truthy headers then [] else filter_header_entries (js_entries h) [])"

section \<open>What an accepted message is\<close>

text \<open>
  A declarative reading of the table: a field meets its specification when it is absent and may
  be, or has the shape its kind names.
\<close>

fun kind_holds :: "field_kind \<Rightarrow> json \<Rightarrow> bool" where
  "kind_holds KString v = (\<exists>s. v = JStr s)"
| "kind_holds KNonEmptyString v = (\<exists>s. v = JStr s \<and> s \<noteq> [])"
| "kind_holds KNumber v = (\<exists>q. v = JNum (NFin q))"
| "kind_holds KStatusCode v = (\<exists>q. v = JNum (NFin q) \<and> rat_is_int q \<and> 100 \<le> q \<and> q \<le> 599)"
| "kind_holds KObject v = (\<exists>fs. v = JObj fs)"
| "kind_holds KArray v = (\<exists>xs. v = JArr xs)"
| "kind_holds KPresent v = True"

definition field_meets :: "json \<Rightarrow> string \<times> field_spec \<Rightarrow> bool" where
  "field_meets m fs =
     (case js_field m (fst fs) of
        None \<Rightarrow> fs_optional (snd fs) \<and> fs_kind (snd fs) \<noteq> KPresent
      | Some v \<Rightarrow> kind_holds (fs_kind (snd fs)) v
          \<and> (case (fs_oneOf (snd fs), v) of (Some allowed, JStr s) \<Rightarrow> s \<in> set allowed | _ \<Rightarrow> True))"

definition message_type :: "json \<Rightarrow> string option" where
  "message_type m = js_string (js_field m ''type'')"

definition message_meets_spec :: "json \<Rightarrow> bool" where
  "message_meets_spec m =
     (case message_type m of
        None \<Rightarrow> False
      | Some t \<Rightarrow> (case map_of MESSAGE_SPECS t of
                     None \<Rightarrow> True
                   | Some spec \<Rightarrow> list_all (field_meets m) spec))"

lemma check_kind_None: "check_kind (Some v) k = None \<longleftrightarrow> kind_holds k v"
proof (cases v)
  case (JNum n)
  then show ?thesis by (cases k; cases n) (auto simp: not_less)
qed (cases k; simp)+

lemma checkField_None:
  "checkField (Some v) spec = None \<longleftrightarrow>
     kind_holds (fs_kind spec) v
     \<and> (case (fs_oneOf spec, v) of (Some allowed, JStr s) \<Rightarrow> s \<in> set allowed | _ \<Rightarrow> True)"
  by (cases v) (auto simp: checkField_def check_kind_None [symmetric] split: option.splits)

lemma field_meets_check:
  "field_meets m (field, spec) \<longleftrightarrow>
     (case js_field m field of
        None \<Rightarrow> fs_optional spec \<and> fs_kind spec \<noteq> KPresent
      | Some v \<Rightarrow> checkField (Some v) spec = None)"
  by (simp only: field_meets_def fst_conv snd_conv checkField_None)

lemma validate_fields_None:
  "validate_fields t m specs = None \<longleftrightarrow> list_all (field_meets m) specs"
  by (induction t m specs rule: validate_fields.induct)
     (auto simp: field_meets_check Let_def split: option.splits)

lemma filter_header_entries_get:
  "jm_get (filter_header_entries es acc) k = Some s \<Longrightarrow>
     jm_get acc k = Some s \<or> (k, JStr s) \<in> set es \<and> to_lower k \<in> set PROXY_RESPONSE_HEADER_ALLOWLIST"
  by (induction es acc rule: filter_header_entries.induct) (auto split: json.splits if_splits)

lemma filter_header_entries_ok: "jm_ok acc \<Longrightarrow> jm_ok (filter_header_entries es acc)"
  by (induction es acc rule: filter_header_entries.induct) (auto split: json.splits)

lemma filter_header_entries_keeps:
  assumes "distinct (map fst es)" and "(k, JStr s) \<in> set es"
    and "to_lower k \<in> set PROXY_RESPONSE_HEADER_ALLOWLIST"
  shows "jm_get (filter_header_entries es acc) k = Some s"
proof -
  have frame: "k \<notin> fst ` set es \<Longrightarrow> jm_get (filter_header_entries es acc) k = jm_get acc k"
    for es :: "(string \<times> json) list" and acc
    by (induction es acc rule: filter_header_entries.induct) (auto split: json.splits)
  show ?thesis
    using assms
  proof (induction es acc rule: filter_header_entries.induct)
    case (2 key v rest acc)
    show ?case
    proof (cases "(key, v) = (k, JStr s)")
      case True
      with 2 show ?thesis by (auto simp: frame image_iff)
    next
      case False
      with 2 have "(k, JStr s) \<in> set rest" by auto
      with 2 show ?thesis by (auto split: json.splits)
    qed
  qed simp
qed

section \<open>Properties\<close>

text \<open>
  The validator accepts a message exactly when the message is an object with a string type
  whose fields meet the specification of that type (every required field present with its kind,
  every optional field absent or of its kind); a type without a specification is accepted and left
  to the router.
\<close>

theorem validator_exact: "validateGatewayMessage m = None \<longleftrightarrow> message_meets_spec m"
proof (cases "js_string (js_field m ''type'')")
  case None
  then show ?thesis
    by (simp add: validateGatewayMessage_def message_meets_spec_def message_type_def)
next
  case (Some t)
  then have obj: "\<exists>fs. m = JObj fs" by (cases m) auto
  then have "js_truthy (Some m)" and "js_typeof (Some m) = ''object''" by auto
  with Some show ?thesis
    by (simp add: validateGatewayMessage_def message_meets_spec_def message_type_def
        validate_fields_None split: option.splits)
qed

text \<open>
  The response headers that reach a proxy client are exactly the backend's string-valued
  headers on the allowlist, compared case-insensitively: nothing else is passed on, and nothing
  allowed is lost.
\<close>

theorem response_headers_exact:
  assumes "distinct (map fst fs)"
  shows "jm_get (filterProxyResponseHeaders (Some (JObj fs))) k = Some s \<longleftrightarrow>
           (k, JStr s) \<in> set fs \<and> to_lower k \<in> set PROXY_RESPONSE_HEADER_ALLOWLIST"
proof
  assume "jm_get (filterProxyResponseHeaders (Some (JObj fs))) k = Some s"
  then show "(k, JStr s) \<in> set fs \<and> to_lower k \<in> set PROXY_RESPONSE_HEADER_ALLOWLIST"
    using filter_header_entries_get [of fs "[]" k s] by (simp add: filterProxyResponseHeaders_def)
next
  assume "(k, JStr s) \<in> set fs \<and> to_lower k \<in> set PROXY_RESPONSE_HEADER_ALLOWLIST"
  then show "jm_get (filterProxyResponseHeaders (Some (JObj fs))) k = Some s"
    using filter_header_entries_keeps [OF assms] by (simp add: filterProxyResponseHeaders_def)
qed

theorem response_headers_exact_witness:
  "jm_get (filterProxyResponseHeaders (Some (JObj [(''ETag'', JStr ''x''), (''Set-Cookie'', JStr ''s'')])))
     ''ETag'' = Some ''x''
   \<and> jm_get (filterProxyResponseHeaders (Some (JObj [(''ETag'', JStr ''x''), (''Set-Cookie'', JStr ''s'')])))
     ''Set-Cookie'' \<noteq> Some ''s''"
proof -
  let ?fs = "[(''ETag'', JStr ''x''), (''Set-Cookie'', JStr ''s'')]"
  have d: "distinct (map fst ?fs)" by simp
  have "to_lower ''ETag'' \<in> set PROXY_RESPONSE_HEADER_ALLOWLIST"
    and "to_lower ''Set-Cookie'' \<notin> set PROXY_RESPONSE_HEADER_ALLOWLIST"
    by code_simp+
  then show ?thesis
    using response_headers_exact [OF d, of "''ETag''" "''x''"]
      response_headers_exact [OF d, of "''Set-Cookie''" "''s''"] by simp
qed

end
