(* ===== verification/Gw_Admin_Session.thy ===== *)
theory Gw_Admin_Session
  imports Gw_Prelude
begin

text \<open>
  src/admin-session.ts: the in-memory session store of the admin web UI and the cookie reader.
  Times are milliseconds as integers; the random id of a new session is an argument.  The map
  stores objects with the one field \<open>expiresAt\<close>, kept here as the number itself.
\<close>

record admin_sessions =
  as_sessions :: "(string, int) jmap"
  as_ttlMs :: int

definition sessions_create :: "string \<Rightarrow> int \<Rightarrow> admin_sessions \<Rightarrow> admin_sessions \<times> (string \<times> int)" where
  "sessions_create sid now s =
     (let expiresAt = now + as_ttlMs s
      in (s\<lparr>as_sessions := jm_set sid expiresAt (as_sessions s)\<rparr>, (sid, expiresAt)))"

definition sessions_validate :: "string \<Rightarrow> int \<Rightarrow> admin_sessions \<Rightarrow> admin_sessions \<times> bool" where
  "sessions_validate sid now s =
     (case jm_get (as_sessions s) sid of
        None \<Rightarrow> (s, False)
      | Some expiresAt \<Rightarrow>
          if now > expiresAt then (s\<lparr>as_sessions := jm_del sid (as_sessions s)\<rparr>, False)
          else (s, True))"

definition sessions_expiresAt :: "string \<Rightarrow> admin_sessions \<Rightarrow> int option" where
  "sessions_expiresAt sid s = jm_get (as_sessions s) sid"

definition sessions_destroy :: "string \<Rightarrow> admin_sessions \<Rightarrow> admin_sessions" where
  "sessions_destroy sid s = s\<lparr>as_sessions := jm_del sid (as_sessions s)\<rparr>"

definition sessions_sweep :: "int \<Rightarrow> admin_sessions \<Rightarrow> admin_sessions" where
  "sessions_sweep now s = s\<lparr>as_sessions := jm_sweep (\<lambda>expiresAt. expiresAt) now (as_sessions s)\<rparr>"

definition sessions_dispose :: "admin_sessions \<Rightarrow> admin_sessions" where
  "sessions_dispose s = s\<lparr>as_sessions := []\<rparr>"

section \<open>Reading the cookie\<close>

text \<open>
  \<open>decodeURIComponent\<close> of the ECMAScript standard: an escape below 0x80 is the character, the
  others are UTF-8, and anything malformed throws.  The result is a list of code points.
\<close>

definition hex_digit :: "char \<Rightarrow> nat option" where
  "hex_digit c =
     (let n = (of_char c :: nat) in
      if 48 \<le> n \<and> n \<le> 57 then Some (n - 48)
      else if 65 \<le> n \<and> n \<le> 70 then Some (n - 55)
      else if 97 \<le> n \<and> n \<le> 102 then Some (n - 87)
      else None)"

fun pct_byte :: "string \<Rightarrow> (nat \<times> string) option" where
  "pct_byte (p # a # b # rest) =
     (if p = CHR ''%'' then
        (case (hex_digit a, hex_digit b) of (Some x, Some y) \<Rightarrow> Some (16 * x + y, rest) | _ \<Rightarrow> None)
      else None)"
| "pct_byte _ = None"

fun utf8_tail :: "nat \<Rightarrow> nat \<Rightarrow> string \<Rightarrow> (nat \<times> string) option" where
  "utf8_tail 0 v s = Some (v, s)"
| "utf8_tail (Suc k) v s =
     (case pct_byte s of
        None \<Rightarrow> None
      | Some (b, rest) \<Rightarrow> if 128 \<le> b \<and> b < 192 then utf8_tail k (64 * v + (b - 128)) rest else None)"

text \<open>The payload bits of a leading byte with the number of continuation bytes it announces.\<close>

definition utf8_lead :: "nat \<Rightarrow> (nat \<times> nat) option" where
  "utf8_lead b =
     (if 192 \<le> b \<and> b < 224 then Some (b - 192, 1)
      else if 224 \<le> b \<and> b < 240 then Some (b - 224, 2)
      else if 240 \<le> b \<and> b < 248 then Some (b - 240, 3)
      else None)"

definition utf8_valid :: "nat \<Rightarrow> nat \<Rightarrow> bool" where
  "utf8_valid k v \<longleftrightarrow>
     (if k = 1 then 128 \<le> v else if k = 2 then 2048 \<le> v else 65536 \<le> v)
     \<and> \<not> (55296 \<le> v \<and> v \<le> 57343) \<and> v \<le> 1114111"

lemma pct_byte_length: "pct_byte s = Some (b, rest) \<Longrightarrow> length rest < length s"
  by (induction s rule: pct_byte.induct) (auto split: option.splits if_splits)

lemma utf8_tail_length: "utf8_tail k v s = Some (w, rest) \<Longrightarrow> length rest \<le> length s"
  by (induction k v s rule: utf8_tail.induct)
     (force split: option.splits if_splits dest: pct_byte_length)+

function decode_uri :: "string \<Rightarrow> nat list option" where
  "decode_uri [] = Some []"
| "decode_uri (c # cs) =
     (if c \<noteq> CHR ''%'' then map_option (Cons (of_char c)) (decode_uri cs)
      else case pct_byte (c # cs) of
             None \<Rightarrow> None
           | Some (b, rest) \<Rightarrow>
               if b < 128 then map_option (Cons b) (decode_uri rest)
               else case utf8_lead b of
                      None \<Rightarrow> None
                    | Some (v, k) \<Rightarrow>
                        (case utf8_tail k v rest of
                           None \<Rightarrow> None
                         | Some (w, rest') \<Rightarrow>
                             if utf8_valid k w then map_option (Cons w) (decode_uri rest') else None))"
  by pat_completeness auto
termination
proof (relation "measure length", goal_cases)
  case (4 c cs x a b y v k z w rest')
  then show ?case
    using pct_byte_length [of "c # cs"] utf8_tail_length by fastforce
qed (auto dest!: pct_byte_length)

text \<open>
  What reading the cookie gives: absent (\<open>null\<close>), a thrown \<open>URIError\<close>, or a value.  A decoded value
  with a code point beyond the model's characters is kept apart: it equals no session id.
\<close>

datatype cookie = CookieAbsent | CookieThrows | CookieValue string | CookieForeign

definition decoded_cookie :: "string \<Rightarrow> cookie" where
  "decoded_cookie s =
     (case decode_uri s of
        None \<Rightarrow> CookieThrows
      | Some cps \<Rightarrow> if list_all (\<lambda>n. n < 256) cps then CookieValue (map char_of cps) else CookieForeign)"

fun index_of :: "char \<Rightarrow> string \<Rightarrow> nat option" where
  "index_of c [] = None"
| "index_of c (x # xs) = (if x = c then Some 0 else map_option Suc (index_of c xs))"

fun cookie_scan :: "string \<Rightarrow> string list \<Rightarrow> cookie" where
  "cookie_scan name [] = CookieAbsent"
| "cookie_scan name (pair # rest) =
     (case index_of (CHR ''='') pair of
        None \<Rightarrow> cookie_scan name rest
      | Some eq \<Rightarrow>
          if js_trim (take eq pair) = name then decoded_cookie (js_trim (drop (eq + 1) pair))
          else cookie_scan name rest)"

definition readSessionCookie :: "string option \<Rightarrow> string \<Rightarrow> cookie" where
  "readSessionCookie header name =
     (case header of
        None \<Rightarrow> CookieAbsent
      | Some h \<Rightarrow> if h = [] then CookieAbsent else cookie_scan name (split_on (CHR '';'') h))"

definition ADMIN_SESSION_COOKIE :: "string" where
  "ADMIN_SESSION_COOKIE = ''zclaudia_admin_session''"

text \<open>A value without escapes, which every issued id is (base64url), is read back unchanged.\<close>

lemma decode_uri_plain: "CHR ''%'' \<notin> set s \<Longrightarrow> decode_uri s = Some (map of_char s)"
  by (induction s) auto

lemma decoded_cookie_plain: "CHR ''%'' \<notin> set s \<Longrightarrow> decoded_cookie s = CookieValue s"
proof -
  have "(of_char c :: nat) < 256" for c :: char
    by (cases c) simp
  then show "CHR ''%'' \<notin> set s \<Longrightarrow> decoded_cookie s = CookieValue s"
    by (simp add: decoded_cookie_def decode_uri_plain list_all_iff comp_def)
qed

section \<open>The store as a map whose entries expire\<close>

definition sessions_put :: "string \<Rightarrow> int \<Rightarrow> admin_sessions \<Rightarrow> admin_sessions" where
  "sessions_put sid expiresAt s = s\<lparr>as_sessions := jm_set sid expiresAt (as_sessions s)\<rparr>"

lemma sessions_create_put:
  "sessions_create sid now s = (sessions_put sid (now + as_ttlMs s) s, (sid, now + as_ttlMs s))"
  by (simp add: sessions_create_def sessions_put_def Let_def)

lemma sessions_ttl [simp, frame]:
  "as_ttlMs (sessions_put sid e s) = as_ttlMs s"
  "as_ttlMs (sessions_destroy sid s) = as_ttlMs s"
  "as_ttlMs (sessions_sweep now s) = as_ttlMs s"
  "as_ttlMs (fst (sessions_validate sid now s)) = as_ttlMs s"
  by (auto simp: sessions_put_def sessions_destroy_def sessions_sweep_def sessions_validate_def
      split: option.splits)

interpretation sessions: expiring_map
  "\<lambda>s sid. sessions_expiresAt sid s" sessions_put sessions_destroy
  "\<lambda>s. jm_keys (as_sessions s)" "\<lambda>s. jm_ok (as_sessions s)" "\<lambda>e. e" sessions_sweep
  by unfold_locales
     (auto simp: sessions_expiresAt_def sessions_put_def sessions_destroy_def sessions_sweep_def
        jm_keys_iff jm_get_sweep split: option.splits)

text \<open>Validating is a destroy when the entry has expired and nothing otherwise.\<close>

lemma sessions_validate_eq:
  "sessions_validate sid now s =
     (case sessions_expiresAt sid s of
        None \<Rightarrow> (s, False)
      | Some e \<Rightarrow> if e < now then (sessions_destroy sid s, False) else (s, True))"
  by (simp add: sessions_validate_def sessions_expiresAt_def sessions_destroy_def split: option.splits)

datatype session_op =
    OpCreate string int
  | OpValidate string int
  | OpDestroy string
  | OpSweep int

fun session_step :: "session_op \<Rightarrow> admin_sessions \<Rightarrow> admin_sessions" where
  "session_step (OpCreate sid now) s = fst (sessions_create sid now s)"
| "session_step (OpValidate sid now) s = fst (sessions_validate sid now s)"
| "session_step (OpDestroy sid) s = sessions_destroy sid s"
| "session_step (OpSweep now) s = sessions_sweep now s"

definition session_run :: "session_op list \<Rightarrow> admin_sessions \<Rightarrow> admin_sessions" where
  "session_run ops s = fold session_step ops s"

fun op_before :: "int \<Rightarrow> session_op \<Rightarrow> bool" where
  "op_before t (OpCreate _ now) = (now \<le> t)"
| "op_before t (OpValidate _ now) = (now \<le> t)"
| "op_before t (OpDestroy _) = True"
| "op_before t (OpSweep now) = (now \<le> t)"

fun op_spares :: "string \<Rightarrow> session_op \<Rightarrow> bool" where
  "op_spares sid (OpCreate sid' _) = (sid' \<noteq> sid)"
| "op_spares sid (OpDestroy sid') = (sid' \<noteq> sid)"
| "op_spares sid _ = True"

lemma session_step_ok: "jm_ok (as_sessions s) \<Longrightarrow> jm_ok (as_sessions (session_step x s))"
  by (cases x)
     (auto simp: sessions_create_put sessions_validate_eq sessions.ok_put sessions.ok_del
        sessions.ok_sweep split: option.splits)

lemma session_step_live:
  assumes "jm_ok (as_sessions s)" and "op_before t x" and "op_spares sid x" and "t \<le> e"
    and "sessions_expiresAt sid s = Some e"
  shows "sessions_expiresAt sid (session_step x s) = Some e"
  using assms
  by (cases x)
     (auto simp: sessions_create_put sessions_validate_eq sessions.get_put sessions.get_del
        sessions.get_sweep split: option.splits)

lemma session_step_dead:
  assumes "jm_ok (as_sessions s)" and "op_spares sid x"
    and "sessions_expiresAt sid s \<in> {None, Some e}"
  shows "sessions_expiresAt sid (session_step x s) \<in> {None, Some e}"
  using assms
  by (cases x)
     (auto simp: sessions_create_put sessions_validate_eq sessions.get_put sessions.get_del
        sessions.get_sweep split: option.splits if_splits)

lemma session_run_live:
  assumes "jm_ok (as_sessions s)" and "list_all (op_before t) ops" and "list_all (op_spares sid) ops"
    and "t \<le> e" and "sessions_expiresAt sid s = Some e"
  shows "sessions_expiresAt sid (session_run ops s) = Some e"
  using assms unfolding session_run_def
  by (induction ops arbitrary: s) (auto simp: session_step_ok session_step_live)

lemma session_run_dead:
  assumes "jm_ok (as_sessions s)" and "list_all (op_spares sid) ops"
    and "sessions_expiresAt sid s \<in> {None, Some e}"
  shows "sessions_expiresAt sid (session_run ops s) \<in> {None, Some e}"
  using assms unfolding session_run_def
proof (induction ops arbitrary: s)
  case (Cons x xs)
  from Cons.prems have "jm_ok (as_sessions (session_step x s))"
    and "sessions_expiresAt sid (session_step x s) \<in> {None, Some e}"
    by (auto simp: session_step_ok simp del: insert_iff dest!: session_step_dead)
  with Cons show ?case by simp
qed simp

section \<open>Properties\<close>

text \<open>
  An admin session created at time t0 is accepted at time t exactly while t is at most
  t0 + ttl, whatever other sessions were created, validated, destroyed or swept in between: the
  expiry is fixed, validation never extends it, and no sweep ends it early.
\<close>

theorem session_lifetime:
  assumes "jm_ok (as_sessions s)"
    and "list_all (op_before t) ops" and "list_all (op_spares sid) ops"
  shows "snd (sessions_validate sid t (session_run ops (fst (sessions_create sid t0 s))))
           \<longleftrightarrow> t \<le> t0 + as_ttlMs s"
proof -
  let ?s = "fst (sessions_create sid t0 s)" and ?e = "t0 + as_ttlMs s"
  have ok: "jm_ok (as_sessions ?s)" and new: "sessions_expiresAt sid ?s = Some ?e"
    using assms(1) by (simp_all add: sessions_create_put sessions.ok_put sessions.get_put)
  show ?thesis
  proof (cases "t \<le> ?e")
    case True
    then show ?thesis
      using session_run_live [OF ok assms(2,3) True new] by (simp add: sessions_validate_eq)
  next
    case False
    have "sessions_expiresAt sid (session_run ops ?s) \<in> {None, Some ?e}"
      using session_run_dead [OF ok assms(3)] new by simp
    with False show ?thesis by (auto simp: sessions_validate_eq)
  qed
qed

theorem session_lifetime_witness:
  "snd (sessions_validate ''s1'' 150
      (session_run [OpCreate ''s2'' 110, OpSweep 120, OpValidate ''s1'' 130, OpDestroy ''s2'']
        (fst (sessions_create ''s1'' 100 \<lparr>as_sessions = [], as_ttlMs = 50\<rparr>))))"
  using session_lifetime [of "\<lparr>as_sessions = [], as_ttlMs = 50\<rparr>" 150
      "[OpCreate ''s2'' 110, OpSweep 120, OpValidate ''s1'' 130, OpDestroy ''s2'']" "''s1''" 100]
  by simp

end
