(* ===== verification/Gw_Storage.thy ===== *)
theory Gw_Storage
  imports Gw_Prelude "HOL-Library.Char_ord" "HOL-Library.List_Lexorder"
begin

text \<open>
  src/storage.ts, the SQLite path of \<open>GatewayStorage\<close>.  A table is the list of its rows in
  insertion order and a statement is the list operation it describes: \<open>UPDATE .. WHERE\<close> maps the
  matching rows, \<open>DELETE .. WHERE\<close> drops them, \<open>get()\<close> takes the first match, \<open>INSERT\<close> appends and
  raises on a violated UNIQUE constraint, and \<open>ORDER BY\<close> is a stable sort (SQL leaves ties open).
  A method returns the storage it leaves behind together with its result, an error included.
  The SHA-256 digest, random tokens, UUIDs and the clock are arguments.  The column
  \<open>allowed_backends\<close> holds the JSON text of a string array, kept here as the array itself.
\<close>

section \<open>Rows\<close>

datatype credential_type = Device | Backend | BackendAccess

record credential_info =
  ci_id :: string
  ci_type :: credential_type
  ci_namespace :: string
  ci_name :: string
  ci_parentId :: "string option"
  ci_createdAt :: int
  ci_expiresAt :: "int option"
  ci_revokedAt :: "int option"
  ci_lastUsedAt :: "int option"
  ci_backendId :: "string option"
  ci_allowedBackends :: "string list option"

record credential = credential_info +
  cr_tokenHash :: string

record backend_identity =
  bi_backendId :: string
  bi_tenant :: string
  bi_namespace :: string
  bi_instanceId :: string
  bi_environment :: string
  bi_name :: string
  bi_createdAt :: int
  bi_updatedAt :: int
  bi_lastCredentialId :: "string option"
  bi_lastSeenAt :: "int option"

record identity_row = backend_identity +
  bi_key :: string

record storage =
  st_credentials :: "credential list"
  st_identities :: "identity_row list"
  st_maxEpoch :: int

datatype sql_error = UniqueViolation string | ReadOfUndefined

fun CREDENTIAL_TOKEN_PREFIXES :: "credential_type \<Rightarrow> string" where
  "CREDENTIAL_TOKEN_PREFIXES Device = ''zgd_''"
| "CREDENTIAL_TOKEN_PREFIXES Backend = ''zgb_''"
| "CREDENTIAL_TOKEN_PREFIXES BackendAccess = ''zga_''"

definition DEFAULT_DEVICE_TTL_MS :: int where
  "DEFAULT_DEVICE_TTL_MS = 180 * 24 * 60 * 60 * 1000"

definition DEFAULT_BACKEND_ACCESS_TTL_MS :: int where
  "DEFAULT_BACKEND_ACCESS_TTL_MS = 24 * 60 * 60 * 1000"

section \<open>Statements\<close>

definition update_where :: "('r \<Rightarrow> bool) \<Rightarrow> ('r \<Rightarrow> 'r) \<Rightarrow> 'r list \<Rightarrow> 'r list" where
  "update_where P f rows = map (\<lambda>r. if P r then f r else r) rows"

definition delete_where :: "('r \<Rightarrow> bool) \<Rightarrow> 'r list \<Rightarrow> 'r list" where
  "delete_where P rows = filter (\<lambda>r. \<not> P r) rows"

definition order_by_created_desc :: "('r \<Rightarrow> int) \<Rightarrow> 'r list \<Rightarrow> 'r list" where
  "order_by_created_desc created rows = sort_key (\<lambda>r. - created r) rows"

definition insert_credential :: "credential \<Rightarrow> storage \<Rightarrow> storage \<times> (sql_error + unit)" where
  "insert_credential c s =
     (if \<exists>r\<in>set (st_credentials s). ci_id r = ci_id c then (s, Inl (UniqueViolation ''credentials.id''))
      else if \<exists>r\<in>set (st_credentials s). cr_tokenHash r = cr_tokenHash c
        then (s, Inl (UniqueViolation ''credentials.token_hash''))
      else if ci_type c = BackendAccess \<and> ci_parentId c \<noteq> None
          \<and> (\<exists>r\<in>set (st_credentials s). ci_type r = BackendAccess \<and> ci_parentId r = ci_parentId c)
        then (s, Inl (UniqueViolation ''idx_credentials_access_per_parent''))
      else (s\<lparr>st_credentials := st_credentials s @ [c]\<rparr>, Inr ()))"

definition insert_identity :: "identity_row \<Rightarrow> storage \<Rightarrow> storage \<times> (sql_error + unit)" where
  "insert_identity i s =
     (if \<exists>r\<in>set (st_identities s). bi_key r = bi_key i
        then (s, Inl (UniqueViolation ''backend_identities.identity_key''))
      else if \<exists>r\<in>set (st_identities s). bi_backendId r = bi_backendId i
        then (s, Inl (UniqueViolation ''backend_identities.backend_id''))
      else (s\<lparr>st_identities := st_identities s @ [i]\<rparr>, Inr ()))"

section \<open>Epochs\<close>

definition allocateEpoch :: "storage \<Rightarrow> storage \<times> int" where
  "allocateEpoch s =
     (let s' = s\<lparr>st_maxEpoch := st_maxEpoch s + 1\<rparr> in (s', st_maxEpoch s'))"

definition getMaxEpoch :: "storage \<Rightarrow> int" where
  "getMaxEpoch s = st_maxEpoch s"

section \<open>Backend identities\<close>

definition unit_sep :: char where
  "unit_sep = char_of (31 :: nat)"

definition backendIdentityKey :: "string \<Rightarrow> string \<Rightarrow> string \<Rightarrow> string \<Rightarrow> string" where
  "backendIdentityKey ns instanceId environment tenant =
     join_with [unit_sep] [tenant, ns, instanceId, environment]"

definition boundIdentityKey :: "string \<Rightarrow> string" where
  "boundIdentityKey backendId = ''bound:'' @ backendId"

definition getOrCreateBackendIdV4 ::
  "string \<Rightarrow> string \<Rightarrow> string \<Rightarrow> string option \<Rightarrow> string \<Rightarrow> int \<Rightarrow> storage \<Rightarrow> storage \<times> (sql_error + string)" where
  "getOrCreateBackendIdV4 ns instanceId environment name uuid now s =
     (let key = backendIdentityKey ns instanceId environment '''' in
      case find (\<lambda>r. bi_key r = key) (st_identities s) of
        Some existing \<Rightarrow>
          (let s' = (case name of
                       Some n \<Rightarrow>
                         if n \<noteq> [] \<and> n \<noteq> bi_name existing
                         then s\<lparr>st_identities := update_where (\<lambda>r. bi_key r = key)
                                 (\<lambda>r. r\<lparr>bi_name := n, bi_updatedAt := now\<rparr>) (st_identities s)\<rparr>
                         else s
                     | None \<Rightarrow> s)
           in (s', Inr (bi_backendId existing)))
      | None \<Rightarrow>
          (case insert_identity
              \<lparr>bi_backendId = uuid, bi_tenant = '''', bi_namespace = ns, bi_instanceId = instanceId,
               bi_environment = environment, bi_name = (case name of None \<Rightarrow> '''' | Some n \<Rightarrow> n),
               bi_createdAt = now, bi_updatedAt = now, bi_lastCredentialId = None,
               bi_lastSeenAt = None, bi_key = key\<rparr> s of
             (s', Inl e) \<Rightarrow> (s', Inl e)
           | (s', Inr _) \<Rightarrow> (s', Inr uuid)))"

definition createBoundBackendIdentity ::
  "string \<Rightarrow> string \<Rightarrow> string \<Rightarrow> int \<Rightarrow> storage \<Rightarrow> storage \<times> (sql_error + string)" where
  "createBoundBackendIdentity ns name uuid now s =
     (case insert_identity
         \<lparr>bi_backendId = uuid, bi_tenant = '''', bi_namespace = ns, bi_instanceId = '''',
          bi_environment = '''', bi_name = name, bi_createdAt = now, bi_updatedAt = now,
          bi_lastCredentialId = None, bi_lastSeenAt = None, bi_key = boundIdentityKey uuid\<rparr> s of
        (s', Inl e) \<Rightarrow> (s', Inl e)
      | (s', Inr _) \<Rightarrow> (s', Inr uuid))"

definition listBackendIdentities :: "storage \<Rightarrow> backend_identity list" where
  "listBackendIdentities s =
     map backend_identity.truncate (order_by_created_desc bi_createdAt (st_identities s))"

definition getBackendIdentity :: "string \<Rightarrow> storage \<Rightarrow> backend_identity option" where
  "getBackendIdentity backendId s =
     find (\<lambda>i. bi_backendId i = backendId) (listBackendIdentities s)"

definition deleteBackendIdentity :: "string \<Rightarrow> storage \<Rightarrow> storage \<times> bool" where
  "deleteBackendIdentity backendId s =
     (s\<lparr>st_identities := delete_where (\<lambda>r. bi_backendId r = backendId) (st_identities s)\<rparr>,
      \<exists>r\<in>set (st_identities s). bi_backendId r = backendId)"

definition touchBackendIdentity ::
  "string \<Rightarrow> string option \<Rightarrow> string option \<Rightarrow> int \<Rightarrow> storage \<Rightarrow> storage" where
  "touchBackendIdentity backendId rootCredentialId name now s =
     s\<lparr>st_identities := update_where (\<lambda>r. bi_backendId r = backendId)
        (\<lambda>r. r\<lparr>bi_lastSeenAt := Some now,
               bi_lastCredentialId := (case rootCredentialId of Some c \<Rightarrow> Some c | None \<Rightarrow> bi_lastCredentialId r),
               bi_name := (case name of Some n \<Rightarrow> if n = [] then bi_name r else n | None \<Rightarrow> bi_name r)\<rparr>)
        (st_identities s)\<rparr>"

section \<open>Credentials\<close>

text \<open>A lifetime in milliseconds: \<open>undefined\<close> (the type's default), \<open>null\<close> (never expires), or a number.\<close>

datatype ttl = TtlDefault | TtlNever | TtlMs int

record create_input =
  in_type :: credential_type
  in_namespace :: string
  in_name :: "string option"
  in_ttl :: ttl
  in_parentId :: "string option"
  in_backendId :: "string option"
  in_allowedBackends :: "string list option"

text \<open>The random values one operation draws: the token's 32 bytes and up to two UUIDs.\<close>

record draws =
  rn_token :: string
  rn_id :: string
  rn_backendId :: string

definition ttl_for :: "credential_type \<Rightarrow> ttl \<Rightarrow> int option" where
  "ttl_for ty t =
     (case t of
        TtlDefault \<Rightarrow> (if ty = Device then Some DEFAULT_DEVICE_TTL_MS
                       else if ty = BackendAccess then Some DEFAULT_BACKEND_ACCESS_TTL_MS
                       else None)
      | TtlNever \<Rightarrow> None
      | TtlMs n \<Rightarrow> Some n)"

definition expiry :: "int \<Rightarrow> int option \<Rightarrow> int option" where
  "expiry now ttlMs = (case ttlMs of None \<Rightarrow> None | Some t \<Rightarrow> Some (now + t))"

text \<open>The backend a new credential is, created when it is not inherited.\<close>

definition credential_backend ::
  "create_input \<Rightarrow> draws \<Rightarrow> int \<Rightarrow> storage \<Rightarrow> storage \<times> (sql_error + string option)" where
  "credential_backend inp rn now s =
     (if in_type inp = Backend then
        (case in_backendId inp of
           Some b \<Rightarrow> (s, Inr (Some b))
         | None \<Rightarrow>
             (case createBoundBackendIdentity (in_namespace inp)
                     (case in_name inp of None \<Rightarrow> [] | Some n \<Rightarrow> n) (rn_backendId rn) now s of
                (s1, Inl e) \<Rightarrow> (s1, Inl e)
              | (s1, Inr b) \<Rightarrow> (s1, Inr (Some b))))
      else if in_type inp = BackendAccess then (s, Inr (in_backendId inp))
      else (s, Inr None))"

definition new_credential ::
  "(string \<Rightarrow> string) \<Rightarrow> create_input \<Rightarrow> draws \<Rightarrow> int \<Rightarrow> string option \<Rightarrow> credential" where
  "new_credential sha inp rn now backendId =
     \<lparr>ci_id = rn_id rn, ci_type = in_type inp, ci_namespace = in_namespace inp,
      ci_name = (case in_name inp of None \<Rightarrow> [] | Some n \<Rightarrow> n),
      ci_parentId = in_parentId inp, ci_createdAt = now,
      ci_expiresAt = expiry now (ttl_for (in_type inp) (in_ttl inp)),
      ci_revokedAt = None, ci_lastUsedAt = None, ci_backendId = backendId,
      ci_allowedBackends = (if in_type inp = Device then in_allowedBackends inp else None),
      cr_tokenHash = sha (CREDENTIAL_TOKEN_PREFIXES (in_type inp) @ rn_token rn)\<rparr>"

definition createCredential ::
  "(string \<Rightarrow> string) \<Rightarrow> create_input \<Rightarrow> draws \<Rightarrow> int \<Rightarrow> storage
     \<Rightarrow> storage \<times> (sql_error + credential_info \<times> string)" where
  "createCredential sha inp rn now s =
     (case credential_backend inp rn now s of
        (s1, Inl e) \<Rightarrow> (s1, Inl e)
      | (s1, Inr backendId) \<Rightarrow>
          (let c = new_credential sha inp rn now backendId in
           case insert_credential c s1 of
             (s2, Inl e) \<Rightarrow> (s2, Inl e)
           | (s2, Inr _) \<Rightarrow>
               (s2, Inr (credential_info.truncate c,
                         CREDENTIAL_TOKEN_PREFIXES (in_type inp) @ rn_token rn))))"

definition getCredentialByHash :: "string \<Rightarrow> storage \<Rightarrow> credential option" where
  "getCredentialByHash h s = find (\<lambda>c. cr_tokenHash c = h) (st_credentials s)"

definition getCredentialById :: "string \<Rightarrow> storage \<Rightarrow> credential option" where
  "getCredentialById i s = find (\<lambda>c. ci_id c = i) (st_credentials s)"

definition past :: "int \<Rightarrow> int option \<Rightarrow> bool" where
  "past now expiresAt = (case expiresAt of None \<Rightarrow> False | Some e \<Rightarrow> now > e)"

definition parent_refuses :: "int \<Rightarrow> storage \<Rightarrow> string option \<Rightarrow> bool" where
  "parent_refuses now s parentId =
     (case parentId of
        None \<Rightarrow> False
      | Some pid \<Rightarrow>
          (case getCredentialById pid s of
             None \<Rightarrow> True
           | Some parent \<Rightarrow> ci_revokedAt parent \<noteq> None \<or> past now (ci_expiresAt parent)))"

definition findValidCredential ::
  "(string \<Rightarrow> string) \<Rightarrow> string \<Rightarrow> int \<Rightarrow> storage \<Rightarrow> storage \<times> credential_info option" where
  "findValidCredential sha token now s =
     (case getCredentialByHash (sha token) s of
        None \<Rightarrow> (s, None)
      | Some r \<Rightarrow>
          if ci_revokedAt r \<noteq> None then (s, None)
          else if past now (ci_expiresAt r) then (s, None)
          else if parent_refuses now s (ci_parentId r) then (s, None)
          else (s\<lparr>st_credentials := update_where (\<lambda>c. ci_id c = ci_id r)
                     (\<lambda>c. c\<lparr>ci_lastUsedAt := Some now\<rparr>) (st_credentials s)\<rparr>,
                Some (credential_info.truncate r)))"

definition listCredentials :: "storage \<Rightarrow> credential_info list" where
  "listCredentials s =
     map credential_info.truncate (order_by_created_desc ci_createdAt (st_credentials s))"

definition getCredential :: "string \<Rightarrow> storage \<Rightarrow> credential_info option" where
  "getCredential i s = map_option credential_info.truncate (getCredentialById i s)"

definition bindBackendCredential :: "string \<Rightarrow> string \<Rightarrow> storage \<Rightarrow> storage \<times> bool" where
  "bindBackendCredential i backendId s =
     (let P = (\<lambda>c. ci_id c = i \<and> ci_type c = Backend \<and> ci_revokedAt c = None \<and> ci_backendId c = None);
          s1 = s\<lparr>st_credentials := update_where P (\<lambda>c. c\<lparr>ci_backendId := Some backendId\<rparr>) (st_credentials s)\<rparr>
      in if \<not> list_ex P (st_credentials s) then (s1, False)
         else (s1\<lparr>st_credentials := update_where (\<lambda>c. ci_parentId c = Some i \<and> ci_revokedAt c = None)
                     (\<lambda>c. c\<lparr>ci_backendId := Some backendId\<rparr>) (st_credentials s1)\<rparr>, True))"

definition setAllowedBackends :: "string \<Rightarrow> string list option \<Rightarrow> storage \<Rightarrow> storage \<times> bool" where
  "setAllowedBackends i allowed s =
     (let P = (\<lambda>c. ci_id c = i \<and> ci_type c = Device \<and> ci_revokedAt c = None)
      in (s\<lparr>st_credentials := update_where P (\<lambda>c. c\<lparr>ci_allowedBackends := allowed\<rparr>) (st_credentials s)\<rparr>,
          list_ex P (st_credentials s)))"

definition revokeCredential :: "string \<Rightarrow> int \<Rightarrow> storage \<Rightarrow> storage \<times> string list" where
  "revokeCredential i now s =
     (let P = (\<lambda>c. ci_id c = i \<and> ci_revokedAt c = None);
          s1 = s\<lparr>st_credentials := update_where P (\<lambda>c. c\<lparr>ci_revokedAt := Some now\<rparr>) (st_credentials s)\<rparr>
      in if \<not> list_ex P (st_credentials s) then (s1, [])
         else
           (let Q = (\<lambda>c. ci_parentId c = Some i \<and> ci_revokedAt c = None);
                children = map ci_id (filter Q (st_credentials s1))
            in (s1\<lparr>st_credentials := update_where Q (\<lambda>c. c\<lparr>ci_revokedAt := Some now\<rparr>) (st_credentials s1)\<rparr>,
                i # children)))"

fun revokeCredentials :: "string list \<Rightarrow> int \<Rightarrow> storage \<Rightarrow> storage \<times> string list" where
  "revokeCredentials [] now s = (s, [])"
| "revokeCredentials (i # is) now s =
     (let (s1, r1) = revokeCredential i now s;
          (s2, r2) = revokeCredentials is now s1
      in (s2, r1 @ r2))"

definition findAccessCredential :: "string \<Rightarrow> storage \<Rightarrow> credential option" where
  "findAccessCredential parentId s =
     find (\<lambda>c. ci_type c = BackendAccess \<and> ci_parentId c = Some parentId) (st_credentials s)"

definition accessCredentialName :: "credential_info \<Rightarrow> string" where
  "accessCredentialName parent =
     ''access:'' @ (if ci_name parent = [] then ci_id parent else ci_name parent)"

definition exchangeAccessCredential ::
  "(string \<Rightarrow> string) \<Rightarrow> credential_info \<Rightarrow> ttl \<Rightarrow> draws \<Rightarrow> int \<Rightarrow> storage
     \<Rightarrow> storage \<times> (sql_error + credential_info \<times> string \<times> bool)" where
  "exchangeAccessCredential sha parent t rn now s =
     (case findAccessCredential (ci_id parent) s of
        None \<Rightarrow>
          (case createCredential sha
                  \<lparr>in_type = BackendAccess, in_namespace = ci_namespace parent,
                   in_name = Some (accessCredentialName parent), in_ttl = t,
                   in_parentId = Some (ci_id parent), in_backendId = ci_backendId parent,
                   in_allowedBackends = None\<rparr> rn now s of
             (s1, Inl e) \<Rightarrow> (s1, Inl e)
           | (s1, Inr (c, token)) \<Rightarrow> (s1, Inr (c, token, False)))
      | Some existing \<Rightarrow>
          (let token = CREDENTIAL_TOKEN_PREFIXES BackendAccess @ rn_token rn;
               lifetime = ttl_for BackendAccess t
           in if \<exists>r\<in>set (st_credentials s). ci_id r \<noteq> ci_id existing \<and> cr_tokenHash r = sha token
              then (s, Inl (UniqueViolation ''credentials.token_hash''))
              else
                (let s1 = s\<lparr>st_credentials := update_where (\<lambda>c. ci_id c = ci_id existing)
                       (\<lambda>c. c\<lparr>cr_tokenHash := sha token, ci_namespace := ci_namespace parent,
                              ci_name := accessCredentialName parent, ci_createdAt := now,
                              ci_expiresAt := expiry now lifetime, ci_revokedAt := None,
                              ci_backendId := ci_backendId parent\<rparr>) (st_credentials s)\<rparr>
                 in case getCredential (ci_id existing) s1 of
                      None \<Rightarrow> (s1, Inl ReadOfUndefined)
                    | Some c \<Rightarrow> (s1, Inr (c, token, True)))))"

definition purgeRevokedCredentials :: "string list option \<Rightarrow> storage \<Rightarrow> storage \<times> string list" where
  "purgeRevokedCredentials ids s =
     (let P = (\<lambda>c. ci_revokedAt c \<noteq> None
                  \<and> (case ids of None \<Rightarrow> True | Some wanted \<Rightarrow> ci_id c \<in> set wanted))
      in (s\<lparr>st_credentials := delete_where P (st_credentials s)\<rparr>,
          map ci_id (filter P (st_credentials s))))"

section \<open>The migration that collapses access rows\<close>

text \<open>
  \<open>ROW_NUMBER() OVER (PARTITION BY parent_id ORDER BY (revoked_at IS NULL) DESC, created_at DESC, id)\<close>
  is 1 for the row that no other row of its group precedes.
\<close>

definition access_row :: "credential \<Rightarrow> bool" where
  "access_row c = (ci_type c = BackendAccess \<and> ci_parentId c \<noteq> None)"

definition ranks_before :: "credential \<Rightarrow> credential \<Rightarrow> bool" where
  "ranks_before c d =
     (let a = (ci_revokedAt c = None); b = (ci_revokedAt d = None) in
      if a \<noteq> b then a
      else if ci_createdAt c \<noteq> ci_createdAt d then ci_createdAt c > ci_createdAt d
      else ci_id c < ci_id d)"

definition collapse_access_rows :: "credential list \<Rightarrow> credential list" where
  "collapse_access_rows rows =
     delete_where (\<lambda>c. access_row c
        \<and> (\<exists>d\<in>set rows. access_row d \<and> ci_parentId d = ci_parentId c \<and> ranks_before d c)) rows"

section \<open>Well-formed tables\<close>

definition access_unique :: "credential list \<Rightarrow> bool" where
  "access_unique rows = distinct (map ci_parentId (filter access_row rows))"

definition st_ok :: "storage \<Rightarrow> bool" where
  "st_ok s \<longleftrightarrow>
     distinct (map ci_id (st_credentials s))
     \<and> distinct (map cr_tokenHash (st_credentials s))
     \<and> access_unique (st_credentials s)
     \<and> distinct (map bi_key (st_identities s))
     \<and> distinct (map bi_backendId (st_identities s))"

section \<open>Lemmas on statements\<close>

lemma update_where_map:
  "(\<And>r. g (f r) = g r) \<Longrightarrow> map g (update_where P f rows) = map g rows"
  by (induction rows) (auto simp: update_where_def)

lemma find_update_where:
  "(\<And>r. key (f r) = key r) \<Longrightarrow>
     find (\<lambda>r. key r = k) (update_where P f rows) =
       map_option (\<lambda>r. if P r then f r else r) (find (\<lambda>r. key r = k) rows)"
  by (induction rows) (auto simp: update_where_def)

lemma find_delete_where:
  "distinct (map key rows) \<Longrightarrow>
     find (\<lambda>r. key r = k) (delete_where P rows) =
       (case find (\<lambda>r. key r = k) rows of None \<Rightarrow> None | Some r \<Rightarrow> if P r then None else Some r)"
proof (induction rows)
  case (Cons r rows)
  have absent: "find (\<lambda>x. key x = key r) rows = None"
    using Cons.prems by (auto simp: find_None_iff image_iff)
  show ?case
    using Cons absent by (cases "key r = k") (auto simp: delete_where_def)
qed (simp add: delete_where_def)

lemma find_append:
  "find P (xs @ ys) = (case find P xs of None \<Rightarrow> find P ys | Some x \<Rightarrow> Some x)"
  by (induction xs) auto

lemma find_SomeD: "find P xs = Some x \<Longrightarrow> x \<in> set xs \<and> P x"
  by (induction xs) (auto split: if_splits)

lemma find_key_unique:
  "distinct (map key rows) \<Longrightarrow> r \<in> set rows \<Longrightarrow> find (\<lambda>x. key x = key r) rows = Some r"
  by (induction rows) (auto simp: image_iff)

lemma find_key_iff:
  "distinct (map key rows) \<Longrightarrow> find (\<lambda>x. key x = k) rows = Some r \<longleftrightarrow> r \<in> set rows \<and> key r = k"
  by (auto dest: find_SomeD intro: find_key_unique)

lemma distinct_map_filter_update:
  assumes "\<And>r. g (f r) = g r" and "\<And>r. Q (f r) = Q r"
  shows "map g (filter Q (update_where P f rows)) = map g (filter Q rows)"
  by (induction rows) (auto simp: update_where_def assms)

lemma set_update_where: "set (update_where P f rows) = (\<lambda>r. if P r then f r else r) ` set rows"
  by (simp add: update_where_def)

lemma set_delete_where: "set (delete_where P rows) = {r \<in> set rows. \<not> P r}"
  by (auto simp: delete_where_def)

lemma distinct_map_delete: "distinct (map g rows) \<Longrightarrow> distinct (map g (delete_where P rows))"
  by (simp add: delete_where_def distinct_map_filter)

lemma set_order [simp]: "set (order_by_created_desc f rows) = set rows"
  by (simp add: order_by_created_desc_def)

lemma distinct_order: "distinct (map g rows) \<Longrightarrow> distinct (map g (order_by_created_desc f rows))"
  by (simp add: order_by_created_desc_def distinct_map distinct_sort)

section \<open>Every operation keeps the tables well-formed\<close>

lemma st_ok_update:
  assumes "st_ok s" and "\<And>r. ci_id (f r) = ci_id r" and "\<And>r. cr_tokenHash (f r) = cr_tokenHash r"
    and "\<And>r. ci_parentId (f r) = ci_parentId r" and "\<And>r. ci_type (f r) = ci_type r"
  shows "st_ok (s\<lparr>st_credentials := update_where P f (st_credentials s)\<rparr>)"
proof -
  have "map ci_parentId (filter access_row (update_where P f (st_credentials s)))
      = map ci_parentId (filter access_row (st_credentials s))"
    using assms(4,5) by (intro distinct_map_filter_update) (simp_all add: access_row_def)
  with assms show ?thesis by (simp add: st_ok_def access_unique_def update_where_map)
qed

lemma st_ok_update_identities:
  assumes "st_ok s" and "\<And>r. bi_key (f r) = bi_key r" and "\<And>r. bi_backendId (f r) = bi_backendId r"
  shows "st_ok (s\<lparr>st_identities := update_where P f (st_identities s)\<rparr>)"
  using assms by (simp add: st_ok_def update_where_map)

lemma st_ok_delete:
  assumes "st_ok s"
  shows "st_ok (s\<lparr>st_credentials := delete_where P (st_credentials s)\<rparr>)"
proof -
  have "filter access_row (delete_where P rows) = delete_where P (filter access_row rows)" for rows
    by (simp add: delete_where_def conj_commute)
  with assms show ?thesis by (simp add: st_ok_def access_unique_def distinct_map_delete)
qed

lemma st_ok_insert_credential:
  assumes "st_ok s" shows "st_ok (fst (insert_credential c s))"
  using assms
  by (auto simp: insert_credential_def st_ok_def access_unique_def access_row_def)

lemma st_ok_insert_identity:
  assumes "st_ok s" shows "st_ok (fst (insert_identity i s))"
  using assms by (auto simp: insert_identity_def st_ok_def)

lemma st_ok_insertD:
  "insert_identity i s = (s', r) \<Longrightarrow> st_ok s \<Longrightarrow> st_ok s'"
  "insert_credential c s = (s', r) \<Longrightarrow> st_ok s \<Longrightarrow> st_ok s'"
  using st_ok_insert_identity [of s i] st_ok_insert_credential [of s c] by simp_all

lemma distinct_update_key:
  assumes "distinct (map g rows)" and "distinct (map key rows)"
    and "\<forall>r\<in>set rows. key r = k \<or> g r \<noteq> h" and "\<And>r. g (f r) = h"
  shows "distinct (map g (update_where (\<lambda>r. key r = k) f rows))"
  using assms by (induction rows) (auto simp: update_where_def image_iff)

lemma insert_credential_fst:
  "fst (insert_credential c s) = s \<or>
   fst (insert_credential c s) = s\<lparr>st_credentials := st_credentials s @ [c]\<rparr>"
  by (simp add: insert_credential_def)

lemma st_ok_createBound: "st_ok s \<Longrightarrow> st_ok (fst (createBoundBackendIdentity ns n u now s))"
  by (auto simp: createBoundBackendIdentity_def split: prod.splits sum.splits dest: st_ok_insertD)

lemma createBound_insert:
  "createBoundBackendIdentity ns n u now s = (s1, r) \<Longrightarrow> \<exists>x. s1 = fst (insert_identity x s)"
  by (auto simp: createBoundBackendIdentity_def split: prod.splits sum.splits)
     (metis fst_conv)+

lemma credential_backend_insert:
  "credential_backend inp rn now s = (s1, r) \<Longrightarrow> s1 = s \<or> (\<exists>x. s1 = fst (insert_identity x s))"
  by (auto simp: credential_backend_def split: if_splits option.splits prod.splits sum.splits
      dest: createBound_insert)

lemma createCredential_fst:
  "credential_backend inp rn now s = (s1, r) \<Longrightarrow>
     fst (createCredential sha inp rn now s) =
       (case r of Inl e \<Rightarrow> s1 | Inr b \<Rightarrow> fst (insert_credential (new_credential sha inp rn now b) s1))"
  by (simp add: createCredential_def Let_def split: prod.splits sum.splits)

lemma new_credential_sel [simp]:
  "ci_id (new_credential sha inp rn now b) = rn_id rn"
  "ci_type (new_credential sha inp rn now b) = in_type inp"
  "ci_namespace (new_credential sha inp rn now b) = in_namespace inp"
  "ci_backendId (new_credential sha inp rn now b) = b"
  "ci_parentId (new_credential sha inp rn now b) = in_parentId inp"
  "ci_revokedAt (new_credential sha inp rn now b) = None"
  "ci_expiresAt (new_credential sha inp rn now b) = expiry now (ttl_for (in_type inp) (in_ttl inp))"
  "ci_allowedBackends (new_credential sha inp rn now b) =
     (if in_type inp = Device then in_allowedBackends inp else None)"
  "cr_tokenHash (new_credential sha inp rn now b) =
     sha (CREDENTIAL_TOKEN_PREFIXES (in_type inp) @ rn_token rn)"
  by (simp_all add: new_credential_def)

lemma st_ok_createCredential:
  assumes "st_ok s" shows "st_ok (fst (createCredential sha inp rn now s))"
proof -
  obtain s1 r where b: "credential_backend inp rn now s = (s1, r)" by fastforce
  then have "st_ok s1"
    using assms credential_backend_insert [OF b] by (auto simp: st_ok_insert_identity)
  then show ?thesis
    by (auto simp: createCredential_fst [OF b] st_ok_insert_credential split: sum.split)
qed

lemma st_ok_exchange:
  assumes "st_ok s" shows "st_ok (fst (exchangeAccessCredential sha parent t rn now s))"
proof (cases "findAccessCredential (ci_id parent) s")
  case None
  show ?thesis
    using st_ok_createCredential [OF assms]
    by (auto simp: exchangeAccessCredential_def None split: prod.splits sum.splits)
       (metis fst_conv)+
next
  case (Some e)
  let ?h = "sha (CREDENTIAL_TOKEN_PREFIXES BackendAccess @ rn_token rn)"
  let ?f = "\<lambda>c. c\<lparr>cr_tokenHash := ?h, ci_namespace := ci_namespace parent,
       ci_name := accessCredentialName parent, ci_createdAt := now,
       ci_expiresAt := expiry now (ttl_for BackendAccess t), ci_revokedAt := None,
       ci_backendId := ci_backendId parent\<rparr>"
  let ?rows = "st_credentials s"
  let ?s1 = "s\<lparr>st_credentials := update_where (\<lambda>c. ci_id c = ci_id e) ?f ?rows\<rparr>"
  have "st_ok ?s1" if free: "\<forall>r\<in>set ?rows. ci_id r = ci_id e \<or> cr_tokenHash r \<noteq> ?h"
  proof -
    have acc: "map ci_parentId (filter access_row (update_where (\<lambda>c. ci_id c = ci_id e) ?f ?rows))
             = map ci_parentId (filter access_row ?rows)"
      by (intro distinct_map_filter_update) (simp_all add: access_row_def)
    have "distinct (map cr_tokenHash (update_where (\<lambda>c. ci_id c = ci_id e) ?f ?rows))"
      using assms free by (intro distinct_update_key) (simp_all add: st_ok_def)
    with assms acc show ?thesis
      by (simp add: st_ok_def access_unique_def update_where_map)
  qed
  then show ?thesis
    using assms by (auto simp: exchangeAccessCredential_def Some Let_def split: option.splits)
qed

lemma st_ok_findValid: "st_ok s \<Longrightarrow> st_ok (fst (findValidCredential sha tok now s))"
  by (auto simp: findValidCredential_def intro!: st_ok_update split: option.splits)

lemma st_ok_revoke: "st_ok s \<Longrightarrow> st_ok (fst (revokeCredential i now s))"
  using st_ok_update [of s "\<lambda>c. c\<lparr>ci_revokedAt := Some now\<rparr>"
      "\<lambda>c. ci_id c = i \<and> ci_revokedAt c = None"]
  by (auto simp: revokeCredential_def Let_def
      dest: st_ok_update [where f = "\<lambda>c. c\<lparr>ci_revokedAt := Some now\<rparr>"
        and P = "\<lambda>c. ci_parentId c = Some i \<and> ci_revokedAt c = None"])

lemma revokeCredentials_fst:
  "fst (revokeCredentials (j # js) now s) = fst (revokeCredentials js now (fst (revokeCredential j now s)))"
  by (simp add: Let_def case_prod_beta)

lemma st_ok_revokes: "st_ok s \<Longrightarrow> st_ok (fst (revokeCredentials js now s))"
  by (induction js arbitrary: s)
     (simp_all only: revokeCredentials_fst st_ok_revoke revokeCredentials.simps(1) fst_conv)

lemma st_ok_purge: "st_ok s \<Longrightarrow> st_ok (fst (purgeRevokedCredentials ids s))"
  by (simp add: purgeRevokedCredentials_def Let_def st_ok_delete)

lemma st_ok_bind: "st_ok s \<Longrightarrow> st_ok (fst (bindBackendCredential i b s))"
  using st_ok_update [of s "\<lambda>c. c\<lparr>ci_backendId := Some b\<rparr>"
      "\<lambda>c. ci_id c = i \<and> ci_type c = Backend \<and> ci_revokedAt c = None \<and> ci_backendId c = None"]
  by (auto simp: bindBackendCredential_def Let_def
      dest: st_ok_update [where f = "\<lambda>c. c\<lparr>ci_backendId := Some b\<rparr>"
        and P = "\<lambda>c. ci_parentId c = Some i \<and> ci_revokedAt c = None"])

lemma st_ok_setAllowed: "st_ok s \<Longrightarrow> st_ok (fst (setAllowedBackends i a s))"
  by (auto simp: setAllowedBackends_def Let_def intro!: st_ok_update)

lemma st_ok_touch: "st_ok s \<Longrightarrow> st_ok (touchBackendIdentity b c n now s)"
  by (auto simp: touchBackendIdentity_def intro!: st_ok_update_identities)

lemma st_ok_deleteIdentity: "st_ok s \<Longrightarrow> st_ok (fst (deleteBackendIdentity b s))"
  by (simp add: deleteBackendIdentity_def st_ok_def distinct_map_delete)

lemma st_ok_epoch: "st_ok s \<Longrightarrow> st_ok (fst (allocateEpoch s))"
  by (simp add: allocateEpoch_def st_ok_def Let_def)

lemma st_ok_getOrCreate: "st_ok s \<Longrightarrow> st_ok (fst (getOrCreateBackendIdV4 ns i e n u now s))"
  by (auto simp: getOrCreateBackendIdV4_def Let_def st_ok_update_identities
      split: option.splits prod.splits sum.splits dest: st_ok_insertD)

lemmas st_ok_intros =
  st_ok_createCredential st_ok_exchange st_ok_findValid st_ok_revoke st_ok_revokes st_ok_purge
  st_ok_bind st_ok_setAllowed st_ok_touch st_ok_deleteIdentity st_ok_epoch st_ok_getOrCreate

section \<open>Rows after an operation\<close>

lemma row_update:
  "(\<And>r. ci_id (f r) = ci_id r) \<Longrightarrow>
     getCredentialById i (s\<lparr>st_credentials := update_where P f rows\<rparr>) =
       map_option (\<lambda>r. if P r then f r else r) (getCredentialById i (s\<lparr>st_credentials := rows\<rparr>))"
  by (simp add: getCredentialById_def find_update_where)

lemma row_self [simp]: "getCredentialById i (s\<lparr>st_credentials := st_credentials s\<rparr>) = getCredentialById i s"
  by simp

lemma row_delete:
  "st_ok s \<Longrightarrow>
     getCredentialById i (s\<lparr>st_credentials := delete_where P (st_credentials s)\<rparr>) =
       (case getCredentialById i s of None \<Rightarrow> None | Some r \<Rightarrow> if P r then None else Some r)"
  by (simp add: getCredentialById_def find_delete_where st_ok_def)

lemma row_id: "getCredentialById i s = Some r \<Longrightarrow> ci_id r = i \<and> r \<in> set (st_credentials s)"
  by (auto simp: getCredentialById_def dest: find_SomeD)

lemma row_of: "st_ok s \<Longrightarrow> r \<in> set (st_credentials s) \<Longrightarrow> getCredentialById (ci_id r) s = Some r"
  by (simp add: getCredentialById_def st_ok_def find_key_unique)

lemma row_iff:
  "st_ok s \<Longrightarrow> getCredentialById i s = Some r \<longleftrightarrow> r \<in> set (st_credentials s) \<and> ci_id r = i"
  by (auto dest: row_id row_of)

lemma row_identities [simp]:
  "getCredentialById i (s\<lparr>st_identities := x\<rparr>) = getCredentialById i s"
  "getCredentialById i (s\<lparr>st_maxEpoch := e\<rparr>) = getCredentialById i s"
  by (simp_all add: getCredentialById_def)

lemma row_insert_credential:
  "i \<noteq> ci_id c \<Longrightarrow> getCredentialById i (fst (insert_credential c s)) = getCredentialById i s"
  by (auto simp: insert_credential_def getCredentialById_def find_append split: option.splits)

lemma row_insertD:
  "insert_credential c s = (s', r) \<Longrightarrow> i \<noteq> ci_id c \<Longrightarrow> getCredentialById i s' = getCredentialById i s"
  using row_insert_credential [of i c s] by simp

lemma row_insert_identity:
  "getCredentialById i (fst (insert_identity x s)) = getCredentialById i s"
  by (simp add: insert_identity_def)

lemma row_insert_identityD:
  "insert_identity x s = (s', r) \<Longrightarrow> getCredentialById i s' = getCredentialById i s"
  using row_insert_identity [of i x s] by simp

lemma row_createCredential:
  assumes "i \<noteq> rn_id rn"
  shows "getCredentialById i (fst (createCredential sha inp rn now s)) = getCredentialById i s"
proof -
  obtain s1 r where b: "credential_backend inp rn now s = (s1, r)" by fastforce
  then have "getCredentialById i s1 = getCredentialById i s"
    using credential_backend_insert [OF b] by (auto simp: row_insert_identity)
  with assms show ?thesis
    by (auto simp: createCredential_fst [OF b] row_insert_credential split: sum.split)
qed

text \<open>Resolving a token only writes \<open>last_used_at\<close>.\<close>

definition unused :: "credential \<Rightarrow> credential" where
  "unused r = r\<lparr>ci_lastUsedAt := None\<rparr>"

lemma findValid_fst:
  "fst (findValidCredential sha tok now s) = s \<or>
   (\<exists>k. fst (findValidCredential sha tok now s) =
      s\<lparr>st_credentials := update_where (\<lambda>c. ci_id c = k) (\<lambda>c. c\<lparr>ci_lastUsedAt := Some now\<rparr>) (st_credentials s)\<rparr>)"
  by (auto simp: findValidCredential_def split: option.split)

lemma row_findValid:
  "map_option unused (getCredentialById i (fst (findValidCredential sha tok now s)))
     = map_option unused (getCredentialById i s)"
  using findValid_fst [of sha tok now s]
  by (cases "getCredentialById i s") (auto simp: row_update unused_def)

lemma row_revoke:
  assumes "st_ok s"
  shows "getCredentialById j (fst (revokeCredential i now s)) =
    (if \<exists>r. getCredentialById i s = Some r \<and> ci_revokedAt r = None
     then map_option (\<lambda>r. if ci_revokedAt r = None \<and> (ci_id r = i \<or> ci_parentId r = Some i)
                          then r\<lparr>ci_revokedAt := Some now\<rparr> else r) (getCredentialById j s)
     else getCredentialById j s)"
proof -
  have ex: "list_ex (\<lambda>c. ci_id c = i \<and> ci_revokedAt c = None) (st_credentials s) \<longleftrightarrow>
      (\<exists>r. getCredentialById i s = Some r \<and> ci_revokedAt r = None)"
    using assms by (auto simp: list_ex_iff row_iff)
  have same: "update_where P f (st_credentials s) = st_credentials s"
    if "\<not> list_ex P (st_credentials s)" for P f
    using that by (auto simp: update_where_def list_ex_iff intro!: map_idI)
  show ?thesis
    by (cases "getCredentialById j s")
       (auto simp: revokeCredential_def Let_def row_update ex [symmetric] same)
qed

lemma revoked_ids:
  assumes "st_ok s"
  shows "set (snd (revokeCredential i now s)) =
    {j. \<exists>r. getCredentialById j s = Some r \<and> ci_revokedAt r = None \<and> (j = i \<or> ci_parentId r = Some i)
          \<and> (\<exists>p. getCredentialById i s = Some p \<and> ci_revokedAt p = None)}"
proof -
  have ex: "list_ex (\<lambda>c. ci_id c = i \<and> ci_revokedAt c = None) (st_credentials s) \<longleftrightarrow>
      (\<exists>r. getCredentialById i s = Some r \<and> ci_revokedAt r = None)"
    using assms by (auto simp: list_ex_iff row_iff)
  show ?thesis
    using assms
    by (auto simp: revokeCredential_def Let_def ex row_iff set_update_where)
qed

text \<open>What a token resolves to: an unrevoked, unexpired row whose parent, if any, is alive too.\<close>

definition row_alive :: "int \<Rightarrow> credential option \<Rightarrow> bool" where
  "row_alive now x = (case x of None \<Rightarrow> False | Some r \<Rightarrow> ci_revokedAt r = None \<and> \<not> past now (ci_expiresAt r))"

lemma findValid_Some:
  assumes "st_ok s"
  shows "snd (findValidCredential sha tok now s) = Some c \<longleftrightarrow>
    (\<exists>r. r \<in> set (st_credentials s) \<and> cr_tokenHash r = sha tok \<and> c = credential_info.truncate r
       \<and> ci_revokedAt r = None \<and> \<not> past now (ci_expiresAt r)
       \<and> (\<forall>p. ci_parentId r = Some p \<longrightarrow> row_alive now (getCredentialById p s)))"
proof -
  have h: "getCredentialByHash (sha tok) s = Some r \<longleftrightarrow>
      r \<in> set (st_credentials s) \<and> cr_tokenHash r = sha tok" for r
    using assms by (simp add: getCredentialByHash_def find_key_iff st_ok_def)
  have n: "getCredentialByHash (sha tok) s = None \<longleftrightarrow>
      (\<forall>r\<in>set (st_credentials s). cr_tokenHash r \<noteq> sha tok)"
    by (auto simp: getCredentialByHash_def find_None_iff)
  have p: "parent_refuses now s q \<longleftrightarrow> \<not> (\<forall>p. q = Some p \<longrightarrow> row_alive now (getCredentialById p s))" for q
    by (auto simp: parent_refuses_def row_alive_def split: option.splits)
  show ?thesis
  proof (cases "getCredentialByHash (sha tok) s")
    case None
    then show ?thesis using n by (auto simp: findValidCredential_def)
  next
    case (Some r)
    then have one: "r' \<in> set (st_credentials s) \<and> cr_tokenHash r' = sha tok \<Longrightarrow> r' = r" for r'
      using h [of r'] by simp
    have r: "r \<in> set (st_credentials s)" "cr_tokenHash r = sha tok"
      using h [of r] Some by simp_all
    have "snd (findValidCredential sha tok now s) = Some c \<longleftrightarrow>
        c = credential_info.truncate r \<and> ci_revokedAt r = None \<and> \<not> past now (ci_expiresAt r)
        \<and> \<not> parent_refuses now s (ci_parentId r)"
      by (auto simp: findValidCredential_def Some)
    then show ?thesis
      unfolding p using r one by blast
  qed
qed

section \<open>The authority the server relies on\<close>

text \<open>
  The gateway authenticates every request by resolving its token, and cuts a credential off by
  revoking it.  The laws below are all it relies on; what follows from them (a revocation ends a
  credential and everything exchanged from it, at once and for good) is proved from the laws.
\<close>

locale credential_authority =
  fixes ok :: "'s \<Rightarrow> bool"
    and row :: "string \<Rightarrow> 's \<Rightarrow> credential option"
    and resolve :: "string \<Rightarrow> int \<Rightarrow> 's \<Rightarrow> 's \<times> credential_info option"
    and revoke :: "string \<Rightarrow> int \<Rightarrow> 's \<Rightarrow> 's \<times> string list"
  assumes ok_resolve: "ok s \<Longrightarrow> ok (fst (resolve tok now s))"
    and ok_revoke: "ok s \<Longrightarrow> ok (fst (revoke i now s))"
    and row_key: "ok s \<Longrightarrow> row i s = Some r \<Longrightarrow> ci_id r = i"
    and resolve_alive: "ok s \<Longrightarrow> snd (resolve tok now s) = Some c \<Longrightarrow>
          \<exists>r. row (ci_id c) s = Some r \<and> ci_parentId c = ci_parentId r \<and> row_alive now (Some r)
            \<and> (\<forall>p. ci_parentId r = Some p \<longrightarrow> row_alive now (row p s))"
    and resolve_rows: "ok s \<Longrightarrow>
          map_option unused (row i (fst (resolve tok now s))) = map_option unused (row i s)"
    and revoke_rows: "ok s \<Longrightarrow> row j (fst (revoke i now s)) =
          (if \<exists>r. row i s = Some r \<and> ci_revokedAt r = None
           then map_option (\<lambda>r. if ci_revokedAt r = None \<and> (ci_id r = i \<or> ci_parentId r = Some i)
                                then r\<lparr>ci_revokedAt := Some now\<rparr> else r) (row j s)
           else row j s)"
begin

definition cut_off :: "string \<Rightarrow> 's \<Rightarrow> bool" where
  "cut_off i s \<longleftrightarrow> (\<exists>r. row i s = Some r \<and> ci_revokedAt r \<noteq> None)"

lemma cut_off_resolve: "ok s \<Longrightarrow> cut_off i s \<Longrightarrow> cut_off i (fst (resolve tok now s))"
  using resolve_rows [of s i tok now]
  by (cases "row i s"; cases "row i (fst (resolve tok now s))")
     (auto simp: cut_off_def unused_def dest!: arg_cong [where f = ci_revokedAt])

lemma cut_off_revoke: "ok s \<Longrightarrow> cut_off i s \<Longrightarrow> cut_off i (fst (revoke j now s))"
proof -
  assume ok: "ok s" and "cut_off i s"
  then obtain r where r: "row i s = Some r" "ci_revokedAt r \<noteq> None" by (auto simp: cut_off_def)
  then have "row i (fst (revoke j now s)) = Some r" by (simp add: revoke_rows [OF ok])
  with r show ?thesis by (simp add: cut_off_def)
qed

lemma revoke_cuts_off: "ok s \<Longrightarrow> row i s \<noteq> None \<Longrightarrow> cut_off i (fst (revoke i now s))"
proof -
  assume ok: "ok s" and "row i s \<noteq> None"
  then obtain r where "row i s = Some r" by auto
  then show ?thesis
    by (cases "ci_revokedAt r") (simp_all add: cut_off_def revoke_rows [OF ok] row_key [OF ok])
qed

lemma cut_off_refused:
  "ok s \<Longrightarrow> cut_off i s \<Longrightarrow> snd (resolve tok now s) = Some c \<Longrightarrow>
     ci_id c \<noteq> i \<and> ci_parentId c \<noteq> Some i"
proof -
  assume s: "ok s" "cut_off i s" "snd (resolve tok now s) = Some c"
  from resolve_alive [OF s(1,3)] obtain r where
    r: "row (ci_id c) s = Some r" "ci_parentId c = ci_parentId r" "row_alive now (Some r)"
    and p: "\<And>p. ci_parentId r = Some p \<Longrightarrow> row_alive now (row p s)" by blast
  have "\<not> row_alive now (row i s)" using s(2) by (auto simp: cut_off_def row_alive_def)
  with r p [of i] show ?thesis by auto
qed

end

interpretation sql: credential_authority
  st_ok getCredentialById "findValidCredential sha" revokeCredential for sha
proof (unfold_locales, goal_cases)
  case (4 s tok now c)
  then obtain r where "r \<in> set (st_credentials s)" "c = credential_info.truncate r"
    "row_alive now (Some r)" "\<forall>p. ci_parentId r = Some p \<longrightarrow> row_alive now (getCredentialById p s)"
    by (auto simp: findValid_Some row_alive_def)
  with 4(1) show ?case
    by (auto simp: row_iff credential_info.truncate_def)
qed (auto simp: st_ok_findValid st_ok_revoke row_findValid row_revoke dest: row_id)

section \<open>Any sequence of operations\<close>

datatype storage_op =
    SCreate create_input draws int
  | SFind string int
  | SBind string string
  | SScope string "string list option"
  | SRevoke string int
  | SRevokes "string list" int
  | SExchange credential_info ttl draws int
  | SPurge "string list option"
  | SIdentify string string string "string option" string int
  | STouch string "string option" "string option" int
  | SForget string
  | SEpoch

fun st_step :: "(string \<Rightarrow> string) \<Rightarrow> storage_op \<Rightarrow> storage \<Rightarrow> storage" where
  "st_step sha (SCreate inp rn now) s = fst (createCredential sha inp rn now s)"
| "st_step sha (SFind tok now) s = fst (findValidCredential sha tok now s)"
| "st_step sha (SBind i b) s = fst (bindBackendCredential i b s)"
| "st_step sha (SScope i a) s = fst (setAllowedBackends i a s)"
| "st_step sha (SRevoke i now) s = fst (revokeCredential i now s)"
| "st_step sha (SRevokes is now) s = fst (revokeCredentials is now s)"
| "st_step sha (SExchange p t rn now) s = fst (exchangeAccessCredential sha p t rn now s)"
| "st_step sha (SPurge ids) s = fst (purgeRevokedCredentials ids s)"
| "st_step sha (SIdentify ns i e n u now) s = fst (getOrCreateBackendIdV4 ns i e n u now s)"
| "st_step sha (STouch b c n now) s = touchBackendIdentity b c n now s"
| "st_step sha (SForget b) s = fst (deleteBackendIdentity b s)"
| "st_step sha SEpoch s = fst (allocateEpoch s)"

definition st_run :: "(string \<Rightarrow> string) \<Rightarrow> storage_op list \<Rightarrow> storage \<Rightarrow> storage" where
  "st_run sha ops s = fold (st_step sha) ops s"

definition empty_storage :: storage where
  "empty_storage = \<lparr>st_credentials = [], st_identities = [], st_maxEpoch = 0\<rparr>"

lemma st_ok_step: "st_ok s \<Longrightarrow> st_ok (st_step sha x s)"
  by (cases x) (simp_all add: st_ok_intros)

lemma st_ok_run: "st_ok s \<Longrightarrow> st_ok (st_run sha ops s)"
  unfolding st_run_def by (induction ops arbitrary: s) (auto simp: st_ok_step)

lemma st_ok_empty: "st_ok empty_storage"
  by (simp add: st_ok_def empty_storage_def access_unique_def)

end
