(* ===== verification/Gw_Credentials.thy ===== *)
theory Gw_Credentials
  imports Gw_Storage
begin

text \<open>
  What the storage operations guarantee together: revocation is final, an exchange rotates the one
  access row of an enrollment, a purge is invisible to authentication, identity keys are injective
  on fields without the separator, a legacy identity keeps its backend, epochs only grow, and the
  migration leaves one access row per enrollment.
\<close>

section \<open>Revocation\<close>

text \<open>
  A credential that authentication can never reach again: its row is gone, or revoked and not an
  access row (an access row alone is renewed by the next exchange, as ADR-0011 wants).
\<close>

definition gone :: "string \<Rightarrow> storage \<Rightarrow> bool" where
  "gone i s = (case getCredentialById i s of
                 None \<Rightarrow> True
               | Some r \<Rightarrow> ci_revokedAt r \<noteq> None \<and> ci_type r \<noteq> BackendAccess)"

fun draws_id :: "storage_op \<Rightarrow> string option" where
  "draws_id (SCreate _ rn _) = Some (rn_id rn)"
| "draws_id (SExchange _ _ rn _) = Some (rn_id rn)"
| "draws_id _ = None"

lemma gone_cong:
  assumes "map_option (\<lambda>r. (ci_revokedAt r, ci_type r)) (getCredentialById i s')
         = map_option (\<lambda>r. (ci_revokedAt r, ci_type r)) (getCredentialById i s)"
  shows "gone i s' = gone i s"
  using assms
  by (cases "getCredentialById i s"; cases "getCredentialById i s'") (auto simp: gone_def)

lemma gone_update:
  assumes "gone i s" and "\<And>r. ci_id (f r) = ci_id r" and "\<And>r. ci_type (f r) = ci_type r"
    and "\<And>r. ci_revokedAt r \<noteq> None \<Longrightarrow> ci_revokedAt (f r) \<noteq> None"
  shows "gone i (s\<lparr>st_credentials := update_where P f (st_credentials s)\<rparr>)"
  using assms by (cases "getCredentialById i s") (auto simp: gone_def row_update)

lemma gone_update_twice:
  assumes "gone i s" and "\<And>r. ci_id (f r) = ci_id r" and "\<And>r. ci_type (f r) = ci_type r"
    and "\<And>r. ci_revokedAt r \<noteq> None \<Longrightarrow> ci_revokedAt (f r) \<noteq> None"
  shows "gone i (s\<lparr>st_credentials := update_where Q f (update_where P f (st_credentials s))\<rparr>)"
  using gone_update [of i "s\<lparr>st_credentials := update_where P f (st_credentials s)\<rparr>" f Q]
    gone_update [of i s f P] assms by simp

lemma gone_identities [simp]:
  "gone i (s\<lparr>st_identities := x\<rparr>) = gone i s" "gone i (s\<lparr>st_maxEpoch := e\<rparr>) = gone i s"
  by (simp_all add: gone_def)

lemma gone_findValid: "gone i s \<Longrightarrow> gone i (fst (findValidCredential sha tok now s))"
  using findValid_fst [of sha tok now s] by (auto intro!: gone_update)

lemma gone_bind: "gone i s \<Longrightarrow> gone i (fst (bindBackendCredential j b s))"
  by (auto simp: bindBackendCredential_def Let_def intro!: gone_update gone_update_twice)

lemma gone_revoke: "gone i s \<Longrightarrow> gone i (fst (revokeCredential j now s))"
  by (auto simp: revokeCredential_def Let_def intro!: gone_update gone_update_twice)



lemma gone_revokes: "gone i s \<Longrightarrow> gone i (fst (revokeCredentials js now s))"
  by (induction js arbitrary: s)
     (simp_all only: revokeCredentials_fst gone_revoke revokeCredentials.simps(1) fst_conv)

lemma gone_exchange:
  assumes "st_ok s" and "gone i s" and "i \<noteq> rn_id rn"
  shows "gone i (fst (exchangeAccessCredential sha p t rn now s))"
proof (cases "findAccessCredential (ci_id p) s")
  case None
  have "fst (exchangeAccessCredential sha p t rn now s) =
      fst (createCredential sha
        \<lparr>in_type = BackendAccess, in_namespace = ci_namespace p,
         in_name = Some (accessCredentialName p), in_ttl = t, in_parentId = Some (ci_id p),
         in_backendId = ci_backendId p, in_allowedBackends = None\<rparr> rn now s)"
    by (simp add: exchangeAccessCredential_def None split: prod.splits sum.splits)
  with assms show ?thesis by (simp add: gone_def row_createCredential)
next
  case (Some e)
  then have "e \<in> set (st_credentials s)" and "ci_type e = BackendAccess"
    by (auto simp: findAccessCredential_def dest: find_SomeD)
  with assms have "ci_id e \<noteq> i"
    using row_of [of s e] by (auto simp: gone_def)
  with assms(2) show ?thesis
    by (cases "getCredentialById i s")
       (auto simp: exchangeAccessCredential_def Some Let_def gone_def row_update dest: row_id
          split: option.split)
qed

lemma gone_step:
  assumes "st_ok s" and "gone i s" and "draws_id x \<noteq> Some i"
  shows "gone i (st_step sha x s)"
proof (cases x)
  case (SCreate inp rn now)
  with assms show ?thesis by (simp add: gone_def row_createCredential)
next
  case (SScope j a)
  with assms show ?thesis by (auto simp: setAllowedBackends_def Let_def intro!: gone_update)
next
  case (SPurge ids)
  with assms show ?thesis
    by (cases "getCredentialById i s")
       (auto simp: gone_def purgeRevokedCredentials_def Let_def row_delete)
next
  case (SIdentify ns j e n u now)
  have "getCredentialById i (fst (getOrCreateBackendIdV4 ns j e n u now s)) = getCredentialById i s"
    by (auto simp: getOrCreateBackendIdV4_def Let_def
        split: option.split prod.split sum.split dest!: row_insert_identityD [where i = i])
  with SIdentify assms show ?thesis by (simp add: gone_def)
qed (use assms in \<open>auto simp: gone_findValid gone_bind gone_revoke gone_revokes gone_exchange
       touchBackendIdentity_def deleteBackendIdentity_def allocateEpoch_def Let_def\<close>)

lemma gone_run:
  assumes "st_ok s" and "gone i s" and "\<forall>x\<in>set ops. draws_id x \<noteq> Some i"
  shows "gone i (st_run sha ops s)"
  using assms unfolding st_run_def
proof (induction ops arbitrary: s)
  case (Cons x xs)
  then show ?case by (simp add: gone_step st_ok_step)
qed simp

lemma gone_refused:
  assumes "st_ok s" and "gone i s" and "snd (findValidCredential sha tok now s) = Some c"
  shows "ci_id c \<noteq> i \<and> ci_parentId c \<noteq> Some i"
proof -
  from sql.resolve_alive [OF assms(1,3)] obtain r where
    r: "getCredentialById (ci_id c) s = Some r" "ci_parentId c = ci_parentId r" "row_alive now (Some r)"
    and p: "\<And>p. ci_parentId r = Some p \<Longrightarrow> row_alive now (getCredentialById p s)" by blast
  have "\<not> row_alive now (getCredentialById i s)" using assms(2) by (auto simp: gone_def row_alive_def split: option.splits)
  with r p [of i] show ?thesis by auto
qed

text \<open>
  C18.  Revocation is final: once a device or enrollment credential is revoked, no token presented at
  any later time resolves to it or to a credential exchanged from it, whatever storage operations
  run in between (creations, exchanges, bindings, purges, ...), provided none draws its UUID again.
\<close>

theorem revocation_final:
  assumes "st_ok s" and "getCredentialById i s = Some r" and "ci_type r \<noteq> BackendAccess"
    and "\<forall>x\<in>set ops. draws_id x \<noteq> Some i"
    and "snd (findValidCredential sha tok t (st_run sha ops (fst (revokeCredential i now s)))) = Some c"
  shows "ci_id c \<noteq> i \<and> ci_parentId c \<noteq> Some i"
proof -
  let ?s = "fst (revokeCredential i now s)"
  have "gone i ?s"
    using assms(1-3) row_id [OF assms(2)]
    by (cases "ci_revokedAt r") (auto simp: gone_def row_revoke)
  moreover have ok: "st_ok ?s" using assms(1) by (rule st_ok_revoke)
  ultimately have "gone i (st_run sha ops ?s)" using assms(4) by (blast intro: gone_run)
  then show ?thesis using assms(5) st_ok_run [OF ok] by (blast dest: gone_refused)
qed

section \<open>One access row per enrollment\<close>

lemma access_uniqueD:
  "access_unique rows \<Longrightarrow> r \<in> set rows \<Longrightarrow> r' \<in> set rows \<Longrightarrow> access_row r \<Longrightarrow> access_row r' \<Longrightarrow>
     ci_parentId r = ci_parentId r' \<Longrightarrow> r = r'"
  by (auto simp: access_unique_def distinct_map inj_on_def)

lemma findAccess_Some:
  "findAccessCredential p s = Some e \<Longrightarrow>
     e \<in> set (st_credentials s) \<and> access_row e \<and> ci_type e = BackendAccess \<and> ci_parentId e = Some p"
  by (auto simp: findAccessCredential_def access_row_def dest: find_SomeD)

lemma findAccess_None:
  "findAccessCredential p s = None \<Longrightarrow> r \<in> set (st_credentials s) \<Longrightarrow> access_row r \<Longrightarrow>
     ci_parentId r \<noteq> Some p"
  by (auto simp: findAccessCredential_def find_None_iff access_row_def)

lemma truncate_id [simp]: "ci_id (credential_info.truncate r) = ci_id r"
  by (simp add: credential_info.truncate_def)

text \<open>The row an exchange leaves, whether it inserted or rotated it.\<close>

lemma exchange_row:
  assumes ok: "st_ok s"
    and ex: "exchangeAccessCredential sha p t rn now s = (s1, Inr (c, tok, rotated))"
  obtains r where "{x \<in> set (st_credentials s1). access_row x \<and> ci_parentId x = Some (ci_id p)} = {r}"
    and "credential_info.truncate r = c" and "cr_tokenHash r = sha tok" and "ci_revokedAt r = None"
    and "length (st_credentials s1) = length (st_credentials s) + (if rotated then 0 else 1)"
proof (cases "findAccessCredential (ci_id p) s")
  case None
  let ?inp = "\<lparr>in_type = BackendAccess, in_namespace = ci_namespace p,
         in_name = Some (accessCredentialName p), in_ttl = t, in_parentId = Some (ci_id p),
         in_backendId = ci_backendId p, in_allowedBackends = None\<rparr>"
  let ?c = "new_credential sha ?inp rn now (ci_backendId p)"
  have *: "s1 = s\<lparr>st_credentials := st_credentials s @ [?c]\<rparr> \<and> c = credential_info.truncate ?c
      \<and> tok = CREDENTIAL_TOKEN_PREFIXES BackendAccess @ rn_token rn \<and> \<not> rotated"
    using ex by (auto simp: exchangeAccessCredential_def None createCredential_def Let_def
        credential_backend_def insert_credential_def split: if_splits)
  show ?thesis
    by (rule that [of ?c]) (use * findAccess_None [OF None] in \<open>auto simp: access_row_def\<close>)
next
  case (Some e)
  define f :: "credential \<Rightarrow> credential" where "f = (\<lambda>c. c\<lparr>cr_tokenHash := sha tok, ci_namespace := ci_namespace p,
       ci_name := accessCredentialName p, ci_createdAt := now,
       ci_expiresAt := expiry now (ttl_for BackendAccess t), ci_revokedAt := None,
       ci_backendId := ci_backendId p\<rparr>)"
  have f: "ci_id (f c) = ci_id c" "ci_parentId (f c) = ci_parentId c" "access_row (f c) = access_row c"
    "cr_tokenHash (f c) = sha tok" "ci_revokedAt (f c) = None" for c
    by (simp_all add: f_def access_row_def)
  note e = findAccess_Some [OF Some]
  have row: "getCredentialById (ci_id e) s = Some e" using ok e by (simp add: row_of)
  have *: "s1 = s\<lparr>st_credentials := update_where (\<lambda>c. ci_id c = ci_id e) f (st_credentials s)\<rparr>
      \<and> rotated \<and> getCredential (ci_id e) s1 = Some c"
    using ex by (auto simp: exchangeAccessCredential_def Some Let_def f_def split: if_splits option.splits)
  then have s1: "s1 = s\<lparr>st_credentials := update_where (\<lambda>c. ci_id c = ci_id e) f (st_credentials s)\<rparr>"
    and rot: "rotated" and gc: "getCredential (ci_id e) s1 = Some c"
    by blast+
  have "getCredentialById (ci_id e) s1 = Some (f e)"
    unfolding s1 by (simp add: row_update f row)
  then have c: "credential_info.truncate (f e) = c"
    using gc by (simp add: getCredential_def)
  have only: "x = e" if "x \<in> set (st_credentials s)" "access_row x" "ci_parentId x = Some (ci_id p)" for x
    using that e ok by (auto intro: access_uniqueD simp: st_ok_def)
  have "{x \<in> set (st_credentials s1). access_row x \<and> ci_parentId x = Some (ci_id p)} = {f e}"
    unfolding s1 using e by (auto simp: set_update_where f dest: only)
  then show ?thesis
    by (rule that) (use c rot in \<open>simp_all add: s1 f update_where_def\<close>)
qed

text \<open>
  C19.  Exchanging an enrollment credential leaves exactly one access row for it, unrevoked and holding
  the digest of the token just returned; no other token resolves to that row any more, at any time;
  and the credential list grows only when the enrollment had no access row yet.
\<close>

theorem exchange_rotates:
  assumes "st_ok s"
    and "exchangeAccessCredential sha p t rn now s = (s1, Inr (c, tok, rotated))"
  shows "(\<exists>r. {x \<in> set (st_credentials s1). access_row x \<and> ci_parentId x = Some (ci_id p)} = {r}
             \<and> credential_info.truncate r = c \<and> cr_tokenHash r = sha tok \<and> ci_revokedAt r = None)
       \<and> (\<forall>old t' c'. sha old \<noteq> sha tok \<longrightarrow> snd (findValidCredential sha old t' s1) = Some c'
             \<longrightarrow> ci_id c' \<noteq> ci_id c)
       \<and> length (st_credentials s1) = length (st_credentials s) + (if rotated then 0 else 1)"
proof -
  obtain r where r: "{x \<in> set (st_credentials s1). access_row x \<and> ci_parentId x = Some (ci_id p)} = {r}"
    "credential_info.truncate r = c" "cr_tokenHash r = sha tok" "ci_revokedAt r = None"
    "length (st_credentials s1) = length (st_credentials s) + (if rotated then 0 else 1)"
    using assms by (rule exchange_row)
  have ok: "st_ok s1" using st_ok_exchange [OF assms(1)] assms(2) by (metis fst_conv)
  have "ci_id c' \<noteq> ci_id c"
    if old: "sha old \<noteq> sha tok" and res: "snd (findValidCredential sha old t' s1) = Some c'" for old t' c'
  proof
    assume same: "ci_id c' = ci_id c"
    obtain r' where r': "r' \<in> set (st_credentials s1)" "cr_tokenHash r' = sha old"
      "c' = credential_info.truncate r'"
      using res ok by (auto simp: findValid_Some)
    have "r \<in> set (st_credentials s1)" using r(1) by auto
    with r' same r(2) ok have "r' = r"
      by (metis row_of option.inject truncate_id)
    with r' r(3) old show False by simp
  qed
  with r show ?thesis by blast
qed

section \<open>Purging\<close>

text \<open>
  Purging revoked credentials is invisible to authentication: every token resolves, at every
  time, to what it resolved to before, and only revoked rows are deleted, whatever ids are asked for.
\<close>

theorem purge_invisible:
  assumes "st_ok s"
  shows "snd (findValidCredential sha tok now (fst (purgeRevokedCredentials ids s)))
           = snd (findValidCredential sha tok now s)
       \<and> (\<forall>i\<in>set (snd (purgeRevokedCredentials ids s)).
             \<exists>r. getCredentialById i s = Some r \<and> ci_revokedAt r \<noteq> None)"
proof
  let ?P = "\<lambda>c. ci_revokedAt c \<noteq> None \<and> (case ids of None \<Rightarrow> True | Some w \<Rightarrow> ci_id c \<in> set w)"
  let ?s = "fst (purgeRevokedCredentials ids s)"
  have s': "?s = s\<lparr>st_credentials := delete_where ?P (st_credentials s)\<rparr>"
    by (simp add: purgeRevokedCredentials_def Let_def)
  have alive: "row_alive now (getCredentialById p ?s) = row_alive now (getCredentialById p s)" for p
    unfolding s' by (cases "getCredentialById p s") (auto simp: row_delete [OF assms] row_alive_def)
  have "snd (findValidCredential sha tok now ?s) = Some c \<longleftrightarrow>
        snd (findValidCredential sha tok now s) = Some c" for c
    unfolding findValid_Some [OF assms] findValid_Some [OF st_ok_purge [OF assms, of ids]] alive
    by (auto simp: s' set_delete_where)
  then show "snd (findValidCredential sha tok now ?s) = snd (findValidCredential sha tok now s)"
    by (metis not_Some_eq)
  show "\<forall>i\<in>set (snd (purgeRevokedCredentials ids s)).
             \<exists>r. getCredentialById i s = Some r \<and> ci_revokedAt r \<noteq> None"
    using row_of [OF assms] by (auto simp: purgeRevokedCredentials_def Let_def)
qed

section \<open>Identity keys\<close>

lemma unit_sep_not_b [simp]: "CHR ''b'' \<noteq> unit_sep" "unit_sep \<noteq> CHR ''b''"
  by code_simp+

lemma backendIdentityKey_inj:
  assumes "unit_sep \<notin> set ns" "unit_sep \<notin> set i" "unit_sep \<notin> set e"
    and "unit_sep \<notin> set ns'" "unit_sep \<notin> set i'" "unit_sep \<notin> set e'"
    and "backendIdentityKey ns i e [] = backendIdentityKey ns' i' e' []"
  shows "ns = ns' \<and> i = i' \<and> e = e'"
  using join_with_inj [of "[[], ns, i, e]" "[[], ns', i', e']" unit_sep] assms
  by (simp add: backendIdentityKey_def)

text \<open>
  Identity keys do not clash: legacy keys are injective in (namespace, instanceId, environment)
  as long as the fields hold no unit separator, bound keys are injective in the backend id, and no
  bound key equals a legacy key.
\<close>

theorem identity_keys_distinct:
  assumes "\<forall>f\<in>{ns, i, e, ns', i', e'}. unit_sep \<notin> set f"
  shows "(backendIdentityKey ns i e [] = backendIdentityKey ns' i' e' [] \<longleftrightarrow> (ns, i, e) = (ns', i', e'))
       \<and> (boundIdentityKey b = boundIdentityKey b' \<longleftrightarrow> b = b')
       \<and> boundIdentityKey b \<noteq> backendIdentityKey ns i e []"
  using backendIdentityKey_inj [of ns i e ns' i' e'] assms
  by (auto simp: boundIdentityKey_def backendIdentityKey_def)

text \<open>
  The separator is a legal character of a JSON string (\<open>\u001f\<close>), so the comment that it cannot
  appear is not a guarantee: two different identities then share a key.
\<close>

lemma identity_key_collision:
  "backendIdentityKey (''a'' @ [unit_sep] @ ''b'') ''c'' ''d'' [] =
   backendIdentityKey ''a'' (''b'' @ [unit_sep] @ ''c'') ''d'' []"
  by (simp add: backendIdentityKey_def)

section \<open>Stable identities\<close>

definition identity_of_key :: "string \<Rightarrow> storage \<Rightarrow> string option" where
  "identity_of_key k s = map_option bi_backendId (find (\<lambda>r. bi_key r = k) (st_identities s))"

lemma identity_of_key_iff:
  "st_ok s \<Longrightarrow> identity_of_key k s = Some b \<longleftrightarrow>
     (\<exists>r\<in>set (st_identities s). bi_key r = k \<and> bi_backendId r = b)"
  by (auto simp: identity_of_key_def st_ok_def find_key_iff dest: find_SomeD)

lemma getOrCreate_identity:
  assumes "getOrCreateBackendIdV4 ns i e n u now s = (s', Inr b)"
  shows "identity_of_key (backendIdentityKey ns i e []) s' = Some b"
  using assms
  by (auto simp: getOrCreateBackendIdV4_def Let_def identity_of_key_def insert_identity_def
      find_update_where find_append
      split: option.splits if_splits prod.splits sum.splits)

lemma getOrCreate_known:
  "identity_of_key (backendIdentityKey ns i e []) s = Some b \<Longrightarrow>
     snd (getOrCreateBackendIdV4 ns i e n u now s) = Inr b"
  by (auto simp: getOrCreateBackendIdV4_def Let_def identity_of_key_def)

lemma insert_identity_keeps:
  "identity_of_key k s = Some b \<Longrightarrow> identity_of_key k (fst (insert_identity x s)) = Some b"
  by (auto simp: insert_identity_def identity_of_key_def find_append)

lemma insert_identity_keepsD:
  "insert_identity x s = (s', r) \<Longrightarrow> identity_of_key k s = Some b \<Longrightarrow> identity_of_key k s' = Some b"
  using insert_identity_keeps [of k s b x] by simp

lemma identity_credentials [simp]:
  "identity_of_key k (s\<lparr>st_credentials := x\<rparr>) = identity_of_key k s"
  "identity_of_key k (s\<lparr>st_maxEpoch := m\<rparr>) = identity_of_key k s"
  by (simp_all add: identity_of_key_def)

lemma identity_update [simp]:
  "(\<And>r. bi_key (f r) = bi_key r) \<Longrightarrow> (\<And>r. bi_backendId (f r) = bi_backendId r) \<Longrightarrow>
     identity_of_key k (s\<lparr>st_identities := update_where P f (st_identities s)\<rparr>) = identity_of_key k s"
  by (cases "find (\<lambda>r. bi_key r = k) (st_identities s)")
     (auto simp: identity_of_key_def find_update_where)

lemma identity_insert_credential [simp]:
  "identity_of_key k (fst (insert_credential c s)) = identity_of_key k s"
  by (simp add: insert_credential_def)

lemma identity_createCredential:
  assumes "identity_of_key k s = Some b"
  shows "identity_of_key k (fst (createCredential sha inp rn now s)) = Some b"
proof -
  obtain s1 r where c: "credential_backend inp rn now s = (s1, r)" by fastforce
  then have "identity_of_key k s1 = Some b"
    using assms credential_backend_insert [OF c] by (auto simp: insert_identity_keeps)
  then show ?thesis by (auto simp: createCredential_fst [OF c] split: sum.split)
qed

lemma exchange_fst:
  "fst (exchangeAccessCredential sha p t rn now s) = s
   \<or> (\<exists>inp. fst (exchangeAccessCredential sha p t rn now s) = fst (createCredential sha inp rn now s))
   \<or> (\<exists>rows. fst (exchangeAccessCredential sha p t rn now s) = s\<lparr>st_credentials := rows\<rparr>)"
  by (auto simp: exchangeAccessCredential_def Let_def split: option.split prod.split sum.split)
     (metis fst_conv)+

lemma revokes_identities:
  "identity_of_key k (fst (revokeCredentials js now s)) = identity_of_key k s"
proof (induction js arbitrary: s)
  case (Cons j js)
  have "identity_of_key k (fst (revokeCredential j now s)) = identity_of_key k s"
    by (simp add: revokeCredential_def Let_def)
  with Cons show ?case by (simp only: revokeCredentials_fst)
qed simp

lemma identity_step:
  assumes "st_ok s" and "identity_of_key k s = Some b" and "x \<noteq> SForget b"
  shows "identity_of_key k (st_step sha x s) = Some b"
proof (cases x)
  case (SExchange p t rn now)
  then show ?thesis
    using exchange_fst [of sha p t rn now s] assms(2) by (auto simp: identity_createCredential)
next
  case (SFind tok now)
  then show ?thesis using findValid_fst [of sha tok now s] assms(2) by auto
next
  case (SIdentify ns i e n u now)
  with assms(2) show ?thesis
    by (auto simp: getOrCreateBackendIdV4_def Let_def
        split: option.split prod.split sum.split dest: insert_identity_keepsD)
next
  case (SForget b')
  with assms(2,3) show ?thesis
    using find_delete_where [of bi_key "st_identities s" k "\<lambda>r. bi_backendId r = b'"] assms(1)
    by (auto simp: deleteBackendIdentity_def identity_of_key_def st_ok_def)
qed (use assms(2) in \<open>auto simp: identity_createCredential bindBackendCredential_def Let_def
       setAllowedBackends_def revokeCredential_def revokes_identities purgeRevokedCredentials_def
       touchBackendIdentity_def allocateEpoch_def\<close>)

lemma identity_run:
  assumes "st_ok s" and "identity_of_key k s = Some b" and "SForget b \<notin> set ops"
  shows "identity_of_key k (st_run sha ops s) = Some b"
  using assms unfolding st_run_def
  by (induction ops arbitrary: s) (auto simp: identity_step st_ok_step)

text \<open>
  A legacy backend keeps its id: once (namespace, instanceId, environment) has been given a
  backendId, every later registration with the same triple gets the same one, whatever happens to
  the storage in between short of an administrator forgetting that very identity.
\<close>

theorem identity_stable:
  assumes "st_ok s" and "getOrCreateBackendIdV4 ns i e n u now s = (s', Inr b)"
    and "SForget b \<notin> set ops"
  shows "snd (getOrCreateBackendIdV4 ns i e n' u' now' (st_run sha ops s')) = Inr b"
proof -
  have "st_ok s'" using st_ok_getOrCreate [OF assms(1)] assms(2) by (metis fst_conv)
  then show ?thesis
    using getOrCreate_identity [OF assms(2)] assms(3) by (blast intro: getOrCreate_known identity_run)
qed

text \<open>
  C26.  A legacy backend has its id to itself and keeps it.  Once (namespace, instanceId, environment) has been
  given a backend id, and whatever happens to the storage afterwards short of an administrator forgetting that very
  identity, a registration is given this id again if and only if it comes with the same triple, as long as the
  fields hold no unit separator.
\<close>

theorem identity_exact:
  assumes "st_ok s" and "getOrCreateBackendIdV4 ns i e n u now s = (s', Inr b)" and "SForget b \<notin> set ops"
    and "\<forall>f\<in>{ns, i, e, ns', i', e'}. unit_sep \<notin> set f"
  shows "snd (getOrCreateBackendIdV4 ns' i' e' n' u' now' (st_run sha ops s')) = Inr b \<longleftrightarrow> (ns', i', e') = (ns, i, e)"
proof
  assume "(ns', i', e') = (ns, i, e)"
  with identity_stable [OF assms(1-3), where sha = sha and n' = n' and u' = u' and now' = now'] show "snd (getOrCreateBackendIdV4 ns' i' e' n' u' now' (st_run sha ops s')) = Inr b"
    by simp
next
  let ?t = "st_run sha ops s'"
  let ?k = "backendIdentityKey ns i e []" and ?k' = "backendIdentityKey ns' i' e' []"
  let ?x = "SIdentify ns' i' e' n' u' now'"
  assume given: "snd (getOrCreateBackendIdV4 ns' i' e' n' u' now' ?t) = Inr b"
  have ok': "st_ok s'" using st_ok_getOrCreate [OF assms(1)] assms(2) by (metis fst_conv)
  then have ok: "st_ok ?t" by (rule st_ok_run)
  have "identity_of_key ?k ?t = Some b"
    by (rule identity_run [OF ok' getOrCreate_identity [OF assms(2)] assms(3)])
  from identity_step [OF ok this, of ?x sha] have "identity_of_key ?k (st_step sha ?x ?t) = Some b" by simp
  moreover have "identity_of_key ?k' (st_step sha ?x ?t) = Some b"
    using getOrCreate_identity [of ns' i' e' n' u' now' ?t _ b] given by (metis prod.collapse st_step.simps(9))
  moreover have ok: "st_ok (st_step sha ?x ?t)" by (rule st_ok_step [OF ok])
  ultimately have "?k = ?k'"
    unfolding identity_of_key_iff [OF ok] using ok by (auto simp: st_ok_def distinct_map dest!: inj_onD)
  with backendIdentityKey_inj [of ns i e ns' i' e'] assms(4) show "(ns', i', e') = (ns, i, e)" by simp
qed

section \<open>Epochs\<close>

lemma epoch_credential_ops [simp]:
  "st_maxEpoch (fst (insert_credential c s)) = st_maxEpoch s"
  "st_maxEpoch (fst (insert_identity x s)) = st_maxEpoch s"
  by (simp_all add: insert_credential_def insert_identity_def)

lemma epoch_insertD:
  "insert_identity x s = (s', r) \<Longrightarrow> st_maxEpoch s' = st_maxEpoch s"
  using epoch_credential_ops(2) [of x s] by simp

lemma epoch_createCredential [simp]:
  "st_maxEpoch (fst (createCredential sha inp rn now s)) = st_maxEpoch s"
proof -
  obtain s1 r where c: "credential_backend inp rn now s = (s1, r)" by fastforce
  then have "st_maxEpoch s1 = st_maxEpoch s"
    using credential_backend_insert [OF c] by auto
  then show ?thesis by (simp add: createCredential_fst [OF c] split: sum.split)
qed

lemma epoch_revokes: "st_maxEpoch (fst (revokeCredentials js now s)) = st_maxEpoch s"
proof (induction js arbitrary: s)
  case (Cons j js)
  have "st_maxEpoch (fst (revokeCredential j now s)) = st_maxEpoch s"
    by (simp add: revokeCredential_def Let_def)
  with Cons show ?case by (simp only: revokeCredentials_fst)
qed simp

lemma epoch_step:
  "st_maxEpoch (st_step sha x s) = (if x = SEpoch then st_maxEpoch s + 1 else st_maxEpoch s)"
proof (cases x)
  case (SFind tok now)
  then show ?thesis using findValid_fst [of sha tok now s] by auto
next
  case (SExchange p t rn now)
  then show ?thesis using exchange_fst [of sha p t rn now s] by auto
next
  case (SIdentify ns i e n u now)
  then show ?thesis
    by (auto simp: getOrCreateBackendIdV4_def Let_def
        split: option.split prod.split sum.split dest: epoch_insertD)
qed (auto simp: bindBackendCredential_def Let_def setAllowedBackends_def revokeCredential_def
      epoch_revokes purgeRevokedCredentials_def touchBackendIdentity_def deleteBackendIdentity_def
      allocateEpoch_def)

lemma epoch_run: "st_maxEpoch s \<le> st_maxEpoch (st_run sha ops s)"
  unfolding st_run_def
proof (induction ops arbitrary: s)
  case (Cons x xs)
  have "st_maxEpoch s \<le> st_maxEpoch (st_step sha x s)" by (simp add: epoch_step)
  also have "\<dots> \<le> st_maxEpoch (fold (st_step sha) xs (st_step sha x s))" by (rule Cons)
  finally show ?case by simp
qed simp

text \<open>
  Epochs strictly increase: an epoch allocated later, after any storage operations whatever, is
  larger than every epoch allocated before.
\<close>

theorem epochs_increase:
  "snd (allocateEpoch (st_run sha ops (fst (allocateEpoch s)))) > snd (allocateEpoch s)"
  using epoch_run [of "fst (allocateEpoch s)" sha ops] by (simp add: allocateEpoch_def Let_def)

section \<open>The migration\<close>

lemma ranks_total:
  "ci_id c \<noteq> ci_id d \<Longrightarrow> ranks_before c d \<or> ranks_before d c"
  by (auto simp: ranks_before_def Let_def)

lemma ranks_irrefl: "\<not> ranks_before c c"
  by (auto simp: ranks_before_def Let_def)

lemma ranks_trans: "ranks_before a b \<Longrightarrow> ranks_before b c \<Longrightarrow> ranks_before a c"
  by (auto simp: ranks_before_def Let_def split: if_splits)

lemma ranks_top:
  assumes "finite A" and "A \<noteq> {}" and "inj_on ci_id A"
  shows "\<exists>c\<in>A. \<forall>d\<in>A. \<not> ranks_before d c"
  using assms
proof (induction A rule: finite_ne_induct)
  case (insert x A)
  then obtain c where c: "c \<in> A" "\<forall>d\<in>A. \<not> ranks_before d c" by auto
  show ?case
  proof (cases "ranks_before x c")
    case True
    with c have "\<forall>d\<in>insert x A. \<not> ranks_before d x"
      by (auto simp: ranks_irrefl dest: ranks_trans)
    then show ?thesis by blast
  next
    case False
    with c show ?thesis by (auto simp: ranks_irrefl)
  qed
qed (simp add: ranks_irrefl)

lemma in_collapse:
  "c \<in> set (collapse_access_rows rows) \<longleftrightarrow> c \<in> set rows \<and>
     (access_row c \<longrightarrow> (\<forall>d\<in>set rows. access_row d \<longrightarrow> ci_parentId d = ci_parentId c \<longrightarrow> \<not> ranks_before d c))"
  by (auto simp: collapse_access_rows_def set_delete_where)

text \<open>
  The ADR-0011 migration leaves at most one access row per enrollment and never loses an
  enrollment's access: every dropped row has a surviving sibling, which is unrevoked if the dropped
  row was; rows that are not access rows are untouched.
\<close>

theorem migration_collapses:
  assumes "distinct (map ci_id rows)"
  shows "access_unique (collapse_access_rows rows)
     \<and> (\<forall>c\<in>set rows. \<exists>d\<in>set (collapse_access_rows rows).
           (access_row c \<longrightarrow> access_row d \<and> ci_parentId d = ci_parentId c
               \<and> (ci_revokedAt c = None \<longrightarrow> ci_revokedAt d = None))
           \<and> (\<not> access_row c \<longrightarrow> d = c))"
proof
  let ?new = "collapse_access_rows rows"
  have inj: "inj_on ci_id (set rows)" and dr: "distinct rows"
    using assms by (auto simp: distinct_map)
  have "c = d" if "c \<in> set ?new" "d \<in> set ?new" "access_row c" "access_row d"
    "ci_parentId c = ci_parentId d" for c d
    using that ranks_total [of c d] inj by (auto simp: in_collapse dest: inj_onD)
  moreover have "distinct ?new" using dr by (simp add: collapse_access_rows_def delete_where_def)
  ultimately show "access_unique ?new"
    by (auto simp: access_unique_def distinct_map inj_on_def)
  show "\<forall>c\<in>set rows. \<exists>d\<in>set ?new.
           (access_row c \<longrightarrow> access_row d \<and> ci_parentId d = ci_parentId c
               \<and> (ci_revokedAt c = None \<longrightarrow> ci_revokedAt d = None))
           \<and> (\<not> access_row c \<longrightarrow> d = c)"
  proof
    fix c assume c: "c \<in> set rows"
    show "\<exists>d\<in>set ?new.
           (access_row c \<longrightarrow> access_row d \<and> ci_parentId d = ci_parentId c
               \<and> (ci_revokedAt c = None \<longrightarrow> ci_revokedAt d = None))
           \<and> (\<not> access_row c \<longrightarrow> d = c)"
    proof (cases "access_row c")
      case True
      let ?A = "{d \<in> set rows. access_row d \<and> ci_parentId d = ci_parentId c}"
      have "finite ?A" "?A \<noteq> {}" "inj_on ci_id ?A"
        using c True inj by (auto intro: inj_on_subset)
      then obtain d where d: "d \<in> ?A" "\<forall>x\<in>?A. \<not> ranks_before x d"
        using ranks_top by blast
      then have "\<not> ranks_before c d" using c True by auto
      then have "ci_revokedAt c = None \<longrightarrow> ci_revokedAt d = None"
        by (auto simp: ranks_before_def Let_def split: if_splits)
      with d True show ?thesis by (auto simp: in_collapse)
    next
      case False
      with c show ?thesis by (auto simp: in_collapse)
    qed
  qed
qed

section \<open>Concrete runs\<close>

text \<open>
  A database with a phone, a laptop and an enrollment that has exchanged one access token; the
  digest is the identity on tokens.
\<close>

definition sample_input :: "credential_type \<Rightarrow> string \<Rightarrow> create_input" where
  "sample_input ty nm = \<lparr>in_type = ty, in_namespace = ''prod'', in_name = Some nm, in_ttl = TtlDefault,
     in_parentId = None, in_backendId = None, in_allowedBackends = None\<rparr>"

definition sample_draws :: "string \<Rightarrow> draws" where
  "sample_draws x = \<lparr>rn_token = x, rn_id = CHR ''c'' # x, rn_backendId = CHR ''b'' # x\<rparr>"

definition sample_storage :: storage where
  "sample_storage = st_run (\<lambda>t. t)
     [SCreate (sample_input Device ''phone'') (sample_draws ''1'') 10,
      SCreate (sample_input Device ''laptop'') (sample_draws ''2'') 20,
      SCreate (sample_input Backend ''host'') (sample_draws ''3'') 30] empty_storage"

definition sample_host :: credential_info where
  "sample_host = \<lparr>ci_id = ''c3'', ci_type = Backend, ci_namespace = ''prod'', ci_name = ''host'',
     ci_parentId = None, ci_createdAt = 30, ci_expiresAt = None, ci_revokedAt = None,
     ci_lastUsedAt = None, ci_backendId = Some ''b3'', ci_allowedBackends = None\<rparr>"

lemma st_ok_sample: "st_ok sample_storage"
  unfolding sample_storage_def by (rule st_ok_run) (rule st_ok_empty)

theorem revocation_final_witness:
  "ci_id (the (snd (findValidCredential (\<lambda>t. t) ''zgd_2'' 50 (st_run (\<lambda>t. t) [SFind ''zgd_2'' 40, SEpoch]
      (fst (revokeCredential ''c1'' 35 sample_storage)))))) \<noteq> ''c1''"
proof -
  obtain r where r: "getCredentialById ''c1'' sample_storage = Some r" "ci_type r \<noteq> BackendAccess"
    by (rule that [of "the (getCredentialById ''c1'' sample_storage)"]) code_simp+
  obtain c where c: "snd (findValidCredential (\<lambda>t. t) ''zgd_2'' 50 (st_run (\<lambda>t. t) [SFind ''zgd_2'' 40, SEpoch]
      (fst (revokeCredential ''c1'' 35 sample_storage)))) = Some c"
    by (rule that [of "the (snd (findValidCredential (\<lambda>t. t) ''zgd_2'' 50 (st_run (\<lambda>t. t) [SFind ''zgd_2'' 40, SEpoch]
      (fst (revokeCredential ''c1'' 35 sample_storage)))))"]) code_simp
  show ?thesis
    using revocation_final [OF st_ok_sample r(1,2) _ c] c by simp
qed

theorem exchange_rotates_witness:
  "\<exists>r. {x \<in> set (st_credentials (fst (exchangeAccessCredential (\<lambda>t. t) sample_host TtlDefault
        (sample_draws ''4'') 60 sample_storage))). access_row x \<and> ci_parentId x = Some ''c3''} = {r}
     \<and> cr_tokenHash r = ''zga_4''"
proof -
  have "\<exists>c. snd (exchangeAccessCredential (\<lambda>t. t) sample_host TtlDefault (sample_draws ''4'') 60 sample_storage)
      = Inr (c, ''zga_4'', False)"
    by (rule exI [of _ "fst (projr (snd (exchangeAccessCredential (\<lambda>t. t) sample_host TtlDefault
        (sample_draws ''4'') 60 sample_storage)))"]) code_simp
  then obtain c where "exchangeAccessCredential (\<lambda>t. t) sample_host TtlDefault (sample_draws ''4'') 60 sample_storage
      = (fst (exchangeAccessCredential (\<lambda>t. t) sample_host TtlDefault (sample_draws ''4'') 60 sample_storage),
         Inr (c, ''zga_4'', False))"
    by (metis prod.collapse)
  from exchange_rotates [OF st_ok_sample this] show ?thesis
    by (auto simp: sample_host_def)
qed

theorem purge_invisible_witness:
  "snd (findValidCredential (\<lambda>t. t) ''zgd_2'' 50 (fst (purgeRevokedCredentials None
      (fst (revokeCredential ''c1'' 35 sample_storage))))) \<noteq> None"
proof -
  have "snd (findValidCredential (\<lambda>t. t) ''zgd_2'' 50 (fst (revokeCredential ''c1'' 35 sample_storage))) \<noteq> None"
    by code_simp
  then show ?thesis
    using purge_invisible [OF st_ok_revoke [OF st_ok_sample], of "\<lambda>t. t" "''zgd_2''" 50 None "''c1''" 35]
    by (simp only:) simp
qed

theorem identity_keys_distinct_witness:
  "backendIdentityKey ''prod'' ''host'' ''dev'' [] \<noteq> backendIdentityKey ''prod'' ''host'' ''live'' []"
proof -
  have "\<forall>f\<in>{''prod'', ''host'', ''dev'', ''prod'', ''host'', ''live''}. unit_sep \<notin> set f"
    by code_simp
  from identity_keys_distinct [OF this, of "[]" "[]"] show ?thesis by simp
qed

theorem identity_stable_witness:
  "snd (getOrCreateBackendIdV4 ''prod'' ''h'' ''dev'' (Some ''new'') ''u2'' 99
     (st_run (\<lambda>t. t) [SForget ''b3'', SEpoch]
       (fst (getOrCreateBackendIdV4 ''prod'' ''h'' ''dev'' None ''u1'' 40 sample_storage)))) = Inr ''u1''"
proof -
  have "snd (getOrCreateBackendIdV4 ''prod'' ''h'' ''dev'' None ''u1'' 40 sample_storage) = Inr ''u1''"
    by code_simp
  then have "getOrCreateBackendIdV4 ''prod'' ''h'' ''dev'' None ''u1'' 40 sample_storage
      = (fst (getOrCreateBackendIdV4 ''prod'' ''h'' ''dev'' None ''u1'' 40 sample_storage), Inr ''u1'')"
    by (metis prod.collapse)
  from identity_stable [OF st_ok_sample this] show ?thesis by simp
qed

theorem identity_exact_witness:
  "snd (getOrCreateBackendIdV4 ''prod'' ''h'' ''live'' None ''u2'' 99
     (st_run (\<lambda>t. t) [SForget ''b3'', SEpoch]
       (fst (getOrCreateBackendIdV4 ''prod'' ''h'' ''dev'' None ''u1'' 40 sample_storage)))) \<noteq> Inr ''u1''"
proof -
  have "snd (getOrCreateBackendIdV4 ''prod'' ''h'' ''dev'' None ''u1'' 40 sample_storage) = Inr ''u1''"
    by code_simp
  then have g: "getOrCreateBackendIdV4 ''prod'' ''h'' ''dev'' None ''u1'' 40 sample_storage
      = (fst (getOrCreateBackendIdV4 ''prod'' ''h'' ''dev'' None ''u1'' 40 sample_storage), Inr ''u1'')"
    by (metis prod.collapse)
  have "\<forall>f\<in>{''prod'', ''h'', ''dev'', ''prod'', ''h'', ''live''}. unit_sep \<notin> set f" by code_simp
  from identity_exact [OF st_ok_sample g _ this, of "[SForget ''b3'', SEpoch]" None "''u2''" 99 "\<lambda>t. t"] show ?thesis by simp
qed

definition sample_access :: "string \<Rightarrow> int \<Rightarrow> int option \<Rightarrow> credential" where
  "sample_access i t rv = \<lparr>ci_id = i, ci_type = BackendAccess, ci_namespace = ''prod'', ci_name = ''access:host'',
     ci_parentId = Some ''c3'', ci_createdAt = t, ci_expiresAt = None, ci_revokedAt = rv,
     ci_lastUsedAt = None, ci_backendId = Some ''b3'', ci_allowedBackends = None, cr_tokenHash = i\<rparr>"

theorem migration_collapses_witness:
  "access_unique (collapse_access_rows [sample_access ''x'' 1 None, sample_access ''y'' 2 (Some 3),
     sample_access ''z'' 2 None])"
  by (rule migration_collapses [THEN conjunct1]) code_simp

end
