(* ===== verification/Gw_Memory.thy ===== *)
theory Gw_Memory
  imports Gw_Credentials
begin

text \<open>
  src/storage.ts, the in-memory path of \<open>GatewayStorage\<close>, which takes the place of SQLite where the native
  module cannot be loaded under the test runner; and that it is the same store: every sequence of operations
  that the tables accept leaves the maps and the tables in agreement, with the same answers.
\<close>

section \<open>The maps\<close>

record memory_state =
  mm_credentials :: "(string, credential) jmap"
  mm_identities :: "(string, backend_identity) jmap"
  mm_maxEpoch :: int

definition new_memory :: memory_state where
  "new_memory = \<lparr>mm_credentials = [], mm_identities = [], mm_maxEpoch = 0\<rparr>"

text \<open>The constructor when the database cannot be opened: an error outside the test runner, otherwise the state of the path.\<close>

definition open_memory :: "bool \<Rightarrow> string \<Rightarrow> (string, memory_state) jmap \<Rightarrow> unit + (string, memory_state) jmap \<times> memory_state" where
  "open_memory vitest key states =
     (if \<not> vitest then Inl ()
      else case jm_get states key of
             Some m \<Rightarrow> Inr (states, m)
           | None \<Rightarrow> Inr (jm_set key new_memory states, new_memory))"

text \<open>A loop over the map's objects that writes their fields.\<close>

definition map_vals :: "('v \<Rightarrow> 'v) \<Rightarrow> ('k, 'v) jmap \<Rightarrow> ('k, 'v) jmap" where
  "map_vals f m = map (\<lambda>(k, v). (k, f v)) m"

section \<open>Epochs and identities\<close>

definition mem_allocateEpoch :: "memory_state \<Rightarrow> memory_state \<times> int" where
  "mem_allocateEpoch m = (let m' = m\<lparr>mm_maxEpoch := mm_maxEpoch m + 1\<rparr> in (m', mm_maxEpoch m'))"

definition mem_getMaxEpoch :: "memory_state \<Rightarrow> int" where
  "mem_getMaxEpoch m = mm_maxEpoch m"

definition mem_getOrCreateBackendIdV4 ::
  "string \<Rightarrow> string \<Rightarrow> string \<Rightarrow> string option \<Rightarrow> string \<Rightarrow> int \<Rightarrow> memory_state \<Rightarrow> memory_state \<times> string" where
  "mem_getOrCreateBackendIdV4 ns instanceId environment name uuid now m =
     (let key = backendIdentityKey ns instanceId environment '''' in
      case jm_get (mm_identities m) key of
        Some existing \<Rightarrow>
          (case name of
             Some n \<Rightarrow>
               if n \<noteq> [] \<and> n \<noteq> bi_name existing
               then (m\<lparr>mm_identities := jm_upd key (\<lambda>i. i\<lparr>bi_name := n, bi_updatedAt := now\<rparr>) (mm_identities m)\<rparr>, bi_backendId existing)
               else (m, bi_backendId existing)
           | None \<Rightarrow> (m, bi_backendId existing))
      | None \<Rightarrow>
          (m\<lparr>mm_identities := jm_set key
               \<lparr>bi_backendId = uuid, bi_tenant = '''', bi_namespace = ns, bi_instanceId = instanceId,
                bi_environment = environment, bi_name = (case name of None \<Rightarrow> '''' | Some n \<Rightarrow> n),
                bi_createdAt = now, bi_updatedAt = now, bi_lastCredentialId = None, bi_lastSeenAt = None\<rparr> (mm_identities m)\<rparr>, uuid))"

definition mem_createBoundBackendIdentity :: "string \<Rightarrow> string \<Rightarrow> string \<Rightarrow> int \<Rightarrow> memory_state \<Rightarrow> memory_state \<times> string" where
  "mem_createBoundBackendIdentity ns name uuid now m =
     (m\<lparr>mm_identities := jm_set (boundIdentityKey uuid)
          \<lparr>bi_backendId = uuid, bi_tenant = '''', bi_namespace = ns, bi_instanceId = '''', bi_environment = '''', bi_name = name,
           bi_createdAt = now, bi_updatedAt = now, bi_lastCredentialId = None, bi_lastSeenAt = None\<rparr> (mm_identities m)\<rparr>, uuid)"

definition mem_listBackendIdentities :: "memory_state \<Rightarrow> backend_identity list" where
  "mem_listBackendIdentities m = sort_key (\<lambda>i. - bi_createdAt i) (jm_vals (mm_identities m))"

definition mem_deleteBackendIdentity :: "string \<Rightarrow> memory_state \<Rightarrow> memory_state \<times> bool" where
  "mem_deleteBackendIdentity backendId m =
     (case find (\<lambda>(key, identity). bi_backendId identity = backendId) (mm_identities m) of
        None \<Rightarrow> (m, False)
      | Some (key, _) \<Rightarrow> (m\<lparr>mm_identities := jm_del key (mm_identities m)\<rparr>, True))"

definition mem_touchBackendIdentity :: "string \<Rightarrow> string option \<Rightarrow> string option \<Rightarrow> int \<Rightarrow> memory_state \<Rightarrow> memory_state" where
  "mem_touchBackendIdentity backendId rootCredentialId name now m =
     m\<lparr>mm_identities := map_vals (\<lambda>i. if bi_backendId i \<noteq> backendId then i
        else i\<lparr>bi_lastSeenAt := Some now,
               bi_lastCredentialId := (case rootCredentialId of Some c \<Rightarrow> if c = [] then bi_lastCredentialId i else Some c | None \<Rightarrow> bi_lastCredentialId i),
               bi_name := (case name of Some n \<Rightarrow> if n = [] then bi_name i else n | None \<Rightarrow> bi_name i)\<rparr>) (mm_identities m)\<rparr>"

section \<open>Credentials\<close>

definition mem_credential_backend :: "create_input \<Rightarrow> draws \<Rightarrow> int \<Rightarrow> memory_state \<Rightarrow> memory_state \<times> string option" where
  "mem_credential_backend inp rn now m =
     (if in_type inp = Backend then
        (case in_backendId inp of
           Some b \<Rightarrow> (m, Some b)
         | None \<Rightarrow>
             (case mem_createBoundBackendIdentity (in_namespace inp) (case in_name inp of None \<Rightarrow> [] | Some n \<Rightarrow> n) (rn_backendId rn) now m of
                (m1, b) \<Rightarrow> (m1, Some b)))
      else if in_type inp = BackendAccess then (m, in_backendId inp)
      else (m, None))"

definition mem_createCredential ::
  "(string \<Rightarrow> string) \<Rightarrow> create_input \<Rightarrow> draws \<Rightarrow> int \<Rightarrow> memory_state \<Rightarrow> memory_state \<times> credential_info \<times> string" where
  "mem_createCredential sha inp rn now m =
     (case mem_credential_backend inp rn now m of
        (m1, backendId) \<Rightarrow>
          (let c = new_credential sha inp rn now backendId
           in (m1\<lparr>mm_credentials := jm_set (ci_id c) c (mm_credentials m1)\<rparr>,
               credential_info.truncate c, CREDENTIAL_TOKEN_PREFIXES (in_type inp) @ rn_token rn)))"

definition mem_getCredentialByHash :: "string \<Rightarrow> memory_state \<Rightarrow> credential option" where
  "mem_getCredentialByHash h m = find (\<lambda>c. cr_tokenHash c = h) (jm_vals (mm_credentials m))"

definition mem_getCredentialById :: "string \<Rightarrow> memory_state \<Rightarrow> credential option" where
  "mem_getCredentialById i m = jm_get (mm_credentials m) i"

definition mem_parent_refuses :: "int \<Rightarrow> memory_state \<Rightarrow> string option \<Rightarrow> bool" where
  "mem_parent_refuses now m parentId =
     (case parentId of
        None \<Rightarrow> False
      | Some pid \<Rightarrow>
          (case mem_getCredentialById pid m of
             None \<Rightarrow> True
           | Some parent \<Rightarrow> ci_revokedAt parent \<noteq> None \<or> past now (ci_expiresAt parent)))"

text \<open>The record is the map's object: what is returned has the time of use just written.\<close>

definition mem_findValidCredential :: "(string \<Rightarrow> string) \<Rightarrow> string \<Rightarrow> int \<Rightarrow> memory_state \<Rightarrow> memory_state \<times> credential_info option" where
  "mem_findValidCredential sha token now m =
     (case mem_getCredentialByHash (sha token) m of
        None \<Rightarrow> (m, None)
      | Some r \<Rightarrow>
          if ci_revokedAt r \<noteq> None then (m, None)
          else if past now (ci_expiresAt r) then (m, None)
          else if mem_parent_refuses now m (ci_parentId r) then (m, None)
          else (m\<lparr>mm_credentials := jm_upd (ci_id r) (\<lambda>c. c\<lparr>ci_lastUsedAt := Some now\<rparr>) (mm_credentials m)\<rparr>,
                Some (credential_info.truncate (r\<lparr>ci_lastUsedAt := Some now\<rparr>))))"

definition mem_listCredentials :: "memory_state \<Rightarrow> credential_info list" where
  "mem_listCredentials m = map credential_info.truncate (sort_key (\<lambda>c. - ci_createdAt c) (jm_vals (mm_credentials m)))"

definition mem_bindBackendCredential :: "string \<Rightarrow> string \<Rightarrow> memory_state \<Rightarrow> memory_state \<times> bool" where
  "mem_bindBackendCredential i backendId m =
     (case jm_get (mm_credentials m) i of
        None \<Rightarrow> (m, False)
      | Some r \<Rightarrow>
          if ci_type r \<noteq> Backend \<or> ci_revokedAt r \<noteq> None \<or> ci_backendId r \<noteq> None then (m, False)
          else (m\<lparr>mm_credentials := map_vals (\<lambda>c. if (ci_id c = i \<or> ci_parentId c = Some i) \<and> ci_revokedAt c = None
                    then c\<lparr>ci_backendId := Some backendId\<rparr> else c) (mm_credentials m)\<rparr>, True))"

definition mem_setAllowedBackends :: "string \<Rightarrow> string list option \<Rightarrow> memory_state \<Rightarrow> memory_state \<times> bool" where
  "mem_setAllowedBackends i allowed m =
     (case jm_get (mm_credentials m) i of
        None \<Rightarrow> (m, False)
      | Some r \<Rightarrow>
          if ci_type r \<noteq> Device \<or> ci_revokedAt r \<noteq> None then (m, False)
          else (m\<lparr>mm_credentials := jm_upd i (\<lambda>c. c\<lparr>ci_allowedBackends := allowed\<rparr>) (mm_credentials m)\<rparr>, True))"

definition mem_revokeCredential :: "string \<Rightarrow> int \<Rightarrow> memory_state \<Rightarrow> memory_state \<times> string list" where
  "mem_revokeCredential i now m =
     (case jm_get (mm_credentials m) i of
        None \<Rightarrow> (m, [])
      | Some r \<Rightarrow>
          if ci_revokedAt r \<noteq> None then (m, [])
          else
            (let c1 = jm_upd i (\<lambda>c. c\<lparr>ci_revokedAt := Some now\<rparr>) (mm_credentials m);
                 child = (\<lambda>c. ci_parentId c = Some i \<and> ci_revokedAt c = None)
             in (m\<lparr>mm_credentials := map_vals (\<lambda>c. if child c then c\<lparr>ci_revokedAt := Some now\<rparr> else c) c1\<rparr>,
                 i # map ci_id (filter child (jm_vals c1)))))"

fun mem_revokeCredentials :: "string list \<Rightarrow> int \<Rightarrow> memory_state \<Rightarrow> memory_state \<times> string list" where
  "mem_revokeCredentials [] now m = (m, [])"
| "mem_revokeCredentials (i # ids) now m =
     (let (m1, r1) = mem_revokeCredential i now m; (m2, r2) = mem_revokeCredentials ids now m1 in (m2, r1 @ r2))"

definition mem_findAccessCredential :: "string \<Rightarrow> memory_state \<Rightarrow> credential option" where
  "mem_findAccessCredential parentId m =
     find (\<lambda>c. ci_type c = BackendAccess \<and> ci_parentId c = Some parentId) (jm_vals (mm_credentials m))"

text \<open>The rotated row is read back through its key, which is there.\<close>

definition mem_exchangeAccessCredential ::
  "(string \<Rightarrow> string) \<Rightarrow> credential_info \<Rightarrow> ttl \<Rightarrow> draws \<Rightarrow> int \<Rightarrow> memory_state \<Rightarrow> memory_state \<times> credential_info option \<times> string \<times> bool" where
  "mem_exchangeAccessCredential sha parent t rn now m =
     (case mem_findAccessCredential (ci_id parent) m of
        None \<Rightarrow>
          (case mem_createCredential sha
                  \<lparr>in_type = BackendAccess, in_namespace = ci_namespace parent,
                   in_name = Some (accessCredentialName parent), in_ttl = t,
                   in_parentId = Some (ci_id parent), in_backendId = ci_backendId parent,
                   in_allowedBackends = None\<rparr> rn now m of
             (m1, c, token) \<Rightarrow> (m1, Some c, token, False))
      | Some existing \<Rightarrow>
          (let token = CREDENTIAL_TOKEN_PREFIXES BackendAccess @ rn_token rn;
               m1 = m\<lparr>mm_credentials := jm_upd (ci_id existing)
                       (\<lambda>c. c\<lparr>cr_tokenHash := sha token, ci_namespace := ci_namespace parent,
                              ci_name := accessCredentialName parent, ci_createdAt := now,
                              ci_expiresAt := expiry now (ttl_for BackendAccess t), ci_revokedAt := None,
                              ci_backendId := ci_backendId parent\<rparr>) (mm_credentials m)\<rparr>
           in (m1, map_option credential_info.truncate (mem_getCredentialById (ci_id existing) m1), token, True)))"

definition mem_purgeRevokedCredentials :: "string list option \<Rightarrow> memory_state \<Rightarrow> memory_state \<times> string list" where
  "mem_purgeRevokedCredentials ids m =
     (let deleted = map ci_id (filter (\<lambda>c. ci_revokedAt c \<noteq> None \<and> (case ids of None \<Rightarrow> True | Some wanted \<Rightarrow> ci_id c \<in> set wanted))
                                (jm_vals (mm_credentials m)))
      in (m\<lparr>mm_credentials := fold jm_del deleted (mm_credentials m)\<rparr>, deleted))"

section \<open>The tables the maps stand for\<close>

definition identity_of_entry :: "string \<times> backend_identity \<Rightarrow> identity_row" where
  "identity_of_entry = (\<lambda>(k, i). backend_identity.extend i (identity_row.fields k))"

definition tables :: "memory_state \<Rightarrow> storage" where
  "tables m = \<lparr>st_credentials = jm_vals (mm_credentials m), st_identities = map identity_of_entry (mm_identities m),
               st_maxEpoch = mm_maxEpoch m\<rparr>"

definition mem_ok :: "memory_state \<Rightarrow> bool" where
  "mem_ok m \<longleftrightarrow> st_ok (tables m) \<and> map ci_id (jm_vals (mm_credentials m)) = jm_keys (mm_credentials m)"

subsection \<open>Maps as tables\<close>

lemma vals_map [simp]: "jm_vals (map_vals f m) = map f (jm_vals m)" "jm_keys (map_vals f m) = jm_keys m"
  by (auto simp: jm_vals_def jm_keys_def map_vals_def case_prod_beta)

lemma get_find: "map key (jm_vals m) = jm_keys m \<Longrightarrow> jm_get m k = find (\<lambda>c. key c = k) (jm_vals m)"
  by (induction m) (auto simp: jm_vals_def jm_keys_def)

lemma vals_upd: "map key (jm_vals m) = jm_keys m \<Longrightarrow> jm_vals (jm_upd k f m) = update_where (\<lambda>c. key c = k) f (jm_vals m)"
  by (induction m) (auto simp: jm_vals_def jm_keys_def jm_upd_def update_where_def)

lemma vals_set: "k \<notin> set (jm_keys m) \<Longrightarrow> jm_vals (jm_set k v m) = jm_vals m @ [v]"
  by (induction m) (auto simp: jm_vals_def jm_keys_def jm_set_def)

lemma del_all: "fold jm_del ks m = filter (\<lambda>(k, v). k \<notin> set ks) m"
proof (induction ks arbitrary: m)
  case (Cons k ks)
  then show ?case by (auto simp: jm_del_def AList.delete_eq intro!: filter_cong)
qed simp

lemma vals_del_all: "map key (jm_vals m) = jm_keys m \<Longrightarrow> jm_vals (fold jm_del ks m) = filter (\<lambda>c. key c \<notin> set ks) (jm_vals m)"
  unfolding del_all by (induction m) (auto simp: jm_vals_def jm_keys_def)

lemma keys_del_all: "map key (jm_vals m) = jm_keys m \<Longrightarrow> map key (jm_vals (fold jm_del ks m)) = jm_keys (fold jm_del ks m)"
  unfolding del_all by (induction m) (auto simp: jm_vals_def jm_keys_def)

lemma entry_fields [simp]:
  "bi_key (identity_of_entry (k, i)) = k" "bi_backendId (identity_of_entry (k, i)) = bi_backendId i"
  "bi_name (identity_of_entry (k, i)) = bi_name i" "bi_createdAt (identity_of_entry (k, i)) = bi_createdAt i"
  "bi_lastCredentialId (identity_of_entry (k, i)) = bi_lastCredentialId i"
  "backend_identity.truncate (identity_of_entry (k, i)) = i"
  by (cases i; simp add: identity_of_entry_def backend_identity.extend_def identity_row.fields_def backend_identity.truncate_def)+

lemma entry_updates [simp]:
  "identity_of_entry (k, i\<lparr>bi_name := n\<rparr>) = (identity_of_entry (k, i))\<lparr>bi_name := n\<rparr>"
  "identity_of_entry (k, i\<lparr>bi_updatedAt := t\<rparr>) = (identity_of_entry (k, i))\<lparr>bi_updatedAt := t\<rparr>"
  "identity_of_entry (k, i\<lparr>bi_lastSeenAt := l\<rparr>) = (identity_of_entry (k, i))\<lparr>bi_lastSeenAt := l\<rparr>"
  "identity_of_entry (k, i\<lparr>bi_lastCredentialId := c\<rparr>) = (identity_of_entry (k, i))\<lparr>bi_lastCredentialId := c\<rparr>"
  by (cases i; simp add: identity_of_entry_def backend_identity.extend_def identity_row.fields_def)+

lemma get_identity: "find (\<lambda>r. bi_key r = key) (map identity_of_entry ids) = map_option (\<lambda>i. identity_of_entry (key, i)) (jm_get ids key)"
  by (induction ids) auto

lemma mem_ids: "mem_ok m \<Longrightarrow> map ci_id (jm_vals (mm_credentials m)) = jm_keys (mm_credentials m)"
  by (simp add: mem_ok_def)

lemma mem_get: "mem_ok m \<Longrightarrow> mem_getCredentialById i m = getCredentialById i (tables m)"
  by (simp add: mem_getCredentialById_def getCredentialById_def tables_def get_find [OF mem_ids])

lemma mem_hash: "mem_getCredentialByHash h m = getCredentialByHash h (tables m)"
  by (simp add: mem_getCredentialByHash_def getCredentialByHash_def tables_def)

lemma mem_parent: "mem_ok m \<Longrightarrow> mem_parent_refuses now m p = parent_refuses now (tables m) p"
  by (simp add: mem_parent_refuses_def parent_refuses_def mem_get split: option.split)

lemma mem_access: "mem_findAccessCredential p m = findAccessCredential p (tables m)"
  by (simp add: mem_findAccessCredential_def findAccessCredential_def tables_def)

lemma keys_of_upd: "map ci_id (jm_vals m) = jm_keys m \<Longrightarrow> (\<And>c. ci_id (f c) = ci_id c) \<Longrightarrow> map ci_id (jm_vals (jm_upd k f m)) = jm_keys (jm_upd k f m)"
  by (induction m) (auto simp: jm_vals_def jm_keys_def jm_upd_def)

text \<open>What an operation must do: the same on the tables, with keys still the ids.\<close>

definition agrees :: "memory_state \<Rightarrow> storage \<Rightarrow> bool" where
  "agrees m s \<longleftrightarrow> tables m = s \<and> map ci_id (jm_vals (mm_credentials m)) = jm_keys (mm_credentials m)"

lemma agrees_get: "agrees m s \<Longrightarrow> mem_getCredentialById i m = getCredentialById i s"
  by (auto simp: agrees_def mem_getCredentialById_def getCredentialById_def get_find tables_def)

lemma agrees_find:
  assumes "mem_ok m"
  shows "agrees (fst (mem_findValidCredential sha tok now m)) (fst (findValidCredential sha tok now (tables m)))
    \<and> snd (mem_findValidCredential sha tok now m) = map_option (\<lambda>c. c\<lparr>ci_lastUsedAt := Some now\<rparr>) (snd (findValidCredential sha tok now (tables m)))"
  using assms mem_ids [OF assms]
  by (auto simp: agrees_def mem_findValidCredential_def findValidCredential_def mem_hash mem_parent tables_def
      vals_upd keys_of_upd update_where_map credential_info.truncate_def split: option.split)

text \<open>A statement on one id, on the row it has.\<close>

lemma one_row:
  assumes "distinct (map key rows)"
  shows "list_ex (\<lambda>c. key c = i \<and> Q c) rows = (case find (\<lambda>c. key c = i) rows of None \<Rightarrow> False | Some r \<Rightarrow> Q r)"
    and "update_where (\<lambda>c. key c = i \<and> Q c) f rows =
      (case find (\<lambda>c. key c = i) rows of None \<Rightarrow> rows | Some r \<Rightarrow> if Q r then update_where (\<lambda>c. key c = i) f rows else rows)"
proof -
  show "list_ex (\<lambda>c. key c = i \<and> Q c) rows = (case find (\<lambda>c. key c = i) rows of None \<Rightarrow> False | Some r \<Rightarrow> Q r)"
    using assms by (induction rows) (auto simp: list_ex_iff image_iff split: option.split)
  have none: "i \<notin> key ` set rows \<Longrightarrow> update_where (\<lambda>c. key c = i \<and> Q c) f rows = rows" for rows
    by (auto simp: update_where_def intro!: map_idI)
  have other: "i \<notin> key ` set rows \<Longrightarrow> update_where (\<lambda>c. key c = i) f rows = rows" for rows
    by (auto simp: update_where_def intro!: map_idI)
  show "update_where (\<lambda>c. key c = i \<and> Q c) f rows =
      (case find (\<lambda>c. key c = i) rows of None \<Rightarrow> rows | Some r \<Rightarrow> if Q r then update_where (\<lambda>c. key c = i) f rows else rows)"
    using assms
  proof (induction rows)
    case (Cons x rows)
    then show ?case
      using none [of rows] other [of rows]
      by (auto simp: update_where_def split: option.split)
  qed (simp add: update_where_def)
qed

lemma tables_distinct: "st_ok (tables m) \<Longrightarrow> distinct (map ci_id (jm_vals (mm_credentials m)))"
  by (simp add: st_ok_def tables_def)

lemma mem_distinct: "mem_ok m \<Longrightarrow> distinct (map ci_id (jm_vals (mm_credentials m)))"
  unfolding mem_ok_def by (blast intro: tables_distinct)

lemma agrees_scope:
  assumes "mem_ok m"
  shows "agrees (fst (mem_setAllowedBackends i a m)) (fst (setAllowedBackends i a (tables m)))
    \<and> snd (mem_setAllowedBackends i a m) = snd (setAllowedBackends i a (tables m))"
  using mem_ids [OF assms]
  by (auto simp: agrees_def mem_setAllowedBackends_def setAllowedBackends_def tables_def one_row [OF mem_distinct [OF assms]]
      get_find [of ci_id] vals_upd [of ci_id] keys_of_upd update_where_map split: option.split)

lemma agrees_bind:
  assumes "mem_ok m"
  shows "agrees (fst (mem_bindBackendCredential i b m)) (fst (bindBackendCredential i b (tables m)))
    \<and> snd (mem_bindBackendCredential i b m) = snd (bindBackendCredential i b (tables m))"
proof (cases "find (\<lambda>c. ci_id c = i) (jm_vals (mm_credentials m))")
  case None
  then show ?thesis
    using mem_ids [OF assms]
    by (simp add: agrees_def mem_bindBackendCredential_def bindBackendCredential_def tables_def one_row [OF mem_distinct [OF assms]]
        get_find [of ci_id])
next
  case (Some r)
  show ?thesis
  proof (cases "ci_type r = Backend \<and> ci_revokedAt r = None \<and> ci_backendId r = None")
    case False
    then show ?thesis
      using mem_ids [OF assms] Some
      by (auto simp: agrees_def mem_bindBackendCredential_def bindBackendCredential_def tables_def one_row [OF mem_distinct [OF assms]]
          get_find [of ci_id])
  next
    case True
    have r: "ci_id c = i \<Longrightarrow> c \<in> set (jm_vals (mm_credentials m)) \<Longrightarrow> c = r" for c
      using Some mem_distinct [OF assms] by (metis find_key_iff option.inject)
    have "update_where (\<lambda>c. ci_parentId c = Some i \<and> ci_revokedAt c = None) (\<lambda>c. c\<lparr>ci_backendId := Some b\<rparr>)
        (update_where (\<lambda>c. ci_id c = i) (\<lambda>c. c\<lparr>ci_backendId := Some b\<rparr>) (jm_vals (mm_credentials m)))
      = map (\<lambda>c. if (ci_id c = i \<or> ci_parentId c = Some i) \<and> ci_revokedAt c = None then c\<lparr>ci_backendId := Some b\<rparr> else c) (jm_vals (mm_credentials m))"
      using r True by (auto simp: update_where_def)
    moreover have "map ci_id (map (\<lambda>c. if (ci_id c = i \<or> ci_parentId c = Some i) \<and> ci_revokedAt c = None then c\<lparr>ci_backendId := Some b\<rparr> else c)
        (jm_vals (mm_credentials m))) = jm_keys (mm_credentials m)"
      using mem_ids [OF assms] by (simp add: comp_def if_distrib cong: if_cong)
    ultimately show ?thesis
      using Some True
      by (simp add: agrees_def mem_bindBackendCredential_def bindBackendCredential_def tables_def one_row [OF mem_distinct [OF assms]]
          get_find [OF mem_ids [OF assms]] Let_def del: map_map)
  qed
qed

lemma map_update_where: "map (\<lambda>c. if P c then f c else c) rows = update_where P f rows"
  by (simp add: update_where_def)

lemma agrees_revoke:
  assumes "mem_ok m"
  shows "agrees (fst (mem_revokeCredential i now m)) (fst (revokeCredential i now (tables m)))
    \<and> snd (mem_revokeCredential i now m) = snd (revokeCredential i now (tables m))"
  using mem_ids [OF assms]
  by (auto simp: agrees_def mem_revokeCredential_def revokeCredential_def tables_def one_row [OF mem_distinct [OF assms]]
      get_find [OF mem_ids [OF assms]] vals_upd [OF mem_ids [OF assms]] keys_of_upd Let_def map_update_where update_where_map
      simp del: map_map split: option.split)

lemma agrees_purge:
  assumes "mem_ok m"
  shows "agrees (fst (mem_purgeRevokedCredentials ids m)) (fst (purgeRevokedCredentials ids (tables m)))
    \<and> snd (mem_purgeRevokedCredentials ids m) = snd (purgeRevokedCredentials ids (tables m))"
proof -
  let ?P = "\<lambda>c. ci_revokedAt c \<noteq> None \<and> (case ids of None \<Rightarrow> True | Some wanted \<Rightarrow> ci_id c \<in> set wanted)"
  let ?v = "jm_vals (mm_credentials m)"
  have "ci_id c \<in> set (map ci_id (filter ?P ?v)) \<longleftrightarrow> ?P c" if "c \<in> set ?v" for c
    using that mem_distinct [OF assms] by (auto simp: distinct_map inj_on_def)
  then have f: "filter (\<lambda>c. ci_id c \<notin> set (map ci_id (filter ?P ?v))) ?v = delete_where ?P ?v"
    unfolding delete_where_def by (intro filter_cong refl) blast
  have v: "jm_vals (fold jm_del (map ci_id (filter ?P ?v)) (mm_credentials m)) = delete_where ?P ?v"
    unfolding vals_del_all [OF mem_ids [OF assms]] by (rule f)
  show ?thesis
    using keys_del_all [OF mem_ids [OF assms], of "map ci_id (filter ?P ?v)"]
    unfolding agrees_def mem_purgeRevokedCredentials_def purgeRevokedCredentials_def Let_def
    by (simp add: tables_def v del: set_map set_filter not_None_eq)
qed

text \<open>The operations that insert; where the tables take the row, the key is new to the map.\<close>

lemma entries_new: "jm_get ids key = None \<Longrightarrow> map identity_of_entry (jm_set key i ids) = map identity_of_entry ids @ [identity_of_entry (key, i)]"
  by (induction ids) (auto simp: jm_set_def split: if_splits)

lemma entry_made: "identity_of_entry (key, \<lparr>bi_backendId = b, bi_tenant = tn, bi_namespace = ns, bi_instanceId = is, bi_environment = e, bi_name = n,
    bi_createdAt = c, bi_updatedAt = u, bi_lastCredentialId = lc, bi_lastSeenAt = ls\<rparr>)
  = \<lparr>bi_backendId = b, bi_tenant = tn, bi_namespace = ns, bi_instanceId = is, bi_environment = e, bi_name = n,
    bi_createdAt = c, bi_updatedAt = u, bi_lastCredentialId = lc, bi_lastSeenAt = ls, bi_key = key\<rparr>"
  by (simp add: identity_of_entry_def backend_identity.extend_def identity_row.fields_def)

lemma no_entry: "(\<forall>r\<in>set (map identity_of_entry ids). bi_key r \<noteq> key) \<longleftrightarrow> jm_get ids key = None"
proof (induction ids)
  case (Cons x ids)
  then show ?case by (cases x) auto
qed simp

lemma agrees_bound:
  assumes "mem_ok m" and "snd (createBoundBackendIdentity ns name uuid now (tables m)) = Inr b"
  shows "agrees (fst (mem_createBoundBackendIdentity ns name uuid now m)) (fst (createBoundBackendIdentity ns name uuid now (tables m)))
    \<and> snd (mem_createBoundBackendIdentity ns name uuid now m) = b"
proof -
  have "jm_get (mm_identities m) (boundIdentityKey uuid) = None"
    using assms(2) no_entry [of "mm_identities m"]
    by (auto simp: createBoundBackendIdentity_def insert_identity_def tables_def split: if_splits)
  then show ?thesis
    using assms(2) mem_ids [OF assms(1)]
    by (auto simp: agrees_def mem_createBoundBackendIdentity_def createBoundBackendIdentity_def insert_identity_def tables_def
        entries_new entry_made split: if_splits)
qed

lemma agrees_identify:
  assumes "mem_ok m" and "snd (getOrCreateBackendIdV4 ns inst env name uuid now (tables m)) = Inr b"
  shows "agrees (fst (mem_getOrCreateBackendIdV4 ns inst env name uuid now m)) (fst (getOrCreateBackendIdV4 ns inst env name uuid now (tables m)))
    \<and> snd (mem_getOrCreateBackendIdV4 ns inst env name uuid now m) = b"
proof -
  define key where "key = backendIdentityKey ns inst env []"
  have upd: "map identity_of_entry (jm_upd key (\<lambda>i. i\<lparr>bi_name := n, bi_updatedAt := now\<rparr>) ids)
      = update_where (\<lambda>r. bi_key r = key) (\<lambda>r. r\<lparr>bi_name := n, bi_updatedAt := now\<rparr>) (map identity_of_entry ids)" for n ids
    by (induction ids) (auto simp: jm_upd_def update_where_def)
  show ?thesis
    using assms(2) mem_ids [OF assms(1)] unfolding mem_getOrCreateBackendIdV4_def getOrCreateBackendIdV4_def key_def [symmetric] Let_def
    by (auto simp: agrees_def insert_identity_def tables_def get_identity entries_new upd entry_made split: option.splits if_splits)
qed

lemma agrees_add:
  assumes "tables m = s" and "map ci_id (jm_vals (mm_credentials m)) = jm_keys (mm_credentials m)"
    and "snd (insert_credential c s) = Inr ()"
  shows "agrees (m\<lparr>mm_credentials := jm_set (ci_id c) c (mm_credentials m)\<rparr>) (fst (insert_credential c s))"
proof -
  have "ci_id c \<notin> set (jm_keys (mm_credentials m))"
    using assms by (auto simp: insert_credential_def tables_def assms(2) [symmetric] split: if_splits)
  with assms show ?thesis
    by (auto simp: agrees_def insert_credential_def tables_def vals_set split: if_splits)
qed

lemma backend_agrees:
  assumes "mem_ok m" and "snd (credential_backend inp rn now (tables m)) = Inr b"
  shows "agrees (fst (mem_credential_backend inp rn now m)) (fst (credential_backend inp rn now (tables m)))
    \<and> snd (mem_credential_backend inp rn now m) = b"
proof (cases "in_type inp = Backend \<and> in_backendId inp = None")
  case True
  define nm where "nm = (case in_name inp of None \<Rightarrow> [] | Some n \<Rightarrow> n)"
  obtain b' where b: "snd (createBoundBackendIdentity (in_namespace inp) nm (rn_backendId rn) now (tables m)) = Inr b'" "b = Some b'"
    using assms(2) True by (auto simp: credential_backend_def nm_def [symmetric] split: prod.splits sum.splits)
  from agrees_bound [OF assms(1) b(1)] b True show ?thesis
    by (auto simp: mem_credential_backend_def credential_backend_def nm_def [symmetric] split: prod.splits sum.splits)
next
  case False
  with assms mem_ids [OF assms(1)] show ?thesis
    by (auto simp: mem_credential_backend_def credential_backend_def agrees_def split: option.splits if_splits)
qed

lemma agrees_create:
  assumes "mem_ok m" and "snd (createCredential sha inp rn now (tables m)) = Inr (c, token)"
  shows "agrees (fst (mem_createCredential sha inp rn now m)) (fst (createCredential sha inp rn now (tables m)))
    \<and> snd (mem_createCredential sha inp rn now m) = (c, token)"
proof -
  obtain s1 b where b: "credential_backend inp rn now (tables m) = (s1, Inr b)"
    using assms(2) by (auto simp: createCredential_def split: prod.splits sum.splits)
  obtain m1 b' where m1: "mem_credential_backend inp rn now m = (m1, b')" by fastforce
  have a: "agrees m1 s1" "b' = b" using backend_agrees [OF assms(1), of inp rn now b] b m1 by simp_all
  let ?c = "new_credential sha inp rn now b"
  have i: "snd (insert_credential ?c s1) = Inr ()"
    using assms(2) b by (auto simp: createCredential_def Let_def split: prod.splits sum.splits)
  have "agrees (m1\<lparr>mm_credentials := jm_set (ci_id ?c) ?c (mm_credentials m1)\<rparr>) (fst (insert_credential ?c s1))"
    by (rule agrees_add) (use a i in \<open>simp_all add: agrees_def\<close>)
  with a i b m1 assms(2) show ?thesis
    by (auto simp: createCredential_def mem_createCredential_def Let_def split: prod.splits sum.splits)
qed

lemma agrees_exchange:
  assumes "mem_ok m" and "snd (exchangeAccessCredential sha p t rn now (tables m)) = Inr (c, token, rotated)"
  shows "agrees (fst (mem_exchangeAccessCredential sha p t rn now m)) (fst (exchangeAccessCredential sha p t rn now (tables m)))
    \<and> snd (mem_exchangeAccessCredential sha p t rn now m) = (Some c, token, rotated)"
proof (cases "findAccessCredential (ci_id p) (tables m)")
  case None
  define inp where "inp = \<lparr>in_type = BackendAccess, in_namespace = ci_namespace p, in_name = Some (accessCredentialName p), in_ttl = t,
    in_parentId = Some (ci_id p), in_backendId = ci_backendId p, in_allowedBackends = None\<rparr>"
  have "snd (createCredential sha inp rn now (tables m)) = Inr (c, token)" "\<not> rotated"
    using assms(2) None by (auto simp: exchangeAccessCredential_def inp_def split: prod.splits sum.splits)
  with agrees_create [OF assms(1) this(1)] None show ?thesis
    by (auto simp: exchangeAccessCredential_def mem_exchangeAccessCredential_def mem_access inp_def split: prod.splits sum.splits)
next
  case (Some r)
  let ?f = "\<lambda>c. c\<lparr>cr_tokenHash := sha (CREDENTIAL_TOKEN_PREFIXES BackendAccess @ rn_token rn), ci_namespace := ci_namespace p,
      ci_name := accessCredentialName p, ci_createdAt := now, ci_expiresAt := expiry now (ttl_for BackendAccess t), ci_revokedAt := None,
      ci_backendId := ci_backendId p\<rparr>"
  let ?m = "m\<lparr>mm_credentials := jm_upd (ci_id r) ?f (mm_credentials m)\<rparr>"
  let ?s = "(tables m)\<lparr>st_credentials := update_where (\<lambda>c. ci_id c = ci_id r) ?f (st_credentials (tables m))\<rparr>"
  have a: "agrees ?m ?s"
    using mem_ids [OF assms(1)] by (simp add: agrees_def tables_def vals_upd [OF mem_ids [OF assms(1)]] update_where_map)
  have g: "mem_getCredentialById (ci_id r) ?m = getCredentialById (ci_id r) ?s"
    by (rule agrees_get [OF a])
  have "fst (exchangeAccessCredential sha p t rn now (tables m)) = ?s" "getCredential (ci_id r) ?s = Some c"
      "token = CREDENTIAL_TOKEN_PREFIXES BackendAccess @ rn_token rn" "rotated"
    using assms(2) Some by (auto simp: exchangeAccessCredential_def Let_def split: if_splits option.splits)
  with a g Some show ?thesis
    by (simp add: mem_exchangeAccessCredential_def mem_access Let_def getCredential_def)
qed

lemma agrees_touch:
  assumes "mem_ok m" and "c \<noteq> Some []"
  shows "agrees (mem_touchBackendIdentity b c n now m) (touchBackendIdentity b c n now (tables m))"
proof -
  have "map identity_of_entry (map_vals (\<lambda>i. if bi_backendId i \<noteq> b then i
        else i\<lparr>bi_lastSeenAt := Some now,
               bi_lastCredentialId := (case c of Some c \<Rightarrow> if c = [] then bi_lastCredentialId i else Some c | None \<Rightarrow> bi_lastCredentialId i),
               bi_name := (case n of Some n \<Rightarrow> if n = [] then bi_name i else n | None \<Rightarrow> bi_name i)\<rparr>) ids)
    = update_where (\<lambda>r. bi_backendId r = b)
        (\<lambda>r. r\<lparr>bi_lastSeenAt := Some now,
               bi_lastCredentialId := (case c of Some c \<Rightarrow> Some c | None \<Rightarrow> bi_lastCredentialId r),
               bi_name := (case n of Some n \<Rightarrow> if n = [] then bi_name r else n | None \<Rightarrow> bi_name r)\<rparr>) (map identity_of_entry ids)" for ids
    using assms(2) by (induction ids) (auto simp: map_vals_def update_where_def split: option.splits)
  with mem_ids [OF assms(1)] show ?thesis
    by (simp add: agrees_def mem_touchBackendIdentity_def touchBackendIdentity_def tables_def)
qed

lemma agrees_forget:
  assumes "mem_ok m"
  shows "agrees (fst (mem_deleteBackendIdentity b m)) (fst (deleteBackendIdentity b (tables m)))
    \<and> snd (mem_deleteBackendIdentity b m) = snd (deleteBackendIdentity b (tables m))"
proof -
  have d: "distinct (map bi_key (map identity_of_entry (mm_identities m)))" "distinct (map bi_backendId (map identity_of_entry (mm_identities m)))"
    using assms by (simp_all add: mem_ok_def st_ok_def tables_def)
  have "case find (\<lambda>(key, identity). bi_backendId identity = b) ids of
      None \<Rightarrow> delete_where (\<lambda>r. bi_backendId r = b) (map identity_of_entry ids) = map identity_of_entry ids
        \<and> \<not> (\<exists>r\<in>set (map identity_of_entry ids). bi_backendId r = b)
    | Some (key, i) \<Rightarrow> delete_where (\<lambda>r. bi_backendId r = b) (map identity_of_entry ids) = map identity_of_entry (jm_del key ids)
        \<and> (\<exists>r\<in>set (map identity_of_entry ids). bi_backendId r = b)"
    if "distinct (map bi_key (map identity_of_entry ids))" "distinct (map bi_backendId (map identity_of_entry ids))" for ids
    using that
  proof (induction ids)
    case (Cons x ids)
    obtain k i where x: "x = (k, i)" by (cases x)
    have other: "delete_where (\<lambda>r. bi_backendId r = b) (map identity_of_entry ids) = map identity_of_entry ids" if "b \<notin> bi_backendId ` identity_of_entry ` set ids"
      using that by (auto simp: delete_where_def filter_id_conv)
    have nokey: "jm_del k ids = ids"
      using Cons.prems x by (auto simp: jm_del_def AList.delete_eq filter_id_conv image_iff)
    show ?case
      using Cons other nokey by (auto simp: x delete_where_def jm_del_def image_iff split: option.splits dest!: find_SomeD)
  qed (simp add: delete_where_def)
  from this [OF d] mem_ids [OF assms] show ?thesis
    by (auto simp: agrees_def mem_deleteBackendIdentity_def deleteBackendIdentity_def tables_def split: option.splits)
qed

lemma insort_map: "(\<And>x. k' (g x) = k x) \<Longrightarrow> insort_key k' (g a) (map g ys) = map g (insort_key k a ys)"
  by (induction ys) auto

lemma sort_map: "(\<And>x. k' (g x) = k x) \<Longrightarrow> sort_key k' (map g xs) = map g (sort_key k xs)"
  by (induction xs) (auto simp: insort_map)

section \<open>Any sequence of operations\<close>

fun mem_step :: "(string \<Rightarrow> string) \<Rightarrow> storage_op \<Rightarrow> memory_state \<Rightarrow> memory_state" where
  "mem_step sha (SCreate inp rn now) m = fst (mem_createCredential sha inp rn now m)"
| "mem_step sha (SFind tok now) m = fst (mem_findValidCredential sha tok now m)"
| "mem_step sha (SBind i b) m = fst (mem_bindBackendCredential i b m)"
| "mem_step sha (SScope i a) m = fst (mem_setAllowedBackends i a m)"
| "mem_step sha (SRevoke i now) m = fst (mem_revokeCredential i now m)"
| "mem_step sha (SRevokes is now) m = fst (mem_revokeCredentials is now m)"
| "mem_step sha (SExchange p t rn now) m = fst (mem_exchangeAccessCredential sha p t rn now m)"
| "mem_step sha (SPurge ids) m = fst (mem_purgeRevokedCredentials ids m)"
| "mem_step sha (SIdentify ns i e n u now) m = fst (mem_getOrCreateBackendIdV4 ns i e n u now m)"
| "mem_step sha (STouch b c n now) m = mem_touchBackendIdentity b c n now m"
| "mem_step sha (SForget b) m = fst (mem_deleteBackendIdentity b m)"
| "mem_step sha SEpoch m = fst (mem_allocateEpoch m)"

definition mem_run :: "(string \<Rightarrow> string) \<Rightarrow> storage_op list \<Rightarrow> memory_state \<Rightarrow> memory_state" where
  "mem_run sha ops m = fold (mem_step sha) ops m"

text \<open>What the tables refuse, by a unique constraint, and the empty id that COALESCE takes for one.\<close>

fun refused :: "(string \<Rightarrow> string) \<Rightarrow> storage_op \<Rightarrow> storage \<Rightarrow> bool" where
  "refused sha (SCreate inp rn now) s = isl (snd (createCredential sha inp rn now s))"
| "refused sha (SExchange p t rn now) s = isl (snd (exchangeAccessCredential sha p t rn now s))"
| "refused sha (SIdentify ns i e n u now) s = isl (snd (getOrCreateBackendIdV4 ns i e n u now s))"
| "refused sha (STouch b c n now) s = (c = Some [])"
| "refused sha _ s = False"

fun all_taken :: "(string \<Rightarrow> string) \<Rightarrow> storage_op list \<Rightarrow> storage \<Rightarrow> bool" where
  "all_taken sha [] s = True"
| "all_taken sha (x # xs) s = (\<not> refused sha x s \<and> all_taken sha xs (st_step sha x s))"

lemma agrees_ok: "agrees m s \<Longrightarrow> st_ok s \<Longrightarrow> mem_ok m"
  by (auto simp: agrees_def mem_ok_def)

lemma agrees_self: "mem_ok m \<Longrightarrow> agrees m (tables m)"
  by (simp add: agrees_def mem_ok_def)

lemma agrees_revokes:
  assumes "mem_ok m"
  shows "agrees (fst (mem_revokeCredentials ids now m)) (fst (revokeCredentials ids now (tables m)))
    \<and> snd (mem_revokeCredentials ids now m) = snd (revokeCredentials ids now (tables m))"
  using assms
proof (induction ids arbitrary: m)
  case Nil
  then show ?case by (simp add: agrees_self)
next
  case (Cons i ids)
  have a: "agrees (fst (mem_revokeCredential i now m)) (fst (revokeCredential i now (tables m)))"
    "snd (mem_revokeCredential i now m) = snd (revokeCredential i now (tables m))"
    using agrees_revoke [OF Cons.prems] by simp_all
  have "mem_ok (fst (mem_revokeCredential i now m))"
    by (rule agrees_ok [OF a(1)]) (use Cons.prems in \<open>simp add: mem_ok_def st_ok_revoke\<close>)
  from Cons.IH [OF this] a show ?case by (simp add: case_prod_beta Let_def agrees_def)
qed

lemma agrees_step:
  assumes "mem_ok m" and "\<not> refused sha x (tables m)"
  shows "agrees (mem_step sha x m) (st_step sha x (tables m))"
proof (cases x)
  case (SEpoch)
  with mem_ids [OF assms(1)] show ?thesis by (simp add: agrees_def mem_allocateEpoch_def allocateEpoch_def tables_def Let_def)
next
  case (SCreate inp rn now)
  with assms(2) obtain c token where "snd (createCredential sha inp rn now (tables m)) = Inr (c, token)"
    by (cases "snd (createCredential sha inp rn now (tables m))") auto
  with SCreate agrees_create [OF assms(1)] show ?thesis by simp
next
  case (SExchange p t rn now)
  with assms(2) obtain c token rot where "snd (exchangeAccessCredential sha p t rn now (tables m)) = Inr (c, token, rot)"
    by (cases "snd (exchangeAccessCredential sha p t rn now (tables m))") auto
  with SExchange agrees_exchange [OF assms(1)] show ?thesis by simp
next
  case (SIdentify ns i e n u now)
  with assms(2) obtain b where "snd (getOrCreateBackendIdV4 ns i e n u now (tables m)) = Inr b"
    by (cases "snd (getOrCreateBackendIdV4 ns i e n u now (tables m))") auto
  with SIdentify agrees_identify [OF assms(1)] show ?thesis by simp
qed (use assms in \<open>simp_all add: agrees_find agrees_scope agrees_bind agrees_revoke agrees_revokes agrees_purge agrees_touch agrees_forget\<close>)

lemma memory_run:
  assumes "mem_ok m" and "all_taken sha ops (tables m)"
  shows "mem_ok (mem_run sha ops m) \<and> tables (mem_run sha ops m) = st_run sha ops (tables m)"
  using assms
proof (induction ops arbitrary: m)
  case (Cons x xs)
  have a: "agrees (mem_step sha x m) (st_step sha x (tables m))"
    by (rule agrees_step [OF Cons.prems(1)]) (use Cons.prems(2) in simp)
  have "mem_ok (mem_step sha x m)"
    by (rule agrees_ok [OF a]) (use Cons.prems(1) in \<open>simp add: mem_ok_def st_ok_step\<close>)
  with Cons.IH [OF this] Cons.prems(2) a show ?case by (simp add: mem_run_def st_run_def agrees_def)
qed (simp add: mem_run_def st_run_def)

text \<open>
  C21. The in-memory store the tests use is the SQLite store.  Take any operations from the empty store that the
  tables take, which is to say that none violates a unique constraint, and that no touch of an identity names the
  empty credential id, which the tables would write and the maps would not.  Then the maps hold the tables' rows in
  their order, and the next operation, whichever it is, answers the same: lookups, lists, bindings, scopes,
  revocations, purges, deletions and epochs always, a resolved token with the time of this use in the maps' answer
  and the one before in the tables', and a creation, an exchange or an identity whenever the tables take it.
\<close>

theorem memory_equivalent:
  assumes "all_taken sha ops empty_storage"
  shows "let m = mem_run sha ops new_memory; s = st_run sha ops empty_storage
    in tables m = s \<and> mem_listCredentials m = listCredentials s \<and> mem_listBackendIdentities m = listBackendIdentities s
       \<and> map_option credential_info.truncate (mem_getCredentialById i m) = getCredential i s
       \<and> snd (mem_findValidCredential sha tok now m) = map_option (\<lambda>c. c\<lparr>ci_lastUsedAt := Some now\<rparr>) (snd (findValidCredential sha tok now s))
       \<and> snd (mem_bindBackendCredential i b m) = snd (bindBackendCredential i b s)
       \<and> snd (mem_setAllowedBackends i a m) = snd (setAllowedBackends i a s)
       \<and> snd (mem_revokeCredential i now m) = snd (revokeCredential i now s)
       \<and> snd (mem_revokeCredentials ids now m) = snd (revokeCredentials ids now s)
       \<and> snd (mem_purgeRevokedCredentials wanted m) = snd (purgeRevokedCredentials wanted s)
       \<and> snd (mem_deleteBackendIdentity b m) = snd (deleteBackendIdentity b s)
       \<and> snd (mem_allocateEpoch m) = snd (allocateEpoch s) \<and> mem_getMaxEpoch m = getMaxEpoch s
       \<and> (case snd (createCredential sha inp rn now s) of Inl _ \<Rightarrow> True
          | Inr (c, token) \<Rightarrow> snd (mem_createCredential sha inp rn now m) = (c, token))
       \<and> (case snd (exchangeAccessCredential sha p t rn now s) of Inl _ \<Rightarrow> True
          | Inr (c, token, rotated) \<Rightarrow> snd (mem_exchangeAccessCredential sha p t rn now m) = (Some c, token, rotated))
       \<and> (case snd (getOrCreateBackendIdV4 ns inst env name uuid now s) of Inl _ \<Rightarrow> True
          | Inr backendId \<Rightarrow> snd (mem_getOrCreateBackendIdV4 ns inst env name uuid now m) = backendId)"
proof -
  have e: "tables new_memory = empty_storage" "mem_ok new_memory"
    by (simp_all add: tables_def new_memory_def empty_storage_def jm_vals_def mem_ok_def st_ok_def access_unique_def jm_keys_def)
  from memory_run [OF e(2), of sha ops] assms have m: "mem_ok (mem_run sha ops new_memory)" "tables (mem_run sha ops new_memory) = st_run sha ops empty_storage"
    by (simp_all add: e)
  have new: "case snd (createCredential sha inp rn now (tables n)) of Inl _ \<Rightarrow> True
      | Inr (c, token) \<Rightarrow> snd (mem_createCredential sha inp rn now n) = (c, token)"
    "case snd (exchangeAccessCredential sha p t rn now (tables n)) of Inl _ \<Rightarrow> True
      | Inr (c, token, rotated) \<Rightarrow> snd (mem_exchangeAccessCredential sha p t rn now n) = (Some c, token, rotated)"
    "case snd (getOrCreateBackendIdV4 ns inst env name uuid now (tables n)) of Inl _ \<Rightarrow> True
      | Inr backendId \<Rightarrow> snd (mem_getOrCreateBackendIdV4 ns inst env name uuid now n) = backendId" if "mem_ok n" for n
    using agrees_create [OF that] agrees_exchange [OF that] agrees_identify [OF that] by (auto split: sum.split)
  have "mem_listBackendIdentities n = listBackendIdentities (tables n)" for n
  proof -
    have "sort_key (\<lambda>i. - bi_createdAt i) (map snd ids) = map backend_identity.truncate (sort_key (\<lambda>i. - bi_createdAt i) (map identity_of_entry ids))" for ids
    proof -
      have "map snd ids = map backend_identity.truncate (map identity_of_entry ids)" by (auto simp: case_prod_beta)
      moreover have "sort_key (\<lambda>i. - bi_createdAt i) (map backend_identity.truncate xs) = map backend_identity.truncate (sort_key (\<lambda>i. - bi_createdAt i) xs)"
        for xs :: "identity_row list"
        by (rule sort_map) (simp add: backend_identity.truncate_def)
      ultimately show ?thesis by (simp only:)
    qed
    then show ?thesis by (simp add: mem_listBackendIdentities_def listBackendIdentities_def order_by_created_desc_def tables_def jm_vals_def)
  qed
  moreover have "map_option credential_info.truncate (mem_getCredentialById i n) = getCredential i (tables n)" if "mem_ok n" for n
    using mem_get [OF that] by (simp add: getCredential_def)
  moreover have "snd (mem_allocateEpoch n) = snd (allocateEpoch (tables n))" "mem_getMaxEpoch n = getMaxEpoch (tables n)" for n
    by (simp_all add: mem_allocateEpoch_def allocateEpoch_def mem_getMaxEpoch_def getMaxEpoch_def tables_def Let_def)
  moreover have "mem_listCredentials n = listCredentials (tables n)" for n
    by (simp add: mem_listCredentials_def listCredentials_def order_by_created_desc_def tables_def)
  ultimately show ?thesis
    using agrees_find [OF m(1)] agrees_bind [OF m(1)] agrees_scope [OF m(1)] agrees_revoke [OF m(1)] agrees_revokes [OF m(1)]
      agrees_purge [OF m(1)] agrees_forget [OF m(1)] new [OF m(1)] m(1)
    by (simp add: m(2) Let_def)
qed

definition sample_ops :: "storage_op list" where
  "sample_ops = [SCreate (sample_input Backend ''a'') (sample_draws ''1'') 10, SCreate (sample_input Device ''b'') (sample_draws ''2'') 20,
     SFind ''zgb_1'' 30, SIdentify ''n'' ''i'' ''prod'' (Some ''x'') ''u7'' 40, SEpoch, SRevoke ''c2'' 50, SPurge None]"

lemma memory_equivalent_witness:
  "tables (mem_run (\<lambda>t. t) sample_ops new_memory) = st_run (\<lambda>t. t) sample_ops empty_storage"
proof -
  have "all_taken (\<lambda>t. t) sample_ops empty_storage" by code_simp
  from memory_equivalent [OF this] show ?thesis by (simp add: Let_def)
qed

section \<open>The same authority\<close>

text \<open>The maps keep the laws the gateway relies on, so a revocation is as final there.\<close>

lemma mem_ok_find: "mem_ok m \<Longrightarrow> mem_ok (fst (mem_findValidCredential sha tok now m))"
  by (rule agrees_ok [OF conjunct1 [OF agrees_find]]) (simp_all add: mem_ok_def st_ok_findValid)

lemma mem_ok_revoke: "mem_ok m \<Longrightarrow> mem_ok (fst (mem_revokeCredential i now m))"
  by (rule agrees_ok [OF conjunct1 [OF agrees_revoke]]) (simp_all add: mem_ok_def st_ok_revoke)

lemma mem_row: "mem_ok m \<Longrightarrow> mem_getCredentialById i (fst (mem_findValidCredential sha tok now m))
    = getCredentialById i (fst (findValidCredential sha tok now (tables m)))"
  "mem_ok m \<Longrightarrow> mem_getCredentialById i (fst (mem_revokeCredential j now m)) = getCredentialById i (fst (revokeCredential j now (tables m)))"
  by (rule agrees_get [OF conjunct1 [OF agrees_find]], assumption) (rule agrees_get [OF conjunct1 [OF agrees_revoke]], assumption)

interpretation memory: credential_authority
  mem_ok mem_getCredentialById "mem_findValidCredential sha" mem_revokeCredential for sha
proof (unfold_locales, goal_cases)
  case (3 m i r)
  then show ?case by (auto simp: mem_get dest: row_id)
next
  case (4 m tok now c)
  then obtain d where d: "snd (findValidCredential sha tok now (tables m)) = Some d" "c = d\<lparr>ci_lastUsedAt := Some now\<rparr>"
    using agrees_find [of m sha tok now] by auto
  from sql.resolve_alive [OF _ d(1)] 4(1) d(2) show ?case by (auto simp: mem_get mem_ok_def [of m])
next
  case (5 m i tok now)
  then show ?case using sql.resolve_rows [of "tables m" i sha tok now] by (simp add: mem_row mem_get mem_ok_def [of m])
next
  case (6 m j i now)
  have ok: "st_ok (tables m)" using 6 by (simp add: mem_ok_def)
  note get = agrees_get [OF conjunct1 [OF agrees_revoke [OF 6]]]
  show ?case by (simp only: get mem_get [OF 6] sql.revoke_rows [OF ok])
qed (auto simp: mem_ok_find mem_ok_revoke)

end
