(* ===== verification/Gw_State.thy ===== *)
theory Gw_State
  imports Gw_Json
begin

text \<open>
  src/state.ts: peer sessions, presences, leases and the four maps of \<open>GatewayState\<close>.  The record is
  open, so the server's own state extends it and these operations act on the extension unchanged.
  A WebSocket is a handle; \<open>wsToPeer\<close> holds the session id of the peer object it refers to.  The
  field \<open>leaseTimer\<close> is left out: the only lease the program creates sets it to \<open>null\<close>, so
  \<open>removeLease\<close> and \<open>destroy\<close> clear no timer.
\<close>

type_synonym ws = nat

datatype peer_type = ClientOnly | ClientBackend

record peer_session =
  ps_id :: string
  ps_ws :: ws
  ps_protocolVersion :: int
  ps_peerType :: peer_type
  ps_namespace :: string
  ps_credentialId :: "string option"
  ps_allowedBackends :: "string list option"
  ps_deviceId :: string
  ps_instanceId :: string
  ps_channel :: string
  ps_name :: string
  ps_recoveryToken :: string
  ps_isAlive :: bool
  ps_backendId :: "string option"
  ps_epoch :: "int option"

text \<open>\<open>BackendPresenceV4\<close>; the fields a backend declares keep the JSON values it sent.\<close>

record presence =
  pr_namespace :: string
  pr_backendId :: string
  pr_instanceId :: string
  pr_deviceId :: string
  pr_name :: string
  pr_channel :: string
  pr_visible :: bool
  pr_capabilities :: json
  pr_backendProtocolVersion :: jsnum
  pr_minClientProtocolVersion :: jsval
  pr_epoch :: int
  pr_connectedAt :: int
  pr_lastSeenAt :: int
  pr_gatewayProtocolVersion :: int

record lease =
  le_backendId :: string
  le_epoch :: int
  le_peerSessionId :: string
  le_leaseTtlMs :: int
  le_lastHeartbeatAt :: int

record gstate =
  gs_peers :: "(string, peer_session) jmap"
  gs_wsToPeer :: "(ws, string) jmap"
  gs_registry :: "(string, presence) jmap"
  gs_leases :: "(string, lease) jmap"

definition DEFAULT_LEASE_TTL_MS :: "int option \<Rightarrow> int" where
  "DEFAULT_LEASE_TTL_MS cfg = (case cfg of None \<Rightarrow> 30000 | Some t \<Rightarrow> t)"

definition addPeer :: "peer_session \<Rightarrow> 'a gstate_scheme \<Rightarrow> 'a gstate_scheme" where
  "addPeer peer s =
     s\<lparr>gs_peers := jm_set (ps_id peer) peer (gs_peers s),
       gs_wsToPeer := jm_set (ps_ws peer) (ps_id peer) (gs_wsToPeer s)\<rparr>"

definition removePeer :: "string \<Rightarrow> 'a gstate_scheme \<Rightarrow> 'a gstate_scheme \<times> peer_session option" where
  "removePeer i s =
     (case jm_get (gs_peers s) i of
        None \<Rightarrow> (s, None)
      | Some peer \<Rightarrow>
          (s\<lparr>gs_wsToPeer := jm_del (ps_ws peer) (gs_wsToPeer s), gs_peers := jm_del i (gs_peers s)\<rparr>,
           Some peer))"

definition getPeerByWs :: "ws \<Rightarrow> 'a gstate_scheme \<Rightarrow> peer_session option" where
  "getPeerByWs w s = Option.bind (jm_get (gs_wsToPeer s) w) (jm_get (gs_peers s))"

definition registryUpsert :: "presence \<Rightarrow> 'a gstate_scheme \<Rightarrow> 'a gstate_scheme" where
  "registryUpsert item s = s\<lparr>gs_registry := jm_set (pr_backendId item) item (gs_registry s)\<rparr>"

definition registryRemove :: "string \<Rightarrow> 'a gstate_scheme \<Rightarrow> 'a gstate_scheme" where
  "registryRemove b s = s\<lparr>gs_registry := jm_del b (gs_registry s)\<rparr>"

definition getRegistrySnapshot :: "string \<Rightarrow> 'a gstate_scheme \<Rightarrow> presence list" where
  "getRegistrySnapshot ns s = filter (\<lambda>item. pr_namespace item = ns) (jm_vals (gs_registry s))"

definition addLease :: "lease \<Rightarrow> 'a gstate_scheme \<Rightarrow> 'a gstate_scheme" where
  "addLease l s = s\<lparr>gs_leases := jm_set (le_backendId l) l (gs_leases s)\<rparr>"

definition removeLease :: "string \<Rightarrow> 'a gstate_scheme \<Rightarrow> 'a gstate_scheme" where
  "removeLease b s = s\<lparr>gs_leases := jm_del b (gs_leases s)\<rparr>"

definition removeBackend :: "string \<Rightarrow> 'a gstate_scheme \<Rightarrow> 'a gstate_scheme" where
  "removeBackend b s = removeLease b s"

definition state_destroy :: "'a gstate_scheme \<Rightarrow> 'a gstate_scheme" where
  "state_destroy s = s\<lparr>gs_leases := [], gs_peers := [], gs_wsToPeer := [], gs_registry := []\<rparr>"

text \<open>Writing a field of a peer object that the maps hold.\<close>

definition upd_peer :: "string \<Rightarrow> (peer_session \<Rightarrow> peer_session) \<Rightarrow> 'a gstate_scheme \<Rightarrow> 'a gstate_scheme" where
  "upd_peer i f s = s\<lparr>gs_peers := jm_upd i f (gs_peers s)\<rparr>"

section \<open>Lookups after an operation\<close>

lemma gs_addPeer [simp, frame]:
  "jm_get (gs_peers (addPeer p s)) i = (if i = ps_id p then Some p else jm_get (gs_peers s) i)"
  "jm_get (gs_wsToPeer (addPeer p s)) w = (if w = ps_ws p then Some (ps_id p) else jm_get (gs_wsToPeer s) w)"
  "gs_registry (addPeer p s) = gs_registry s" "gs_leases (addPeer p s) = gs_leases s"
  by (auto simp: addPeer_def)

lemma gs_removePeer [simp, frame]:
  "jm_get (gs_peers (fst (removePeer j s))) i = (if i = j then None else jm_get (gs_peers s) i)"
  "gs_registry (fst (removePeer j s)) = gs_registry s"
  "gs_leases (fst (removePeer j s)) = gs_leases s"
  by (auto simp: removePeer_def split: option.splits)

lemma gs_registry_ops [simp, frame]:
  "gs_peers (registryUpsert x s) = gs_peers s" "gs_wsToPeer (registryUpsert x s) = gs_wsToPeer s"
  "gs_leases (registryUpsert x s) = gs_leases s"
  "gs_registry (registryUpsert x s) = jm_set (pr_backendId x) x (gs_registry s)"
  "gs_peers (registryRemove b s) = gs_peers s" "gs_wsToPeer (registryRemove b s) = gs_wsToPeer s"
  "gs_leases (registryRemove b s) = gs_leases s"
  "gs_registry (registryRemove b s) = jm_del b (gs_registry s)"
  by (auto simp: registryUpsert_def registryRemove_def)

lemma gs_lease_ops [simp, frame]:
  "gs_peers (addLease x s) = gs_peers s" "gs_wsToPeer (addLease x s) = gs_wsToPeer s"
  "gs_registry (addLease x s) = gs_registry s"
  "gs_leases (addLease x s) = jm_set (le_backendId x) x (gs_leases s)"
  "gs_peers (removeLease b s) = gs_peers s" "gs_wsToPeer (removeLease b s) = gs_wsToPeer s"
  "gs_registry (removeLease b s) = gs_registry s"
  "gs_leases (removeLease b s) = jm_del b (gs_leases s)"
  "removeBackend b s = removeLease b s"
  by (auto simp: addLease_def removeLease_def removeBackend_def)

lemma gs_upd_peer [simp, frame]:
  "gs_peers (upd_peer i f s) = jm_upd i f (gs_peers s)" "gs_wsToPeer (upd_peer i f s) = gs_wsToPeer s"
  "gs_registry (upd_peer i f s) = gs_registry s" "gs_leases (upd_peer i f s) = gs_leases s"
  by (auto simp: upd_peer_def)

end
