(* ===== verification/Gw_Model.thy ===== *)
theory Gw_Model
  imports Gw_State Gw_Storage Gw_Admin_Session
begin

text \<open>
  src/server.ts: what \<open>createGatewayServer\<close> closes over.  Its configuration, the messages it puts
  on the wire, the effects it has on sockets and HTTP responses (a log, in the order they happen),
  and the record of every variable its handlers share.  The handlers of the later theories take the
  configuration, the clock and the random values they draw as arguments.

  The \<open>ws\<close> package is not part of the repository.  What the server relies on is how \<open>close()\<close> and
  \<open>terminate()\<close> change a socket's \<open>readyState\<close>: two functions of the configuration.
\<close>

section \<open>Configuration\<close>

datatype ready_state = Connecting | Open | Closing | Closed

record config =
  cf_adminToken :: string
  cf_accessTtl :: ttl
  cf_authTimeoutMs :: int
  cf_proxyRequestTimeoutMs :: int
  cf_proxyStreamingTimeoutMs :: int
  cf_channelTicketTtlMs :: int
  cf_maxChannelsPerPeer :: int
  cf_channelByteRateLimit :: "int option"
  cf_proxyRateLimit :: int
  cf_proxyIpRateLimit :: int
  cf_authFailLimit :: int
  cf_trustProxy :: bool
  cf_allowedOrigins :: "string list option"
  cf_adminSessionTtlMs :: int
  cf_leaseTtlMs :: int
  cf_sha :: "string \<Rightarrow> string"
  cf_ws_close :: "ready_state \<Rightarrow> ready_state"
  cf_ws_terminate :: "ready_state \<Rightarrow> ready_state"

text \<open>The optional settings of \<open>GatewayConfig\<close>, and the defaults the factory gives them.\<close>

record gateway_config =
  gc_adminToken :: string
  gc_backendAccessTokenTtlMs :: "int option"
  gc_authTimeoutMs :: "int option"
  gc_proxyRequestTimeoutMs :: "int option"
  gc_proxyStreamingTimeoutMs :: "int option"
  gc_channelTicketTtlMs :: "int option"
  gc_maxChannelsPerPeer :: "int option"
  gc_channelByteRateLimit :: "int option"
  gc_proxyRateLimit :: "int option"
  gc_proxyIpRateLimit :: "int option"
  gc_authFailRateLimit :: "int option"
  gc_trustProxy :: "bool option"
  gc_allowedOrigins :: "string list option"
  gc_adminSessionTtlMs :: "int option"

definition or_else :: "'a option \<Rightarrow> 'a \<Rightarrow> 'a" where
  "or_else x d = (case x of None \<Rightarrow> d | Some v \<Rightarrow> v)"

lemma or_else_simps [simp]: "or_else None d = d" "or_else (Some v) d = v"
  by (simp_all add: or_else_def)

definition configure ::
  "gateway_config \<Rightarrow> (string \<Rightarrow> string) \<Rightarrow> (ready_state \<Rightarrow> ready_state) \<Rightarrow> (ready_state \<Rightarrow> ready_state)
     \<Rightarrow> string + config" where
  "configure c sha wsClose wsTerminate =
     (if gc_adminToken c = [] then
        Inl ''adminToken is required: issued credentials are the only authentication''
      else Inr
        \<lparr>cf_adminToken = gc_adminToken c,
         cf_accessTtl = (case gc_backendAccessTokenTtlMs c of None \<Rightarrow> TtlDefault | Some t \<Rightarrow> TtlMs t),
         cf_authTimeoutMs = or_else (gc_authTimeoutMs c) 10000,
         cf_proxyRequestTimeoutMs = or_else (gc_proxyRequestTimeoutMs c) 30000,
         cf_proxyStreamingTimeoutMs = or_else (gc_proxyStreamingTimeoutMs c) 60000,
         cf_channelTicketTtlMs = or_else (gc_channelTicketTtlMs c) 30000,
         cf_maxChannelsPerPeer = or_else (gc_maxChannelsPerPeer c) 32,
         cf_channelByteRateLimit = gc_channelByteRateLimit c,
         cf_proxyRateLimit = or_else (gc_proxyRateLimit c) 1200,
         cf_proxyIpRateLimit = or_else (gc_proxyIpRateLimit c) 0,
         cf_authFailLimit = or_else (gc_authFailRateLimit c) 10,
         cf_trustProxy = or_else (gc_trustProxy c) False,
         cf_allowedOrigins = gc_allowedOrigins c,
         cf_adminSessionTtlMs = or_else (gc_adminSessionTtlMs c) (12 * 60 * 60 * 1000),
         cf_leaseTtlMs = DEFAULT_LEASE_TTL_MS None,
         cf_sha = sha, cf_ws_close = wsClose, cf_ws_terminate = wsTerminate\<rparr>)"

definition AUTH_FAIL_WINDOW :: int where
  "AUTH_FAIL_WINDOW = 60000"

definition PROXY_RATE_WINDOW :: int where
  "PROXY_RATE_WINDOW = 60000"

section \<open>The wire\<close>

record backend_info =
  bn_backendId :: string
  bn_epoch :: int
  bn_leaseTtlMs :: int

text \<open>What the server sends on a control socket; a forwarded message keeps the JSON it arrived as.\<close>

datatype wire =
    GatewayError string string
  | PeerReady int string string "backend_info option" "presence list"
  | RegistrySnapshot "presence list"
  | HeartbeatAck int
  | ChannelOffer string "string option" "string option" string string
  | ChannelReady string string string
  | ChannelClosed string string
  | TopicSubscribed string string
  | TopicUnsubscribed string string
  | TopicMessage string string jsval
  | Pong jsval
  | Forwarded json

section \<open>HTTP responses\<close>

type_synonym res = nat

record res_state =
  rs_headersSent :: bool
  rs_writableEnded :: bool
  rs_destroyed :: bool

datatype out =
    OSend ws wire
  | OClose ws nat string
  | OTerminate ws
  | OPing ws
  | OPause ws
  | OResume ws
  | OJson res nat string string
  | ODestroy res string
  | ONotify json string
  | OFrame ws json
  | OBytes ws string
  | OPauseReq res
  | OResumeReq res
  | OHead res nat "(string \<times> string) list"
  | OWrite res string
  | OEnd res

section \<open>The server's state\<close>

record rate_entry =
  re_count :: int
  re_resetAt :: int

datatype role = RClient | RBackend

record ticket =
  tk_channelId :: string
  tk_role :: role
  tk_expiresAt :: int

text \<open>
  \<open>ChannelRecord\<close>.  The pairing timer is the time it is due at, until it is cleared; an internal
  HTTP channel has the response it answers, and its \<open>onBackendSocket\<close> callback exactly then.
\<close>

record channel =
  ch_id :: string
  ch_backendId :: string
  ch_epoch :: int
  ch_kind :: "string option"
  ch_client :: string
  ch_backend :: string
  ch_clientSocket :: "ws option"
  ch_backendSocket :: "ws option"
  ch_piped :: bool
  ch_tickets :: "string list"
  ch_pairingAt :: "int option"
  ch_internal :: bool
  ch_internalRes :: "res option"

text \<open>
  What the bridge of an internal HTTP channel closes over: the proxied request, the backend's data
  socket once it has dialed, whether the response's meta frame has come, and the two timers.
\<close>

record proxy_request =
  pq_method :: string
  pq_path :: string
  pq_headers :: "(string \<times> json) list"

record bridge =
  br_request :: proxy_request
  br_res :: res
  br_ws :: "ws option"
  br_metaReceived :: bool
  br_responseAt :: "int option"
  br_idleAt :: "int option"

text \<open>
  What the handlers of one accepted control connection close over: its address, the session its
  \<open>peer_hello\<close> established, and the authentication timer until it is cleared.
\<close>

record conn =
  cn_ip :: string
  cn_session :: "string option"
  cn_authAt :: "int option"

record gateway = gstate +
  gw_storage :: storage
  gw_recoveryTokens :: "(string, string) jmap"
  gw_authFailures :: "(string, rate_entry) jmap"
  gw_proxyRequests :: "(string, rate_entry) jmap"
  gw_proxyIpRequests :: "(string, rate_entry) jmap"
  gw_ownerReplacements :: "(string, int list) jmap"
  gw_channels :: "(string, channel) jmap"
  gw_tickets :: "(string, ticket) jmap"
  gw_bridges :: "(string, bridge) jmap"
  gw_topicSubs :: "(string, (string, string list) jmap) jmap"
  gw_retained :: "(string, (string, json) jmap) jmap"
  gw_wsPerIp :: "(string, nat) jmap"
  gw_conns :: "(ws, conn) jmap"
  gw_adminSessions :: admin_sessions
  gw_ready :: "ws \<Rightarrow> ready_state"
  gw_res :: "res \<Rightarrow> res_state"
  gw_out :: "out list"

section \<open>Effects\<close>

definition emit :: "out \<Rightarrow> gateway \<Rightarrow> gateway" where
  "emit o' g = g\<lparr>gw_out := gw_out g @ [o']\<rparr>"

definition sendToWs :: "ws \<Rightarrow> wire \<Rightarrow> gateway \<Rightarrow> gateway" where
  "sendToWs w m g = (if gw_ready g w = Open then emit (OSend w m) g else g)"

definition ws_close :: "config \<Rightarrow> ws \<Rightarrow> nat \<Rightarrow> string \<Rightarrow> gateway \<Rightarrow> gateway" where
  "ws_close cf w code reason g =
     emit (OClose w code reason) (g\<lparr>gw_ready := (gw_ready g)(w := cf_ws_close cf (gw_ready g w))\<rparr>)"

definition ws_terminate :: "config \<Rightarrow> ws \<Rightarrow> gateway \<Rightarrow> gateway" where
  "ws_terminate cf w g =
     emit (OTerminate w) (g\<lparr>gw_ready := (gw_ready g)(w := cf_ws_terminate cf (gw_ready g w))\<rparr>)"

text \<open>\<open>res.status(..).json(..)\<close>: the whole response, status, error code and message.\<close>

definition res_json :: "res \<Rightarrow> nat \<Rightarrow> string \<Rightarrow> string \<Rightarrow> gateway \<Rightarrow> gateway" where
  "res_json r status code message g =
     emit (OJson r status code message)
       (g\<lparr>gw_res := (gw_res g)(r := (gw_res g r)\<lparr>rs_headersSent := True, rs_writableEnded := True\<rparr>)\<rparr>)"

definition res_destroy :: "res \<Rightarrow> string \<Rightarrow> gateway \<Rightarrow> gateway" where
  "res_destroy r message g =
     emit (ODestroy r message) (g\<lparr>gw_res := (gw_res g)(r := (gw_res g r)\<lparr>rs_destroyed := True\<rparr>)\<rparr>)"

text \<open>
  Everything but the outside world: an effect leaves it alone, which is how the handlers' lemmas see
  past messages and socket calls.
\<close>

definition core :: "gateway \<Rightarrow> gateway" where
  "core g = g\<lparr>gw_ready := (\<lambda>_. Closed), gw_res := (\<lambda>_. \<lparr>rs_headersSent = False, rs_writableEnded = False,
     rs_destroyed = False\<rparr>), gw_out := []\<rparr>"

lemma core_eq_iff:
  "core g = core g' \<longleftrightarrow>
     gs_peers g = gs_peers g' \<and> gs_wsToPeer g = gs_wsToPeer g' \<and> gs_registry g = gs_registry g'
   \<and> gs_leases g = gs_leases g' \<and> gw_storage g = gw_storage g'
   \<and> gw_recoveryTokens g = gw_recoveryTokens g' \<and> gw_authFailures g = gw_authFailures g'
   \<and> gw_proxyRequests g = gw_proxyRequests g' \<and> gw_proxyIpRequests g = gw_proxyIpRequests g'
   \<and> gw_ownerReplacements g = gw_ownerReplacements g' \<and> gw_channels g = gw_channels g'
   \<and> gw_tickets g = gw_tickets g' \<and> gw_bridges g = gw_bridges g' \<and> gw_topicSubs g = gw_topicSubs g'
   \<and> gw_retained g = gw_retained g' \<and> gw_wsPerIp g = gw_wsPerIp g' \<and> gw_conns g = gw_conns g'
   \<and> gw_adminSessions g = gw_adminSessions g'"
  by (cases g; cases g') (auto simp: core_def)

lemma core_effects [simp]:
  "core (emit x g) = core g" "core (sendToWs w wm g) = core g" "core (ws_close cf w n r g) = core g"
  "core (ws_terminate cf w g) = core g" "core (res_json q st c m g) = core g"
  "core (res_destroy q m g) = core g"
  by (simp_all add: core_def emit_def sendToWs_def ws_close_def ws_terminate_def res_json_def res_destroy_def)

text \<open>Each field of the core after an effect.\<close>

lemmas core_fields = core_eq_iff [THEN iffD1]

lemmas effect_fields [simp, frame] =
  core_fields [OF core_effects(1)] core_fields [OF core_effects(2)] core_fields [OF core_effects(3)]
  core_fields [OF core_effects(4)] core_fields [OF core_effects(5)] core_fields [OF core_effects(6)]

text \<open>What is sent to whom: the control-socket messages of a run of effects.\<close>

fun sent_by :: "out \<Rightarrow> (ws \<times> wire) option" where
  "sent_by (OSend w m) = Some (w, m)"
| "sent_by _ = None"

definition sent :: "gateway \<Rightarrow> (ws \<times> wire) list" where
  "sent g = List.map_filter sent_by (gw_out g)"

lemma sent_effects [simp]:
  "sent (sendToWs w m g) = sent g @ (if gw_ready g w = Open then [(w, m)] else [])"
  "sent (ws_close cf w n r g) = sent g"
  "sent (ws_terminate cf w g) = sent g"
  "sent (res_json q st c x g) = sent g"
  "sent (res_destroy q x g) = sent g"
  "sent (emit (OPause w) g) = sent g" "sent (emit (OResume w) g) = sent g"
  "sent (emit (OPing w) g) = sent g"
  by (simp_all add: sent_def emit_def sendToWs_def ws_close_def ws_terminate_def res_json_def
      res_destroy_def map_filter_def)

lemma ready_effects [simp]:
  "gw_ready (emit x g) = gw_ready g" "gw_ready (sendToWs w m g) = gw_ready g"
  "gw_ready (ws_close cf w n r g) = (gw_ready g)(w := cf_ws_close cf (gw_ready g w))"
  "gw_ready (ws_terminate cf w g) = (gw_ready g)(w := cf_ws_terminate cf (gw_ready g w))"
  "gw_ready (res_json q st c y g) = gw_ready g" "gw_ready (res_destroy q y g) = gw_ready g"
  by (simp_all add: emit_def sendToWs_def ws_close_def ws_terminate_def res_json_def res_destroy_def)

section \<open>A server that has just started\<close>

definition start_gateway :: "config \<Rightarrow> storage \<Rightarrow> gateway" where
  "start_gateway cf st =
     \<lparr>gs_peers = [], gs_wsToPeer = [], gs_registry = [], gs_leases = [],
      gw_storage = st, gw_recoveryTokens = [], gw_authFailures = [], gw_proxyRequests = [],
      gw_proxyIpRequests = [], gw_ownerReplacements = [], gw_channels = [], gw_tickets = [], gw_bridges = [],
      gw_topicSubs = [], gw_retained = [], gw_wsPerIp = [], gw_conns = [],
      gw_adminSessions = \<lparr>as_sessions = [], as_ttlMs = cf_adminSessionTtlMs cf\<rparr>,
      gw_ready = (\<lambda>_. Connecting),
      gw_res = (\<lambda>_. \<lparr>rs_headersSent = False, rs_writableEnded = False, rs_destroyed = False\<rparr>),
      gw_out = []\<rparr>"

text \<open>
  A configuration with every default, the identity as digest, and sockets whose \<open>close\<close> and
  \<open>terminate\<close> leave an open socket closing, as the package documents.
\<close>

definition sample_config :: config where
  "sample_config = projr (configure
     \<lparr>gc_adminToken = ''root'', gc_backendAccessTokenTtlMs = None, gc_authTimeoutMs = None,
      gc_proxyRequestTimeoutMs = None, gc_proxyStreamingTimeoutMs = None, gc_channelTicketTtlMs = None,
      gc_maxChannelsPerPeer = None, gc_channelByteRateLimit = None, gc_proxyRateLimit = None,
      gc_proxyIpRateLimit = None, gc_authFailRateLimit = None, gc_trustProxy = None,
      gc_allowedOrigins = None, gc_adminSessionTtlMs = None\<rparr>
     (\<lambda>t. t) (\<lambda>r. if r = Closed then Closed else Closing) (\<lambda>r. if r = Closed then Closed else Closing))"

end
