(* ===== verification/Gw_Rate_Limit.thy ===== *)
theory Gw_Rate_Limit
  imports Gw_Model
begin

text \<open>
  src/server.ts, rate limiting: the fixed-window counter \<open>checkLimit\<close> behind the three buckets
  (failed authentications per IP, proxied requests per credential, proxied requests per IP), the
  429 answer with its \<open>Retry-After\<close>, and the cleanup timer.  \<open>extractIp\<close> is here too, since every
  bucket of an address is keyed on it.
\<close>

section \<open>The counter\<close>

definition checkLimit ::
  "(string, rate_entry) jmap \<Rightarrow> string \<Rightarrow> int \<Rightarrow> int \<Rightarrow> int \<Rightarrow> (string, rate_entry) jmap \<times> bool" where
  "checkLimit m key limit window now =
     (case jm_get m key of
        None \<Rightarrow> (jm_set key \<lparr>re_count = 1, re_resetAt = now + window\<rparr> m, True)
      | Some entry \<Rightarrow>
          if now > re_resetAt entry then (jm_set key \<lparr>re_count = 1, re_resetAt = now + window\<rparr> m, True)
          else (jm_upd key (\<lambda>e. e\<lparr>re_count := re_count e + 1\<rparr>) m, \<not> (re_count entry + 1 > limit)))"

text \<open>\<open>Math.ceil(x / 1000)\<close> on integers.\<close>

definition ceil_secs :: "int \<Rightarrow> int" where
  "ceil_secs x = - ((- x) div 1000)"

text \<open>The \<open>Retry-After\<close> value; a \<open>resetAt\<close> of 0 is falsy, like a missing entry.\<close>

definition retry_after :: "(string, rate_entry) jmap \<Rightarrow> string \<Rightarrow> int \<Rightarrow> int \<Rightarrow> int" where
  "retry_after m key windowMs now =
     (case jm_get m key of
        None \<Rightarrow> ceil_secs windowMs
      | Some e \<Rightarrow> if re_resetAt e \<noteq> 0 then max 1 (ceil_secs (re_resetAt e - now)) else ceil_secs windowMs)"

text \<open>An HTTP answer: an error with its status, code and message, a 429, or a success.\<close>

datatype 'a reply = Fail nat string string | TooMany int | Reply nat 'a

definition rateLimited :: "(string, rate_entry) jmap \<Rightarrow> string \<Rightarrow> int \<Rightarrow> int \<Rightarrow> 'a reply" where
  "rateLimited m key windowMs now = TooMany (retry_after m key windowMs now)"

definition recordAuthFailure :: "config \<Rightarrow> string \<Rightarrow> int \<Rightarrow> gateway \<Rightarrow> gateway \<times> bool" where
  "recordAuthFailure cf ip now g =
     (let (m, admitted) = checkLimit (gw_authFailures g) ip (cf_authFailLimit cf) AUTH_FAIL_WINDOW now
      in (g\<lparr>gw_authFailures := m\<rparr>, admitted))"

definition denyUnauthorized :: "config \<Rightarrow> string \<Rightarrow> string \<Rightarrow> int \<Rightarrow> gateway \<Rightarrow> gateway \<times> 'a reply" where
  "denyUnauthorized cf ip message now g =
     (let (g1, admitted) = recordAuthFailure cf ip now g
      in if \<not> admitted then (g1, rateLimited (gw_authFailures g1) ip AUTH_FAIL_WINDOW now)
         else (g1, Fail 401 ''UNAUTHORIZED'' message))"

datatype bucket = ProxyRequests | ProxyIpRequests

definition bucket_map :: "bucket \<Rightarrow> gateway \<Rightarrow> (string, rate_entry) jmap" where
  "bucket_map b g = (case b of ProxyRequests \<Rightarrow> gw_proxyRequests g | ProxyIpRequests \<Rightarrow> gw_proxyIpRequests g)"

definition refuseProxyRequest ::
  "config \<Rightarrow> string \<Rightarrow> string \<Rightarrow> int \<Rightarrow> gateway \<Rightarrow> gateway \<times> (bucket \<times> string) option" where
  "refuseProxyRequest cf credentialId ip now g =
     (let (g1, ipOk) =
            (if cf_proxyIpRateLimit cf > 0
             then (let (m, r) = checkLimit (gw_proxyIpRequests g) ip (cf_proxyIpRateLimit cf) PROXY_RATE_WINDOW now
                   in (g\<lparr>gw_proxyIpRequests := m\<rparr>, r))
             else (g, True))
      in if \<not> ipOk then (g1, Some (ProxyIpRequests, ip))
         else (let (m, r) = checkLimit (gw_proxyRequests g1) credentialId (cf_proxyRateLimit cf) PROXY_RATE_WINDOW now;
                   g2 = g1\<lparr>gw_proxyRequests := m\<rparr>
               in if \<not> r then (g2, Some (ProxyRequests, credentialId)) else (g2, None)))"

definition rateLimitCleanup :: "int \<Rightarrow> gateway \<Rightarrow> gateway" where
  "rateLimitCleanup now g =
     g\<lparr>gw_authFailures := jm_sweep re_resetAt now (gw_authFailures g),
       gw_proxyRequests := jm_sweep re_resetAt now (gw_proxyRequests g),
       gw_proxyIpRequests := jm_sweep re_resetAt now (gw_proxyIpRequests g),
       gw_tickets := jm_sweep tk_expiresAt now (gw_tickets g)\<rparr>"

text \<open>The address a request counts against: header \<open>x-forwarded-for\<close> and the socket's address.\<close>

definition extractIp :: "config \<Rightarrow> string option \<Rightarrow> string option \<Rightarrow> string" where
  "extractIp cf forwarded_for remoteAddress =
     (let forwarded = (case forwarded_for of None \<Rightarrow> [] | Some h \<Rightarrow> js_trim (hd (split_on (CHR '','') h)))
      in if cf_trustProxy cf \<and> forwarded \<noteq> [] then forwarded
         else case remoteAddress of None \<Rightarrow> ''unknown'' | Some a \<Rightarrow> if a = [] then ''unknown'' else a)"

section \<open>Buckets are expiring maps\<close>

interpretation buckets: expiring_map
  "jm_get :: (string, rate_entry) jmap \<Rightarrow> _" jm_set jm_del jm_keys jm_ok re_resetAt "jm_sweep re_resetAt"
  by unfold_locales (auto simp: jm_keys_iff jm_get_sweep split: option.splits)

interpretation ticket_map: expiring_map
  "jm_get :: (string, ticket) jmap \<Rightarrow> _" jm_set jm_del jm_keys jm_ok tk_expiresAt "jm_sweep tk_expiresAt"
  by unfold_locales (auto simp: jm_keys_iff jm_get_sweep split: option.splits)

section \<open>A window's worth of requests\<close>

datatype rate_op = RCheck string int | RSweep int

fun rate_time :: "rate_op \<Rightarrow> int" where
  "rate_time (RCheck _ t) = t"
| "rate_time (RSweep t) = t"

fun rate_answers ::
  "string \<Rightarrow> int \<Rightarrow> int \<Rightarrow> rate_op list \<Rightarrow> (string, rate_entry) jmap \<Rightarrow> bool list" where
  "rate_answers k limit window [] m = []"
| "rate_answers k limit window (RCheck k' t # ops) m =
     (let (m', a) = checkLimit m k' limit window t
      in (if k' = k then [a] else []) @ rate_answers k limit window ops m')"
| "rate_answers k limit window (RSweep t # ops) m =
     rate_answers k limit window ops (jm_sweep re_resetAt t m)"

fun checks_of :: "string \<Rightarrow> rate_op list \<Rightarrow> nat" where
  "checks_of k [] = 0"
| "checks_of k (RCheck k' _ # ops) = (if k' = k then Suc (checks_of k ops) else checks_of k ops)"
| "checks_of k (RSweep _ # ops) = checks_of k ops"

lemma jm_ok_checkLimit: "jm_ok m \<Longrightarrow> jm_ok (fst (checkLimit m k l w t))"
  by (auto simp: checkLimit_def split: option.splits)

lemma checkLimit_other: "k' \<noteq> k \<Longrightarrow> jm_get (fst (checkLimit m k' l w t)) k = jm_get m k"
  by (auto simp: checkLimit_def split: option.splits)

lemma checkLimit_open:
  "jm_get m k = Some e \<Longrightarrow> t \<le> re_resetAt e \<Longrightarrow>
     checkLimit m k l w t = (jm_upd k (\<lambda>e. e\<lparr>re_count := re_count e + 1\<rparr>) m, re_count e < l)"
  by (auto simp: checkLimit_def)

lemma checkLimit_fresh:
  "(\<forall>e. jm_get m k = Some e \<longrightarrow> re_resetAt e < t) \<Longrightarrow>
     checkLimit m k l w t = (jm_set k \<lparr>re_count = 1, re_resetAt = t + w\<rparr> m, True)"
  by (auto simp: checkLimit_def split: option.splits)

lemma rate_answers_open:
  assumes "jm_ok m" and "jm_get m k = Some e" and "\<forall>x\<in>set ops. rate_time x \<le> re_resetAt e"
    and "re_count e = int c"
  shows "rate_answers k limit window ops m = map (\<lambda>i. int i < limit) [c ..< c + checks_of k ops]"
  using assms
proof (induction ops arbitrary: m e c)
  case (Cons x xs)
  show ?case
  proof (cases x)
    case (RCheck k' t)
    show ?thesis
    proof (cases "k' = k")
      case True
      let ?m = "jm_upd k (\<lambda>e. e\<lparr>re_count := re_count e + 1\<rparr>) m"
      have "rate_answers k limit window xs ?m = map (\<lambda>i. int i < limit) [Suc c ..< Suc c + checks_of k xs]"
        using Cons.prems by (intro Cons.IH [where e = "e\<lparr>re_count := re_count e + 1\<rparr>"]) auto
      then show ?thesis
        using Cons.prems RCheck True by (simp add: checkLimit_open [where e = e] upt_conv_Cons del: upt_Suc)
    next
      case False
      obtain m' a where ma: "checkLimit m k' limit window t = (m', a)" by fastforce
      then have "jm_ok m'" "jm_get m' k = Some e"
        using jm_ok_checkLimit [of m k' limit window t] checkLimit_other [OF False, of m limit window t]
          Cons.prems by simp_all
      with Cons RCheck False ma show ?thesis by simp
    qed
  next
    case (RSweep t)
    have "jm_get (jm_sweep re_resetAt t m) k = Some e"
      using Cons.prems RSweep by (intro buckets.sweep_keeps_live) auto
    with Cons RSweep show ?thesis by simp
  qed
qed simp

text \<open>
  C25.  Fixed-window rate limiting is exact: from the request that opens a window to the window's end,
  a key is admitted for its first \<open>limit\<close> requests and refused for all later ones, whatever requests
  of other keys and cleanups are interleaved.
\<close>

theorem rate_window_exact:
  assumes "jm_ok m" and "1 \<le> limit" and "\<forall>e. jm_get m k = Some e \<longrightarrow> re_resetAt e < t0"
    and "\<forall>x\<in>set ops. rate_time x \<le> t0 + window"
  shows "rate_answers k limit window (RCheck k t0 # ops) m
           = map (\<lambda>i. int i < limit) [0 ..< Suc (checks_of k ops)]"
proof -
  let ?e = "\<lparr>re_count = 1, re_resetAt = t0 + window\<rparr>"
  have "rate_answers k limit window ops (jm_set k ?e m) = map (\<lambda>i. int i < limit) [1 ..< 1 + checks_of k ops]"
    using assms by (intro rate_answers_open [where e = ?e]) auto
  then show ?thesis
    using assms(2) by (simp add: checkLimit_fresh [OF assms(3)] upt_conv_Cons del: upt_Suc)
qed

theorem rate_window_exact_witness:
  "rate_answers ''a'' 2 60 [RCheck ''a'' 0, RCheck ''b'' 1, RSweep 50, RCheck ''a'' 60, RCheck ''a'' 60] []
     = [True, True, False]"
  using rate_window_exact [of "[]" 2 "''a''" 0 "[RCheck ''b'' 1, RSweep 50, RCheck ''a'' 60, RCheck ''a'' 60]" 60]
  by (simp add: upt_rec)

text \<open>
  A refusal's Retry-After is honest: it is at least one second and at most the window, and any
  request of that key later than it is admitted again (one made exactly then may still be refused,
  the window's last instant being part of it).
\<close>

theorem retry_after_suffices:
  assumes "checkLimit m k limit window now = (m', False)" and "0 < now" and "0 < window"
    and "\<forall>e. jm_get m k = Some e \<longrightarrow> re_resetAt e \<le> now + window"
    and "t > now + 1000 * retry_after m' k window now"
  shows "1 \<le> retry_after m' k window now \<and> retry_after m' k window now \<le> ceil_secs window
       \<and> snd (checkLimit m' k limit' window t)"
proof -
  obtain e where e: "jm_get m k = Some e" "now \<le> re_resetAt e"
    and m': "m' = jm_upd k (\<lambda>e. e\<lparr>re_count := re_count e + 1\<rparr>) m"
    using assms(1) by (auto simp: checkLimit_def split: option.splits if_splits)
  have ra: "retry_after m' k window now = max 1 (ceil_secs (re_resetAt e - now))"
    using e assms(2) by (auto simp: retry_after_def m')
  have "re_resetAt e - now \<le> 1000 * ceil_secs (re_resetAt e - now)"
    by (simp add: ceil_secs_def)
  then have late: "re_resetAt e < t" using assms(5) unfolding ra by linarith
  have "ceil_secs (re_resetAt e - now) \<le> ceil_secs window"
    using assms(4) e unfolding ceil_secs_def by (auto intro!: zdiv_mono1)
  moreover have "1 \<le> ceil_secs window" using assms(3) by (simp add: ceil_secs_def)
  ultimately show ?thesis
    using late e unfolding ra by (auto simp: m' checkLimit_def)
qed

theorem retry_after_suffices_witness:
  "snd (checkLimit (fst (checkLimit [(''a'', \<lparr>re_count = 3, re_resetAt = 1500\<rparr>)] ''a'' 3 1000 1000)) ''a'' 3 1000 2001)"
proof -
  have c: "checkLimit [(''a'', \<lparr>re_count = 3, re_resetAt = 1500\<rparr>)] ''a'' 3 1000 1000
      = ([(''a'', \<lparr>re_count = 4, re_resetAt = 1500\<rparr>)], False)"
    by code_simp
  have r: "retry_after [(''a'', \<lparr>re_count = 4, re_resetAt = 1500\<rparr>)] ''a'' 1000 1000 = 1"
    by code_simp
  from retry_after_suffices [OF c, of 2001 3] show ?thesis by (simp add: c r)
qed

end
