(* ===== verification/Gw_Access.thy ===== *)
theory Gw_Access
  imports Gw_Rate_Limit "HOL-Library.Product_Lexorder" "HOL-Library.Multiset"
begin

text \<open>
  src/server.ts, who may do what: bearer authentication, recovery tokens, the reach of a credential
  (namespace and backend scope), the slice of the registry a peer sees, its broadcast, backend
  identities and discovery.  Audit lines are console output and left out throughout.
\<close>

section \<open>Tokens\<close>

definition bearer :: "string option \<Rightarrow> string option" where
  "bearer authHeader =
     (case authHeader of
        None \<Rightarrow> None
      | Some h \<Rightarrow> if starts_with ''Bearer '' h then Some (drop 7 h) else None)"

definition isCredentialToken :: "string \<Rightarrow> bool" where
  "isCredentialToken token =
     list_ex (\<lambda>ty. starts_with (CREDENTIAL_TOKEN_PREFIXES ty) token) [Device, Backend, BackendAccess]"

definition resolveToken :: "config \<Rightarrow> string \<Rightarrow> int \<Rightarrow> gateway \<Rightarrow> gateway \<times> credential_info option" where
  "resolveToken cf token now g =
     (if \<not> isCredentialToken token then (g, None)
      else (let (st, c) = findValidCredential (cf_sha cf) token now (gw_storage g)
            in (g\<lparr>gw_storage := st\<rparr>, c)))"

definition requireGatewayAuth ::
  "config \<Rightarrow> string option \<Rightarrow> string \<Rightarrow> int \<Rightarrow> gateway \<Rightarrow> gateway \<times> ('a reply + credential_info)" where
  "requireGatewayAuth cf authHeader ip now g =
     (case bearer authHeader of
        None \<Rightarrow> (let (g1, r) = denyUnauthorized cf ip ''Authorization required'' now g in (g1, Inl r))
      | Some token \<Rightarrow>
          (case resolveToken cf token now g of
             (g1, None) \<Rightarrow> (let (g2, r) = denyUnauthorized cf ip ''Invalid credentials'' now g1 in (g2, Inl r))
           | (g1, Some c) \<Rightarrow> (g1, Inr c)))"

definition requireRecoveryToken ::
  "config \<Rightarrow> string option \<Rightarrow> string \<Rightarrow> int \<Rightarrow> gateway \<Rightarrow> gateway \<times> ('a reply + peer_session)" where
  "requireRecoveryToken cf authHeader ip now g =
     (case bearer authHeader of
        None \<Rightarrow> (let (g1, r) = denyUnauthorized cf ip ''Authorization required'' now g in (g1, Inl r))
      | Some token \<Rightarrow>
          (case Option.bind (jm_get (gw_recoveryTokens g) token)
                  (\<lambda>sid. if sid = [] then None else jm_get (gs_peers g) sid) of
             None \<Rightarrow> (let (g1, r) = denyUnauthorized cf ip ''Invalid recovery token'' now g in (g1, Inl r))
           | Some peer \<Rightarrow> (g, Inr peer)))"

section \<open>Reach\<close>

definition canReach :: "string \<Rightarrow> string list option \<Rightarrow> string \<Rightarrow> string \<Rightarrow> bool" where
  "canReach ns allowedBackends targetNs targetId =
     (if targetNs \<noteq> ns then False
      else case allowedBackends of None \<Rightarrow> True | Some ids \<Rightarrow> targetId \<in> set ids)"

definition peer_reaches :: "peer_session \<Rightarrow> presence \<Rightarrow> bool" where
  "peer_reaches peer item =
     canReach (ps_namespace peer) (ps_allowedBackends peer) (pr_namespace item) (pr_backendId item)"

definition visibleRegistry :: "peer_session \<Rightarrow> 'a gstate_scheme \<Rightarrow> presence list" where
  "visibleRegistry peer g = filter (peer_reaches peer) (getRegistrySnapshot (ps_namespace peer) g)"

definition isCurrentBackendOwner :: "peer_session \<Rightarrow> int option \<Rightarrow> 'a gstate_scheme \<Rightarrow> bool" where
  "isCurrentBackendOwner peer expectedEpoch g =
     (case (ps_backendId peer, ps_epoch peer) of
        (Some b, Some e) \<Rightarrow>
          if b = [] then False
          else if expectedEpoch \<noteq> None \<and> expectedEpoch \<noteq> Some e then False
          else (case jm_get (gs_leases g) b of
                  None \<Rightarrow> False
                | Some l \<Rightarrow> le_peerSessionId l = ps_id peer \<and> le_epoch l = e)
      | _ \<Rightarrow> False)"

definition sync_registry ::
  "config \<Rightarrow> string option \<Rightarrow> string \<Rightarrow> int \<Rightarrow> gateway \<Rightarrow> gateway \<times> presence list reply" where
  "sync_registry cf authHeader ip now g =
     (case requireRecoveryToken cf authHeader ip now g of
        (g1, Inl r) \<Rightarrow> (g1, r)
      | (g1, Inr peer) \<Rightarrow> (g1, Reply 200 (visibleRegistry peer g1)))"

text \<open>
  \<open>broadcastRegistrySnapshot\<close> computes one snapshot per scope key and sends it to every peer that
  has the key.
\<close>

definition scopeKey :: "peer_session \<Rightarrow> string" where
  "scopeKey peer =
     ps_namespace peer @ [unit_sep] @
       (case ps_allowedBackends peer of Some ids \<Rightarrow> join_with '','' ids | None \<Rightarrow> ''*'')"

fun broadcast_to ::
  "string option \<Rightarrow> peer_session list \<Rightarrow> (string, presence list) jmap \<Rightarrow> gateway \<Rightarrow> gateway" where
  "broadcast_to excl [] perScope g = g"
| "broadcast_to excl (peer # peers) perScope g =
     (if Some (ps_id peer) = excl then broadcast_to excl peers perScope g
      else
        (let items = (case jm_get perScope (scopeKey peer) of
                        Some items \<Rightarrow> items
                      | None \<Rightarrow> visibleRegistry peer g)
         in broadcast_to excl peers (jm_set (scopeKey peer) items perScope)
              (sendToWs (ps_ws peer) (RegistrySnapshot items) g)))"

definition broadcastRegistrySnapshot :: "string option \<Rightarrow> gateway \<Rightarrow> gateway" where
  "broadcastRegistrySnapshot excl g = broadcast_to excl (jm_vals (gs_peers g)) [] g"

section \<open>Backend identities and scopes\<close>

definition isKnownBackend :: "string \<Rightarrow> string \<Rightarrow> storage \<Rightarrow> bool" where
  "isKnownBackend backendId ns st =
     (case getBackendIdentity backendId st of None \<Rightarrow> False | Some i \<Rightarrow> bi_namespace i = ns)"

text \<open>\<open>[...new Set(xs)]\<close> keeps first occurrences.\<close>

definition js_uniq :: "'a list \<Rightarrow> 'a list" where
  "js_uniq xs = rev (remdups (rev xs))"

definition js_strings :: "jsval \<Rightarrow> string list option" where
  "js_strings v =
     (case v of
        Some (JArr vs) \<Rightarrow>
          if list_all (\<lambda>x. js_string (Some x) \<noteq> None) vs then Some (map (\<lambda>x. the (js_string (Some x))) vs)
          else None
      | _ \<Rightarrow> None)"

definition parseBackendScope :: "jsval \<Rightarrow> string \<Rightarrow> storage \<Rightarrow> string + string list option" where
  "parseBackendScope value ns st =
     (if value = Some JNull then Inr None
      else case js_strings value of
             None \<Rightarrow> Inl ''allowedBackends must be null or a non-empty array of backend ids''
           | Some xs \<Rightarrow>
               if xs = [] then Inl ''allowedBackends must be null or a non-empty array of backend ids''
               else
                 (let ids = js_uniq xs;
                      unknown = filter (\<lambda>i. \<not> isKnownBackend i ns st) ids
                  in if unknown \<noteq> []
                     then Inl (''Unknown backends in this namespace: '' @ join_with '', '' unknown)
                     else Inr (Some ids)))"

definition boundCredentialCounts :: "storage \<Rightarrow> (string, nat) jmap" where
  "boundCredentialCounts st =
     fold (\<lambda>c counts.
         case ci_backendId c of
           Some b \<Rightarrow>
             if ci_type c = Backend \<and> ci_revokedAt c = None \<and> b \<noteq> []
             then jm_set b (or_else (jm_get counts b) 0 + 1) counts else counts
         | None \<Rightarrow> counts)
       (listCredentials st) []"

definition resolveBackendIdentity ::
  "credential_info \<Rightarrow> string \<Rightarrow> string option \<Rightarrow> string option \<Rightarrow> string \<Rightarrow> string \<Rightarrow> int \<Rightarrow> storage
     \<Rightarrow> storage \<times> (sql_error + string)" where
  "resolveBackendIdentity credential ns instanceId name channel uuid now st =
     (case ci_backendId credential of
        Some b \<Rightarrow>
          if b \<noteq> [] then (st, Inr b)
          else getOrCreateBackendIdV4 ns (or_else instanceId []) channel name uuid now st
      | None \<Rightarrow> getOrCreateBackendIdV4 ns (or_else instanceId []) channel name uuid now st)"

definition OWNER_FLAP_WINDOW_MS :: int where
  "OWNER_FLAP_WINDOW_MS = 60000"

definition noteOwnerReplaced :: "string \<Rightarrow> int \<Rightarrow> gateway \<Rightarrow> gateway" where
  "noteOwnerReplaced backendId now g =
     g\<lparr>gw_ownerReplacements := jm_set backendId
         (filter (\<lambda>t. now - t < OWNER_FLAP_WINDOW_MS) (or_else (jm_get (gw_ownerReplacements g) backendId) []) @ [now])
         (gw_ownerReplacements g)\<rparr>"

section \<open>Discovery\<close>

record discovered =
  dc_backendId :: string
  dc_name :: string
  dc_online :: bool
  dc_lastSeenAt :: "int option"

definition discover :: "credential_info \<Rightarrow> gateway \<Rightarrow> discovered list" where
  "discover credential g =
     sort_key (\<lambda>i. (if dc_online i then 0 else 1 :: int, - or_else (dc_lastSeenAt i) 0))
       (map (\<lambda>identity.
           (case jm_get (gs_registry g) (bi_backendId identity) of
              presence \<Rightarrow>
                \<lparr>dc_backendId = bi_backendId identity, dc_name = bi_name identity,
                 dc_online = (presence \<noteq> None),
                 dc_lastSeenAt = (case presence of Some p \<Rightarrow> Some (pr_lastSeenAt p)
                                                 | None \<Rightarrow> bi_lastSeenAt identity)\<rparr>))
         (filter (\<lambda>identity. canReach (ci_namespace credential) (ci_allowedBackends credential)
                               (bi_namespace identity) (bi_backendId identity))
           (listBackendIdentities (gw_storage g))))"

definition discovery_backends ::
  "config \<Rightarrow> string option \<Rightarrow> string \<Rightarrow> int \<Rightarrow> gateway \<Rightarrow> gateway \<times> discovered list reply" where
  "discovery_backends cf authHeader ip now g =
     (case requireGatewayAuth cf authHeader ip now g of
        (g1, Inl r) \<Rightarrow> (g1, r)
      | (g1, Inr c) \<Rightarrow> (g1, Reply 200 (discover c g1)))"

section \<open>Authentication\<close>

lemma bearer_iff: "bearer h = Some tok \<longleftrightarrow> h = Some (''Bearer '' @ tok)"
  by (auto simp: bearer_def starts_with_iff split: option.splits)

lemma findValid_None: "findValidCredential sha tok now s = (s', None) \<Longrightarrow> s' = s"
  by (auto simp: findValidCredential_def split: option.splits if_splits)

definition token_credential :: "config \<Rightarrow> string option \<Rightarrow> int \<Rightarrow> gateway \<Rightarrow> credential_info option" where
  "token_credential cf h now g =
     (case bearer h of
        None \<Rightarrow> None
      | Some tok \<Rightarrow> if isCredentialToken tok then snd (findValidCredential (cf_sha cf) tok now (gw_storage g)) else None)"

lemma resolveToken_None: "resolveToken cf tok now g = (g', None) \<Longrightarrow> g' = g"
  by (auto simp: resolveToken_def Let_def dest: findValid_None split: if_splits prod.splits)

lemma denyUnauthorized_eq:
  "denyUnauthorized cf ip msg now g =
     (let (m, ok) = checkLimit (gw_authFailures g) ip (cf_authFailLimit cf) AUTH_FAIL_WINDOW now
      in (g\<lparr>gw_authFailures := m\<rparr>,
          if ok then Fail 401 ''UNAUTHORIZED'' msg else TooMany (retry_after m ip AUTH_FAIL_WINDOW now)))"
  by (simp add: denyUnauthorized_def recordAuthFailure_def rateLimited_def Let_def split: prod.splits)

text \<open>
  Bearer authentication: a request passes exactly when its header carries a token with a
  credential prefix that resolves, and passes as that credential; every other request is charged
  once to its address's failure bucket, changes nothing else, and is answered 401 while the bucket
  lasts and 429 once it is spent.
\<close>

theorem gateway_auth_exact:
  "(case requireGatewayAuth cf h ip now g of
      (g', Inr c) \<Rightarrow> token_credential cf h now g = Some c \<and> gw_authFailures g' = gw_authFailures g
    | (g', Inl r) \<Rightarrow>
        token_credential cf h now g = None
        \<and> (let (m, ok) = checkLimit (gw_authFailures g) ip (cf_authFailLimit cf) AUTH_FAIL_WINDOW now
           in g' = g\<lparr>gw_authFailures := m\<rparr>
              \<and> (if ok then \<exists>why. r = Fail 401 ''UNAUTHORIZED'' why
                 else r = TooMany (retry_after m ip AUTH_FAIL_WINDOW now))))"
proof (cases "bearer h")
  case None
  then show ?thesis
    by (auto simp: requireGatewayAuth_def token_credential_def denyUnauthorized_eq Let_def split: prod.splits)
next
  case (Some tok)
  obtain g1 c where r: "resolveToken cf tok now g = (g1, c)" by fastforce
  have c: "c = token_credential cf h now g" "gw_authFailures g1 = gw_authFailures g"
    using r Some by (auto simp: resolveToken_def token_credential_def Let_def split: if_splits prod.splits)
  show ?thesis
  proof (cases c)
    case None
    with r have "g1 = g" by (simp add: resolveToken_None)
    with None r c Some show ?thesis
      by (auto simp: requireGatewayAuth_def denyUnauthorized_eq Let_def split: prod.splits)
  next
    case (Some c')
    then have "token_credential cf h now g = Some c'" using c by simp
    with r c \<open>bearer h = Some tok\<close> show ?thesis by (simp add: requireGatewayAuth_def)
  qed
qed

section \<open>Broadcast\<close>

text \<open>
  Backend ids are UUIDs, and the server only ever stores scopes it has checked against known
  backends: non-empty, and with no comma, separator or lone star in them.
\<close>

definition scope_clean :: "peer_session \<Rightarrow> bool" where
  "scope_clean peer =
     (case ps_allowedBackends peer of
        None \<Rightarrow> True
      | Some ids \<Rightarrow> ids \<noteq> [] \<and> ids \<noteq> [''*''] \<and> list_all (\<lambda>i. CHR '','' \<notin> set i \<and> unit_sep \<notin> set i) ids)"

lemma unit_sep_other [simp]:
  "unit_sep \<noteq> CHR '',''" "unit_sep \<noteq> CHR ''*''" "CHR '','' \<noteq> unit_sep" "CHR ''*'' \<noteq> unit_sep"
  by code_simp+

definition scope_text :: "peer_session \<Rightarrow> string" where
  "scope_text peer = (case ps_allowedBackends peer of Some ids \<Rightarrow> join_with '','' ids | None \<Rightarrow> ''*'')"

lemma join_with_set: "set (join_with sep xs) \<subseteq> set sep \<union> \<Union> (set ` set xs)"
  by (induction sep xs rule: join_with.induct) auto

lemma scope_text_plain: "scope_clean p \<Longrightarrow> unit_sep \<notin> set (scope_text p)"
  using join_with_set [of "'',''"]
  by (fastforce simp: scope_clean_def scope_text_def list_all_iff split: option.splits)

lemma scope_text_star: "scope_clean p \<Longrightarrow> scope_text p = ''*'' \<longleftrightarrow> ps_allowedBackends p = None"
  using join_with_inj [of "the (ps_allowedBackends p)" "[''*'']" "CHR '',''"]
  by (auto simp: scope_clean_def scope_text_def list_all_iff split: option.splits)

lemma append_sep_eq:
  "x @ s # y = x' @ s # y' \<Longrightarrow> s \<notin> set y \<Longrightarrow> s \<notin> set y' \<Longrightarrow> x = x' \<and> y = y'"
proof (induction x arbitrary: x')
  case Nil
  then show ?case by (cases x') auto
next
  case (Cons a x)
  then show ?case by (cases x') auto
qed



lemma scopeKey_inj:
  assumes "scope_clean p" and "scope_clean q" and "scopeKey p = scopeKey q"
  shows "ps_namespace p = ps_namespace q \<and> ps_allowedBackends p = ps_allowedBackends q"
proof -
  have "ps_namespace p @ unit_sep # scope_text p = ps_namespace q @ unit_sep # scope_text q"
    using assms(3) by (simp add: scopeKey_def scope_text_def)
  then have eq: "ps_namespace p = ps_namespace q" "scope_text p = scope_text q"
    using assms(1,2) by (auto dest: append_sep_eq scope_text_plain)
  show ?thesis
  proof (cases "ps_allowedBackends p"; cases "ps_allowedBackends q")
    fix ids ids'
    assume a: "ps_allowedBackends p = Some ids" "ps_allowedBackends q = Some ids'"
    then have "ids = ids'"
      using eq(2) assms(1,2) join_with_inj [of ids ids' "CHR '',''"]
      by (auto simp: scope_text_def scope_clean_def list_all_iff)
    with a eq show ?thesis by simp
  qed (use eq scope_text_star [OF assms(1)] scope_text_star [OF assms(2)] in simp_all)
qed

lemma visibleRegistry_cong:
  "ps_namespace p = ps_namespace q \<Longrightarrow> ps_allowedBackends p = ps_allowedBackends q \<Longrightarrow>
     gs_registry g = gs_registry g' \<Longrightarrow> visibleRegistry p g = visibleRegistry q g'"
  by (simp add: visibleRegistry_def getRegistrySnapshot_def peer_reaches_def)

lemma core_broadcast_to: "core (broadcast_to excl ps cache g) = core g"
  by (induction excl ps cache g rule: broadcast_to.induct) (auto simp: Let_def)

lemma core_broadcast [simp]: "core (broadcastRegistrySnapshot excl g) = core g"
  by (simp add: broadcastRegistrySnapshot_def core_broadcast_to)

lemmas broadcast_fields [simp, frame] = core_fields [OF core_broadcast]

lemma ready_broadcast_to: "gw_ready (broadcast_to excl ps cache g) = gw_ready g"
  by (induction excl ps cache g rule: broadcast_to.induct) (auto simp: Let_def)

lemma ready_broadcast [simp]: "gw_ready (broadcastRegistrySnapshot excl g) = gw_ready g"
  by (simp add: broadcastRegistrySnapshot_def ready_broadcast_to)

lemma sent_broadcast_to:
  assumes "\<forall>p\<in>set ps. scope_clean p"
    and "\<forall>p\<in>set ps. \<forall>items. jm_get cache (scopeKey p) = Some items \<longrightarrow> items = visibleRegistry p g"
  shows "sent (broadcast_to excl ps cache g) =
     sent g @ map (\<lambda>p. (ps_ws p, RegistrySnapshot (visibleRegistry p g)))
                  (filter (\<lambda>p. Some (ps_id p) \<noteq> excl \<and> gw_ready g (ps_ws p) = Open) ps)"
  using assms
proof (induction ps arbitrary: cache g)
  case (Cons p ps)
  let ?items = "case jm_get cache (scopeKey p) of Some items \<Rightarrow> items | None \<Rightarrow> visibleRegistry p g"
  have items: "?items = visibleRegistry p g" using Cons.prems(2) by (auto split: option.split)
  let ?g = "sendToWs (ps_ws p) (RegistrySnapshot (visibleRegistry p g)) g"
  have vis: "visibleRegistry q ?g = visibleRegistry q g" for q
    by (rule visibleRegistry_cong) simp_all
  have same: "visibleRegistry p g = visibleRegistry q g" if "q \<in> set ps" "scopeKey q = scopeKey p" for q
    using scopeKey_inj [of p q] that Cons.prems(1) by (intro visibleRegistry_cong) auto
  have "\<forall>q\<in>set ps. \<forall>its. jm_get (jm_set (scopeKey p) (visibleRegistry p g) cache) (scopeKey q) = Some its
          \<longrightarrow> its = visibleRegistry q ?g"
    using Cons.prems(2) by (auto simp: vis same)
  then have "sent (broadcast_to excl ps (jm_set (scopeKey p) (visibleRegistry p g) cache) ?g) =
     sent ?g @ map (\<lambda>q. (ps_ws q, RegistrySnapshot (visibleRegistry q ?g)))
        (filter (\<lambda>q. Some (ps_id q) \<noteq> excl \<and> gw_ready ?g (ps_ws q) = Open) ps)"
    using Cons.prems by (intro Cons.IH) auto
  with Cons show ?case by (simp only: broadcast_to.simps Let_def items) (auto simp: vis)
qed simp

text \<open>
  C20.  A registry broadcast reaches every connected peer but the excluded one, in connection order,
  and each gets exactly its own view: the backends of its namespace within its credential's scope.
  Caching one snapshot per scope key never mixes two views, as long as no stored scope holds a
  comma, the separator or a lone star; and nothing else of the server changes.
\<close>

theorem broadcast_exact:
  assumes "\<forall>p\<in>set (jm_vals (gs_peers g)). scope_clean p"
  shows "sent (broadcastRegistrySnapshot excl g) =
       sent g @ map (\<lambda>p. (ps_ws p, RegistrySnapshot (visibleRegistry p g)))
         (filter (\<lambda>p. Some (ps_id p) \<noteq> excl \<and> gw_ready g (ps_ws p) = Open) (jm_vals (gs_peers g)))
     \<and> core (broadcastRegistrySnapshot excl g) = core g"
  using sent_broadcast_to [OF assms] by (simp add: broadcastRegistrySnapshot_def core_broadcast_to)

section \<open>Discovery and scopes\<close>

text \<open>
  Discovery answers exactly the known backend identities the credential may address, online ones
  first and then by last activity; identities out of its namespace or scope are indistinguishable
  from nonexistent ones.
\<close>

theorem discovery_exact:
  "mset (map dc_backendId (discover c g)) =
       mset (map bi_backendId (filter (\<lambda>i. bi_namespace i = ci_namespace c
             \<and> (ci_allowedBackends c = None \<or> bi_backendId i \<in> set (the (ci_allowedBackends c))))
          (listBackendIdentities (gw_storage g))))
   \<and> sorted_wrt (\<lambda>a b. dc_online b < dc_online a
        \<or> dc_online a = dc_online b \<and> or_else (dc_lastSeenAt b) 0 \<le> or_else (dc_lastSeenAt a) 0) (discover c g)
   \<and> list_all (\<lambda>d. dc_online d = jm_has (gs_registry g) (dc_backendId d)) (discover c g)"
proof (intro conjI)
  have reach: "canReach (ci_namespace c) (ci_allowedBackends c) (bi_namespace i) (bi_backendId i) \<longleftrightarrow>
      bi_namespace i = ci_namespace c \<and> (ci_allowedBackends c = None \<or> bi_backendId i \<in> set (the (ci_allowedBackends c)))" for i
    by (auto simp: canReach_def split: option.splits)
  show "mset (map dc_backendId (discover c g)) =
       mset (map bi_backendId (filter (\<lambda>i. bi_namespace i = ci_namespace c
             \<and> (ci_allowedBackends c = None \<or> bi_backendId i \<in> set (the (ci_allowedBackends c))))
          (listBackendIdentities (gw_storage g))))"
    by (simp add: discover_def reach multiset.map_comp comp_def)
  show "sorted_wrt (\<lambda>a b. dc_online b < dc_online a
        \<or> dc_online a = dc_online b \<and> or_else (dc_lastSeenAt b) 0 \<le> or_else (dc_lastSeenAt a) 0) (discover c g)"
  proof -
    have "sorted (map (\<lambda>i. (if dc_online i then 0 else 1 :: int, - or_else (dc_lastSeenAt i) 0)) (discover c g))"
      by (simp add: discover_def)
    then show ?thesis
      unfolding sorted_map by (rule sorted_wrt_mono_rel [rotated]) (auto split: if_splits)
  qed
  show "list_all (\<lambda>d. dc_online d = jm_has (gs_registry g) (dc_backendId d)) (discover c g)"
    by (auto simp: discover_def list_all_iff)
qed

lemma set_js_uniq [simp]: "set (js_uniq xs) = set xs" "distinct (js_uniq xs)"
  by (simp_all add: js_uniq_def)

text \<open>
  An administrator can only store a meaningful scope: the request value is either null (the whole
  namespace) or yields the distinct, non-empty list of exactly the ids it names, each of which is a
  known backend of the credential's namespace.
\<close>

theorem scope_parsing_sound:
  assumes "parseBackendScope v ns st = Inr scope"
  shows "(case scope of
            None \<Rightarrow> v = Some JNull
          | Some ids \<Rightarrow> ids \<noteq> [] \<and> distinct ids \<and> js_strings v \<noteq> None \<and> set ids = set (the (js_strings v))
              \<and> (\<forall>i\<in>set ids. \<exists>b\<in>set (st_identities st). bi_backendId b = i \<and> bi_namespace b = ns))"
proof (cases scope)
  case None
  with assms show ?thesis by (auto simp: parseBackendScope_def Let_def split: option.splits if_splits)
next
  case (Some ids)
  have known: "\<exists>b\<in>set (st_identities st). bi_backendId b = i \<and> bi_namespace b = ns"
    if "isKnownBackend i ns st" for i
    using that by (auto simp: isKnownBackend_def getBackendIdentity_def listBackendIdentities_def
        order_by_created_desc_def backend_identity.truncate_def split: option.splits dest!: find_SomeD) blast
  obtain xs where "js_strings v = Some xs" "ids = js_uniq xs" "xs \<noteq> []" "\<forall>i\<in>set ids. isKnownBackend i ns st"
    using assms Some
    by (auto simp: parseBackendScope_def Let_def filter_empty_conv split: option.splits if_splits)
  with Some show ?thesis by (auto simp: known js_uniq_def)
qed

section \<open>Concrete instances\<close>

definition sample_peer :: "string \<Rightarrow> ws \<Rightarrow> string list option \<Rightarrow> peer_session" where
  "sample_peer i w ids = \<lparr>ps_id = i, ps_ws = w, ps_protocolVersion = 4, ps_peerType = ClientOnly,
     ps_namespace = ''prod'', ps_credentialId = Some ''c1'', ps_allowedBackends = ids, ps_deviceId = [],
     ps_instanceId = [], ps_channel = ''prod'', ps_name = [], ps_recoveryToken = ''r'' @ i,
     ps_isAlive = True, ps_backendId = None, ps_epoch = None\<rparr>"

definition sample_presence :: "string \<Rightarrow> presence" where
  "sample_presence b = \<lparr>pr_namespace = ''prod'', pr_backendId = b, pr_instanceId = [], pr_deviceId = [],
     pr_name = [], pr_channel = ''prod'', pr_visible = True, pr_capabilities = JArr [],
     pr_backendProtocolVersion = NFin 1, pr_minClientProtocolVersion = None, pr_epoch = 1,
     pr_connectedAt = 5, pr_lastSeenAt = 5, pr_gatewayProtocolVersion = 4\<rparr>"

definition sample_gateway :: gateway where
  "sample_gateway = registryUpsert (sample_presence ''b1'') (registryUpsert (sample_presence ''b2'')
     (addPeer (sample_peer ''p1'' 1 None) (addPeer (sample_peer ''p2'' 2 (Some [''b2'']))
       ((start_gateway sample_config empty_storage)\<lparr>gw_ready := (\<lambda>_. Open)\<rparr>))))"

theorem broadcast_exact_witness:
  "sent (broadcastRegistrySnapshot None sample_gateway) =
     [(2, RegistrySnapshot [sample_presence ''b2'']),
      (1, RegistrySnapshot [sample_presence ''b2'', sample_presence ''b1''])]"
proof -
  have "\<forall>p\<in>set (jm_vals (gs_peers sample_gateway)). scope_clean p" by code_simp
  from broadcast_exact [OF this, of None, THEN conjunct1] show ?thesis
    by (rule trans) code_simp
qed

theorem scope_parsing_sound_witness:
  "\<exists>x\<in>set (st_identities (fst (createBoundBackendIdentity ''prod'' ''host'' ''b1'' 3 empty_storage))).
      bi_backendId x = ''b1'' \<and> bi_namespace x = ''prod''"
proof -
  have "parseBackendScope (Some (JArr [JStr ''b1'', JStr ''b1''])) ''prod''
      (fst (createBoundBackendIdentity ''prod'' ''host'' ''b1'' 3 empty_storage)) = Inr (Some [''b1''])"
    by (simp add: parseBackendScope_def js_strings_def js_uniq_def isKnownBackend_def getBackendIdentity_def
        listBackendIdentities_def order_by_created_desc_def createBoundBackendIdentity_def
        insert_identity_def empty_storage_def backend_identity.truncate_def)
  from scope_parsing_sound [OF this] show ?thesis by (simp only: option.case) simp
qed

end
