(* ===== verification/Gw_Channels.thy ===== *)
theory Gw_Channels
  imports Gw_Access
begin

text \<open>
  src/server.ts, v4 channels: one-time dial tickets, opening, dialing, pairing, rejecting, closing
  and tearing down a channel, and the frame relay with its byte bucket.  A dial has two steps, the
  ticket check and the completed upgrade, since the upgrade's callback re-reads the channel map.
  The channel id and the tokens are drawn by the caller; the request's path and query arrive parsed.
\<close>

section \<open>Tickets\<close>

definition issueChannelTicket ::
  "config \<Rightarrow> string \<Rightarrow> role \<Rightarrow> string \<Rightarrow> int \<Rightarrow> gateway \<Rightarrow> gateway" where
  "issueChannelTicket cf channelId role token now g =
     g\<lparr>gw_tickets := jm_set token
         \<lparr>tk_channelId = channelId, tk_role = role, tk_expiresAt = now + cf_channelTicketTtlMs cf\<rparr>
         (gw_tickets g)\<rparr>"

definition channel_of_peer :: "string \<Rightarrow> channel \<Rightarrow> bool" where
  "channel_of_peer sid ch \<longleftrightarrow> ch_client ch = sid \<or> ch_backend ch = sid"

definition countChannelsForPeer :: "string \<Rightarrow> gateway \<Rightarrow> int" where
  "countChannelsForPeer sid g = int (length (filter (channel_of_peer sid) (jm_vals (gw_channels g))))"

section \<open>Teardown\<close>

definition answer_internal :: "string \<Rightarrow> channel \<Rightarrow> gateway \<Rightarrow> gateway" where
  "answer_internal reason ch g =
     (case ch_internalRes ch of
        None \<Rightarrow> g
      | Some r \<Rightarrow>
          if \<not> rs_headersSent (gw_res g r) then
            res_json r (if reason = ''timeout'' then 504 else 502)
              (if reason = ''timeout'' then ''GATEWAY_TIMEOUT'' else ''BACKEND_OFFLINE'')
              (''Proxy channel '' @ reason) g
          else if \<not> rs_writableEnded (gw_res g r) \<and> \<not> rs_destroyed (gw_res g r) then
            res_destroy r (''Proxy channel '' @ reason) g
          else g)"

definition close_leg :: "config \<Rightarrow> string \<Rightarrow> ws option \<Rightarrow> gateway \<Rightarrow> gateway" where
  "close_leg cf reason leg g =
     (case leg of
        None \<Rightarrow> g
      | Some w \<Rightarrow>
          (let g1 = emit (OResume w) g
           in if gw_ready g1 w = Open then ws_close cf w 1000 reason g1 else ws_terminate cf w g1))"

definition tell_peer :: "string \<Rightarrow> wire \<Rightarrow> gateway \<Rightarrow> gateway" where
  "tell_peer sid m g =
     (case jm_get (gs_peers g) sid of None \<Rightarrow> g | Some peer \<Rightarrow> sendToWs (ps_ws peer) m g)"

definition teardownChannel :: "config \<Rightarrow> string \<Rightarrow> string \<Rightarrow> gateway \<Rightarrow> gateway" where
  "teardownChannel cf channelId reason g =
     (case jm_get (gw_channels g) channelId of
        None \<Rightarrow> g
      | Some ch \<Rightarrow>
          (let g1 = g\<lparr>gw_channels := jm_del channelId (gw_channels g),
                      gw_tickets := fold jm_del (ch_tickets ch) (gw_tickets g)\<rparr>;
               g2 = answer_internal reason ch g1;
               g3 = close_leg cf reason (ch_backendSocket ch) (close_leg cf reason (ch_clientSocket ch) g2);
               closedMsg = ChannelClosed channelId reason
           in tell_peer (ch_backend ch) closedMsg (tell_peer (ch_client ch) closedMsg g3)))"

fun teardown_all :: "config \<Rightarrow> string \<Rightarrow> (channel \<Rightarrow> bool) \<Rightarrow> channel list \<Rightarrow> gateway \<Rightarrow> gateway" where
  "teardown_all cf reason P [] g = g"
| "teardown_all cf reason P (ch # chs) g =
     teardown_all cf reason P chs (if P ch then teardownChannel cf (ch_id ch) reason g else g)"

definition closeChannelsForBackend :: "config \<Rightarrow> string \<Rightarrow> string \<Rightarrow> gateway \<Rightarrow> gateway" where
  "closeChannelsForBackend cf backendId reason g =
     teardown_all cf reason (\<lambda>ch. ch_backendId ch = backendId) (jm_vals (gw_channels g)) g"

definition closeChannelsForPeer :: "config \<Rightarrow> string \<Rightarrow> gateway \<Rightarrow> gateway" where
  "closeChannelsForPeer cf sid g =
     teardown_all cf ''closed'' (channel_of_peer sid) (jm_vals (gw_channels g)) g"

section \<open>Opening\<close>

definition gateway_error :: "peer_session \<Rightarrow> string \<Rightarrow> string \<Rightarrow> gateway \<Rightarrow> gateway" where
  "gateway_error peer code message g = sendToWs (ps_ws peer) (GatewayError code message) g"

definition backend_session :: "string \<Rightarrow> 'a gstate_scheme \<Rightarrow> (presence \<times> lease \<times> peer_session) option" where
  "backend_session b g =
     (case (jm_get (gs_registry g) b, jm_get (gs_leases g) b) of
        (Some pr, Some l) \<Rightarrow> map_option (\<lambda>p. (pr, l, p)) (jm_get (gs_peers g) (le_peerSessionId l))
      | _ \<Rightarrow> None)"

text \<open>The three values an opening draws: the channel's id and the two tickets.\<close>

record channel_draws =
  cd_id :: string
  cd_client :: string
  cd_backend :: string

definition channel_path :: "string \<Rightarrow> string" where
  "channel_path channelId = ''/channel/'' @ channelId"

definition new_channel ::
  "config \<Rightarrow> string \<Rightarrow> string option \<Rightarrow> string \<Rightarrow> lease \<Rightarrow> channel_draws \<Rightarrow> int \<Rightarrow> channel" where
  "new_channel cf target kind client l rn now =
     \<lparr>ch_id = cd_id rn, ch_backendId = target, ch_epoch = le_epoch l, ch_kind = kind,
      ch_client = client, ch_backend = le_peerSessionId l,
      ch_clientSocket = None, ch_backendSocket = None, ch_piped = False,
      ch_tickets = [cd_client rn, cd_backend rn],
      ch_pairingAt = Some (now + cf_channelTicketTtlMs cf),
      ch_internal = False, ch_internalRes = None\<rparr>"

definition handleChannelOpen ::
  "config \<Rightarrow> peer_session \<Rightarrow> string \<Rightarrow> string option \<Rightarrow> channel_draws \<Rightarrow> int \<Rightarrow> gateway \<Rightarrow> gateway" where
  "handleChannelOpen cf peer target kind rn now g =
     (if ps_protocolVersion peer \<noteq> 4
      then gateway_error peer ''INVALID_MESSAGE'' ''channel_open requires protocol v4'' g
      else
        case backend_session target g of
          None \<Rightarrow> gateway_error peer ''BACKEND_OFFLINE'' (''Backend '' @ target @ '' not found or offline'') g
        | Some (presence, lease, backendPeer) \<Rightarrow>
            if \<not> peer_reaches peer presence
            then gateway_error peer ''BACKEND_OFFLINE'' (''Backend '' @ target @ '' not found or offline'') g
            else if countChannelsForPeer (ps_id peer) g \<ge> cf_maxChannelsPerPeer cf
            then gateway_error peer ''RATE_LIMITED'' ''Too many open channels'' g
            else
              (let g1 = issueChannelTicket cf (cd_id rn) RClient (cd_client rn) now g;
                   g2 = issueChannelTicket cf (cd_id rn) RBackend (cd_backend rn) now g1;
                   ch = new_channel cf target kind (ps_id peer) lease rn now;
                   g3 = g2\<lparr>gw_channels := jm_set (cd_id rn) ch (gw_channels g2)\<rparr>;
                   g4 = sendToWs (ps_ws backendPeer) (ChannelOffer (cd_id rn) kind (Some (ps_id peer))
                          (cd_backend rn) (channel_path (cd_id rn))) g3
               in sendToWs (ps_ws peer) (ChannelReady (cd_id rn) (cd_client rn) (channel_path (cd_id rn))) g4))"

definition handleChannelReject :: "config \<Rightarrow> peer_session \<Rightarrow> string \<Rightarrow> gateway \<Rightarrow> gateway" where
  "handleChannelReject cf peer channelId g =
     (case jm_get (gw_channels g) channelId of
        None \<Rightarrow> g
      | Some ch \<Rightarrow> if ch_backend ch \<noteq> ps_id peer then g else teardownChannel cf channelId ''rejected'' g)"

definition handleChannelClose :: "config \<Rightarrow> peer_session \<Rightarrow> string \<Rightarrow> gateway \<Rightarrow> gateway" where
  "handleChannelClose cf peer channelId g =
     (case jm_get (gw_channels g) channelId of
        None \<Rightarrow> g
      | Some ch \<Rightarrow>
          if ch_client ch \<noteq> ps_id peer \<and> ch_backend ch \<noteq> ps_id peer then g
          else teardownChannel cf channelId ''closed'' g)"

section \<open>Dialing and pairing\<close>

text \<open>The dial's answer: the role to upgrade for, or \<open>401\<close> and a destroyed socket.\<close>

definition handleChannelUpgrade ::
  "string \<Rightarrow> string \<Rightarrow> int \<Rightarrow> gateway \<Rightarrow> gateway \<times> role option" where
  "handleChannelUpgrade channelId token now g =
     (case jm_get (gw_tickets g) token of
        None \<Rightarrow> (g, None)
      | Some t \<Rightarrow>
          (let g1 = g\<lparr>gw_tickets := jm_del token (gw_tickets g)\<rparr>
           in if channelId = [] \<or> \<not> jm_has (gw_channels g1) channelId \<or> tk_channelId t \<noteq> channelId
                 \<or> now > tk_expiresAt t
              then (g1, None) else (g1, Some (tk_role t))))"

definition wireChannel :: "string \<Rightarrow> ws \<Rightarrow> ws \<Rightarrow> gateway \<Rightarrow> gateway" where
  "wireChannel channelId a b g =
     emit (OResume b) (emit (OResume a)
       (g\<lparr>gw_channels := jm_upd channelId (\<lambda>ch. ch\<lparr>ch_piped := True\<rparr>) (gw_channels g)\<rparr>))"

text \<open>
  The completed upgrade.  The second component tells the caller that an internal HTTP channel got
  its backend socket: the bridge then takes over before the socket is resumed.
\<close>

definition channelUpgraded :: "config \<Rightarrow> string \<Rightarrow> role \<Rightarrow> ws \<Rightarrow> gateway \<Rightarrow> gateway \<times> bool" where
  "channelUpgraded cf channelId r w g =
     (if \<not> jm_has (gw_channels g) channelId then (ws_terminate cf w g, False)
      else
        (let g1 = emit (OPause w) g;
             g2 = g1\<lparr>gw_channels := jm_upd channelId
                   (\<lambda>ch. if r = RClient then ch\<lparr>ch_clientSocket := Some w\<rparr> else ch\<lparr>ch_backendSocket := Some w\<rparr>)
                   (gw_channels g1)\<rparr>
         in case jm_get (gw_channels g2) channelId of
              None \<Rightarrow> (g2, False)
            | Some ch \<Rightarrow>
                if ch_internal ch \<and> ch_backendSocket ch \<noteq> None \<and> \<not> ch_piped ch then
                  (g2\<lparr>gw_channels := jm_upd channelId (\<lambda>ch. ch\<lparr>ch_piped := True, ch_pairingAt := None\<rparr>) (gw_channels g2)\<rparr>,
                   True)
                else
                  (case (ch_clientSocket ch, ch_backendSocket ch) of
                     (Some a, Some b) \<Rightarrow>
                       if \<not> ch_piped ch then
                         (wireChannel channelId a b
                            (g2\<lparr>gw_channels := jm_upd channelId (\<lambda>ch. ch\<lparr>ch_pairingAt := None\<rparr>) (gw_channels g2)\<rparr>), False)
                       else (g2, False)
                   | _ \<Rightarrow> (g2, False))))"

definition pairing_timeout :: "config \<Rightarrow> string \<Rightarrow> int \<Rightarrow> gateway \<Rightarrow> gateway" where
  "pairing_timeout cf channelId now g =
     (case jm_get (gw_channels g) channelId of
        None \<Rightarrow> g
      | Some ch \<Rightarrow>
          (case ch_pairingAt ch of
             None \<Rightarrow> g
           | Some t \<Rightarrow> if t \<le> now then teardownChannel cf channelId ''timeout'' g else g))"

text \<open>\<open>close\<close> and \<open>error\<close> of a wired socket.\<close>

definition channel_socket_closed :: "config \<Rightarrow> string \<Rightarrow> gateway \<Rightarrow> gateway" where
  "channel_socket_closed cf channelId g = teardownChannel cf channelId ''closed'' g"

section \<open>The relay\<close>

record relay_bucket =
  rb_used :: int
  rb_resetAt :: int

datatype relay_effect = RSend string bool | RPause | RResumeIn int | RDrainPoll

definition HIGH_WATER :: int where
  "HIGH_WATER = 4 * 1024 * 1024"

text \<open>Charging a frame to its direction's bucket; a delay is how long the sender stays paused.\<close>

definition relay_charge :: "int \<Rightarrow> int \<Rightarrow> int \<Rightarrow> relay_bucket \<Rightarrow> relay_bucket \<times> int option" where
  "relay_charge limit now len b =
     (let b' = (if now \<ge> rb_resetAt b
                then \<lparr>rb_used = max 0 (rb_used b - limit) + len, rb_resetAt = now + 1000\<rparr>
                else b\<lparr>rb_used := rb_used b + len\<rparr>)
      in (b', if rb_used b' > limit then Some (rb_resetAt b' - now) else None))"

text \<open>
  One frame: \<open>toOpen\<close> is whether the receiver is open, \<open>buffered\<close> what it holds after the send.  A
  limit of 0 is falsy and limits nothing.
\<close>

definition relay_message ::
  "int option \<Rightarrow> bool \<Rightarrow> int \<Rightarrow> int \<Rightarrow> string \<Rightarrow> bool \<Rightarrow> relay_bucket \<Rightarrow> relay_bucket \<times> relay_effect list" where
  "relay_message limit toOpen buffered now data isBinary b =
     (if \<not> toOpen then (b, [])
      else
        (let (b1, rate) = (case limit of
               None \<Rightarrow> (b, [])
             | Some l \<Rightarrow>
                 if l = 0 then (b, [])
                 else (case relay_charge l now (int (length data)) b of
                         (b', None) \<Rightarrow> (b', [])
                       | (b', Some d) \<Rightarrow> (b', [RPause, RResumeIn d])))
         in (b1, RSend data isBinary # rate @ (if buffered > HIGH_WATER then [RPause, RDrainPoll] else []))))"

definition relay_drain_tick :: "bool \<Rightarrow> int \<Rightarrow> bool" where
  "relay_drain_tick toOpen buffered = (buffered \<le> HIGH_WATER div 4 \<or> \<not> toOpen)"

text \<open>Frames that arrive in order, none while the rate limit has the sender paused.\<close>

fun paced :: "int \<Rightarrow> relay_bucket \<Rightarrow> int \<Rightarrow> (int \<times> string) list \<Rightarrow> bool" where
  "paced limit b paused [] = True"
| "paced limit b paused ((t, d) # fs) =
     (paused \<le> t \<and>
      (let (b', delay) = relay_charge limit t (int (length d)) b
       in paced limit b' (t + or_else delay 0) fs))"

definition bytes :: "(int \<times> string) list \<Rightarrow> int" where
  "bytes fs = sum_list (map (\<lambda>(t, d). int (length d)) fs)"

lemma paced_bound:
  assumes "paced L b p fs" and "0 < L" and "F \<le> L" and "\<forall>(t, d)\<in>set fs. int (length d) \<le> F \<and> t \<le> T"
    and "rb_used b \<le> L + F" and "L < rb_used b \<longrightarrow> rb_resetAt b \<le> p" and "rb_resetAt b - 1000 \<le> T"
  shows "rb_used b + bytes fs \<le> L * ((T - (rb_resetAt b - 1000)) div 1000 + 1) + F"
  using assms(1,4,5,6,7)
proof (induction fs arbitrary: b p)
  case Nil
  have "0 \<le> L * ((T - (rb_resetAt b - 1000)) div 1000)"
    using assms(2) Nil by (simp add: pos_imp_zdiv_nonneg_iff)
  with Nil show ?case by (simp add: bytes_def algebra_simps)
next
  case (Cons x fs)
  obtain t d where x: "x = (t, d)" by fastforce
  let ?len = "int (length d)"
  obtain b' delay where c: "relay_charge L t ?len b = (b', delay)" by fastforce
  have len: "0 \<le> ?len" "?len \<le> F" "t \<le> T" "p \<le> t" using Cons.prems x by auto
  have rest: "paced L b' (t + or_else delay 0) fs" using Cons.prems(1) x c by simp
  show ?case
  proof (cases "rb_resetAt b \<le> t")
    case True
    then have b': "b' = \<lparr>rb_used = max 0 (rb_used b - L) + ?len, rb_resetAt = t + 1000\<rparr>"
      and del: "delay = (if rb_used b' > L then Some 1000 else None)"
      using c by (auto simp: relay_charge_def Let_def)
    have "rb_used b' + bytes fs \<le> L * ((T - (rb_resetAt b' - 1000)) div 1000 + 1) + F"
      by (rule Cons.IH [OF rest]) (use Cons.prems len assms(3) in \<open>auto simp: b' del x\<close>)
    moreover have "rb_used b + ?len \<le> L + rb_used b'" by (simp add: b')
    moreover have "(T - (rb_resetAt b' - 1000)) div 1000 + 1 \<le> (T - (rb_resetAt b - 1000)) div 1000"
      using True by (simp add: b')
    then have "L * ((T - (rb_resetAt b' - 1000)) div 1000 + 1) \<le> L * ((T - (rb_resetAt b - 1000)) div 1000)"
      using assms(2) by (simp add: mult_left_mono)
    ultimately show ?thesis by (simp add: x bytes_def algebra_simps)
  next
    case False
    then have b': "b' = b\<lparr>rb_used := rb_used b + ?len\<rparr>"
      and del: "delay = (if rb_used b' > L then Some (rb_resetAt b - t) else None)"
      using c by (auto simp: relay_charge_def Let_def)
    have "rb_used b' + bytes fs \<le> L * ((T - (rb_resetAt b' - 1000)) div 1000 + 1) + F"
      by (rule Cons.IH [OF rest]) (use Cons.prems False len assms(3) in \<open>auto simp: b' del x\<close>)
    then show ?thesis by (simp add: x b' bytes_def)
  qed
qed

text \<open>
  The byte limit of a channel direction holds: as long as frames are no larger than one second's
  allowance and the rate pause is respected, the bytes relayed up to any time are at most the limit
  times the seconds begun since the first frame, plus one frame.
\<close>

theorem relay_throughput:
  assumes "paced L \<lparr>rb_used = 0, rb_resetAt = 0\<rparr> 0 ((t0, d0) # fs)" and "0 < L" and "F \<le> L"
    and "\<forall>(t, d)\<in>set ((t0, d0) # fs). int (length d) \<le> F \<and> t \<le> T"
  shows "bytes ((t0, d0) # fs) \<le> L * ((T - t0) div 1000 + 1) + F"
proof -
  let ?b = "\<lparr>rb_used = int (length d0), rb_resetAt = t0 + 1000\<rparr>"
  have "0 \<le> t0" "int (length d0) \<le> L" "t0 \<le> T" using assms by auto
  moreover from this have "paced L ?b t0 fs"
    using assms(1) by (simp add: relay_charge_def Let_def)
  ultimately have "rb_used ?b + bytes fs \<le> L * ((T - (rb_resetAt ?b - 1000)) div 1000 + 1) + F"
    using assms by (intro paced_bound [where p = t0]) auto
  then show ?thesis by (simp add: bytes_def)
qed

theorem relay_throughput_witness:
  "bytes [(5, ''abcd''), (6, ''efgh''), (1005, ''ijk'')] \<le> 6 * ((1005 - 5) div 1000 + 1) + 4"
proof -
  have "paced 6 \<lparr>rb_used = 0, rb_resetAt = 0\<rparr> 0 [(5, ''abcd''), (6, ''efgh''), (1005, ''ijk'')]"
    by code_simp
  then show ?thesis by (rule relay_throughput) simp_all
qed

text \<open>
  Larger frames defeat the limit: a sender whose every frame exceeds one second's allowance is
  paused for a second and no longer, so it relays one frame of any size each second for ever.
\<close>

theorem oversized_frames_unlimited:
  assumes "0 < L" and "L < int (length d)"
  shows "paced L \<lparr>rb_used = 0, rb_resetAt = 0\<rparr> 0 (map (\<lambda>i. (1000 * int i, d)) [0..<n])"
proof -
  have "paced L b (1000 * int k) (map (\<lambda>i. (1000 * int i, d)) [k..<k + m])"
    if "rb_resetAt b \<le> 1000 * int k" for b k m
    using that
  proof (induction m arbitrary: b k)
    case (Suc m)
    let ?b = "\<lparr>rb_used = max 0 (rb_used b - L) + int (length d), rb_resetAt = 1000 * int k + 1000\<rparr>"
    have "relay_charge L (1000 * int k) (int (length d)) b = (?b, Some 1000)"
      using Suc.prems assms by (simp add: relay_charge_def Let_def)
    moreover have "paced L ?b (1000 * int (Suc k)) (map (\<lambda>i. (1000 * int i, d)) [Suc k..<Suc k + m])"
      by (rule Suc.IH) simp
    ultimately show ?case by (simp add: upt_conv_Cons algebra_simps del: upt_Suc)
  qed simp
  from this [of _ 0 n] show ?thesis by simp
qed

theorem oversized_frames_unlimited_witness:
  "paced 2 \<lparr>rb_used = 0, rb_resetAt = 0\<rparr> 0 (map (\<lambda>i. (1000 * int i, ''abcdef'')) [0..<9])"
  by (rule oversized_frames_unlimited) simp_all

section \<open>Teardown in closed form\<close>

lemma core_teardown_parts [simp]:
  "core (answer_internal r ch g) = core g" "core (close_leg cf r leg g) = core g"
  "core (tell_peer sid x g) = core g" "core (gateway_error p c m g) = core g"
  by (auto simp: answer_internal_def close_leg_def tell_peer_def gateway_error_def Let_def split: option.split)

definition drop_channel :: "string \<Rightarrow> gateway \<Rightarrow> gateway" where
  "drop_channel cid g =
     g\<lparr>gw_channels := jm_del cid (gw_channels g),
       gw_tickets := jm_filter (\<lambda>t _. \<forall>ch. jm_get (gw_channels g) cid = Some ch \<longrightarrow> t \<notin> set (ch_tickets ch)) (gw_tickets g)\<rparr>"

lemma core_teardown: "core (teardownChannel cf cid reason g) = core (drop_channel cid g)"
  by (auto simp: teardownChannel_def drop_channel_def Let_def jm_del_absent fold_jm_del split: option.split)

lemmas teardown_fields = core_fields [OF core_teardown]

lemma teardown_simps [simp, frame]:
  "gs_peers (teardownChannel cf cid r g) = gs_peers g"
  "gs_wsToPeer (teardownChannel cf cid r g) = gs_wsToPeer g"
  "gs_registry (teardownChannel cf cid r g) = gs_registry g"
  "gs_leases (teardownChannel cf cid r g) = gs_leases g"
  "gw_storage (teardownChannel cf cid r g) = gw_storage g"
  "gw_recoveryTokens (teardownChannel cf cid r g) = gw_recoveryTokens g"
  "gw_authFailures (teardownChannel cf cid r g) = gw_authFailures g"
  "gw_proxyRequests (teardownChannel cf cid r g) = gw_proxyRequests g"
  "gw_proxyIpRequests (teardownChannel cf cid r g) = gw_proxyIpRequests g"
  "gw_ownerReplacements (teardownChannel cf cid r g) = gw_ownerReplacements g"
  "gw_topicSubs (teardownChannel cf cid r g) = gw_topicSubs g"
  "gw_retained (teardownChannel cf cid r g) = gw_retained g"
  "gw_wsPerIp (teardownChannel cf cid r g) = gw_wsPerIp g"
  "gw_conns (teardownChannel cf cid r g) = gw_conns g"
  "gw_adminSessions (teardownChannel cf cid r g) = gw_adminSessions g"
  "gw_channels (teardownChannel cf cid r g) = jm_del cid (gw_channels g)"
  "gw_tickets (teardownChannel cf cid r g) =
     jm_filter (\<lambda>t _. \<forall>ch. jm_get (gw_channels g) cid = Some ch \<longrightarrow> t \<notin> set (ch_tickets ch)) (gw_tickets g)"
  using teardown_fields [of cf cid r g] by (simp_all add: drop_channel_def)

lemma teardown_all_simps [simp, frame]:
  "gs_peers (teardown_all cf r P chs g) = gs_peers g"
  "gs_wsToPeer (teardown_all cf r P chs g) = gs_wsToPeer g"
  "gs_registry (teardown_all cf r P chs g) = gs_registry g"
  "gs_leases (teardown_all cf r P chs g) = gs_leases g"
  "gw_storage (teardown_all cf r P chs g) = gw_storage g"
  "gw_recoveryTokens (teardown_all cf r P chs g) = gw_recoveryTokens g"
  "gw_authFailures (teardown_all cf r P chs g) = gw_authFailures g"
  "gw_proxyRequests (teardown_all cf r P chs g) = gw_proxyRequests g"
  "gw_proxyIpRequests (teardown_all cf r P chs g) = gw_proxyIpRequests g"
  "gw_ownerReplacements (teardown_all cf r P chs g) = gw_ownerReplacements g"
  "gw_topicSubs (teardown_all cf r P chs g) = gw_topicSubs g"
  "gw_retained (teardown_all cf r P chs g) = gw_retained g"
  "gw_wsPerIp (teardown_all cf r P chs g) = gw_wsPerIp g"
  "gw_conns (teardown_all cf r P chs g) = gw_conns g"
  "gw_adminSessions (teardown_all cf r P chs g) = gw_adminSessions g"
  by (induction cf r P chs g rule: teardown_all.induct) auto

lemma teardown_all_channels:
  "gw_channels (teardown_all cf r P chs g) =
     jm_filter (\<lambda>k _. \<forall>c\<in>set chs. P c \<longrightarrow> ch_id c \<noteq> k) (gw_channels g)"
  by (induction cf r P chs g rule: teardown_all.induct)
     (auto simp: jm_del_filter intro!: jm_filter_cong)

lemma teardown_all_tickets:
  assumes "distinct (map ch_id chs)" and "\<forall>c\<in>set chs. jm_get (gw_channels g) (ch_id c) = Some c"
  shows "gw_tickets (teardown_all cf r P chs g) =
     jm_filter (\<lambda>t _. \<forall>c\<in>set chs. P c \<longrightarrow> t \<notin> set (ch_tickets c)) (gw_tickets g)"
  using assms
proof (induction chs arbitrary: g)
  case (Cons c chs)
  let ?g = "if P c then teardownChannel cf (ch_id c) r g else g"
  have "gw_tickets (teardown_all cf r P chs ?g) =
      jm_filter (\<lambda>t _. \<forall>c\<in>set chs. P c \<longrightarrow> t \<notin> set (ch_tickets c)) (gw_tickets ?g)"
  proof (rule Cons.IH)
    show "distinct (map ch_id chs)" using Cons.prems(1) by simp
    show "\<forall>x\<in>set chs. jm_get (gw_channels ?g) (ch_id x) = Some x"
    proof
      fix x assume x: "x \<in> set chs"
      then have "ch_id x \<noteq> ch_id c"
        using Cons.prems(1) by (metis distinct.simps(2) imageI list.set_map list.simps(9))
      with x Cons.prems(2) show "jm_get (gw_channels ?g) (ch_id x) = Some x" by simp
    qed
  qed
  moreover have "jm_get (gw_channels g) (ch_id c) = Some c" using Cons.prems(2) by simp
  ultimately show ?case by simp
qed simp

text \<open>The channel map is keyed by the channels' own ids.\<close>

definition chan_ok :: "gateway \<Rightarrow> bool" where
  "chan_ok g \<longleftrightarrow> jm_ok (gw_channels g) \<and> (\<forall>k ch. jm_get (gw_channels g) k = Some ch \<longrightarrow> ch_id ch = k)"

lemma chan_ok_vals:
  assumes "chan_ok g"
  shows "distinct (map ch_id (jm_vals (gw_channels g)))"
    and "\<forall>c\<in>set (jm_vals (gw_channels g)). jm_get (gw_channels g) (ch_id c) = Some c"
proof -
  have "map ch_id (jm_vals (gw_channels g)) = jm_keys (gw_channels g)"
    using assms by (auto simp: chan_ok_def jm_vals_def jm_keys_def jm_in_iff)
  then show "distinct (map ch_id (jm_vals (gw_channels g)))"
    using assms by (simp add: chan_ok_def jm_ok_def)
  show "\<forall>c\<in>set (jm_vals (gw_channels g)). jm_get (gw_channels g) (ch_id c) = Some c"
    using assms by (auto simp: chan_ok_def jm_vals_iff)
qed

lemma close_all_channels:
  assumes "chan_ok g"
  shows "gw_channels (teardown_all cf r P (jm_vals (gw_channels g)) g) = jm_filter (\<lambda>_ ch. \<not> P ch) (gw_channels g)"
    and "gw_tickets (teardown_all cf r P (jm_vals (gw_channels g)) g) =
           jm_filter (\<lambda>t _. \<forall>k ch. jm_get (gw_channels g) k = Some ch \<longrightarrow> P ch \<longrightarrow> t \<notin> set (ch_tickets ch)) (gw_tickets g)"
proof -
  have ok: "jm_ok (gw_channels g)" and key: "\<And>k ch. jm_get (gw_channels g) k = Some ch \<Longrightarrow> ch_id ch = k"
    using assms by (auto simp: chan_ok_def)
  show "gw_channels (teardown_all cf r P (jm_vals (gw_channels g)) g) = jm_filter (\<lambda>_ ch. \<not> P ch) (gw_channels g)"
    unfolding teardown_all_channels
    by (rule jm_filter_cong) (use ok key in \<open>fastforce simp: jm_in_iff jm_vals_iff\<close>)
  show "gw_tickets (teardown_all cf r P (jm_vals (gw_channels g)) g) =
           jm_filter (\<lambda>t _. \<forall>k ch. jm_get (gw_channels g) k = Some ch \<longrightarrow> P ch \<longrightarrow> t \<notin> set (ch_tickets ch)) (gw_tickets g)"
    unfolding teardown_all_tickets [OF chan_ok_vals [OF assms]]
    by (rule jm_filter_cong) (use ok in \<open>auto simp: jm_vals_iff\<close>)
qed

text \<open>The closed forms of the two bulk closings.\<close>

lemma closeBackend_channels:
  "chan_ok g \<Longrightarrow> gw_channels (closeChannelsForBackend cf b r g) =
     jm_filter (\<lambda>_ ch. ch_backendId ch \<noteq> b) (gw_channels g)"
  by (simp add: closeChannelsForBackend_def close_all_channels)

lemma closePeer_channels:
  "chan_ok g \<Longrightarrow> gw_channels (closeChannelsForPeer cf sid g) =
     jm_filter (\<lambda>_ ch. \<not> channel_of_peer sid ch) (gw_channels g)"
  by (simp add: closeChannelsForPeer_def close_all_channels)

section \<open>Properties\<close>

text \<open>
  Only an end of a channel can close it, and only its backend can reject it: anyone else's message
  changes nothing, and an end's message removes exactly that channel.
\<close>

theorem channel_close_authority:
  "gw_channels (handleChannelClose cf peer cid g) =
     (if \<exists>ch. jm_get (gw_channels g) cid = Some ch \<and> (ch_client ch = ps_id peer \<or> ch_backend ch = ps_id peer)
      then jm_del cid (gw_channels g) else gw_channels g)
   \<and> gw_channels (handleChannelReject cf peer cid g) =
     (if \<exists>ch. jm_get (gw_channels g) cid = Some ch \<and> ch_backend ch = ps_id peer
      then jm_del cid (gw_channels g) else gw_channels g)
   \<and> core (handleChannelClose cf peer cid g) \<in> {core g, core (teardownChannel cf cid ''closed'' g)}
   \<and> core (handleChannelReject cf peer cid g) \<in> {core g, core (teardownChannel cf cid ''rejected'' g)}"
  by (auto simp: handleChannelClose_def handleChannelReject_def split: option.split)

text \<open>Dialing: the ticket check, then the completed upgrade on socket \<open>w\<close>.\<close>

definition dial :: "config \<Rightarrow> string \<Rightarrow> string \<Rightarrow> ws \<Rightarrow> int \<Rightarrow> gateway \<Rightarrow> gateway" where
  "dial cf channelId token w now g =
     (case handleChannelUpgrade channelId token now g of
        (g1, None) \<Rightarrow> g1
      | (g1, Some r) \<Rightarrow> fst (channelUpgraded cf channelId r w g1))"

text \<open>When an opening is granted, and on which lease.\<close>

definition channel_grant :: "config \<Rightarrow> peer_session \<Rightarrow> string \<Rightarrow> gateway \<Rightarrow> lease option" where
  "channel_grant cf peer target g =
     (if ps_protocolVersion peer \<noteq> 4 \<or> countChannelsForPeer (ps_id peer) g \<ge> cf_maxChannelsPerPeer cf then None
      else case backend_session target g of
             None \<Rightarrow> None
           | Some (presence, lease, _) \<Rightarrow> if peer_reaches peer presence then Some lease else None)"

definition granted_tickets :: "config \<Rightarrow> channel_draws \<Rightarrow> int \<Rightarrow> (string, ticket) jmap \<Rightarrow> (string, ticket) jmap" where
  "granted_tickets cf rn now m =
     jm_set (cd_backend rn) \<lparr>tk_channelId = cd_id rn, tk_role = RBackend, tk_expiresAt = now + cf_channelTicketTtlMs cf\<rparr>
       (jm_set (cd_client rn) \<lparr>tk_channelId = cd_id rn, tk_role = RClient, tk_expiresAt = now + cf_channelTicketTtlMs cf\<rparr> m)"

lemma core_cong: "core g = core g' \<Longrightarrow> core (g\<lparr>gw_tickets := t, gw_channels := c\<rparr>) = core (g'\<lparr>gw_tickets := t, gw_channels := c\<rparr>)"
  by (simp add: core_eq_iff)

lemma core_open:
  "core (handleChannelOpen cf peer target kind rn now g) =
     core (case channel_grant cf peer target g of
             None \<Rightarrow> g
           | Some l \<Rightarrow> g\<lparr>gw_tickets := granted_tickets cf rn now (gw_tickets g),
                         gw_channels := jm_set (cd_id rn) (new_channel cf target kind (ps_id peer) l rn now) (gw_channels g)\<rparr>)"
  by (simp add: handleChannelOpen_def channel_grant_def granted_tickets_def issueChannelTicket_def Let_def
      split: option.split prod.split)

lemma open_channels:
  "gw_channels (handleChannelOpen cf peer target kind rn now g) =
     (case channel_grant cf peer target g of
        None \<Rightarrow> gw_channels g
      | Some l \<Rightarrow> jm_set (cd_id rn) (new_channel cf target kind (ps_id peer) l rn now) (gw_channels g))"
  "gw_tickets (handleChannelOpen cf peer target kind rn now g) =
     (case channel_grant cf peer target g of
        None \<Rightarrow> gw_tickets g
      | Some l \<Rightarrow> granted_tickets cf rn now (gw_tickets g))"
  using core_fields [OF core_open [of cf peer target kind rn now g]]
  by (simp_all split: option.splits)

lemma upgrade_ok:
  assumes "jm_get (gw_tickets g) token = Some t" and "tk_channelId t = cid" and "cid \<noteq> []"
    and "jm_has (gw_channels g) cid" and "now \<le> tk_expiresAt t"
  shows "handleChannelUpgrade cid token now g = (g\<lparr>gw_tickets := jm_del token (gw_tickets g)\<rparr>, Some (tk_role t))"
  using assms by (auto simp: handleChannelUpgrade_def Let_def)

lemma dial_upgraded:
  assumes "jm_get (gw_tickets g) token = Some t" and "tk_channelId t = cid" and "cid \<noteq> []"
    and "jm_has (gw_channels g) cid" and "now \<le> tk_expiresAt t"
  shows "dial cf cid token w now g =
    fst (channelUpgraded cf cid (tk_role t) w (g\<lparr>gw_tickets := jm_del token (gw_tickets g)\<rparr>))"
  by (simp add: dial_def upgrade_ok [OF assms])

lemma upgraded_tickets [simp]: "gw_tickets (fst (channelUpgraded cf cid r w g)) = gw_tickets g"
  by (simp add: channelUpgraded_def wireChannel_def Let_def split: option.split)

definition set_leg :: "role \<Rightarrow> ws \<Rightarrow> channel \<Rightarrow> channel" where
  "set_leg r w ch = (if r = RClient then ch\<lparr>ch_clientSocket := Some w\<rparr> else ch\<lparr>ch_backendSocket := Some w\<rparr>)"

lemma upgraded_first:
  assumes "jm_get (gw_channels g) cid = Some ch" and "\<not> ch_internal ch"
    and "ch_clientSocket ch = None" and "ch_backendSocket ch = None"
  shows "jm_get (gw_channels (fst (channelUpgraded cf cid r w g))) cid = Some (set_leg r w ch)"
  using assms by (cases r) (simp_all add: channelUpgraded_def set_leg_def)

lemma upgraded_second:
  assumes "jm_get (gw_channels g) cid = Some ch" and "\<not> ch_internal ch" and "\<not> ch_piped ch"
    and "ch_clientSocket (set_leg r w ch) \<noteq> None" and "ch_backendSocket (set_leg r w ch) \<noteq> None"
  shows "jm_get (gw_channels (fst (channelUpgraded cf cid r w g))) cid =
     Some ((set_leg r w ch)\<lparr>ch_pairingAt := None, ch_piped := True\<rparr>)"
  using assms by (cases r) (auto simp: channelUpgraded_def set_leg_def wireChannel_def)

text \<open>
  C27.  A channel opens: when both ends dial with their tickets before these expire, in either order,
  the channel is wired to exactly the two dialed sockets, its pairing timer is off, and both tickets
  are spent, so no dial can use them again.
\<close>

theorem channel_pairs:
  assumes g1: "g1 = handleChannelOpen cf peer target kind rn t0 g"
    and "jm_get (gw_channels g) (cd_id rn) = None" and "jm_has (gw_channels g1) (cd_id rn)"
    and "cd_id rn \<noteq> []" and "cd_client rn \<noteq> cd_backend rn"
    and "t1 \<le> t0 + cf_channelTicketTtlMs cf" and "t2 \<le> t0 + cf_channelTicketTtlMs cf"
    and g2: "g2 = dial cf (cd_id rn) (cd_backend rn) b t2 (dial cf (cd_id rn) (cd_client rn) a t1 g1)
           \<or> g2 = dial cf (cd_id rn) (cd_client rn) a t1 (dial cf (cd_id rn) (cd_backend rn) b t2 g1)"
  shows "(\<exists>ch. jm_get (gw_channels g2) (cd_id rn) = Some ch \<and> ch_piped ch \<and> ch_pairingAt ch = None
             \<and> ch_clientSocket ch = Some a \<and> ch_backendSocket ch = Some b)
       \<and> snd (handleChannelUpgrade cid (cd_client rn) t g2) = None
       \<and> snd (handleChannelUpgrade cid (cd_backend rn) t g2) = None"
proof -
  let ?t = "\<lambda>r. \<lparr>tk_channelId = cd_id rn, tk_role = r, tk_expiresAt = t0 + cf_channelTicketTtlMs cf\<rparr>"
  obtain l where l: "channel_grant cf peer target g = Some l"
    using assms(2,3) by (auto simp: g1 open_channels split: option.splits)
  define ch where "ch = new_channel cf target kind (ps_id peer) l rn t0"
  have ch: "jm_get (gw_channels g1) (cd_id rn) = Some ch"
    and plain: "\<not> ch_internal ch" "\<not> ch_piped ch" "ch_clientSocket ch = None" "ch_backendSocket ch = None"
    by (simp_all add: g1 open_channels l ch_def new_channel_def)
  have tk: "jm_get (gw_tickets g1) (cd_client rn) = Some (?t RClient)"
    "jm_get (gw_tickets g1) (cd_backend rn) = Some (?t RBackend)"
    using assms(5) by (simp_all add: g1 open_channels l granted_tickets_def)
  have d1: "dial cf (cd_id rn) (cd_client rn) a t1 h =
      fst (channelUpgraded cf (cd_id rn) RClient a (h\<lparr>gw_tickets := jm_del (cd_client rn) (gw_tickets h)\<rparr>))"
    if "jm_get (gw_tickets h) (cd_client rn) = Some (?t RClient)" "jm_has (gw_channels h) (cd_id rn)" for h
    using dial_upgraded [OF that(1) _ assms(4) that(2)] assms(6) by simp
  have d2: "dial cf (cd_id rn) (cd_backend rn) b t2 h =
      fst (channelUpgraded cf (cd_id rn) RBackend b (h\<lparr>gw_tickets := jm_del (cd_backend rn) (gw_tickets h)\<rparr>))"
    if "jm_get (gw_tickets h) (cd_backend rn) = Some (?t RBackend)" "jm_has (gw_channels h) (cd_id rn)" for h
    using dial_upgraded [OF that(1) _ assms(4) that(2)] assms(7) by simp
  define h1 where "h1 = dial cf (cd_id rn) (cd_client rn) a t1 g1"
  define h2 where "h2 = dial cf (cd_id rn) (cd_backend rn) b t2 g1"
  have h1: "jm_get (gw_channels h1) (cd_id rn) = Some (set_leg RClient a ch)"
    "gw_tickets h1 = jm_del (cd_client rn) (gw_tickets g1)"
    using ch plain by (simp_all add: h1_def d1 tk upgraded_first)
  have h2: "jm_get (gw_channels h2) (cd_id rn) = Some (set_leg RBackend b ch)"
    "gw_tickets h2 = jm_del (cd_backend rn) (gw_tickets g1)"
    using ch plain by (simp_all add: h2_def d2 tk upgraded_first)
  have wired: "jm_get (gw_channels g2) (cd_id rn) = Some (ch\<lparr>ch_clientSocket := Some a, ch_backendSocket := Some b,
      ch_pairingAt := None, ch_piped := True\<rparr>)"
    and spent: "jm_get (gw_tickets g2) (cd_client rn) = None" "jm_get (gw_tickets g2) (cd_backend rn) = None"
    using g2 h1 h2 assms(5) tk plain unfolding h1_def [symmetric] h2_def [symmetric]
    by (auto simp: d1 d2 upgraded_second set_leg_def)
  then show ?thesis by (simp add: handleChannelUpgrade_def)
qed

lemma sent_teardown_parts [simp]:
  "sent (answer_internal r ch g) = sent g" "sent (close_leg cf r leg g) = sent g"
  "gw_ready (answer_internal r ch g) = gw_ready g"
  by (auto simp: answer_internal_def close_leg_def Let_def split: option.split)

lemma ready_close_leg: "leg \<noteq> Some w \<Longrightarrow> gw_ready (close_leg cf r leg g) w = gw_ready g w"
  by (auto simp: close_leg_def Let_def split: option.split)

definition notices :: "gateway \<Rightarrow> wire \<Rightarrow> string list \<Rightarrow> (ws \<times> wire) list" where
  "notices g m sids = List.map_filter (\<lambda>sid.
     case jm_get (gs_peers g) sid of
       None \<Rightarrow> None
     | Some p \<Rightarrow> if gw_ready g (ps_ws p) = Open then Some (ps_ws p, m) else None) sids"

lemma sent_tell_peer: "sent (tell_peer sid m g) = sent g @ notices g m [sid]"
  by (simp add: tell_peer_def notices_def map_filter_def split: option.split)

lemma ready_tell_peer [simp]: "gw_ready (tell_peer sid m g) = gw_ready g"
  by (simp add: tell_peer_def split: option.split)

lemmas tell_peer_fields [simp] = core_fields [OF core_teardown_parts(3)]
lemmas close_leg_fields [simp] = core_fields [OF core_teardown_parts(2)]
lemmas answer_fields [simp] = core_fields [OF core_teardown_parts(1)]

lemma notices_cong:
  "gs_peers g = gs_peers g' \<Longrightarrow>
   (\<And>sid p. sid \<in> set sids \<Longrightarrow> jm_get (gs_peers g) sid = Some p \<Longrightarrow> gw_ready g (ps_ws p) = gw_ready g' (ps_ws p)) \<Longrightarrow>
     notices g m sids = notices g' m sids"
proof (induction sids)
  case (Cons a sids)
  have "notices g m sids = notices g' m sids"
    by (rule Cons.IH) (auto intro: Cons.prems)
  with Cons.prems(1) Cons.prems(2) [of a] show ?case
    by (cases "jm_get (gs_peers g') a") (simp_all add: notices_def map_filter_simps)
qed (simp add: notices_def map_filter_simps)

text \<open>
  Tearing a channel down takes away exactly that channel and its unused tickets, and tells
  exactly its two ends, those still connected on an open socket, with its id and the reason; peers,
  leases, registry and every other channel stay as they are.
\<close>

theorem teardown_exact:
  assumes "jm_get (gw_channels g) cid = Some ch"
    and "\<forall>sid\<in>{ch_client ch, ch_backend ch}. \<forall>p. jm_get (gs_peers g) sid = Some p \<longrightarrow>
           Some (ps_ws p) \<notin> {ch_clientSocket ch, ch_backendSocket ch}"
  shows "core (teardownChannel cf cid reason g) =
           core (g\<lparr>gw_channels := jm_del cid (gw_channels g),
                   gw_tickets := jm_filter (\<lambda>t _. t \<notin> set (ch_tickets ch)) (gw_tickets g)\<rparr>)
       \<and> sent (teardownChannel cf cid reason g) =
           sent g @ notices g (ChannelClosed cid reason) [ch_client ch, ch_backend ch]"
proof
  show "core (teardownChannel cf cid reason g) =
           core (g\<lparr>gw_channels := jm_del cid (gw_channels g),
                   gw_tickets := jm_filter (\<lambda>t _. t \<notin> set (ch_tickets ch)) (gw_tickets g)\<rparr>)"
    using assms(1) by (simp add: core_teardown drop_channel_def)
  define g1 where "g1 = g\<lparr>gw_channels := jm_del cid (gw_channels g),
                      gw_tickets := fold jm_del (ch_tickets ch) (gw_tickets g)\<rparr>"
  define g3 where "g3 = close_leg cf reason (ch_backendSocket ch)
      (close_leg cf reason (ch_clientSocket ch) (answer_internal reason ch g1))"
  have g1: "gw_ready g1 = gw_ready g" "gs_peers g1 = gs_peers g" "sent g1 = sent g"
    by (simp_all add: g1_def sent_def)
  have "gs_peers g3 = gs_peers g" "sent g3 = sent g"
    by (simp_all add: g3_def g1)
  moreover have "gw_ready g3 (ps_ws p) = gw_ready g (ps_ws p)"
    if "sid \<in> set [ch_client ch, ch_backend ch]" "jm_get (gs_peers g) sid = Some p" for sid p
  proof -
    have "ch_clientSocket ch \<noteq> Some (ps_ws p)" "ch_backendSocket ch \<noteq> Some (ps_ws p)"
      using that assms(2) by auto
    then show ?thesis by (simp add: g3_def ready_close_leg g1)
  qed
  ultimately have n: "notices g3 m [ch_client ch, ch_backend ch] = notices g m [ch_client ch, ch_backend ch]" for m
    by (intro notices_cong) auto
  have "sent (teardownChannel cf cid reason g) =
      sent (tell_peer (ch_backend ch) (ChannelClosed cid reason) (tell_peer (ch_client ch) (ChannelClosed cid reason) g3))"
    using assms(1) by (simp add: teardownChannel_def g3_def g1_def Let_def)
  also have "\<dots> = sent g @ notices g3 (ChannelClosed cid reason) [ch_client ch, ch_backend ch]"
    using \<open>sent g3 = sent g\<close>
    by (auto simp: sent_tell_peer notices_def map_filter_def split: option.splits)
  finally show "sent (teardownChannel cf cid reason g) =
      sent g @ notices g (ChannelClosed cid reason) [ch_client ch, ch_backend ch]"
    by (simp add: n)
qed

section \<open>A concrete channel\<close>

definition sample_host_peer :: peer_session where
  "sample_host_peer = (sample_peer ''pb'' 3 None)\<lparr>ps_peerType := ClientBackend, ps_backendId := Some ''b1'', ps_epoch := Some 1\<rparr>"

definition sample_online :: gateway where
  "sample_online = addPeer sample_host_peer (addLease
     \<lparr>le_backendId = ''b1'', le_epoch = 1, le_peerSessionId = ''pb'', le_leaseTtlMs = 30000, le_lastHeartbeatAt = 5\<rparr>
     sample_gateway)"

definition sample_channel_draws :: channel_draws where
  "sample_channel_draws = \<lparr>cd_id = ''ch1'', cd_client = ''t1'', cd_backend = ''t2''\<rparr>"

definition sample_opened :: gateway where
  "sample_opened = handleChannelOpen sample_config (sample_peer ''p1'' 1 None) ''b1'' None sample_channel_draws 100 sample_online"

theorem channel_pairs_witness:
  "\<exists>ch. jm_get (gw_channels (dial sample_config ''ch1'' ''t2'' 8 200 (dial sample_config ''ch1'' ''t1'' 9 150 sample_opened))) ''ch1'' = Some ch
     \<and> ch_piped ch \<and> ch_clientSocket ch = Some 9 \<and> ch_backendSocket ch = Some 8"
proof -
  have f: "jm_get (gw_channels sample_online) (cd_id sample_channel_draws) = None"
    and o': "jm_has (gw_channels sample_opened) (cd_id sample_channel_draws)"
    and n: "cd_id sample_channel_draws \<noteq> []" "cd_client sample_channel_draws \<noteq> cd_backend sample_channel_draws"
    and t: "150 \<le> 100 + cf_channelTicketTtlMs sample_config" "200 \<le> 100 + cf_channelTicketTtlMs sample_config"
    by code_simp+
  show ?thesis
    using channel_pairs [OF sample_opened_def f o' n t disjI1 [OF refl], of 8 9]
    by (auto simp: sample_channel_draws_def)
qed

theorem teardown_exact_witness:
  "sent (teardownChannel sample_config ''ch1'' ''closed'' sample_opened) =
     sent sample_opened @ [(1, ChannelClosed ''ch1'' ''closed''), (3, ChannelClosed ''ch1'' ''closed'')]"
proof -
  define ch where "ch = the (jm_get (gw_channels sample_opened) ''ch1'')"
  have c: "jm_get (gw_channels sample_opened) ''ch1'' = Some ch"
    and l: "ch_client ch = ''p1''" "ch_backend ch = ''pb''" "ch_clientSocket ch = None" "ch_backendSocket ch = None"
    unfolding ch_def by code_simp+
  have n: "notices sample_opened (ChannelClosed ''ch1'' ''closed'') [''p1'', ''pb''] =
      [(1, ChannelClosed ''ch1'' ''closed''), (3, ChannelClosed ''ch1'' ''closed'')]"
    by code_simp
  show ?thesis using teardown_exact [OF c, of sample_config "''closed''"] by (simp add: l n)
qed

end
