(* ===== verification/Gw_Topics.thy ===== *)
theory Gw_Topics
  imports Gw_Channels
begin

text \<open>
  src/server.ts, v4 topics: subscriptions per backend and topic, retained payloads with their cap,
  publication and its fan-out.  A JavaScript \<open>Set\<close> of session ids is a list without repetitions in
  insertion order.
\<close>

definition MAX_RETAINED_TOPICS_PER_BACKEND :: nat where
  "MAX_RETAINED_TOPICS_PER_BACKEND = 64"

definition set_add :: "'a \<Rightarrow> 'a list \<Rightarrow> 'a list" where
  "set_add x xs = (if x \<in> set xs then xs else xs @ [x])"

definition subscribers :: "string \<Rightarrow> string \<Rightarrow> gateway \<Rightarrow> string list" where
  "subscribers b topic g = or_else (Option.bind (jm_get (gw_topicSubs g) b) (\<lambda>topics. jm_get topics topic)) []"

definition retained_payload :: "string \<Rightarrow> string \<Rightarrow> gateway \<Rightarrow> json option" where
  "retained_payload b topic g = Option.bind (jm_get (gw_retained g) b) (\<lambda>topics. jm_get topics topic)"

definition add_subscriber :: "string \<Rightarrow> string \<Rightarrow> string \<Rightarrow> gateway \<Rightarrow> gateway" where
  "add_subscriber b topic sid g =
     (let topics = or_else (jm_get (gw_topicSubs g) b) [];
          subs = or_else (jm_get topics topic) []
      in g\<lparr>gw_topicSubs := jm_set b (jm_set topic (set_add sid subs) topics) (gw_topicSubs g)\<rparr>)"

definition handleTopicSubscribe :: "peer_session \<Rightarrow> string \<Rightarrow> string \<Rightarrow> gateway \<Rightarrow> gateway" where
  "handleTopicSubscribe peer b topic g =
     (if ps_protocolVersion peer \<noteq> 4
      then gateway_error peer ''INVALID_MESSAGE'' ''topic_subscribe requires protocol v4'' g
      else
        case jm_get (gs_registry g) b of
          None \<Rightarrow> gateway_error peer ''BACKEND_OFFLINE'' (''Backend '' @ b @ '' not found or offline'') g
        | Some presence \<Rightarrow>
            if \<not> peer_reaches peer presence
            then gateway_error peer ''BACKEND_OFFLINE'' (''Backend '' @ b @ '' not found or offline'') g
            else
              (let g1 = sendToWs (ps_ws peer) (TopicSubscribed b topic) (add_subscriber b topic (ps_id peer) g)
               in case retained_payload b topic g1 of
                    None \<Rightarrow> g1
                  | Some payload \<Rightarrow> sendToWs (ps_ws peer) (TopicMessage b topic (Some payload)) g1))"

definition handleTopicUnsubscribe :: "peer_session \<Rightarrow> string \<Rightarrow> string \<Rightarrow> gateway \<Rightarrow> gateway" where
  "handleTopicUnsubscribe peer b topic g =
     sendToWs (ps_ws peer) (TopicUnsubscribed b topic)
       (g\<lparr>gw_topicSubs := jm_upd b (jm_upd topic (filter (\<lambda>sid. sid \<noteq> ps_id peer))) (gw_topicSubs g)\<rparr>)"

definition retain_payload :: "string \<Rightarrow> string \<Rightarrow> json \<Rightarrow> gateway \<Rightarrow> gateway" where
  "retain_payload b topic payload g =
     (let retained = or_else (jm_get (gw_retained g) b) []
      in g\<lparr>gw_retained := jm_set b
           (if length retained \<ge> MAX_RETAINED_TOPICS_PER_BACKEND \<and> \<not> jm_has retained topic then retained
            else jm_set topic payload retained)
           (gw_retained g)\<rparr>)"

fun fan_out :: "wire \<Rightarrow> string list \<Rightarrow> gateway \<Rightarrow> gateway" where
  "fan_out m [] g = g"
| "fan_out m (sid # sids) g = fan_out m sids (tell_peer sid m g)"

definition handleTopicPublish :: "peer_session \<Rightarrow> string \<Rightarrow> jsval \<Rightarrow> bool \<Rightarrow> gateway \<Rightarrow> gateway" where
  "handleTopicPublish peer topic payload retain g =
     (if \<not> isCurrentBackendOwner peer None g then g
      else
        case ps_backendId peer of
          None \<Rightarrow> g
        | Some b \<Rightarrow>
            (let g1 = (case payload of
                         Some p \<Rightarrow> if retain then retain_payload b topic p g else g
                       | None \<Rightarrow> g)
             in fan_out (TopicMessage b topic payload) (subscribers b topic g1) g1))"

definition removeTopicSubscriptionsForPeer :: "string \<Rightarrow> gateway \<Rightarrow> gateway" where
  "removeTopicSubscriptionsForPeer sid g =
     g\<lparr>gw_topicSubs := map (\<lambda>(b, topics). (b, map (\<lambda>(t, subs). (t, filter (\<lambda>s. s \<noteq> sid) subs)) topics))
          (gw_topicSubs g)\<rparr>"

definition removeTopicsForBackend :: "string \<Rightarrow> gateway \<Rightarrow> gateway" where
  "removeTopicsForBackend b g =
     g\<lparr>gw_topicSubs := jm_del b (gw_topicSubs g), gw_retained := jm_del b (gw_retained g)\<rparr>"

section \<open>Subscriptions and retained payloads after an operation\<close>

lemma jm_get_map: "jm_get (map (\<lambda>(k, v). (k, f v)) m) k = map_option f (jm_get m k)"
  by (induction m) auto

lemma subscribers_cong: "core g = core g' \<Longrightarrow> subscribers b t g = subscribers b t g'"
  by (simp add: subscribers_def core_eq_iff)

lemma retained_cong: "core g = core g' \<Longrightarrow> retained_payload b t g = retained_payload b t g'"
  by (simp add: retained_payload_def core_eq_iff)

lemma core_fan_out [simp]: "core (fan_out m sids g) = core g"
  by (induction sids arbitrary: g) auto

lemma ready_fan_out [simp]: "gw_ready (fan_out m sids g) = gw_ready g"
  by (induction sids arbitrary: g) auto

lemma sent_fan_out: "sent (fan_out m sids g) = sent g @ notices g m sids"
proof (induction sids arbitrary: g)
  case (Cons s sids)
  have "notices (tell_peer s m g) m sids = notices g m sids"
    by (rule notices_cong) simp_all
  with Cons show ?case by (auto simp: sent_tell_peer notices_def map_filter_simps split: option.splits)
qed (simp add: notices_def map_filter_simps)

lemma subscribers_add:
  "subscribers b' t' (add_subscriber b t sid g) =
     (if b' = b \<and> t' = t then set_add sid (subscribers b t g) else subscribers b' t' g)"
  by (auto simp: subscribers_def add_subscriber_def Let_def or_else_def split: option.splits)

lemma subscribers_remove:
  "subscribers b t (removeTopicSubscriptionsForPeer sid g) = filter (\<lambda>s. s \<noteq> sid) (subscribers b t g)"
  by (auto simp: subscribers_def removeTopicSubscriptionsForPeer_def jm_get_map or_else_def
      split: option.splits bind_splits)

lemma subscribers_drop:
  "subscribers b' t (removeTopicsForBackend b g) = (if b' = b then [] else subscribers b' t g)"
  "retained_payload b' t (removeTopicsForBackend b g) = (if b' = b then None else retained_payload b' t g)"
  by (auto simp: subscribers_def retained_payload_def removeTopicsForBackend_def)

lemma subscribers_unsubscribe:
  "subscribers b' t' (handleTopicUnsubscribe peer b t g) =
     (if b' = b \<and> t' = t then filter (\<lambda>s. s \<noteq> ps_id peer) (subscribers b t g) else subscribers b' t' g)"
  by (auto simp: subscribers_def handleTopicUnsubscribe_def or_else_def split: option.splits bind_splits)

lemma retained_retain:
  "retained_payload b' t' (retain_payload b t p g) =
     (if b' = b \<and> t' = t \<and> (retained_payload b t g \<noteq> None
            \<or> length (or_else (jm_get (gw_retained g) b) []) < MAX_RETAINED_TOPICS_PER_BACKEND)
      then Some p else retained_payload b' t' g)"
  by (auto simp: retained_payload_def retain_payload_def Let_def or_else_def split: option.splits bind_splits)

lemma subscribers_retain [simp]: "subscribers b' t' (retain_payload b t p g) = subscribers b' t' g"
  by (simp add: subscribers_def retain_payload_def Let_def)

lemma publish_core:
  "core (handleTopicPublish peer topic payload retain g) =
     core (if isCurrentBackendOwner peer None g \<and> retain \<and> payload \<noteq> None
           then retain_payload (the (ps_backendId peer)) topic (the payload) g else g)"
  by (auto simp: handleTopicPublish_def Let_def isCurrentBackendOwner_def split: option.splits)

definition accepts_subscription :: "peer_session \<Rightarrow> string \<Rightarrow> gateway \<Rightarrow> bool" where
  "accepts_subscription peer b g \<longleftrightarrow> ps_protocolVersion peer = 4 \<and>
     (\<exists>pr. jm_get (gs_registry g) b = Some pr \<and> peer_reaches peer pr)"

lemma subscribe_core:
  "core (handleTopicSubscribe peer b topic g) =
     core (if accepts_subscription peer b g then add_subscriber b topic (ps_id peer) g else g)"
  by (auto simp: handleTopicSubscribe_def accepts_subscription_def gateway_error_def Let_def split: option.splits)

section \<open>Properties\<close>

text \<open>
  A publication goes from the backend's current owner to exactly the live subscribers of that
  topic of that backend, once each; from anyone else, a replaced or expired owner included, it has
  no effect at all.
\<close>

theorem publish_exact:
  "(if isCurrentBackendOwner peer None g
    then (\<exists>b. ps_backendId peer = Some b
         \<and> sent (handleTopicPublish peer topic payload retain g) =
             sent g @ notices g (TopicMessage b topic payload) (subscribers b topic g))
    else handleTopicPublish peer topic payload retain g = g)"
proof (cases "isCurrentBackendOwner peer None g")
  case True
  then obtain b where b: "ps_backendId peer = Some b"
    by (auto simp: isCurrentBackendOwner_def split: option.splits)
  have n: "notices (retain_payload b topic p g) m sids = notices g m sids" for p m sids
    by (rule notices_cong) (simp_all add: retain_payload_def Let_def)
  have s: "sent (retain_payload b topic p g) = sent g" for p
    by (simp add: retain_payload_def sent_def Let_def)
  show ?thesis
    using True b by (simp add: handleTopicPublish_def Let_def sent_fan_out n s split: option.split)
qed (simp add: handleTopicPublish_def)

text \<open>
  Retain semantics: a subscription that is accepted is answered with the payload the backend last
  published with the retain flag on that topic, if any, whatever was published on other topics in
  between; and it is only accepted for a backend the peer may reach.
\<close>

theorem subscribe_exact:
  "(if accepts_subscription peer b g
    then core (handleTopicSubscribe peer b topic g) = core (add_subscriber b topic (ps_id peer) g)
       \<and> sent (handleTopicSubscribe peer b topic g) =
           sent g @ (if gw_ready g (ps_ws peer) = Open
             then (ps_ws peer, TopicSubscribed b topic) #
               (case retained_payload b topic g of None \<Rightarrow> [] | Some p \<Rightarrow> [(ps_ws peer, TopicMessage b topic (Some p))])
             else [])
    else core (handleTopicSubscribe peer b topic g) = core g
       \<and> (\<exists>code why. sent (handleTopicSubscribe peer b topic g) =
           sent g @ (if gw_ready g (ps_ws peer) = Open then [(ps_ws peer, GatewayError code why)] else [])))"
proof -
  have a: "gw_ready (add_subscriber b topic sid g) = gw_ready g" "sent (add_subscriber b topic sid g) = sent g"
    "retained_payload b' t' (add_subscriber b topic sid g) = retained_payload b' t' g" for sid b' t'
    by (simp_all add: add_subscriber_def sent_def retained_payload_def Let_def)
  have r: "retained_payload b topic (sendToWs w m h) = retained_payload b topic h" for w m h
    by (rule retained_cong) simp
  show ?thesis
    by (auto simp: handleTopicSubscribe_def accepts_subscription_def gateway_error_def Let_def a r
        split: option.splits)
qed

definition retained_bounded :: "gateway \<Rightarrow> bool" where
  "retained_bounded g \<longleftrightarrow> (\<forall>b topics. jm_get (gw_retained g) b = Some topics \<longrightarrow>
     length topics \<le> MAX_RETAINED_TOPICS_PER_BACKEND)"

text \<open>
  Retained state is bounded: whatever a backend publishes, it keeps at most 64 retained topics,
  updates of topics it already retains always get through, and a new topic beyond the cap is not kept.
\<close>

theorem retained_cap:
  assumes "retained_bounded g" and "isCurrentBackendOwner peer None g" and "ps_backendId peer = Some b"
  shows "retained_bounded (handleTopicPublish peer topic (Some p) True g)
       \<and> retained_payload b topic (handleTopicPublish peer topic (Some p) True g) =
           (if retained_payload b topic g \<noteq> None
               \<or> length (or_else (jm_get (gw_retained g) b) []) < MAX_RETAINED_TOPICS_PER_BACKEND
            then Some p else None)"
proof -
  have c: "core (handleTopicPublish peer topic (Some p) True g) = core (retain_payload b topic p g)"
    using assms(2,3) by (simp add: publish_core)
  have "length (or_else (jm_get (gw_retained g) b) []) \<le> MAX_RETAINED_TOPICS_PER_BACKEND"
    using assms(1) by (cases "jm_get (gw_retained g) b") (auto simp: retained_bounded_def)
  then have "retained_bounded (retain_payload b topic p g)"
    using assms(1)
    by (auto simp: retained_bounded_def retain_payload_def Let_def or_else_def jm_set_length
        MAX_RETAINED_TOPICS_PER_BACKEND_def not_le Suc_le_eq split: option.splits if_splits)
  moreover have "retained_bounded (handleTopicPublish peer topic (Some p) True g) = retained_bounded (retain_payload b topic p g)"
    using core_fields [OF c] by (simp add: retained_bounded_def)
  ultimately show ?thesis
    using retained_cong [OF c, of b topic] by (simp add: retained_retain)
qed

theorem retained_cap_witness:
  "retained_payload ''b1'' ''news'' (handleTopicPublish sample_host_peer ''news'' (Some JNull) True sample_online) = Some JNull"
proof -
  have e: "gw_retained sample_online = []" by code_simp
  have r: "retained_bounded sample_online" by (simp add: retained_bounded_def e)
  have w: "isCurrentBackendOwner sample_host_peer None sample_online" "ps_backendId sample_host_peer = Some ''b1''"
    by code_simp+
  show ?thesis
    using retained_cap [OF r w, of "''news''" JNull] by (simp add: e MAX_RETAINED_TOPICS_PER_BACKEND_def)
qed

end
