(* ===== verification/Gw_Peers.thy ===== *)
theory Gw_Peers
  imports Gw_Topics
begin

text \<open>
  src/server.ts, the life of a peer: the handshake, backend registration and takeover, heartbeats,
  lease expiry, disconnection, and the backend's own messages.  Exceptions of the storage (a UUID
  drawn twice) are results, since the connection handler catches them.
\<close>

section \<open>The hello message\<close>

definition identity_fields :: "string list" where
  "identity_fields = [''deviceId'', ''instanceId'', ''channel'', ''name'']"

fun check_identity :: "json \<Rightarrow> string list \<Rightarrow> string option" where
  "check_identity identity [] = None"
| "check_identity identity (f # fs) =
     (if js_field identity f \<noteq> None \<and> js_typeof (js_field identity f) \<noteq> ''string''
      then Some (''peer_hello.identity.'' @ f @ '' must be a string'')
      else check_identity identity fs)"

definition validatePeerHelloV4 :: "json \<Rightarrow> string option" where
  "validatePeerHelloV4 m =
     (if \<not> js_truthy (Some m) \<or> js_typeof (Some m) \<noteq> ''object'' then Some ''peer_hello must be an object''
      else if js_field m ''type'' \<noteq> Some (JStr ''peer_hello'') then Some ''First message must be peer_hello''
      else if js_typeof (js_field m ''gatewaySecret'') \<noteq> ''string''
        then Some ''peer_hello.gatewaySecret must be a string''
      else if js_typeof (js_field m ''protocolVersion'') \<noteq> ''number''
        then Some ''peer_hello.protocolVersion must be a number''
      else if js_typeof (js_field m ''namespace'') \<noteq> ''string'' \<or> \<not> js_truthy (js_field m ''namespace'')
        then Some ''peer_hello.namespace must be a non-empty string''
      else if js_typeof (js_field m ''clientProtocolVersion'') \<noteq> ''number''
        then Some ''peer_hello.clientProtocolVersion must be a number''
      else if js_field m ''peerType'' \<noteq> Some (JStr ''client-only'')
            \<and> js_field m ''peerType'' \<noteq> Some (JStr ''client+backend'')
        then Some ''peer_hello.peerType must be client-only or client+backend''
      else
        case (case js_field m ''identity'' of
                None \<Rightarrow> None
              | Some i \<Rightarrow>
                  if \<not> js_truthy (Some i) \<or> js_typeof (Some i) \<noteq> ''object''
                  then Some ''peer_hello.identity must be an object''
                  else check_identity i identity_fields) of
          Some e \<Rightarrow> Some e
        | None \<Rightarrow>
            if js_field m ''peerType'' = Some (JStr ''client+backend'') then
              (case js_field m ''backend'' of
                 None \<Rightarrow> Some ''peer_hello.backend is required for client+backend peers''
               | Some b \<Rightarrow>
                   if \<not> js_truthy (Some b) \<or> js_typeof (Some b) \<noteq> ''object''
                     then Some ''peer_hello.backend is required for client+backend peers''
                   else if js_typeof (js_field b ''visible'') \<noteq> ''boolean''
                     then Some ''peer_hello.backend.visible must be a boolean''
                   else if \<not> js_is_array (js_field b ''capabilities'')
                     then Some ''peer_hello.backend.capabilities must be an array''
                   else if js_typeof (js_field b ''backendProtocolVersion'') \<noteq> ''number''
                     then Some ''peer_hello.backend.backendProtocolVersion must be a number''
                   else None)
            else None)"

text \<open>The parts of a valid hello, by the types its validation establishes.\<close>

record hello_backend =
  hb_visible :: bool
  hb_capabilities :: json
  hb_backendProtocolVersion :: jsnum
  hb_minClientProtocolVersion :: jsval

record hello =
  he_gatewaySecret :: string
  he_protocolVersion :: jsnum
  he_namespace :: string
  he_peerType :: peer_type
  he_deviceId :: "string option"
  he_instanceId :: "string option"
  he_channel :: "string option"
  he_name :: "string option"
  he_backend :: "hello_backend option"

fun js_num :: "jsval \<Rightarrow> jsnum" where
  "js_num (Some (JNum n)) = n"
| "js_num _ = NFin 0"

definition parse_hello :: "json \<Rightarrow> hello" where
  "parse_hello m =
     (let identity = or_else (js_field m ''identity'') (JObj []);
          str = (\<lambda>v. or_else (js_string v) []);
          backend = (js_field m ''peerType'' = Some (JStr ''client+backend''))
      in \<lparr>he_gatewaySecret = str (js_field m ''gatewaySecret''),
          he_protocolVersion = js_num (js_field m ''protocolVersion''),
          he_namespace = str (js_field m ''namespace''),
          he_peerType = (if backend then ClientBackend else ClientOnly),
          he_deviceId = js_string (js_field identity ''deviceId''),
          he_instanceId = js_string (js_field identity ''instanceId''),
          he_channel = js_string (js_field identity ''channel''),
          he_name = js_string (js_field identity ''name''),
          he_backend =
            (if backend then
               (let b = or_else (js_field m ''backend'') (JObj [])
                in Some \<lparr>hb_visible = js_truthy (js_field b ''visible''),
                         hb_capabilities = or_else (js_field b ''capabilities'') (JArr []),
                         hb_backendProtocolVersion = js_num (js_field b ''backendProtocolVersion''),
                         hb_minClientProtocolVersion = js_field b ''minClientProtocolVersion''\<rparr>)
             else None)\<rparr>)"

section \<open>Taking a backend away\<close>

definition GATEWAY_CLOSE_BACKEND_REPLACED :: nat where
  "GATEWAY_CLOSE_BACKEND_REPLACED = 4001"

definition REPLACED_CLOSE_GRACE_MS :: int where
  "REPLACED_CLOSE_GRACE_MS = 2000"

definition unown :: "peer_session \<Rightarrow> peer_session" where
  "unown p = p\<lparr>ps_backendId := None, ps_epoch := None\<rparr>"

definition handleBackendOwnerReplaced :: "config \<Rightarrow> string \<Rightarrow> string \<Rightarrow> gateway \<Rightarrow> gateway" where
  "handleBackendOwnerReplaced cf b previousPeerSessionId g =
     (let g1 = closeChannelsForBackend cf b ''epoch_changed'' g;
          g2 = removeTopicsForBackend b g1;
          g3 = removeLease b g2
      in case jm_get (gs_peers g3) previousPeerSessionId of
           None \<Rightarrow> g3
         | Some previousPeer \<Rightarrow>
             ws_close cf (ps_ws previousPeer) GATEWAY_CLOSE_BACKEND_REPLACED
               ''Backend replaced by a newer connection''
               (upd_peer previousPeerSessionId unown g3))"

text \<open>The timer set for the replaced peer's socket.\<close>

definition replaced_grace_elapsed :: "config \<Rightarrow> ws \<Rightarrow> gateway \<Rightarrow> gateway" where
  "replaced_grace_elapsed cf w g = (if gw_ready g w \<noteq> Closed then ws_terminate cf w g else g)"

definition unregisterRecoveryToken :: "peer_session \<Rightarrow> gateway \<Rightarrow> gateway" where
  "unregisterRecoveryToken peer g = g\<lparr>gw_recoveryTokens := jm_del (ps_recoveryToken peer) (gw_recoveryTokens g)\<rparr>"

definition touch :: "string \<Rightarrow> int \<Rightarrow> gateway \<Rightarrow> gateway" where
  "touch b now g = g\<lparr>gw_storage := touchBackendIdentity b None None now (gw_storage g)\<rparr>"

definition handleBackendLeaseExpired :: "config \<Rightarrow> string \<Rightarrow> int \<Rightarrow> gateway \<Rightarrow> gateway" where
  "handleBackendLeaseExpired cf b now g =
     (case jm_get (gs_leases g) b of
        None \<Rightarrow> g
      | Some l \<Rightarrow>
          (let peer = jm_get (gs_peers g) (le_peerSessionId l);
               g1 = closeChannelsForBackend cf b ''backend_offline'' g;
               g2 = removeTopicsForBackend b g1;
               g3 = registryRemove b g2;
               g4 = broadcastRegistrySnapshot None g3;
               g5 = removeBackend b g4;
               g6 = touch b now g5
           in case peer of
                None \<Rightarrow> g6
              | Some p \<Rightarrow>
                  (let g7 = upd_peer (ps_id p) unown g6;
                       g8 = ws_terminate cf (ps_ws p) g7;
                       g9 = unregisterRecoveryToken p g8
                   in fst (removePeer (ps_id p) g9))))"

definition handlePeerDisconnect :: "config \<Rightarrow> string \<Rightarrow> int \<Rightarrow> gateway \<Rightarrow> gateway" where
  "handlePeerDisconnect cf sid now g =
     (case jm_get (gs_peers g) sid of
        None \<Rightarrow> g
      | Some peer \<Rightarrow>
          (let g1 = (case ps_backendId peer of
                       Some b \<Rightarrow>
                         if b \<noteq> [] \<and> isCurrentBackendOwner peer None g then
                           touch b now (removeBackend b (broadcastRegistrySnapshot (Some sid)
                             (registryRemove b (closeChannelsForBackend cf b ''backend_offline'' g))))
                         else g
                     | None \<Rightarrow> g);
               g2 = closeChannelsForPeer cf sid g1;
               g3 = removeTopicSubscriptionsForPeer sid g2;
               g4 = (case ps_backendId peer of
                       Some b \<Rightarrow> if b \<noteq> [] then removeTopicsForBackend b g3 else g3
                     | None \<Rightarrow> g3);
               g5 = ws_terminate cf (ps_ws peer) g4;
               g6 = unregisterRecoveryToken peer g5
           in fst (removePeer sid g6)))"

section \<open>The handshake\<close>

text \<open>The values a handshake draws: the session id, the recovery token, and a UUID for a new identity.\<close>

record hello_draws =
  hd_session :: string
  hd_recovery :: string
  hd_backendId :: string

definition hello_channel :: "hello \<Rightarrow> string" where
  "hello_channel h = (case he_channel h of Some c \<Rightarrow> if c = [] then ''prod'' else c | None \<Rightarrow> ''prod'')"

definition hello_peer :: "ws \<Rightarrow> hello \<Rightarrow> credential_info \<Rightarrow> hello_draws \<Rightarrow> peer_session" where
  "hello_peer w h c rn =
     \<lparr>ps_id = hd_session rn, ps_ws = w, ps_protocolVersion = 4, ps_peerType = he_peerType h,
      ps_namespace = he_namespace h, ps_credentialId = Some (ci_id c),
      ps_allowedBackends = (if ci_type c = Device then ci_allowedBackends c else None),
      ps_deviceId = or_else (he_deviceId h) [], ps_instanceId = or_else (he_instanceId h) [],
      ps_channel = hello_channel h, ps_name = or_else (he_name h) [],
      ps_recoveryToken = hd_recovery rn, ps_isAlive = True, ps_backendId = None, ps_epoch = None\<rparr>"

definition hello_presence :: "hello \<Rightarrow> hello_backend \<Rightarrow> peer_session \<Rightarrow> string \<Rightarrow> int \<Rightarrow> int \<Rightarrow> presence" where
  "hello_presence h hb peer b epoch now =
     \<lparr>pr_namespace = he_namespace h, pr_backendId = b, pr_instanceId = ps_instanceId peer,
      pr_deviceId = ps_deviceId peer, pr_name = ps_name peer, pr_channel = ps_channel peer,
      pr_visible = hb_visible hb, pr_capabilities = hb_capabilities hb,
      pr_backendProtocolVersion = hb_backendProtocolVersion hb,
      pr_minClientProtocolVersion = hb_minClientProtocolVersion hb, pr_epoch = epoch,
      pr_connectedAt = now, pr_lastSeenAt = now, pr_gatewayProtocolVersion = ps_protocolVersion peer\<rparr>"

text \<open>
  Registering the hello's backend: identity, epoch, takeover of a previous lease, the new lease and
  the presence.  The peer it returns owns the backend.
\<close>

definition register_backend ::
  "config \<Rightarrow> hello \<Rightarrow> hello_backend \<Rightarrow> credential_info \<Rightarrow> peer_session \<Rightarrow> string \<Rightarrow> int \<Rightarrow> gateway
     \<Rightarrow> gateway \<times> (sql_error + peer_session)" where
  "register_backend cf h hb c peer uuid now g =
     (case resolveBackendIdentity c (he_namespace h) (he_instanceId h) (he_name h) (ps_channel peer) uuid now
             (gw_storage g) of
        (st, Inl e) \<Rightarrow> (g\<lparr>gw_storage := st\<rparr>, Inl e)
      | (st, Inr b) \<Rightarrow>
          (let previousLease = jm_get (gs_leases g) b;
               (st1, epoch) = allocateEpoch st;
               g1 = g\<lparr>gw_storage := st1\<rparr>;
               peer1 = peer\<lparr>ps_backendId := Some b, ps_epoch := Some epoch\<rparr>;
               g2 = (case previousLease of
                       Some pl \<Rightarrow>
                         if le_peerSessionId pl \<noteq> ps_id peer \<or> le_epoch pl \<noteq> epoch
                         then handleBackendOwnerReplaced cf b (le_peerSessionId pl) (noteOwnerReplaced b now g1)
                         else g1
                     | None \<Rightarrow> g1);
               g3 = addLease \<lparr>le_backendId = b, le_epoch = epoch, le_peerSessionId = ps_id peer,
                              le_leaseTtlMs = cf_leaseTtlMs cf, le_lastHeartbeatAt = now\<rparr> g2;
               root = (case ci_parentId c of Some p \<Rightarrow> p | None \<Rightarrow> ci_id c);
               g4 = g3\<lparr>gw_storage := touchBackendIdentity b (Some root) (he_name h) now (gw_storage g3)\<rparr>;
               g5 = registryUpsert (hello_presence h hb peer b epoch now) g4
           in (g5, Inr peer1)))"

definition admit_peer :: "config \<Rightarrow> peer_session \<Rightarrow> gateway \<Rightarrow> gateway" where
  "admit_peer cf peer g =
     (let g1 = addPeer peer g;
          g2 = g1\<lparr>gw_recoveryTokens := jm_set (ps_recoveryToken peer) (ps_id peer) (gw_recoveryTokens g1)\<rparr>;
          backendInfo = (case (ps_backendId peer, ps_epoch peer) of
                           (Some b, Some e) \<Rightarrow> Some \<lparr>bn_backendId = b, bn_epoch = e, bn_leaseTtlMs = cf_leaseTtlMs cf\<rparr>
                         | _ \<Rightarrow> None);
          g3 = sendToWs (ps_ws peer) (PeerReady (ps_protocolVersion peer) (ps_id peer) (ps_recoveryToken peer)
                 backendInfo (visibleRegistry peer g2)) g2
      in case ps_backendId peer of
           Some b \<Rightarrow> if b \<noteq> [] then broadcastRegistrySnapshot (Some (ps_id peer)) g3 else g3
         | None \<Rightarrow> g3)"

text \<open>
  \<open>close()\<close> without a code sends none, which the other end reads as 1005.  The message about the
  protocol version is kept without the number it quotes.
\<close>

definition refuse_hello :: "config \<Rightarrow> ws \<Rightarrow> string \<Rightarrow> string \<Rightarrow> gateway \<Rightarrow> gateway" where
  "refuse_hello cf w code message g = ws_close cf w 1005 [] (sendToWs w (GatewayError code message) g)"

definition truthy_id :: "string option \<Rightarrow> bool" where
  "truthy_id x = (x \<noteq> None \<and> x \<noteq> Some [])"

text \<open>What the handshake refuses a resolved credential for, in the order of the checks.\<close>

definition hello_refusal :: "hello \<Rightarrow> credential_info \<Rightarrow> (string \<times> string) option" where
  "hello_refusal h c =
     (if ci_namespace c \<noteq> he_namespace h then Some (''UNAUTHORIZED'', ''Namespace not permitted by credential'')
      else if he_peerType h = ClientBackend \<and> ci_type c \<noteq> Backend \<and> ci_type c \<noteq> BackendAccess
        then Some (''UNAUTHORIZED'', ''This credential cannot register a backend'')
      else if he_protocolVersion h \<noteq> NFin 4
        then Some (''PROTOCOL_VERSION_MISMATCH'', ''Expected protocol version 4'')
      else if he_peerType h = ClientBackend \<and> he_backend h \<noteq> None \<and> \<not> truthy_id (ci_backendId c)
              \<and> he_instanceId h = None
        then Some (''INVALID_MESSAGE'',
               ''peer_hello.identity.instanceId is required for legacy (unbound) backend credentials'')
      else None)"

text \<open>The result is the established session, none for a refusal, or the exception of the storage.\<close>

definition handlePeerHello ::
  "config \<Rightarrow> ws \<Rightarrow> hello \<Rightarrow> string \<Rightarrow> hello_draws \<Rightarrow> int \<Rightarrow> gateway \<Rightarrow> gateway \<times> (sql_error + string option)" where
  "handlePeerHello cf w h ip rn now g =
     (case resolveToken cf (he_gatewaySecret h) now g of
        (g1, None) \<Rightarrow>
          (let (g2, admitted) = recordAuthFailure cf ip now g1
           in (refuse_hello cf w (if admitted then ''UNAUTHORIZED'' else ''RATE_LIMITED'')
                 (if admitted then ''Invalid gateway secret'' else ''Too many failed attempts'') g2,
               Inr None))
      | (g1, Some c) \<Rightarrow>
          (case hello_refusal h c of
             Some (code, message) \<Rightarrow> (refuse_hello cf w code message g1, Inr None)
           | None \<Rightarrow>
               (case (he_peerType h, he_backend h) of
                  (ClientBackend, Some hb) \<Rightarrow>
                    (case register_backend cf h hb c (hello_peer w h c rn) (hd_backendId rn) now g1 of
                       (g2, Inl e) \<Rightarrow> (g2, Inl e)
                     | (g2, Inr peer) \<Rightarrow> (admit_peer cf peer g2, Inr (Some (ps_id peer))))
                | _ \<Rightarrow>
                    (admit_peer cf (hello_peer w h c rn) g1, Inr (Some (hd_session rn))))))"

section \<open>Messages of a backend\<close>

definition num_int :: "jsnum \<Rightarrow> int option" where
  "num_int n = (case n of NFin q \<Rightarrow> if rat_is_int q then Some \<lfloor>q\<rfloor> else None | NInf _ \<Rightarrow> None)"

definition handleBackendHeartbeat :: "peer_session \<Rightarrow> jsnum \<Rightarrow> int \<Rightarrow> gateway \<Rightarrow> gateway" where
  "handleBackendHeartbeat peer epoch now g =
     (case (num_int epoch, ps_backendId peer) of
        (Some e, Some b) \<Rightarrow>
          if \<not> isCurrentBackendOwner peer (Some e) g then g
          else if \<not> jm_has (gs_leases g) b then g
          else
            sendToWs (ps_ws peer) (HeartbeatAck e)
              (g\<lparr>gs_leases := jm_upd b (\<lambda>l. l\<lparr>le_lastHeartbeatAt := now\<rparr>) (gs_leases g),
                 gs_registry := jm_upd b (\<lambda>p. p\<lparr>pr_lastSeenAt := now\<rparr>) (gs_registry g)\<rparr>)
      | _ \<Rightarrow> g)"

definition handleRequestRegistrySnapshot :: "peer_session \<Rightarrow> gateway \<Rightarrow> gateway" where
  "handleRequestRegistrySnapshot peer g = sendToWs (ps_ws peer) (RegistrySnapshot (visibleRegistry peer g)) g"

definition handleBackendServerMessage ::
  "peer_session \<Rightarrow> string \<Rightarrow> string option \<Rightarrow> json \<Rightarrow> gateway \<Rightarrow> gateway" where
  "handleBackendServerMessage peer backendId target msg g =
     (if \<not> isCurrentBackendOwner peer None g then g
      else if ps_backendId peer \<noteq> Some backendId then g
      else case target of
             None \<Rightarrow> g
           | Some t \<Rightarrow>
               if t = [] then g
               else (case jm_get (gs_peers g) t of
                       None \<Rightarrow> g
                     | Some targetPeer \<Rightarrow>
                         if \<not> canReach (ps_namespace targetPeer) (ps_allowedBackends targetPeer)
                               (ps_namespace peer) backendId then g
                         else sendToWs (ps_ws targetPeer) (Forwarded msg) g))"

definition handlePushNotificationRequest :: "peer_session \<Rightarrow> json \<Rightarrow> gateway \<Rightarrow> gateway" where
  "handlePushNotificationRequest peer event g =
     (case ps_backendId peer of
        Some b \<Rightarrow>
          if b \<noteq> [] then emit (ONotify event b) g
          else gateway_error peer ''INVALID_MESSAGE'' ''push_notification_request is only allowed from backends'' g
      | None \<Rightarrow>
          gateway_error peer ''INVALID_MESSAGE'' ''push_notification_request is only allowed from backends'' g)"

end
