(* ===== verification/Gw_Router.thy ===== *)
theory Gw_Router
  imports Gw_Peers Gw_Validation
begin

text \<open>
  src/server.ts, what drives the handlers: the message router, the control connection's events, and
  the timers for pings, leases and registry polls.  \<open>None\<close> for a received frame is text that does
  not parse as JSON.  The random values an event may draw come with it.
\<close>

record draws_all =
  da_hello :: hello_draws
  da_channel :: channel_draws

definition msg_string :: "json \<Rightarrow> string \<Rightarrow> string" where
  "msg_string m f = or_else (js_string (js_field m f)) []"

definition handlePeerMessage :: "config \<Rightarrow> string \<Rightarrow> json \<Rightarrow> draws_all \<Rightarrow> int \<Rightarrow> gateway \<Rightarrow> gateway" where
  "handlePeerMessage cf sid m rn now g =
     (case jm_get (gs_peers g) sid of
        None \<Rightarrow> g
      | Some peer \<Rightarrow>
          (case validateGatewayMessage m of
             Some e \<Rightarrow> gateway_error peer ''INVALID_MESSAGE'' e g
           | None \<Rightarrow>
               (let t = msg_string m ''type'' in
                if t = ''backend_heartbeat''
                  then handleBackendHeartbeat peer (js_num (js_field m ''epoch'')) now g
                else if t = ''request_registry_snapshot'' then handleRequestRegistrySnapshot peer g
                else if t = ''backend_server_message''
                  then handleBackendServerMessage peer (msg_string m ''backendId'')
                         (js_string (js_field m ''targetPeerSessionId'')) m g
                else if t = ''push_notification_request''
                  then handlePushNotificationRequest peer (or_else (js_field m ''event'') JNull) g
                else if t = ''channel_open''
                  then handleChannelOpen cf peer (msg_string m ''target'') (js_string (js_field m ''kind''))
                         (da_channel rn) now g
                else if t = ''channel_reject'' then handleChannelReject cf peer (msg_string m ''channelId'') g
                else if t = ''channel_close'' then handleChannelClose cf peer (msg_string m ''channelId'') g
                else if t = ''topic_subscribe''
                  then handleTopicSubscribe peer (msg_string m ''backendId'') (msg_string m ''topic'') g
                else if t = ''topic_unsubscribe''
                  then handleTopicUnsubscribe peer (msg_string m ''backendId'') (msg_string m ''topic'') g
                else if t = ''topic_publish''
                  then handleTopicPublish peer (msg_string m ''topic'') (js_field m ''payload'')
                         (js_field m ''retain'' = Some (JBool True)) g
                else if t = ''ping'' then sendToWs (ps_ws peer) (Pong (js_field m ''ts'')) g
                else gateway_error peer ''INVALID_MESSAGE'' (''Unknown message type: '' @ t) g)))"

section \<open>Control connections\<close>

definition MAX_WS_CONNECTIONS_PER_IP :: nat where
  "MAX_WS_CONNECTIONS_PER_IP = 10"

definition ws_connection :: "config \<Rightarrow> ws \<Rightarrow> string \<Rightarrow> int \<Rightarrow> gateway \<Rightarrow> gateway" where
  "ws_connection cf w ip now g =
     (let currentCount = or_else (jm_get (gw_wsPerIp g) ip) 0
      in if currentCount \<ge> MAX_WS_CONNECTIONS_PER_IP then ws_close cf w 1008 ''Too many connections'' g
         else g\<lparr>gw_wsPerIp := jm_set ip (currentCount + 1) (gw_wsPerIp g),
                gw_conns := jm_set w \<lparr>cn_ip = ip, cn_session = None, cn_authAt = Some (now + cf_authTimeoutMs cf)\<rparr>
                  (gw_conns g)\<rparr>)"

definition upd_conn :: "ws \<Rightarrow> (conn \<Rightarrow> conn) \<Rightarrow> gateway \<Rightarrow> gateway" where
  "upd_conn w f g = g\<lparr>gw_conns := jm_upd w f (gw_conns g)\<rparr>"

definition auth_timeout :: "config \<Rightarrow> ws \<Rightarrow> int \<Rightarrow> gateway \<Rightarrow> gateway" where
  "auth_timeout cf w now g =
     (case jm_get (gw_conns g) w of
        None \<Rightarrow> g
      | Some c \<Rightarrow>
          (case cn_authAt c of
             None \<Rightarrow> g
           | Some t \<Rightarrow>
               if now < t then g
               else
                 (let g1 = upd_conn w (\<lambda>c. c\<lparr>cn_authAt := None\<rparr>) g
                  in if cn_session c = None then ws_close cf w 1008 ''Authentication timeout'' g1 else g1)))"

definition ws_pong :: "ws \<Rightarrow> gateway \<Rightarrow> gateway" where
  "ws_pong w g =
     (case Option.bind (jm_get (gw_conns g) w) cn_session of
        None \<Rightarrow> g
      | Some sid \<Rightarrow> upd_peer sid (\<lambda>p. p\<lparr>ps_isAlive := True\<rparr>) g)"

text \<open>The \<open>catch\<close> of the message handler.\<close>

definition bad_frame :: "config \<Rightarrow> ws \<Rightarrow> bool \<Rightarrow> gateway \<Rightarrow> gateway" where
  "bad_frame cf w hasSession g =
     (let g1 = sendToWs w (GatewayError ''INVALID_MESSAGE'' ''Invalid message format'') g
      in if hasSession then g1 else ws_close cf w 1008 ''Invalid message format'' g1)"

definition ws_message :: "config \<Rightarrow> ws \<Rightarrow> json option \<Rightarrow> draws_all \<Rightarrow> int \<Rightarrow> gateway \<Rightarrow> gateway" where
  "ws_message cf w frame rn now g =
     (case jm_get (gw_conns g) w of
        None \<Rightarrow> g
      | Some c \<Rightarrow>
          (case (frame, cn_session c) of
             (None, s) \<Rightarrow> bad_frame cf w (s \<noteq> None) g
           | (Some m, Some sid) \<Rightarrow> handlePeerMessage cf sid m rn now g
           | (Some m, None) \<Rightarrow>
               (case validatePeerHelloV4 m of
                  Some e \<Rightarrow>
                    ws_close cf w 1008 ''Invalid peer_hello''
                      (sendToWs w (GatewayError ''INVALID_MESSAGE'' e) g)
                | None \<Rightarrow>
                    (case handlePeerHello cf w (parse_hello m) (cn_ip c) (da_hello rn) now
                            (upd_conn w (\<lambda>c. c\<lparr>cn_authAt := None\<rparr>) g) of
                       (g1, Inl _) \<Rightarrow> bad_frame cf w False g1
                     | (g1, Inr session) \<Rightarrow> upd_conn w (\<lambda>c. c\<lparr>cn_session := session\<rparr>) g1))))"

definition ws_closed :: "config \<Rightarrow> ws \<Rightarrow> int \<Rightarrow> gateway \<Rightarrow> gateway" where
  "ws_closed cf w now g =
     (case jm_get (gw_conns g) w of
        None \<Rightarrow> g
      | Some c \<Rightarrow>
          (let count = (case jm_get (gw_wsPerIp g) (cn_ip c) of Some n \<Rightarrow> if n = 0 then 1 else n | None \<Rightarrow> 1);
               g1 = g\<lparr>gw_conns := jm_del w (gw_conns g),
                      gw_wsPerIp := (if count \<le> 1 then jm_del (cn_ip c) (gw_wsPerIp g)
                                     else jm_set (cn_ip c) (count - 1) (gw_wsPerIp g))\<rparr>
           in case cn_session c of
                None \<Rightarrow> g1
              | Some sid \<Rightarrow> handlePeerDisconnect cf sid now g1))"

section \<open>Timers\<close>

fun ping_peers :: "config \<Rightarrow> int \<Rightarrow> string list \<Rightarrow> gateway \<Rightarrow> gateway" where
  "ping_peers cf now [] g = g"
| "ping_peers cf now (sid # sids) g =
     ping_peers cf now sids
       (case jm_get (gs_peers g) sid of
          None \<Rightarrow> g
        | Some p \<Rightarrow>
            if \<not> ps_isAlive p then handlePeerDisconnect cf sid now g
            else emit (OPing (ps_ws p)) (upd_peer sid (\<lambda>p. p\<lparr>ps_isAlive := False\<rparr>) g))"

definition pingInterval :: "config \<Rightarrow> int \<Rightarrow> gateway \<Rightarrow> gateway" where
  "pingInterval cf now g = ping_peers cf now (jm_keys (gs_peers g)) g"

fun expire_leases :: "config \<Rightarrow> int \<Rightarrow> string list \<Rightarrow> gateway \<Rightarrow> gateway" where
  "expire_leases cf now [] g = g"
| "expire_leases cf now (b # bs) g =
     expire_leases cf now bs
       (case jm_get (gs_leases g) b of
          None \<Rightarrow> g
        | Some l \<Rightarrow>
            if now - le_lastHeartbeatAt l > le_leaseTtlMs l then handleBackendLeaseExpired cf b now g else g)"

definition leaseCheckInterval :: "config \<Rightarrow> int \<Rightarrow> gateway \<Rightarrow> gateway" where
  "leaseCheckInterval cf now g = expire_leases cf now (jm_keys (gs_leases g)) g"

definition registryPollInterval :: "gateway \<Rightarrow> gateway" where
  "registryPollInterval g = (if length (gs_peers g) > 0 then broadcastRegistrySnapshot None g else g)"

end
