(* ===== verification/Gw_Invariant.thy ===== *)
theory Gw_Invariant
  imports Gw_Router Gw_Credentials
begin

text \<open>
  The invariant of the running server, part by part, and its preservation by each handler.  It ties
  the maps of \<open>GatewayState\<close> to each other and to the channels, tickets, topics and recovery tokens:
  one owner per backend, whose epoch its lease, its presence and its channels share; nothing that
  refers to a backend outlives its lease; and every live client end or subscriber may reach the
  backend it is attached to.
\<close>

section \<open>The parts\<close>

definition inv_maps :: "gateway \<Rightarrow> bool" where
  "inv_maps g \<longleftrightarrow> jm_ok (gs_peers g) \<and> jm_ok (gs_registry g) \<and> jm_ok (gs_leases g)
     \<and> jm_ok (gw_channels g) \<and> jm_ok (gw_tickets g) \<and> jm_ok (gw_conns g)"

definition inv_peers :: "gateway \<Rightarrow> bool" where
  "inv_peers g \<longleftrightarrow> (\<forall>i p. jm_get (gs_peers g) i = Some p \<longrightarrow>
     ps_id p = i \<and> i \<noteq> []
     \<and> (\<exists>c. jm_get (gw_conns g) (ps_ws p) = Some c \<and> cn_session c = Some i)
     \<and> jm_get (gw_recoveryTokens g) (ps_recoveryToken p) = Some i
     \<and> jm_get (gs_wsToPeer g) (ps_ws p) = Some i
     \<and> (\<forall>b. ps_backendId p = Some b \<longrightarrow> (\<exists>l. jm_get (gs_leases g) b = Some l \<and> le_peerSessionId l = i)))"

definition inv_back :: "gateway \<Rightarrow> bool" where
  "inv_back g \<longleftrightarrow>
     (\<forall>t i. jm_get (gw_recoveryTokens g) t = Some i \<longrightarrow>
        (\<exists>p. jm_get (gs_peers g) i = Some p \<and> ps_recoveryToken p = t))
   \<and> (\<forall>w i. jm_get (gs_wsToPeer g) w = Some i \<longrightarrow>
        (\<exists>p. jm_get (gs_peers g) i = Some p \<and> ps_ws p = w))"

definition owned_by :: "gateway \<Rightarrow> string \<Rightarrow> lease \<Rightarrow> bool" where
  "owned_by g b l \<longleftrightarrow>
     (\<exists>p pr. jm_get (gs_peers g) (le_peerSessionId l) = Some p
          \<and> ps_backendId p = Some b \<and> ps_epoch p = Some (le_epoch l)
          \<and> jm_get (gs_registry g) b = Some pr \<and> pr_backendId pr = b
          \<and> pr_epoch pr = le_epoch l \<and> pr_namespace pr = ps_namespace p)"

definition inv_leases :: "gateway \<Rightarrow> bool" where
  "inv_leases g \<longleftrightarrow> (\<forall>b l. jm_get (gs_leases g) b = Some l \<longrightarrow>
     le_backendId l = b \<and> b \<noteq> [] \<and> le_epoch l \<le> st_maxEpoch (gw_storage g) \<and> owned_by g b l)"

definition inv_registry :: "gateway \<Rightarrow> bool" where
  "inv_registry g \<longleftrightarrow> (\<forall>b pr. jm_get (gs_registry g) b = Some pr \<longrightarrow> (\<exists>l. jm_get (gs_leases g) b = Some l))"

definition inv_channels :: "gateway \<Rightarrow> bool" where
  "inv_channels g \<longleftrightarrow> (\<forall>i ch. jm_get (gw_channels g) i = Some ch \<longrightarrow>
     ch_id ch = i
     \<and> (\<exists>l pr. jm_get (gs_leases g) (ch_backendId ch) = Some l \<and> le_peerSessionId l = ch_backend ch
          \<and> le_epoch l = ch_epoch ch \<and> jm_get (gs_registry g) (ch_backendId ch) = Some pr
          \<and> (\<forall>p. jm_get (gs_peers g) (ch_client ch) = Some p \<longrightarrow> peer_reaches p pr)))"

definition inv_tickets :: "gateway \<Rightarrow> bool" where
  "inv_tickets g \<longleftrightarrow> (\<forall>t tk. jm_get (gw_tickets g) t = Some tk \<longrightarrow>
     (\<exists>ch. jm_get (gw_channels g) (tk_channelId tk) = Some ch \<and> t \<in> set (ch_tickets ch)))"

definition inv_topics :: "gateway \<Rightarrow> bool" where
  "inv_topics g \<longleftrightarrow>
     (\<forall>b x. jm_get (gw_topicSubs g) b = Some x \<longrightarrow> (\<exists>l. jm_get (gs_leases g) b = Some l))
   \<and> (\<forall>b x. jm_get (gw_retained g) b = Some x \<longrightarrow> (\<exists>l. jm_get (gs_leases g) b = Some l))
   \<and> (\<forall>b t sid p pr. sid \<in> set (subscribers b t g) \<longrightarrow> jm_get (gs_peers g) sid = Some p \<longrightarrow>
        jm_get (gs_registry g) b = Some pr \<longrightarrow> peer_reaches p pr)
   \<and> retained_bounded g"

definition conns_of :: "string \<Rightarrow> gateway \<Rightarrow> nat" where
  "conns_of ip g = length (filter (\<lambda>(w, c). cn_ip c = ip) (gw_conns g))"

definition inv_conns :: "gateway \<Rightarrow> bool" where
  "inv_conns g \<longleftrightarrow> (\<forall>ip. or_else (jm_get (gw_wsPerIp g) ip) 0 = conns_of ip g
     \<and> conns_of ip g \<le> MAX_WS_CONNECTIONS_PER_IP)"

definition inv_storage :: "gateway \<Rightarrow> bool" where
  "inv_storage g \<longleftrightarrow> st_ok (gw_storage g) \<and> (\<forall>r\<in>set (st_identities (gw_storage g)). bi_backendId r \<noteq> [])"

definition gw_inv :: "gateway \<Rightarrow> bool" where
  "gw_inv g \<longleftrightarrow> inv_maps g \<and> inv_peers g \<and> inv_back g \<and> inv_leases g \<and> inv_registry g
     \<and> inv_channels g \<and> inv_tickets g \<and> inv_topics g \<and> inv_conns g \<and> inv_storage g"

lemmas inv_defs = inv_maps_def inv_peers_def inv_back_def inv_leases_def owned_by_def inv_registry_def
  inv_channels_def inv_tickets_def inv_topics_def inv_conns_def inv_storage_def

lemma inv_core: "core g = core g' \<Longrightarrow> gw_inv g = gw_inv g'"
  by (simp add: core_eq_iff gw_inv_def inv_defs subscribers_def conns_of_def retained_bounded_def)

lemma inv_effects [simp]:
  "gw_inv (emit x g) = gw_inv g" "gw_inv (sendToWs w m g) = gw_inv g"
  "gw_inv (ws_close cf w n r g) = gw_inv g" "gw_inv (ws_terminate cf w g) = gw_inv g"
  "gw_inv (res_json q st c s g) = gw_inv g" "gw_inv (res_destroy q s g) = gw_inv g"
  "gw_inv (broadcastRegistrySnapshot e g) = gw_inv g" "gw_inv (gateway_error p c s g) = gw_inv g"
  by (rule inv_core, simp)+

lemma inv_untracked [simp]:
  "gw_inv (g\<lparr>gw_authFailures := a\<rparr>) = gw_inv g"
  "gw_inv (g\<lparr>gw_proxyRequests := a\<rparr>) = gw_inv g"
  "gw_inv (g\<lparr>gw_proxyIpRequests := a\<rparr>) = gw_inv g"
  "gw_inv (g\<lparr>gw_ownerReplacements := r\<rparr>) = gw_inv g"
  "gw_inv (g\<lparr>gw_adminSessions := s\<rparr>) = gw_inv g"
  "gw_inv (g\<lparr>gw_bridges := bs\<rparr>) = gw_inv g"
  "gw_inv (g\<lparr>gw_res := rs\<rparr>) = gw_inv g"
  "gw_inv (g\<lparr>gw_ready := y\<rparr>) = gw_inv g"
  by (simp_all add: gw_inv_def inv_defs subscribers_def conns_of_def retained_bounded_def)

lemma inv_parts:
  "gw_inv g \<Longrightarrow> inv_maps g" "gw_inv g \<Longrightarrow> inv_peers g" "gw_inv g \<Longrightarrow> inv_back g" "gw_inv g \<Longrightarrow> inv_leases g"
  "gw_inv g \<Longrightarrow> inv_registry g" "gw_inv g \<Longrightarrow> inv_channels g" "gw_inv g \<Longrightarrow> inv_tickets g"
  "gw_inv g \<Longrightarrow> inv_topics g" "gw_inv g \<Longrightarrow> inv_conns g" "gw_inv g \<Longrightarrow> inv_storage g"
  by (simp_all add: gw_inv_def)

lemma inv_chan_ok: "gw_inv g \<Longrightarrow> chan_ok g"
  by (auto simp: gw_inv_def inv_maps_def inv_channels_def chan_ok_def)

section \<open>The storage\<close>

definition st_kept :: "storage \<Rightarrow> storage \<Rightarrow> bool" where
  "st_kept s s' \<longleftrightarrow> st_maxEpoch s \<le> st_maxEpoch s' \<and> (st_ok s \<longrightarrow> st_ok s')
     \<and> ((\<forall>r\<in>set (st_identities s). bi_backendId r \<noteq> []) \<longrightarrow> (\<forall>r\<in>set (st_identities s'). bi_backendId r \<noteq> []))"

lemma inv_storage_frame [simp]:
  "inv_maps (g\<lparr>gw_storage := s\<rparr>) = inv_maps g" "inv_peers (g\<lparr>gw_storage := s\<rparr>) = inv_peers g"
  "inv_back (g\<lparr>gw_storage := s\<rparr>) = inv_back g" "inv_registry (g\<lparr>gw_storage := s\<rparr>) = inv_registry g"
  "inv_channels (g\<lparr>gw_storage := s\<rparr>) = inv_channels g" "inv_tickets (g\<lparr>gw_storage := s\<rparr>) = inv_tickets g"
  "inv_topics (g\<lparr>gw_storage := s\<rparr>) = inv_topics g" "inv_conns (g\<lparr>gw_storage := s\<rparr>) = inv_conns g"
  by (simp_all add: inv_defs subscribers_def conns_of_def retained_bounded_def)

lemma inv_leases_storage:
  "inv_leases g \<Longrightarrow> st_maxEpoch (gw_storage g) \<le> st_maxEpoch s \<Longrightarrow> inv_leases (g\<lparr>gw_storage := s\<rparr>)"
  by (auto simp: inv_leases_def owned_by_def intro: order_trans)

lemma inv_set_storage: "gw_inv g \<Longrightarrow> st_kept (gw_storage g) s' \<Longrightarrow> gw_inv (g\<lparr>gw_storage := s'\<rparr>)"
  unfolding gw_inv_def by (simp add: inv_leases_storage st_kept_def inv_storage_def)

lemma st_kept_refl [simp]: "st_kept s s"
  by (simp add: st_kept_def)

lemma st_kept_trans: "st_kept s t \<Longrightarrow> st_kept t u \<Longrightarrow> st_kept s u"
  unfolding st_kept_def by (meson order_trans)

definition ids_ok :: "storage \<Rightarrow> bool" where
  "ids_ok s \<longleftrightarrow> (\<forall>r\<in>set (st_identities s). bi_backendId r \<noteq> [])"

fun draws_ok :: "storage_op \<Rightarrow> bool" where
  "draws_ok (SCreate inp rn now) = (rn_backendId rn \<noteq> [])"
| "draws_ok (SIdentify ns i e n u now) = (u \<noteq> [])"
| "draws_ok _ = True"

lemma ids_ok_map: "ids_ok s \<longleftrightarrow> [] \<notin> set (map bi_backendId (st_identities s))"
  unfolding ids_ok_def set_map image_iff by metis

lemma ids_ok_update [simp]:
  "(\<And>r. bi_backendId (f r) = bi_backendId r) \<Longrightarrow>
     ids_ok (s\<lparr>st_identities := update_where P f (st_identities s)\<rparr>) = ids_ok s"
proof -
  assume "\<And>r. bi_backendId (f r) = bi_backendId r"
  then have "map bi_backendId (update_where P f (st_identities s)) = map bi_backendId (st_identities s)"
    by (simp add: update_where_def)
  then show ?thesis by (simp add: ids_ok_map del: set_map)
qed

lemma ids_ok_other [simp]:
  "ids_ok (s\<lparr>st_credentials := x\<rparr>) = ids_ok s" "ids_ok (s\<lparr>st_maxEpoch := e\<rparr>) = ids_ok s"
  "ids_ok (fst (insert_credential c s)) = ids_ok s"
  by (simp_all add: ids_ok_def insert_credential_def)

lemma ids_ok_insert: "ids_ok s \<Longrightarrow> bi_backendId x \<noteq> [] \<Longrightarrow> ids_ok (fst (insert_identity x s))"
  by (auto simp: ids_ok_def insert_identity_def)

lemma ids_ok_insertD: "insert_identity x s = (s', r) \<Longrightarrow> ids_ok s \<Longrightarrow> bi_backendId x \<noteq> [] \<Longrightarrow> ids_ok s'"
  using ids_ok_insert [of s x] by simp

lemma ids_ok_create:
  assumes "ids_ok s" and "rn_backendId rn \<noteq> [] \<or> in_type inp \<noteq> Backend"
  shows "ids_ok (fst (createCredential sha inp rn now s))"
proof -
  obtain s1 r where c: "credential_backend inp rn now s = (s1, r)" by fastforce
  have "ids_ok s1"
    using assms c
    by (auto simp: credential_backend_def createBoundBackendIdentity_def
        split: if_splits option.splits prod.splits sum.splits elim!: ids_ok_insertD)
  then show ?thesis by (auto simp: createCredential_fst [OF c] split: sum.split)
qed

lemma ids_ok_exchange: "ids_ok s \<Longrightarrow> ids_ok (fst (exchangeAccessCredential sha p t rn now s))"
proof (cases "findAccessCredential (ci_id p) s")
  case None
  assume "ids_ok s"
  moreover have "fst (exchangeAccessCredential sha p t rn now s) =
      fst (createCredential sha
        \<lparr>in_type = BackendAccess, in_namespace = ci_namespace p,
         in_name = Some (accessCredentialName p), in_ttl = t, in_parentId = Some (ci_id p),
         in_backendId = ci_backendId p, in_allowedBackends = None\<rparr> rn now s)"
    by (simp add: exchangeAccessCredential_def None split: prod.splits sum.splits)
  ultimately show ?thesis by (simp add: ids_ok_create)
next
  case (Some e)
  assume "ids_ok s"
  then show ?thesis
    by (simp add: exchangeAccessCredential_def Some Let_def split: option.split)
qed

lemma ids_ok_revokes: "ids_ok (fst (revokeCredentials js now s)) = ids_ok s"
proof (induction js arbitrary: s)
  case (Cons j js)
  have "ids_ok (fst (revokeCredential j now s)) = ids_ok s"
    by (simp add: revokeCredential_def Let_def)
  with Cons show ?case by (simp only: revokeCredentials_fst)
qed simp

lemma ids_ok_step: "ids_ok s \<Longrightarrow> draws_ok x \<Longrightarrow> ids_ok (st_step sha x s)"
proof (cases x)
  case (SFind tok now)
  assume "ids_ok s"
  then show ?thesis using findValid_fst [of sha tok now s] SFind by auto
next
  case (SIdentify ns i e n u now)
  assume "ids_ok s" "draws_ok x"
  then show ?thesis using SIdentify
    by (auto simp: getOrCreateBackendIdV4_def Let_def split: option.split prod.split sum.split
        elim!: ids_ok_insertD)
next
  case (SForget b)
  assume "ids_ok s"
  then show ?thesis using SForget
    by (simp add: deleteBackendIdentity_def ids_ok_def delete_where_def)
qed (auto simp: ids_ok_create ids_ok_exchange bindBackendCredential_def Let_def setAllowedBackends_def
      revokeCredential_def ids_ok_revokes purgeRevokedCredentials_def touchBackendIdentity_def allocateEpoch_def)

lemma st_kept_step: "draws_ok x \<Longrightarrow> st_kept s (st_step sha x s)"
  unfolding st_kept_def ids_ok_def [symmetric]
  by (simp add: epoch_step st_ok_step ids_ok_step)

lemmas st_kept_ops = st_kept_step [of "SFind tok now" for tok now, simplified]
  st_kept_step [of "STouch b c n now" for b c n now, simplified]
  st_kept_step [of SEpoch, simplified]

lemma st_kept_getOrCreate: "u \<noteq> [] \<Longrightarrow> st_kept s (fst (getOrCreateBackendIdV4 ns i e n u now s))"
  using st_kept_step [of "SIdentify ns i e n u now"] by simp

lemma st_kept_resolve:
  "u \<noteq> [] \<Longrightarrow> st_kept s (fst (resolveBackendIdentity c ns i n ch u now s))"
  by (simp add: resolveBackendIdentity_def st_kept_getOrCreate split: option.split)

section \<open>Which part depends on which field\<close>

lemma inv_tickets_frame [simp]:
  "inv_peers (g\<lparr>gw_tickets := x\<rparr>) = inv_peers g" "inv_back (g\<lparr>gw_tickets := x\<rparr>) = inv_back g"
  "inv_leases (g\<lparr>gw_tickets := x\<rparr>) = inv_leases g" "inv_registry (g\<lparr>gw_tickets := x\<rparr>) = inv_registry g"
  "inv_channels (g\<lparr>gw_tickets := x\<rparr>) = inv_channels g" "inv_topics (g\<lparr>gw_tickets := x\<rparr>) = inv_topics g"
  "inv_conns (g\<lparr>gw_tickets := x\<rparr>) = inv_conns g" "inv_storage (g\<lparr>gw_tickets := x\<rparr>) = inv_storage g"
  by (simp_all add: inv_defs subscribers_def conns_of_def retained_bounded_def)

lemma inv_channels_frame [simp]:
  "inv_peers (g\<lparr>gw_channels := x\<rparr>) = inv_peers g" "inv_back (g\<lparr>gw_channels := x\<rparr>) = inv_back g"
  "inv_leases (g\<lparr>gw_channels := x\<rparr>) = inv_leases g" "inv_registry (g\<lparr>gw_channels := x\<rparr>) = inv_registry g"
  "inv_topics (g\<lparr>gw_channels := x\<rparr>) = inv_topics g"
  "inv_conns (g\<lparr>gw_channels := x\<rparr>) = inv_conns g" "inv_storage (g\<lparr>gw_channels := x\<rparr>) = inv_storage g"
  by (simp_all add: inv_defs subscribers_def conns_of_def retained_bounded_def)

lemma inv_topics_frame [simp]:
  "inv_maps (g\<lparr>gw_topicSubs := x\<rparr>) = inv_maps g" "inv_peers (g\<lparr>gw_topicSubs := x\<rparr>) = inv_peers g"
  "inv_back (g\<lparr>gw_topicSubs := x\<rparr>) = inv_back g" "inv_leases (g\<lparr>gw_topicSubs := x\<rparr>) = inv_leases g"
  "inv_registry (g\<lparr>gw_topicSubs := x\<rparr>) = inv_registry g" "inv_channels (g\<lparr>gw_topicSubs := x\<rparr>) = inv_channels g"
  "inv_tickets (g\<lparr>gw_topicSubs := x\<rparr>) = inv_tickets g" "inv_conns (g\<lparr>gw_topicSubs := x\<rparr>) = inv_conns g"
  "inv_storage (g\<lparr>gw_topicSubs := x\<rparr>) = inv_storage g"
  by (simp_all add: inv_defs subscribers_def conns_of_def retained_bounded_def)

lemma inv_retained_frame [simp]:
  "inv_maps (g\<lparr>gw_retained := x\<rparr>) = inv_maps g" "inv_peers (g\<lparr>gw_retained := x\<rparr>) = inv_peers g"
  "inv_back (g\<lparr>gw_retained := x\<rparr>) = inv_back g" "inv_leases (g\<lparr>gw_retained := x\<rparr>) = inv_leases g"
  "inv_registry (g\<lparr>gw_retained := x\<rparr>) = inv_registry g" "inv_channels (g\<lparr>gw_retained := x\<rparr>) = inv_channels g"
  "inv_tickets (g\<lparr>gw_retained := x\<rparr>) = inv_tickets g" "inv_conns (g\<lparr>gw_retained := x\<rparr>) = inv_conns g"
  "inv_storage (g\<lparr>gw_retained := x\<rparr>) = inv_storage g"
  by (simp_all add: inv_defs subscribers_def conns_of_def retained_bounded_def)

section \<open>Channels and tickets\<close>

definition dropped :: "(channel \<Rightarrow> bool) \<Rightarrow> gateway \<Rightarrow> gateway \<Rightarrow> bool" where
  "dropped Q g g' \<longleftrightarrow>
     gw_channels g' = jm_filter (\<lambda>_ ch. \<not> Q ch) (gw_channels g)
   \<and> gw_tickets g' = jm_filter (\<lambda>t _. \<forall>k ch. jm_get (gw_channels g) k = Some ch \<longrightarrow> Q ch \<longrightarrow> t \<notin> set (ch_tickets ch))
       (gw_tickets g)"

lemma droppedD:
  assumes "dropped Q g g'" and "inv_maps g"
  shows "jm_get (gw_channels g') i = (case jm_get (gw_channels g) i of None \<Rightarrow> None | Some ch \<Rightarrow> if Q ch then None else Some ch)"
    and "jm_get (gw_tickets g') t = Some tk \<Longrightarrow> jm_get (gw_tickets g) t = Some tk
           \<and> (\<forall>k ch. jm_get (gw_channels g) k = Some ch \<longrightarrow> Q ch \<longrightarrow> t \<notin> set (ch_tickets ch))"
    and "jm_ok (gw_channels g')" and "jm_ok (gw_tickets g')"
  using assms
  by (auto simp: dropped_def inv_maps_def jm_get_filter split: option.splits if_splits)

lemma dropped_trans:
  assumes "dropped Q g g'" and "dropped R g' g''" and "jm_ok (gw_channels g)"
  shows "dropped (\<lambda>ch. Q ch \<or> R ch) g g''"
  using assms unfolding dropped_def
  by (auto simp: jm_get_filter intro!: jm_filter_cong split: option.splits if_splits)

lemma dropped_refl: "(\<And>k ch. jm_get (gw_channels g) k = Some ch \<Longrightarrow> \<not> Q ch) \<Longrightarrow> jm_ok (gw_channels g) \<Longrightarrow> dropped Q g g"
  unfolding dropped_def
  by (auto intro!: jm_filter_id [symmetric] dest: jm_in_get)

lemma dropped_cong: "core g' = core g'' \<Longrightarrow> dropped Q g g' = dropped Q g g''"
  by (simp add: dropped_def core_eq_iff)

lemma dropped_teardown_all:
  "chan_ok g \<Longrightarrow> dropped P g (teardown_all cf r P (jm_vals (gw_channels g)) g)"
  by (simp add: dropped_def close_all_channels)

lemma inv_dropped_tickets:
  assumes "dropped Q g g'" and "inv_maps g" and "inv_tickets g"
  shows "inv_tickets g'"
  unfolding inv_tickets_def
proof (intro allI impI)
  fix t tk assume "jm_get (gw_tickets g') t = Some tk"
  then have t: "jm_get (gw_tickets g) t = Some tk"
    "\<forall>k ch. jm_get (gw_channels g) k = Some ch \<longrightarrow> Q ch \<longrightarrow> t \<notin> set (ch_tickets ch)"
    using droppedD(2) [OF assms(1,2)] by blast+
  then obtain ch where "jm_get (gw_channels g) (tk_channelId tk) = Some ch" "t \<in> set (ch_tickets ch)"
    using assms(3) unfolding inv_tickets_def by blast
  with t show "\<exists>ch. jm_get (gw_channels g') (tk_channelId tk) = Some ch \<and> t \<in> set (ch_tickets ch)"
    by (auto simp: droppedD(1) [OF assms(1,2)])
qed

lemma inv_dropped:
  assumes "gw_inv g" and "dropped Q g (g\<lparr>gw_channels := cs, gw_tickets := ts\<rparr>)"
  shows "gw_inv (g\<lparr>gw_channels := cs, gw_tickets := ts\<rparr>)"
proof -
  let ?g = "g\<lparr>gw_channels := cs, gw_tickets := ts\<rparr>"
  have m: "inv_maps g" using assms(1) by (simp add: gw_inv_def)
  have "inv_maps ?g" using m droppedD(3,4) [OF assms(2) m] by (simp add: inv_maps_def)
  moreover have "inv_channels ?g"
    using assms(1) droppedD(1) [OF assms(2) m]
    by (auto simp: gw_inv_def inv_channels_def split: option.splits if_splits)
  moreover have "inv_tickets ?g"
    using inv_dropped_tickets [OF assms(2) m] assms(1) by (simp add: gw_inv_def)
  ultimately show ?thesis using assms(1) by (simp add: gw_inv_def)
qed

lemma inv_teardown:
  assumes "gw_inv g"
  shows "gw_inv (teardownChannel cf cid r g)"
proof -
  have ids: "jm_get (gw_channels g) k = Some ch \<Longrightarrow> ch_id ch = k" for k ch
    using inv_chan_ok [OF assms] by (simp add: chan_ok_def)
  have ok: "jm_ok (gw_channels g)" using assms by (simp add: gw_inv_def inv_maps_def)
  have "dropped (\<lambda>ch. ch_id ch = cid) g (drop_channel cid g)"
    unfolding dropped_def drop_channel_def jm_del_filter
    using ids ok by (auto simp: jm_in_iff intro!: jm_filter_cong)
  then show ?thesis
    unfolding inv_core [OF core_teardown] drop_channel_def
    using inv_dropped [OF assms] by simp
qed

lemma inv_spend_ticket:
  assumes "gw_inv g" shows "gw_inv (g\<lparr>gw_tickets := jm_filter P (gw_tickets g)\<rparr>)"
proof -
  have "inv_maps (g\<lparr>gw_tickets := jm_filter P (gw_tickets g)\<rparr>)"
    using assms by (simp add: gw_inv_def inv_maps_def)
  moreover have "inv_tickets (g\<lparr>gw_tickets := jm_filter P (gw_tickets g)\<rparr>)"
    using assms by (auto simp: gw_inv_def inv_tickets_def inv_maps_def jm_get_filter split: option.splits if_splits)
  ultimately show ?thesis using assms by (simp add: gw_inv_def)
qed

lemma inv_cleanup: "gw_inv g \<Longrightarrow> gw_inv (rateLimitCleanup now g)"
  using inv_spend_ticket [of "g\<lparr>gw_authFailures := jm_sweep re_resetAt now (gw_authFailures g),
       gw_proxyRequests := jm_sweep re_resetAt now (gw_proxyRequests g),
       gw_proxyIpRequests := jm_sweep re_resetAt now (gw_proxyIpRequests g)\<rparr>" "\<lambda>_ v. \<not> tk_expiresAt v < now"]
  by (simp add: rateLimitCleanup_def jm_sweep_def)

lemma inv_upgrade: "gw_inv g \<Longrightarrow> gw_inv (fst (handleChannelUpgrade cid tok now g))"
  using inv_spend_ticket [of g "\<lambda>k' _. k' \<noteq> tok"]
  by (auto simp: handleChannelUpgrade_def Let_def jm_del_filter split: option.split)

text \<open>Pairing writes the legs, the pipe flag and the timer of a channel, nothing the invariant reads.\<close>

definition same_channel :: "channel \<Rightarrow> channel \<Rightarrow> bool" where
  "same_channel a b \<longleftrightarrow> ch_id a = ch_id b \<and> ch_backendId a = ch_backendId b \<and> ch_epoch a = ch_epoch b
     \<and> ch_client a = ch_client b \<and> ch_backend a = ch_backend b \<and> ch_tickets a = ch_tickets b"

lemma inv_upd_channel:
  assumes "gw_inv g" and "\<And>ch. same_channel (f ch) ch"
  shows "gw_inv (g\<lparr>gw_channels := jm_upd cid f (gw_channels g)\<rparr>)"
proof -
  let ?g = "g\<lparr>gw_channels := jm_upd cid f (gw_channels g)\<rparr>"
  have s: "ch_id (f ch) = ch_id ch" "ch_backendId (f ch) = ch_backendId ch" "ch_epoch (f ch) = ch_epoch ch"
    "ch_client (f ch) = ch_client ch" "ch_backend (f ch) = ch_backend ch" "ch_tickets (f ch) = ch_tickets ch" for ch
    using assms(2) [of ch] by (simp_all add: same_channel_def)
  have "inv_channels ?g" using assms(1) by (auto simp: gw_inv_def inv_channels_def s split: if_splits)
  moreover have "inv_tickets ?g"
    unfolding inv_tickets_def
  proof (intro allI impI)
    fix t tk assume "jm_get (gw_tickets ?g) t = Some tk"
    then obtain ch where "jm_get (gw_channels g) (tk_channelId tk) = Some ch" "t \<in> set (ch_tickets ch)"
      using assms(1) unfolding gw_inv_def inv_tickets_def by fastforce
    then show "\<exists>ch. jm_get (gw_channels ?g) (tk_channelId tk) = Some ch \<and> t \<in> set (ch_tickets ch)"
      by (auto simp: s)
  qed
  ultimately show ?thesis using assms(1) by (simp add: gw_inv_def inv_maps_def)
qed

lemma inv_upgraded: "gw_inv g \<Longrightarrow> gw_inv (fst (channelUpgraded cf cid r w g))"
proof -
  assume "gw_inv g"
  then have a: "gw_inv (emit (OPause w) g)" by simp
  define f :: "channel \<Rightarrow> channel" where "f = (\<lambda>ch. if r = RClient then ch\<lparr>ch_clientSocket := Some w\<rparr> else ch\<lparr>ch_backendSocket := Some w\<rparr>)"
  have f: "same_channel (f ch) ch" for ch by (simp add: f_def same_channel_def)
  have all: "gw_inv (emit (OPause w) g\<lparr>gw_channels := jm_upd cid h (gw_channels g)\<rparr>)"
    if "\<And>ch. same_channel (h ch) ch" for h
    using inv_upd_channel [OF a that] by simp
  show ?thesis
    unfolding channelUpgraded_def f_def [symmetric] wireChannel_def Let_def
    using \<open>gw_inv g\<close> f
    by (auto simp: same_channel_def split: option.split intro!: all)
qed

lemma grant_parts:
  "channel_grant cf peer target g = Some l \<Longrightarrow>
     jm_get (gs_leases g) target = Some l \<and> (\<exists>pr. jm_get (gs_registry g) target = Some pr \<and> peer_reaches peer pr)"
  by (auto simp: channel_grant_def backend_session_def split: option.splits if_splits)

lemma inv_add_channel:
  assumes "gw_inv g" and "jm_get (gw_channels g) (ch_id ch) = None"
    and "jm_get (gs_leases g) (ch_backendId ch) = Some l" and "le_peerSessionId l = ch_backend ch"
    and "le_epoch l = ch_epoch ch" and "jm_get (gs_registry g) (ch_backendId ch) = Some pr"
    and "\<And>p. jm_get (gs_peers g) (ch_client ch) = Some p \<Longrightarrow> peer_reaches p pr"
    and "jm_ok ts" and "\<And>t tk. jm_get ts t = Some tk \<Longrightarrow>
           jm_get (gw_tickets g) t = Some tk \<or> tk_channelId tk = ch_id ch \<and> t \<in> set (ch_tickets ch)"
  shows "gw_inv (g\<lparr>gw_tickets := ts, gw_channels := jm_set (ch_id ch) ch (gw_channels g)\<rparr>)"
proof -
  let ?g = "g\<lparr>gw_tickets := ts, gw_channels := jm_set (ch_id ch) ch (gw_channels g)\<rparr>"
  have "inv_maps ?g" using assms(1,8) by (simp add: gw_inv_def inv_maps_def)
  moreover have "inv_channels ?g"
    using assms(1,3-7) by (auto simp: gw_inv_def inv_channels_def)
  moreover have "inv_tickets ?g"
    unfolding inv_tickets_def
  proof (intro allI impI)
    fix t tk assume "jm_get (gw_tickets ?g) t = Some tk"
    then consider "jm_get (gw_tickets g) t = Some tk" | "tk_channelId tk = ch_id ch" "t \<in> set (ch_tickets ch)"
      using assms(9) by auto
    then show "\<exists>ch. jm_get (gw_channels ?g) (tk_channelId tk) = Some ch \<and> t \<in> set (ch_tickets ch)"
    proof cases
      case 1
      then obtain ch' where "jm_get (gw_channels g) (tk_channelId tk) = Some ch'" "t \<in> set (ch_tickets ch')"
        using assms(1) unfolding gw_inv_def inv_tickets_def by blast
      with assms(2) show ?thesis by (intro exI [of _ ch']) auto
    next
      case 2
      then show ?thesis by simp
    qed
  qed
  ultimately show ?thesis using assms(1) by (simp add: gw_inv_def)
qed

lemma inv_open:
  assumes "gw_inv g" and "jm_get (gw_channels g) (cd_id rn) = None"
    and "jm_get (gs_peers g) (ps_id peer) = Some peer"
  shows "gw_inv (handleChannelOpen cf peer target kind rn now g)"
proof (cases "channel_grant cf peer target g")
  case None
  then show ?thesis using assms(1) by (simp add: inv_core [OF core_open])
next
  case (Some l)
  then obtain pr where l: "jm_get (gs_leases g) target = Some l"
    and pr: "jm_get (gs_registry g) target = Some pr" "peer_reaches peer pr"
    by (auto dest: grant_parts)
  define ch where "ch = new_channel cf target kind (ps_id peer) l rn now"
  have ch: "ch_id ch = cd_id rn" "ch_backendId ch = target" "ch_backend ch = le_peerSessionId l"
    "ch_epoch ch = le_epoch l" "ch_client ch = ps_id peer" "ch_tickets ch = [cd_client rn, cd_backend rn]"
    by (simp_all add: ch_def new_channel_def)
  have "gw_inv (g\<lparr>gw_tickets := granted_tickets cf rn now (gw_tickets g),
      gw_channels := jm_set (ch_id ch) ch (gw_channels g)\<rparr>)"
    using assms l pr
    by (intro inv_add_channel [where l = l and pr = pr])
       (auto simp: ch granted_tickets_def gw_inv_def inv_maps_def split: if_splits)
  then show ?thesis by (simp add: inv_core [OF core_open] Some ch_def new_channel_def)
qed

section \<open>Topics\<close>



lemma inv_topicsD:
  assumes "inv_topics g"
  shows "jm_get (gw_topicSubs g) b = Some x \<Longrightarrow> \<exists>l. jm_get (gs_leases g) b = Some l"
    and "jm_get (gw_retained g) b = Some y \<Longrightarrow> \<exists>l. jm_get (gs_leases g) b = Some l"
    and "sid \<in> set (subscribers b t g) \<Longrightarrow> jm_get (gs_peers g) sid = Some p \<Longrightarrow>
           jm_get (gs_registry g) b = Some pr \<Longrightarrow> peer_reaches p pr"
    and "retained_bounded g"
  using assms unfolding inv_topics_def by blast+

lemma add_subscriber_fields [simp]:
  "gs_peers (add_subscriber b t s g) = gs_peers g" "gs_registry (add_subscriber b t s g) = gs_registry g"
  "gs_leases (add_subscriber b t s g) = gs_leases g" "gw_retained (add_subscriber b t s g) = gw_retained g"
  "jm_get (gw_topicSubs (add_subscriber b t s g)) b' = None \<longleftrightarrow> b' \<noteq> b \<and> jm_get (gw_topicSubs g) b' = None"
  by (auto simp: add_subscriber_def Let_def)

lemma inv_subscribe:
  assumes "gw_inv g" and "jm_get (gs_peers g) (ps_id peer) = Some peer"
  shows "gw_inv (handleTopicSubscribe peer b topic g)"
proof (cases "accepts_subscription peer b g")
  case False
  then have "core (handleTopicSubscribe peer b topic g) = core g"
    by (simp add: subscribe_core)
  from inv_core [OF this] assms(1) show ?thesis by simp
next
  case True
  let ?g = "add_subscriber b topic (ps_id peer) g"
  obtain pr where pr: "jm_get (gs_registry g) b = Some pr" "peer_reaches peer pr"
    using True by (auto simp: accepts_subscription_def)
  obtain l where l: "jm_get (gs_leases g) b = Some l"
    using assms(1) pr by (auto simp: gw_inv_def inv_registry_def)
  have "inv_topics ?g"
    unfolding inv_topics_def
  proof (intro conjI allI impI)
    fix b' x assume "jm_get (gw_topicSubs ?g) b' = Some x"
    then have "jm_get (gw_topicSubs ?g) b' \<noteq> None" by simp
    then have "b' = b \<or> (\<exists>y. jm_get (gw_topicSubs g) b' = Some y)"
      unfolding add_subscriber_fields by auto
    then show "\<exists>l. jm_get (gs_leases ?g) b' = Some l"
      using inv_topicsD(1) [OF inv_parts(8) [OF assms(1)]] l by auto
  next
    fix b' x assume "jm_get (gw_retained ?g) b' = Some x"
    then show "\<exists>l. jm_get (gs_leases ?g) b' = Some l"
      using inv_topicsD(2) [OF inv_parts(8) [OF assms(1)]] by simp
  next
    fix b' t sid p pr'
    assume s: "sid \<in> set (subscribers b' t ?g)" and p: "jm_get (gs_peers ?g) sid = Some p"
      and r: "jm_get (gs_registry ?g) b' = Some pr'"
    from s have "sid \<in> set (subscribers b' t g) \<or> b' = b \<and> sid = ps_id peer"
      by (auto simp: subscribers_add set_add_def split: if_splits)
    then show "peer_reaches p pr'"
      using p r pr assms(2) inv_topicsD(3) [OF inv_parts(8) [OF assms(1)], of sid b' t p pr'] by auto
  next
    show "retained_bounded ?g"
      using inv_topicsD(4) [OF inv_parts(8) [OF assms(1)]] by (simp add: retained_bounded_def)
  qed
  then have "gw_inv ?g" using assms(1) by (simp add: gw_inv_def add_subscriber_def Let_def)
  moreover have "core (handleTopicSubscribe peer b topic g) = core ?g"
    using True by (simp add: subscribe_core)
  note inv_core [OF this]
  ultimately show ?thesis by simp
qed

lemma inv_topicsI:
  assumes "\<And>b x. jm_get (gw_topicSubs g) b = Some x \<Longrightarrow> \<exists>l. jm_get (gs_leases g) b = Some l"
    and "\<And>b x. jm_get (gw_retained g) b = Some x \<Longrightarrow> \<exists>l. jm_get (gs_leases g) b = Some l"
    and "\<And>b t sid p pr. sid \<in> set (subscribers b t g) \<Longrightarrow> jm_get (gs_peers g) sid = Some p \<Longrightarrow>
           jm_get (gs_registry g) b = Some pr \<Longrightarrow> peer_reaches p pr"
    and "retained_bounded g"
  shows "inv_topics g"
  using assms unfolding inv_topics_def by blast

lemma inv_unsubscribe:
  assumes "gw_inv g" shows "gw_inv (handleTopicUnsubscribe peer b topic g)"
proof -
  define h where "h = g\<lparr>gw_topicSubs := jm_upd b (jm_upd topic (filter (\<lambda>sid. sid \<noteq> ps_id peer))) (gw_topicSubs g)\<rparr>"
  have c: "core (handleTopicUnsubscribe peer b topic g) = core h"
    by (simp add: handleTopicUnsubscribe_def h_def)
  note top = inv_topicsD [OF inv_parts(8) [OF assms]]
  have f: "gs_peers h = gs_peers g" "gs_registry h = gs_registry g" "gs_leases h = gs_leases g" "gw_retained h = gw_retained g"
    by (simp_all add: h_def)
  have "inv_topics h"
  proof (rule inv_topicsI)
    fix b' x assume "jm_get (gw_topicSubs h) b' = Some x"
    then have "\<exists>y. jm_get (gw_topicSubs g) b' = Some y" by (auto simp: h_def split: if_splits)
    then show "\<exists>l. jm_get (gs_leases h) b' = Some l" using top(1) by (auto simp: f)
  next
    fix b' t sid p pr assume "sid \<in> set (subscribers b' t h)" "jm_get (gs_peers h) sid = Some p" "jm_get (gs_registry h) b' = Some pr"
    moreover have "subscribers b' t h = subscribers b' t (handleTopicUnsubscribe peer b topic g)"
      by (rule subscribers_cong) (simp add: c)
    ultimately show "peer_reaches p pr"
      using top(3) by (auto simp: subscribers_unsubscribe f split: if_splits)
  qed (use top(2,4) in \<open>auto simp: f retained_bounded_def\<close>)
  then have "gw_inv h" using assms by (simp add: gw_inv_def h_def)
  then show ?thesis by (simp add: inv_core [OF c])
qed

lemma owner_lease:
  "isCurrentBackendOwner peer e g \<Longrightarrow> \<exists>b l. ps_backendId peer = Some b \<and> b \<noteq> [] \<and> jm_get (gs_leases g) b = Some l
     \<and> le_peerSessionId l = ps_id peer \<and> ps_epoch peer = Some (le_epoch l)"
  by (auto simp: isCurrentBackendOwner_def split: option.splits if_splits)

lemma inv_retain:
  assumes "gw_inv g" and "jm_get (gs_leases g) b = Some l"
  shows "gw_inv (retain_payload b topic p g)"
proof -
  let ?h = "retain_payload b topic p g"
  note top = inv_topicsD [OF inv_parts(8) [OF assms(1)]]
  have f: "gs_peers ?h = gs_peers g" "gs_registry ?h = gs_registry g" "gs_leases ?h = gs_leases g"
    "gw_topicSubs ?h = gw_topicSubs g"
    by (simp_all add: retain_payload_def Let_def)
  have "length (or_else (jm_get (gw_retained g) b) []) \<le> MAX_RETAINED_TOPICS_PER_BACKEND"
    using top(4) by (cases "jm_get (gw_retained g) b") (auto simp: retained_bounded_def)
  then have rb: "retained_bounded ?h"
    using top(4)
    by (auto simp: retained_bounded_def retain_payload_def Let_def or_else_def jm_set_length
        MAX_RETAINED_TOPICS_PER_BACKEND_def not_le Suc_le_eq split: option.splits if_splits)
  have "inv_topics ?h"
  proof (rule inv_topicsI)
    fix b' x assume "jm_get (gw_retained ?h) b' = Some x"
    then have "b' = b \<or> (\<exists>y. jm_get (gw_retained g) b' = Some y)"
      by (auto simp: retain_payload_def Let_def split: if_splits)
    then show "\<exists>l. jm_get (gs_leases ?h) b' = Some l" using top(2) assms(2) by (auto simp: f)
  qed (use top(1,3) rb in \<open>auto simp: f\<close>)
  then show ?thesis using assms(1) by (simp add: gw_inv_def retain_payload_def Let_def)
qed

lemma inv_publish: "gw_inv g \<Longrightarrow> gw_inv (handleTopicPublish peer topic payload retain g)"
proof -
  assume g: "gw_inv g"
  show ?thesis
  proof (cases "isCurrentBackendOwner peer None g \<and> retain \<and> payload \<noteq> None")
    case True
    then obtain b l where "ps_backendId peer = Some b" "jm_get (gs_leases g) b = Some l"
      by (auto dest: owner_lease)
    with g True show ?thesis by (simp add: inv_core [OF publish_core] inv_retain)
  next
    case False
    then have "core (handleTopicPublish peer topic payload retain g) = core g"
      unfolding publish_core by (simp only: if_False)
    from inv_core [OF this] g show ?thesis by simp
  qed
qed

section \<open>Objects written in place\<close>

text \<open>The fields of a peer that the invariant reads.\<close>

definition same_peer :: "peer_session \<Rightarrow> peer_session \<Rightarrow> bool" where
  "same_peer p q \<longleftrightarrow> ps_id p = ps_id q \<and> ps_ws p = ps_ws q \<and> ps_recoveryToken p = ps_recoveryToken q
     \<and> ps_backendId p = ps_backendId q \<and> ps_epoch p = ps_epoch q \<and> ps_namespace p = ps_namespace q
     \<and> ps_allowedBackends p = ps_allowedBackends q"

lemma inv_alive:
  assumes "gw_inv g"
  shows "gw_inv (upd_peer i (\<lambda>p. p\<lparr>ps_isAlive := v\<rparr>) g)"
proof -
  let ?f = "\<lambda>p. p\<lparr>ps_isAlive := v\<rparr>" and ?h = "upd_peer i (\<lambda>p. p\<lparr>ps_isAlive := v\<rparr>) g"
  have get: "jm_get (gs_peers ?h) j = map_option (if j = i then ?f else id) (jm_get (gs_peers g) j)" for j
    by (auto simp: option.map_id)
  have reach: "peer_reaches (?f p) pr = peer_reaches p pr" for p pr
    by (simp add: peer_reaches_def)
  have f: "gs_registry ?h = gs_registry g" "gs_leases ?h = gs_leases g" "gs_wsToPeer ?h = gs_wsToPeer g"
    "gw_channels ?h = gw_channels g" "gw_tickets ?h = gw_tickets g" "gw_conns ?h = gw_conns g"
    "gw_recoveryTokens ?h = gw_recoveryTokens g" "gw_storage ?h = gw_storage g" "gw_wsPerIp ?h = gw_wsPerIp g"
    "gw_topicSubs ?h = gw_topicSubs g" "gw_retained ?h = gw_retained g"
    by (simp_all add: upd_peer_def)
  have "inv_maps ?h" using assms by (simp add: gw_inv_def inv_maps_def f)
  moreover have "inv_peers ?h"
    using inv_parts(2) [OF assms] unfolding inv_peers_def get f by (fastforce split: if_splits)
  moreover have "inv_back ?h"
    using inv_parts(3) [OF assms] unfolding inv_back_def get f by fastforce
  moreover have "inv_leases ?h"
    using inv_parts(4) [OF assms] unfolding inv_leases_def owned_by_def get f by fastforce
  moreover have "inv_registry ?h"
    using inv_parts(5) [OF assms] unfolding inv_registry_def f .
  moreover have "inv_channels ?h"
    using inv_parts(6) [OF assms] unfolding inv_channels_def get f
    by (fastforce simp: reach split: if_splits)
  moreover have "inv_tickets ?h" using inv_parts(7) [OF assms] unfolding inv_tickets_def f .
  moreover have "inv_topics ?h"
    using inv_parts(8) [OF assms] unfolding inv_topics_def get f subscribers_def retained_bounded_def
    by (fastforce simp: reach split: if_splits)
  moreover have "inv_conns ?h" using inv_parts(9) [OF assms] unfolding inv_conns_def f conns_of_def .
  moreover have "inv_storage ?h" using inv_parts(10) [OF assms] unfolding inv_storage_def f .
  ultimately show ?thesis by (simp add: gw_inv_def)
qed

lemma inv_heartbeat:
  assumes "gw_inv g"
  shows "gw_inv (handleBackendHeartbeat peer n now g)"
proof -
  have touch: "gw_inv (g\<lparr>gs_leases := jm_upd b (\<lambda>l. l\<lparr>le_lastHeartbeatAt := now\<rparr>) (gs_leases g),
      gs_registry := jm_upd b (\<lambda>p. p\<lparr>pr_lastSeenAt := now\<rparr>) (gs_registry g)\<rparr>)" (is "gw_inv ?h") for b
  proof -
    have L: "jm_get (gs_leases ?h) c = map_option (if c = b then (\<lambda>l. l\<lparr>le_lastHeartbeatAt := now\<rparr>) else id) (jm_get (gs_leases g) c)" for c
      by (auto simp: option.map_id)
    have R: "jm_get (gs_registry ?h) c = map_option (if c = b then (\<lambda>p. p\<lparr>pr_lastSeenAt := now\<rparr>) else id) (jm_get (gs_registry g) c)" for c
      by (auto simp: option.map_id)
    have reach: "peer_reaches p (pr\<lparr>pr_lastSeenAt := now\<rparr>) = peer_reaches p pr" for p pr
      by (simp add: peer_reaches_def)
    have f: "gs_peers ?h = gs_peers g" "gs_wsToPeer ?h = gs_wsToPeer g"
      "gw_channels ?h = gw_channels g" "gw_tickets ?h = gw_tickets g" "gw_conns ?h = gw_conns g"
      "gw_recoveryTokens ?h = gw_recoveryTokens g" "gw_storage ?h = gw_storage g" "gw_wsPerIp ?h = gw_wsPerIp g"
      "gw_topicSubs ?h = gw_topicSubs g" "gw_retained ?h = gw_retained g"
      by simp_all
    have "inv_maps ?h" using assms by (simp add: gw_inv_def inv_maps_def)
    moreover have "inv_peers ?h"
      using inv_parts(2) [OF assms] unfolding inv_peers_def L f by (fastforce split: if_splits)
    moreover have "inv_back ?h" using inv_parts(3) [OF assms] unfolding inv_back_def f .
    moreover have "inv_leases ?h"
      using inv_parts(4) [OF assms] unfolding inv_leases_def owned_by_def L R f by fastforce
    moreover have "inv_registry ?h"
      using inv_parts(5) [OF assms] unfolding inv_registry_def L R by fastforce
    moreover have "inv_channels ?h"
      using inv_parts(6) [OF assms] unfolding inv_channels_def L R f by (fastforce simp: reach)
    moreover have "inv_tickets ?h" using inv_parts(7) [OF assms] unfolding inv_tickets_def f .
    moreover have "inv_topics ?h"
    proof (rule inv_topicsI)
      note top = inv_topicsD [OF inv_parts(8) [OF assms]]
      show "\<exists>l. jm_get (gs_leases ?h) c = Some l" if "jm_get (gw_topicSubs ?h) c = Some x" for c x
        using top(1) [of c x] that by (auto simp: L f)
      show "\<exists>l. jm_get (gs_leases ?h) c = Some l" if "jm_get (gw_retained ?h) c = Some x" for c x
        using top(2) [of c x] that by (auto simp: L f)
      show "peer_reaches p pr" if "sid \<in> set (subscribers c t ?h)" "jm_get (gs_peers ?h) sid = Some p"
        "jm_get (gs_registry ?h) c = Some pr" for c t sid p pr
        using top(3) [of sid c t p] that by (auto simp: R f subscribers_def reach split: if_splits)
      show "retained_bounded ?h" using top(4) by (simp add: retained_bounded_def)
    qed
    moreover have "inv_conns ?h" using inv_parts(9) [OF assms] unfolding inv_conns_def f conns_of_def .
    moreover have "inv_storage ?h" using inv_parts(10) [OF assms] unfolding inv_storage_def f .
    ultimately show ?thesis by (simp add: gw_inv_def)
  qed
  show ?thesis
    using assms touch by (simp add: handleBackendHeartbeat_def split: option.split)
qed

section \<open>Removing a peer\<close>

lemma inv_peersD:
  assumes "gw_inv g" and "jm_get (gs_peers g) i = Some p"
  shows "ps_id p = i" and "i \<noteq> []" and "\<exists>c. jm_get (gw_conns g) (ps_ws p) = Some c \<and> cn_session c = Some i"
    and "jm_get (gw_recoveryTokens g) (ps_recoveryToken p) = Some i"
    and "jm_get (gs_wsToPeer g) (ps_ws p) = Some i"
    and "ps_backendId p = Some b \<Longrightarrow> \<exists>l. jm_get (gs_leases g) b = Some l \<and> le_peerSessionId l = i"
  using inv_parts(2) [OF assms(1)] assms(2) unfolding inv_peers_def by blast+

lemma inv_leasesD:
  assumes "gw_inv g" and "jm_get (gs_leases g) b = Some l"
  shows "le_backendId l = b" and "b \<noteq> []" and "le_epoch l \<le> st_maxEpoch (gw_storage g)"
    and "\<exists>p pr. jm_get (gs_peers g) (le_peerSessionId l) = Some p
          \<and> ps_backendId p = Some b \<and> ps_epoch p = Some (le_epoch l)
          \<and> jm_get (gs_registry g) b = Some pr \<and> pr_backendId pr = b
          \<and> pr_epoch pr = le_epoch l \<and> pr_namespace pr = ps_namespace p"
  using inv_parts(4) [OF assms(1)] assms(2) unfolding inv_leases_def owned_by_def by blast+

lemma inv_channelsD:
  assumes "gw_inv g" and "jm_get (gw_channels g) i = Some ch"
  shows "ch_id ch = i" and "\<exists>l pr. jm_get (gs_leases g) (ch_backendId ch) = Some l \<and> le_peerSessionId l = ch_backend ch
          \<and> le_epoch l = ch_epoch ch \<and> jm_get (gs_registry g) (ch_backendId ch) = Some pr
          \<and> (\<forall>p. jm_get (gs_peers g) (ch_client ch) = Some p \<longrightarrow> peer_reaches p pr)"
  using inv_parts(6) [OF assms(1)] assms(2) unfolding inv_channels_def by blast+

lemma owner_cong:
  "gs_leases g = gs_leases g' \<Longrightarrow> isCurrentBackendOwner p e g = isCurrentBackendOwner p e g'"
  by (simp only: isCurrentBackendOwner_def)

text \<open>Owning a backend, by the peer's own fields or by its lease, is the same thing.\<close>

lemma inv_owner:
  assumes "gw_inv g" and "jm_get (gs_peers g) i = Some p" and "ps_backendId p = Some b"
  shows "b \<noteq> []" and "isCurrentBackendOwner p None g"
proof -
  obtain l where l: "jm_get (gs_leases g) b = Some l" "le_peerSessionId l = i"
    using inv_peersD(6) [OF assms(1,2,3)] by blast
  with inv_leasesD(2,4) [OF assms(1) l(1)] assms(2,3) inv_peersD(1) [OF assms(1,2)]
  show "b \<noteq> []" and "isCurrentBackendOwner p None g"
    by (auto simp: isCurrentBackendOwner_def)
qed

lemma inv_remove_peer:
  assumes inv: "gw_inv g" and p: "jm_get (gs_peers g) sid = Some p"
    and P: "\<And>i. jm_get (gs_peers g') i = (if i = sid then None else jm_get (gs_peers g) i)"
    and W: "\<And>w. jm_get (gs_wsToPeer g') w = (if w = ps_ws p then None else jm_get (gs_wsToPeer g) w)"
    and T: "\<And>t. jm_get (gw_recoveryTokens g') t = (if t = ps_recoveryToken p then None else jm_get (gw_recoveryTokens g) t)"
    and L: "\<And>b. jm_get (gs_leases g') b = (if ps_backendId p = Some b then None else jm_get (gs_leases g) b)"
    and R: "\<And>b. jm_get (gs_registry g') b = (if ps_backendId p = Some b then None else jm_get (gs_registry g) b)"
    and D: "dropped Q g g'" and Q: "\<And>ch. ps_backendId p = Some (ch_backendId ch) \<Longrightarrow> Q ch"
    and S: "\<And>b x. jm_get (gw_topicSubs g') b = Some x \<Longrightarrow> ps_backendId p \<noteq> Some b \<and> (\<exists>y. jm_get (gw_topicSubs g) b = Some y)"
    and sub: "\<And>b t. set (subscribers b t g') \<subseteq> set (subscribers b t g)"
    and ret: "\<And>b. jm_get (gw_retained g') b = (if ps_backendId p = Some b then None else jm_get (gw_retained g) b)"
    and C: "\<And>w. w \<noteq> ps_ws p \<Longrightarrow> jm_get (gw_conns g') w = jm_get (gw_conns g) w" and IC: "inv_conns g'"
    and ok: "jm_ok (gs_peers g')" "jm_ok (gs_registry g')" "jm_ok (gs_leases g')" "jm_ok (gw_conns g')"
    and st: "st_kept (gw_storage g) (gw_storage g')"
  shows "gw_inv g'"
proof -
  note m = inv_parts(1) [OF inv]
  have others: "ps_ws q \<noteq> ps_ws p" "ps_recoveryToken q \<noteq> ps_recoveryToken p"
    if "jm_get (gs_peers g) i = Some q" "i \<noteq> sid" for i q
    using inv_peersD(4,5) [OF inv that(1)] inv_peersD(4,5) [OF inv p] that(2) by auto
  have "inv_maps g'" using ok droppedD(3,4) [OF D m] by (simp add: inv_maps_def)
  moreover have "inv_peers g'"
    unfolding inv_peers_def
  proof (intro allI impI)
    fix i q assume "jm_get (gs_peers g') i = Some q"
    then have q: "i \<noteq> sid" "jm_get (gs_peers g) i = Some q" by (auto simp: P split: if_splits)
    have "\<exists>l. jm_get (gs_leases g') b = Some l \<and> le_peerSessionId l = i" if b: "ps_backendId q = Some b" for b
    proof -
      obtain l where l: "jm_get (gs_leases g) b = Some l" "le_peerSessionId l = i"
        using inv_peersD(6) [OF inv q(2) b] by blast
      have "ps_backendId p \<noteq> Some b"
      proof
        assume "ps_backendId p = Some b"
        from inv_peersD(6) [OF inv p this] l q(1) show False by auto
      qed
      with l show ?thesis by (simp add: L)
    qed
    with inv_peersD(1-5) [OF inv q(2)] others [OF q(2,1)]
    show "ps_id q = i \<and> i \<noteq> []
       \<and> (\<exists>c. jm_get (gw_conns g') (ps_ws q) = Some c \<and> cn_session c = Some i)
       \<and> jm_get (gw_recoveryTokens g') (ps_recoveryToken q) = Some i
       \<and> jm_get (gs_wsToPeer g') (ps_ws q) = Some i
       \<and> (\<forall>b. ps_backendId q = Some b \<longrightarrow> (\<exists>l. jm_get (gs_leases g') b = Some l \<and> le_peerSessionId l = i))"
      by (simp add: C T W)
  qed
  moreover have "inv_back g'"
  proof -
    have "i \<noteq> sid" if "jm_get (gw_recoveryTokens g) t = Some i" "t \<noteq> ps_recoveryToken p" for t i
      using inv_parts(3) [OF inv] that p unfolding inv_back_def by fastforce
    moreover have "i \<noteq> sid" if "jm_get (gs_wsToPeer g) w = Some i" "w \<noteq> ps_ws p" for w i
      using inv_parts(3) [OF inv] that p unfolding inv_back_def by fastforce
    ultimately show ?thesis
      using inv_parts(3) [OF inv] unfolding inv_back_def by (auto simp: P W T split: if_splits)
  qed
  moreover have "inv_leases g'"
    unfolding inv_leases_def
  proof (intro allI impI)
    fix b l assume "jm_get (gs_leases g') b = Some l"
    then have l: "ps_backendId p \<noteq> Some b" "jm_get (gs_leases g) b = Some l" by (auto simp: L split: if_splits)
    obtain q pr where q: "jm_get (gs_peers g) (le_peerSessionId l) = Some q" "ps_backendId q = Some b"
      "ps_epoch q = Some (le_epoch l)" "jm_get (gs_registry g) b = Some pr" "pr_backendId pr = b"
      "pr_epoch pr = le_epoch l" "pr_namespace pr = ps_namespace q"
      using inv_leasesD(4) [OF inv l(2)] by blast
    then have "le_peerSessionId l \<noteq> sid" using l(1) p by auto
    with q l have "owned_by g' b l" by (simp add: owned_by_def P R)
    with inv_leasesD(1-3) [OF inv l(2)] st
    show "le_backendId l = b \<and> b \<noteq> [] \<and> le_epoch l \<le> st_maxEpoch (gw_storage g') \<and> owned_by g' b l"
      by (simp add: st_kept_def)
  qed
  moreover have "inv_registry g'"
    using inv_parts(5) [OF inv] unfolding inv_registry_def L R by auto
  moreover have "inv_channels g'"
    unfolding inv_channels_def
  proof (intro allI impI)
    fix i ch assume "jm_get (gw_channels g') i = Some ch"
    then have ch: "jm_get (gw_channels g) i = Some ch" "\<not> Q ch"
      using droppedD(1) [OF D m] by (auto split: option.splits if_splits)
    then have "ps_backendId p \<noteq> Some (ch_backendId ch)" using Q by blast
    with inv_channelsD [OF inv ch(1)]
    show "ch_id ch = i \<and> (\<exists>l pr. jm_get (gs_leases g') (ch_backendId ch) = Some l \<and> le_peerSessionId l = ch_backend ch
          \<and> le_epoch l = ch_epoch ch \<and> jm_get (gs_registry g') (ch_backendId ch) = Some pr
          \<and> (\<forall>p. jm_get (gs_peers g') (ch_client ch) = Some p \<longrightarrow> peer_reaches p pr))"
      by (auto simp: L R P)
  qed
  moreover have "inv_tickets g'"
    using inv_dropped_tickets [OF D m inv_parts(7) [OF inv]] .
  moreover have "inv_topics g'"
  proof (rule inv_topicsI)
    note top = inv_topicsD [OF inv_parts(8) [OF inv]]
    show "\<exists>l. jm_get (gs_leases g') b = Some l" if "jm_get (gw_topicSubs g') b = Some x" for b x
      using S [OF that] top(1) by (auto simp: L)
    show "\<exists>l. jm_get (gs_leases g') b = Some l" if "jm_get (gw_retained g') b = Some x" for b x
      using that top(2) [of b x] by (auto simp: L ret split: if_splits)
    show "peer_reaches q pr" if "i \<in> set (subscribers b t g')" "jm_get (gs_peers g') i = Some q"
      "jm_get (gs_registry g') b = Some pr" for b t i q pr
      using that sub [of b t] top(3) [of i b t q pr] by (auto simp: P R split: if_splits)
    show "retained_bounded g'" using top(4) by (auto simp: retained_bounded_def ret split: if_splits)
  qed
  moreover have "inv_storage g'"
    using inv_parts(10) [OF inv] st unfolding inv_storage_def st_kept_def by blast
  ultimately show ?thesis using IC by (simp add: gw_inv_def)
qed

lemmas removal_defs = touch_def registryRemove_def removeBackend_def removeLease_def removeTopicsForBackend_def
  removeTopicSubscriptionsForPeer_def unregisterRecoveryToken_def removePeer_def upd_peer_def

lemma dropped_backend: "chan_ok g \<Longrightarrow> dropped (\<lambda>ch. ch_backendId ch = b) g (closeChannelsForBackend cf b r g)"
  unfolding closeChannelsForBackend_def by (rule dropped_teardown_all)

lemma dropped_peer: "chan_ok g \<Longrightarrow> dropped (channel_of_peer sid) g (closeChannelsForPeer cf sid g)"
  unfolding closeChannelsForPeer_def by (rule dropped_teardown_all)

lemma dropped_chan_ok: "dropped Q g g' \<Longrightarrow> chan_ok g \<Longrightarrow> chan_ok g'"
  by (auto simp: dropped_def chan_ok_def jm_get_filter split: option.splits if_splits)

lemma dropped_to: "dropped Q g h \<Longrightarrow> gw_channels h = gw_channels h' \<Longrightarrow> gw_tickets h = gw_tickets h' \<Longrightarrow> dropped Q g h'"
  by (simp add: dropped_def)

lemma dropped_from: "dropped Q g h \<Longrightarrow> gw_channels g = gw_channels g' \<Longrightarrow> gw_tickets g = gw_tickets g' \<Longrightarrow> dropped Q g' h"
  by (simp add: dropped_def)

text \<open>The state a disconnection leaves, for a peer that owns \<open>b\<close> and for one that owns nothing.\<close>

definition offline :: "config \<Rightarrow> string \<Rightarrow> string \<Rightarrow> int \<Rightarrow> gateway \<Rightarrow> gateway" where
  "offline cf sid b now g =
     touch b now (removeBackend b (broadcastRegistrySnapshot (Some sid)
       (registryRemove b (closeChannelsForBackend cf b ''backend_offline'' g))))"

definition forget_peer :: "config \<Rightarrow> string \<Rightarrow> peer_session \<Rightarrow> gateway \<Rightarrow> gateway" where
  "forget_peer cf sid peer g =
     fst (removePeer sid (unregisterRecoveryToken peer (ws_terminate cf (ps_ws peer) g)))"

lemma disconnect_eq:
  assumes "jm_get (gs_peers g) sid = Some p"
    and "\<And>b. ps_backendId p = Some b \<Longrightarrow> b \<noteq> [] \<and> isCurrentBackendOwner p None g"
  shows "handlePeerDisconnect cf sid now g =
     (case ps_backendId p of
        None \<Rightarrow> forget_peer cf sid p (removeTopicSubscriptionsForPeer sid (closeChannelsForPeer cf sid g))
      | Some b \<Rightarrow> forget_peer cf sid p (removeTopicsForBackend b (removeTopicSubscriptionsForPeer sid
                   (closeChannelsForPeer cf sid (offline cf sid b now g)))))"
  using assms by (auto simp: handlePeerDisconnect_def offline_def forget_peer_def Let_def split: option.split)

lemma offline_fields [simp]:
  "gs_peers (offline cf sid b now g) = gs_peers g" "gs_wsToPeer (offline cf sid b now g) = gs_wsToPeer g"
  "gs_registry (offline cf sid b now g) = jm_del b (gs_registry g)"
  "gs_leases (offline cf sid b now g) = jm_del b (gs_leases g)"
  "gw_recoveryTokens (offline cf sid b now g) = gw_recoveryTokens g"
  "gw_topicSubs (offline cf sid b now g) = gw_topicSubs g" "gw_retained (offline cf sid b now g) = gw_retained g"
  "gw_conns (offline cf sid b now g) = gw_conns g" "gw_wsPerIp (offline cf sid b now g) = gw_wsPerIp g"
  "gw_storage (offline cf sid b now g) = touchBackendIdentity b None None now (gw_storage g)"
  by (simp_all add: offline_def removal_defs closeChannelsForBackend_def)

lemma dropped_offline: "chan_ok g \<Longrightarrow> dropped (\<lambda>ch. ch_backendId ch = b) g (offline cf sid b now g)"
  by (rule dropped_to [OF dropped_backend [where cf = cf and r = "''backend_offline''"]])
     (simp_all add: offline_def removal_defs)

lemma forget_fields:
  assumes "jm_get (gs_peers g) sid = Some p"
  shows "gs_peers (forget_peer cf sid p g) = jm_del sid (gs_peers g)"
    "gs_wsToPeer (forget_peer cf sid p g) = jm_del (ps_ws p) (gs_wsToPeer g)"
    "gw_recoveryTokens (forget_peer cf sid p g) = jm_del (ps_recoveryToken p) (gw_recoveryTokens g)"
    "gs_registry (forget_peer cf sid p g) = gs_registry g" "gs_leases (forget_peer cf sid p g) = gs_leases g"
    "gw_topicSubs (forget_peer cf sid p g) = gw_topicSubs g" "gw_retained (forget_peer cf sid p g) = gw_retained g"
    "gw_conns (forget_peer cf sid p g) = gw_conns g" "gw_wsPerIp (forget_peer cf sid p g) = gw_wsPerIp g"
    "gw_storage (forget_peer cf sid p g) = gw_storage g"
    "gw_channels (forget_peer cf sid p g) = gw_channels g" "gw_tickets (forget_peer cf sid p g) = gw_tickets g"
  using assms by (simp_all add: forget_peer_def removal_defs)

lemma closePeer_fields [simp]:
  "gs_peers (closeChannelsForPeer cf sid g) = gs_peers g" "gs_wsToPeer (closeChannelsForPeer cf sid g) = gs_wsToPeer g"
  "gs_registry (closeChannelsForPeer cf sid g) = gs_registry g" "gs_leases (closeChannelsForPeer cf sid g) = gs_leases g"
  "gw_recoveryTokens (closeChannelsForPeer cf sid g) = gw_recoveryTokens g"
  "gw_topicSubs (closeChannelsForPeer cf sid g) = gw_topicSubs g" "gw_retained (closeChannelsForPeer cf sid g) = gw_retained g"
  "gw_conns (closeChannelsForPeer cf sid g) = gw_conns g" "gw_wsPerIp (closeChannelsForPeer cf sid g) = gw_wsPerIp g"
  "gw_storage (closeChannelsForPeer cf sid g) = gw_storage g"
  by (simp_all add: closeChannelsForPeer_def)

lemma removeTopics_fields [simp]:
  "gs_peers (removeTopicSubscriptionsForPeer sid g) = gs_peers g" "gs_wsToPeer (removeTopicSubscriptionsForPeer sid g) = gs_wsToPeer g"
  "gs_registry (removeTopicSubscriptionsForPeer sid g) = gs_registry g" "gs_leases (removeTopicSubscriptionsForPeer sid g) = gs_leases g"
  "gw_recoveryTokens (removeTopicSubscriptionsForPeer sid g) = gw_recoveryTokens g"
  "gw_channels (removeTopicSubscriptionsForPeer sid g) = gw_channels g" "gw_tickets (removeTopicSubscriptionsForPeer sid g) = gw_tickets g"
  "gw_retained (removeTopicSubscriptionsForPeer sid g) = gw_retained g"
  "gw_conns (removeTopicSubscriptionsForPeer sid g) = gw_conns g" "gw_wsPerIp (removeTopicSubscriptionsForPeer sid g) = gw_wsPerIp g"
  "gw_storage (removeTopicSubscriptionsForPeer sid g) = gw_storage g"
  "gs_peers (removeTopicsForBackend b g) = gs_peers g" "gs_wsToPeer (removeTopicsForBackend b g) = gs_wsToPeer g"
  "gs_registry (removeTopicsForBackend b g) = gs_registry g" "gs_leases (removeTopicsForBackend b g) = gs_leases g"
  "gw_recoveryTokens (removeTopicsForBackend b g) = gw_recoveryTokens g"
  "gw_channels (removeTopicsForBackend b g) = gw_channels g" "gw_tickets (removeTopicsForBackend b g) = gw_tickets g"
  "gw_conns (removeTopicsForBackend b g) = gw_conns g" "gw_wsPerIp (removeTopicsForBackend b g) = gw_wsPerIp g"
  "gw_storage (removeTopicsForBackend b g) = gw_storage g"
  "gw_topicSubs (removeTopicsForBackend b g) = jm_del b (gw_topicSubs g)"
  "gw_retained (removeTopicsForBackend b g) = jm_del b (gw_retained g)"
  "jm_get (gw_topicSubs (removeTopicSubscriptionsForPeer sid g)) b' = None \<longleftrightarrow> jm_get (gw_topicSubs g) b' = None"
  by (simp_all add: removeTopicSubscriptionsForPeer_def removeTopicsForBackend_def jm_get_map)

lemma subscribers_subs: "gw_topicSubs g = gw_topicSubs g' \<Longrightarrow> subscribers b t g = subscribers b t g'"
  by (simp add: subscribers_def)

lemma disconnect_fields:
  assumes "chan_ok g" and p: "jm_get (gs_peers g) sid = Some p"
    and own: "\<forall>b. ps_backendId p = Some b \<longrightarrow> b \<noteq> [] \<and> isCurrentBackendOwner p None g"
  shows "gs_peers (handlePeerDisconnect cf sid now g) = jm_del sid (gs_peers g)"
    and "gs_wsToPeer (handlePeerDisconnect cf sid now g) = jm_del (ps_ws p) (gs_wsToPeer g)"
    and "gw_recoveryTokens (handlePeerDisconnect cf sid now g) = jm_del (ps_recoveryToken p) (gw_recoveryTokens g)"
    and "gs_leases (handlePeerDisconnect cf sid now g) =
           (case ps_backendId p of None \<Rightarrow> gs_leases g | Some b \<Rightarrow> jm_del b (gs_leases g))"
    and "gs_registry (handlePeerDisconnect cf sid now g) =
           (case ps_backendId p of None \<Rightarrow> gs_registry g | Some b \<Rightarrow> jm_del b (gs_registry g))"
    and "gw_retained (handlePeerDisconnect cf sid now g) =
           (case ps_backendId p of None \<Rightarrow> gw_retained g | Some b \<Rightarrow> jm_del b (gw_retained g))"
    and "jm_get (gw_topicSubs (handlePeerDisconnect cf sid now g)) c = None \<longleftrightarrow>
           jm_get (gw_topicSubs g) c = None \<or> ps_backendId p = Some c"
    and "subscribers c t (handlePeerDisconnect cf sid now g) =
           (if ps_backendId p = Some c then [] else filter (\<lambda>s. s \<noteq> sid) (subscribers c t g))"
    and "gw_conns (handlePeerDisconnect cf sid now g) = gw_conns g"
    and "gw_wsPerIp (handlePeerDisconnect cf sid now g) = gw_wsPerIp g"
    and "gw_storage (handlePeerDisconnect cf sid now g) =
           (case ps_backendId p of None \<Rightarrow> gw_storage g | Some b \<Rightarrow> touchBackendIdentity b None None now (gw_storage g))"
    and "dropped (\<lambda>ch. ps_backendId p = Some (ch_backendId ch) \<or> channel_of_peer sid ch) g
           (handlePeerDisconnect cf sid now g)"
proof -
  let ?h = "handlePeerDisconnect cf sid now g"
  have eq: "?h = (case ps_backendId p of
        None \<Rightarrow> forget_peer cf sid p (removeTopicSubscriptionsForPeer sid (closeChannelsForPeer cf sid g))
      | Some b \<Rightarrow> forget_peer cf sid p (removeTopicsForBackend b (removeTopicSubscriptionsForPeer sid
                   (closeChannelsForPeer cf sid (offline cf sid b now g)))))"
    by (rule disconnect_eq [OF p]) (rule own [rule_format])
  show "gs_peers ?h = jm_del sid (gs_peers g)" "gs_wsToPeer ?h = jm_del (ps_ws p) (gs_wsToPeer g)"
    "gw_recoveryTokens ?h = jm_del (ps_recoveryToken p) (gw_recoveryTokens g)"
    "gs_leases ?h = (case ps_backendId p of None \<Rightarrow> gs_leases g | Some b \<Rightarrow> jm_del b (gs_leases g))"
    "gs_registry ?h = (case ps_backendId p of None \<Rightarrow> gs_registry g | Some b \<Rightarrow> jm_del b (gs_registry g))"
    "gw_retained ?h = (case ps_backendId p of None \<Rightarrow> gw_retained g | Some b \<Rightarrow> jm_del b (gw_retained g))"
    "gw_conns ?h = gw_conns g" "gw_wsPerIp ?h = gw_wsPerIp g"
    "gw_storage ?h = (case ps_backendId p of None \<Rightarrow> gw_storage g | Some b \<Rightarrow> touchBackendIdentity b None None now (gw_storage g))"
    using p by (auto simp: eq forget_fields split: option.split)
  show "jm_get (gw_topicSubs ?h) c = None \<longleftrightarrow> jm_get (gw_topicSubs g) c = None \<or> ps_backendId p = Some c"
    using p by (auto simp: eq forget_fields split: option.split)
  have subs: "subscribers c t (forget_peer cf sid p k) = subscribers c t k"
    if "jm_get (gs_peers k) sid = Some p" for k
    by (rule subscribers_subs) (simp add: forget_fields that)
  have subs': "subscribers c t (closeChannelsForPeer cf sid k) = subscribers c t k"
    "subscribers c t (offline cf sid b now k) = subscribers c t k" for k b
    by (rule subscribers_subs, simp)+
  show "subscribers c t ?h =
      (if ps_backendId p = Some c then [] else filter (\<lambda>s. s \<noteq> sid) (subscribers c t g))"
    using p by (auto simp: eq subs subs' subscribers_drop subscribers_remove split: option.split)
  show "dropped (\<lambda>ch. ps_backendId p = Some (ch_backendId ch) \<or> channel_of_peer sid ch) g ?h"
  proof (cases "ps_backendId p")
    case None
    have "dropped (channel_of_peer sid) g ?h"
      by (rule dropped_to [OF dropped_peer [OF assms(1), where cf = cf]])
         (use p None in \<open>simp_all add: eq forget_fields\<close>)
    with None show ?thesis by simp
  next
    case (Some b)
    let ?o = "offline cf sid b now g"
    have o': "dropped (\<lambda>ch. ch_backendId ch = b) g ?o" using assms(1) by (rule dropped_offline)
    have "dropped (channel_of_peer sid) ?o ?h"
      by (rule dropped_to [OF dropped_peer [OF dropped_chan_ok [OF o' assms(1)], where cf = cf]])
         (use p Some in \<open>simp_all add: eq forget_fields\<close>)
    from dropped_trans [OF o' this] assms(1)
    have "dropped (\<lambda>ch. ch_backendId ch = b \<or> channel_of_peer sid ch) g ?h"
      by (simp add: chan_ok_def)
    with Some show ?thesis by (simp add: eq_commute)
  qed
qed

text \<open>
  Disconnecting a peer, either with its connection still there (a ping timeout) or already gone (its
  socket closed): \<open>k\<close> is the state the handler starts from, \<open>g\<close> the last good one.
\<close>

lemma inv_disconnect_from:
  assumes inv: "gw_inv g" and p: "jm_get (gs_peers g) sid = Some p"
    and k: "k = g\<lparr>gw_conns := cs, gw_wsPerIp := ips\<rparr>"
    and C: "\<And>w. w \<noteq> ps_ws p \<Longrightarrow> jm_get cs w = jm_get (gw_conns g) w" and "jm_ok cs" and "inv_conns k"
  shows "gw_inv (handlePeerDisconnect cf sid now k)"
proof -
  let ?h = "handlePeerDisconnect cf sid now k"
  have own: "\<forall>b. ps_backendId p = Some b \<longrightarrow> b \<noteq> [] \<and> isCurrentBackendOwner p None k"
    using inv_owner [OF inv p] owner_cong [of k g p None] by (simp add: k)
  have "chan_ok k" using inv_chan_ok [OF inv] by (simp add: k chan_ok_def)
  moreover have "jm_get (gs_peers k) sid = Some p" using p by (simp add: k)
  ultimately have f: "chan_ok k" "jm_get (gs_peers k) sid = Some p" by blast+
  note f = disconnect_fields [OF f own]
  note m = inv_parts(1) [OF inv, unfolded inv_maps_def]
  have kf: "gs_peers k = gs_peers g" "gs_wsToPeer k = gs_wsToPeer g" "gs_registry k = gs_registry g"
    "gs_leases k = gs_leases g" "gw_recoveryTokens k = gw_recoveryTokens g" "gw_retained k = gw_retained g"
    "gw_conns k = cs"
    by (simp_all add: k)
  show ?thesis
  proof (rule inv_remove_peer [OF inv p])
    show "dropped (\<lambda>ch. ps_backendId p = Some (ch_backendId ch) \<or> channel_of_peer sid ch) g ?h"
      by (rule dropped_from [OF f(12)]) (simp_all add: k)
    show "ps_backendId p \<noteq> Some b \<and> (\<exists>y. jm_get (gw_topicSubs g) b = Some y)"
      if "jm_get (gw_topicSubs ?h) b = Some x" for b x
    proof -
      have "jm_get (gw_topicSubs ?h) b \<noteq> None" using that by simp
      then show ?thesis unfolding f(7) by (auto simp: k)
    qed
    show "set (subscribers b t ?h) \<subseteq> set (subscribers b t g)" for b t
      unfolding f(8) by (auto simp: k subscribers_def)
    show "inv_conns ?h" using assms(6) f(9,10) by (simp add: inv_conns_def conns_of_def)
    show "st_kept (gw_storage g) (gw_storage ?h)"
      unfolding f(11) by (simp add: k st_kept_ops split: option.split)
  qed (use m C assms(5) in \<open>auto simp: f kf split: option.splits\<close>)
qed

lemma inv_disconnect: "gw_inv g \<Longrightarrow> gw_inv (handlePeerDisconnect cf sid now g)"
proof (cases "jm_get (gs_peers g) sid")
  case (Some p)
  assume g: "gw_inv g"
  have "g = g\<lparr>gw_conns := gw_conns g, gw_wsPerIp := gw_wsPerIp g\<rparr>" by simp
  from inv_disconnect_from [OF g Some this] g show ?thesis
    by (simp add: gw_inv_def inv_maps_def)
qed (simp add: handlePeerDisconnect_def)

lemma expired_eq:
  assumes "jm_get (gs_leases g) b = Some l" and "jm_get (gs_peers g) (le_peerSessionId l) = Some p"
    and "ps_id p = le_peerSessionId l"
  shows "handleBackendLeaseExpired cf b now g =
    forget_peer cf (ps_id p) p (upd_peer (ps_id p) unown
      (touch b now (removeBackend b (broadcastRegistrySnapshot None (registryRemove b
        (removeTopicsForBackend b (closeChannelsForBackend cf b ''backend_offline'' g)))))))"
  using assms
  by (simp add: handleBackendLeaseExpired_def forget_peer_def Let_def)

lemma closeBackend_fields [simp]:
  "gs_peers (closeChannelsForBackend cf b r g) = gs_peers g" "gs_wsToPeer (closeChannelsForBackend cf b r g) = gs_wsToPeer g"
  "gs_registry (closeChannelsForBackend cf b r g) = gs_registry g" "gs_leases (closeChannelsForBackend cf b r g) = gs_leases g"
  "gw_recoveryTokens (closeChannelsForBackend cf b r g) = gw_recoveryTokens g"
  "gw_topicSubs (closeChannelsForBackend cf b r g) = gw_topicSubs g" "gw_retained (closeChannelsForBackend cf b r g) = gw_retained g"
  "gw_conns (closeChannelsForBackend cf b r g) = gw_conns g" "gw_wsPerIp (closeChannelsForBackend cf b r g) = gw_wsPerIp g"
  "gw_storage (closeChannelsForBackend cf b r g) = gw_storage g"
  by (simp_all add: closeChannelsForBackend_def)

definition expired :: "config \<Rightarrow> string \<Rightarrow> int \<Rightarrow> string \<Rightarrow> gateway \<Rightarrow> gateway" where
  "expired cf b now sid g = upd_peer sid unown
      (touch b now (removeBackend b (broadcastRegistrySnapshot None (registryRemove b
        (removeTopicsForBackend b (closeChannelsForBackend cf b ''backend_offline'' g))))))"

lemma expired_fields [simp]:
  "gs_peers (expired cf b now sid g) = jm_upd sid unown (gs_peers g)"
  "gs_wsToPeer (expired cf b now sid g) = gs_wsToPeer g"
  "gs_registry (expired cf b now sid g) = jm_del b (gs_registry g)"
  "gs_leases (expired cf b now sid g) = jm_del b (gs_leases g)"
  "gw_recoveryTokens (expired cf b now sid g) = gw_recoveryTokens g"
  "gw_topicSubs (expired cf b now sid g) = jm_del b (gw_topicSubs g)"
  "gw_retained (expired cf b now sid g) = jm_del b (gw_retained g)"
  "gw_conns (expired cf b now sid g) = gw_conns g" "gw_wsPerIp (expired cf b now sid g) = gw_wsPerIp g"
  "gw_storage (expired cf b now sid g) = touchBackendIdentity b None None now (gw_storage g)"
  "gw_channels (expired cf b now sid g) = gw_channels (closeChannelsForBackend cf b ''backend_offline'' g)"
  "gw_tickets (expired cf b now sid g) = gw_tickets (closeChannelsForBackend cf b ''backend_offline'' g)"
  by (simp_all add: expired_def upd_peer_def touch_def removeLease_def removeBackend_def registryRemove_def)

lemma forget_removes:
  assumes "jm_get (gs_peers g) sid = Some q" and "ps_ws q = ps_ws p"
  shows "gs_peers (forget_peer cf sid p g) = jm_del sid (gs_peers g)"
    "gs_wsToPeer (forget_peer cf sid p g) = jm_del (ps_ws p) (gs_wsToPeer g)"
    "gw_recoveryTokens (forget_peer cf sid p g) = jm_del (ps_recoveryToken p) (gw_recoveryTokens g)"
    "gs_registry (forget_peer cf sid p g) = gs_registry g" "gs_leases (forget_peer cf sid p g) = gs_leases g"
    "gw_topicSubs (forget_peer cf sid p g) = gw_topicSubs g" "gw_retained (forget_peer cf sid p g) = gw_retained g"
    "gw_conns (forget_peer cf sid p g) = gw_conns g" "gw_wsPerIp (forget_peer cf sid p g) = gw_wsPerIp g"
    "gw_storage (forget_peer cf sid p g) = gw_storage g"
    "gw_channels (forget_peer cf sid p g) = gw_channels g" "gw_tickets (forget_peer cf sid p g) = gw_tickets g"
  using assms by (simp_all add: forget_peer_def removal_defs)

lemma inv_expired:
  assumes inv: "gw_inv g" shows "gw_inv (handleBackendLeaseExpired cf b now g)"
proof (cases "jm_get (gs_leases g) b")
  case None
  with inv show ?thesis by (simp add: handleBackendLeaseExpired_def)
next
  case (Some l)
  obtain p where p: "jm_get (gs_peers g) (le_peerSessionId l) = Some p" "ps_backendId p = Some b"
    using inv_leasesD(4) [OF inv Some] by blast
  note pid = inv_peersD(1) [OF inv p(1)]
  let ?sid = "le_peerSessionId l"
  have eq: "handleBackendLeaseExpired cf b now g = forget_peer cf ?sid p (expired cf b now ?sid g)"
    using expired_eq [OF Some p(1) pid, of cf now] by (simp add: pid expired_def)
  have up: "jm_get (gs_peers (expired cf b now ?sid g)) ?sid = Some (unown p)" "ps_ws (unown p) = ps_ws p"
    using p(1) by (simp_all add: unown_def)
  note f = forget_removes [OF up, where cf = cf]
  note m = inv_parts(1) [OF inv, unfolded inv_maps_def]
  show ?thesis
    unfolding eq
  proof (rule inv_remove_peer [OF inv p(1)])
    show "dropped (\<lambda>ch. ch_backendId ch = b) g (forget_peer cf ?sid p (expired cf b now ?sid g))"
      by (rule dropped_to [OF dropped_backend [OF inv_chan_ok [OF inv], where cf = cf and r = "''backend_offline''"]])
         (simp_all add: f)
    show "set (subscribers c t (forget_peer cf ?sid p (expired cf b now ?sid g))) \<subseteq> set (subscribers c t g)" for c t
      by (auto simp: subscribers_def f)
    show "inv_conns (forget_peer cf ?sid p (expired cf b now ?sid g))"
      using inv_parts(9) [OF inv] by (simp add: inv_conns_def conns_of_def f)
    show "st_kept (gw_storage g) (gw_storage (forget_peer cf ?sid p (expired cf b now ?sid g)))"
      by (simp add: f st_kept_ops)
  qed (use m p(2) in \<open>auto simp: f split: if_splits\<close>)
qed

section \<open>Connections\<close>

lemma inv_conns_frame [simp]:
  "inv_back (g\<lparr>gw_conns := x\<rparr>) = inv_back g" "inv_leases (g\<lparr>gw_conns := x\<rparr>) = inv_leases g"
  "inv_registry (g\<lparr>gw_conns := x\<rparr>) = inv_registry g" "inv_channels (g\<lparr>gw_conns := x\<rparr>) = inv_channels g"
  "inv_tickets (g\<lparr>gw_conns := x\<rparr>) = inv_tickets g" "inv_topics (g\<lparr>gw_conns := x\<rparr>) = inv_topics g"
  "inv_storage (g\<lparr>gw_conns := x\<rparr>) = inv_storage g"
  "inv_back (g\<lparr>gw_wsPerIp := y\<rparr>) = inv_back g" "inv_leases (g\<lparr>gw_wsPerIp := y\<rparr>) = inv_leases g"
  "inv_registry (g\<lparr>gw_wsPerIp := y\<rparr>) = inv_registry g" "inv_channels (g\<lparr>gw_wsPerIp := y\<rparr>) = inv_channels g"
  "inv_tickets (g\<lparr>gw_wsPerIp := y\<rparr>) = inv_tickets g" "inv_topics (g\<lparr>gw_wsPerIp := y\<rparr>) = inv_topics g"
  "inv_storage (g\<lparr>gw_wsPerIp := y\<rparr>) = inv_storage g" "inv_peers (g\<lparr>gw_wsPerIp := y\<rparr>) = inv_peers g"
  "inv_maps (g\<lparr>gw_wsPerIp := y\<rparr>) = inv_maps g"
  by (simp_all add: inv_defs subscribers_def retained_bounded_def)

lemma inv_connection:
  assumes inv: "gw_inv g" and fresh: "jm_get (gw_conns g) w = None"
  shows "gw_inv (ws_connection cf w ip now g)"
proof -
  have count: "or_else (jm_get (gw_wsPerIp g) x) 0 = conns_of x g" "conns_of x g \<le> MAX_WS_CONNECTIONS_PER_IP" for x
    using inv_parts(9) [OF inv] by (simp_all add: inv_conns_def)
  show ?thesis
  proof (cases "conns_of ip g < MAX_WS_CONNECTIONS_PER_IP")
    case False
    with inv count show ?thesis by (simp add: ws_connection_def)
  next
    case True
    define c where "c = \<lparr>cn_ip = ip, cn_session = None, cn_authAt = Some (now + cf_authTimeoutMs cf)\<rparr>"
    define h where "h = g\<lparr>gw_wsPerIp := jm_set ip (conns_of ip g + 1) (gw_wsPerIp g), gw_conns := jm_set w c (gw_conns g)\<rparr>"
    have eq: "ws_connection cf w ip now g = h"
      using True by (simp add: ws_connection_def count h_def c_def)
    have "conns_of x h = conns_of x g + (if x = ip then 1 else 0)" for x
      by (simp add: conns_of_def h_def jm_set_absent [OF fresh] c_def)
    moreover have "or_else (jm_get (gw_wsPerIp h) x) 0 = or_else (jm_get (gw_wsPerIp g) x) 0 + (if x = ip then 1 else 0)" for x
      using count(1) [of ip] by (simp add: h_def)
    ultimately have "inv_conns h" using count True by (auto simp: inv_conns_def)
    moreover have "inv_peers h"
      using inv_parts(2) [OF inv] fresh unfolding inv_peers_def by (fastforce simp: h_def)
    moreover have "inv_maps h" using inv_parts(1) [OF inv] by (simp add: inv_maps_def h_def)
    ultimately show ?thesis using inv unfolding eq by (simp add: gw_inv_def h_def)
  qed
qed

lemma conns_of_upd:
  "(\<And>c. cn_ip (f c) = cn_ip c) \<Longrightarrow> conns_of ip (g\<lparr>gw_conns := jm_upd w f (gw_conns g)\<rparr>) = conns_of ip g"
  unfolding conns_of_def jm_upd_def
  by (induction "gw_conns g" arbitrary: g) (auto simp: filter_map comp_def split_def if_distrib [where f = cn_ip])

lemma inv_upd_authAt:
  assumes inv: "gw_inv g" shows "gw_inv (upd_conn w (\<lambda>c. c\<lparr>cn_authAt := t\<rparr>) g)"
proof -
  let ?h = "upd_conn w (\<lambda>c. c\<lparr>cn_authAt := t\<rparr>) g"
  have "inv_conns ?h"
    using inv_parts(9) [OF inv] by (simp add: inv_conns_def upd_conn_def conns_of_upd)
  moreover have "inv_peers ?h"
    using inv_parts(2) [OF inv] unfolding inv_peers_def upd_conn_def by (fastforce split: if_splits)
  moreover have "inv_maps ?h" using inv_parts(1) [OF inv] by (simp add: inv_maps_def upd_conn_def)
  ultimately show ?thesis using inv by (simp add: gw_inv_def upd_conn_def)
qed

lemma inv_auth_timeout: "gw_inv g \<Longrightarrow> gw_inv (auth_timeout cf w now g)"
  by (auto simp: auth_timeout_def Let_def inv_upd_authAt split: option.split)

lemma inv_pong: "gw_inv g \<Longrightarrow> gw_inv (ws_pong w g)"
  by (auto simp: ws_pong_def inv_alive split: option.split)

lemma inv_ws_closed:
  assumes inv: "gw_inv g" shows "gw_inv (ws_closed cf w now g)"
proof (cases "jm_get (gw_conns g) w")
  case None
  with inv show ?thesis by (simp add: ws_closed_def)
next
  case (Some c)
  have count: "or_else (jm_get (gw_wsPerIp g) x) 0 = conns_of x g" "conns_of x g \<le> MAX_WS_CONNECTIONS_PER_IP" for x
    using inv_parts(9) [OF inv] by (simp_all add: inv_conns_def)
  have cok: "jm_ok (gw_conns g)" using inv_parts(1) [OF inv] by (simp add: inv_maps_def)
  have less: "conns_of x g = conns_of x (g\<lparr>gw_conns := jm_del w (gw_conns g)\<rparr>) + (if cn_ip c = x then 1 else 0)" for x
    using filter_jm_del [OF cok Some, of "\<lambda>c. cn_ip c = x"] by (simp add: conns_of_def)
  define n where "n = conns_of (cn_ip c) g"
  have n: "1 \<le> n" "jm_get (gw_wsPerIp g) (cn_ip c) = Some n"
    using less [of "cn_ip c"] count(1) [of "cn_ip c"]
    by (auto simp: n_def or_else_def split: option.splits)
  define k where "k = g\<lparr>gw_conns := jm_del w (gw_conns g),
      gw_wsPerIp := (if n \<le> 1 then jm_del (cn_ip c) (gw_wsPerIp g) else jm_set (cn_ip c) (n - 1) (gw_wsPerIp g))\<rparr>"
  have eq: "ws_closed cf w now g = (case cn_session c of None \<Rightarrow> k | Some sid \<Rightarrow> handlePeerDisconnect cf sid now k)"
    unfolding ws_closed_def k_def using Some n by (simp add: Let_def)
  have kc: "conns_of x k = conns_of x (g\<lparr>gw_conns := jm_del w (gw_conns g)\<rparr>)" for x
    by (simp add: conns_of_def k_def)
  have ki: "or_else (jm_get (gw_wsPerIp k) x) 0 = conns_of x k" for x
  proof (cases "x = cn_ip c")
    case True
    then have "conns_of x k = n - 1" using less [of "cn_ip c"] by (simp add: kc n_def)
    with True n show ?thesis by (simp add: k_def)
  next
    case False
    then have "jm_get (gw_wsPerIp k) x = jm_get (gw_wsPerIp g) x" by (simp add: k_def)
    with False less [of x] count(1) [of x] show ?thesis by (simp add: kc)
  qed
  moreover have "conns_of x k \<le> MAX_WS_CONNECTIONS_PER_IP" for x
    using less [of x] count(2) [of x] by (simp add: kc)
  ultimately have ic: "inv_conns k" by (simp add: inv_conns_def)
  have plain: "gw_inv k" if no: "\<And>i p. jm_get (gs_peers g) i = Some p \<Longrightarrow> ps_ws p \<noteq> w"
  proof -
    have "inv_peers k"
      using inv_parts(2) [OF inv] no unfolding inv_peers_def by (fastforce simp: k_def)
    moreover have "inv_maps k" using inv_parts(1) [OF inv] by (simp add: inv_maps_def k_def)
    ultimately show ?thesis using inv ic by (simp add: gw_inv_def k_def)
  qed
  have owner: "cn_session c = Some i" if "jm_get (gs_peers g) i = Some p" "ps_ws p = w" for i p
    using inv_peersD(3) [OF inv that(1)] that(2) Some by simp
  show ?thesis
  proof (cases "cn_session c")
    case None
    with owner plain show ?thesis unfolding eq by fastforce
  next
    case s: (Some sid)
    show ?thesis
    proof (cases "jm_get (gs_peers g) sid")
      case None
      then have "gw_inv k" using owner s by (intro plain) fastforce
      with s None show ?thesis unfolding eq by (simp add: inv_disconnect)
    next
      case p: (Some p)
      show ?thesis
      proof (cases "ps_ws p = w")
        case True
        have "gw_inv (handlePeerDisconnect cf sid now k)"
          by (rule inv_disconnect_from [OF inv p k_def]) (use True cok ic in \<open>auto\<close>)
        with s show ?thesis unfolding eq by simp
      next
        case False
        then have "gw_inv k" using owner s p by (intro plain) fastforce
        with s show ?thesis unfolding eq by (simp add: inv_disconnect)
      qed
    qed
  qed
qed

section \<open>Timers\<close>

lemma inv_ping_peers: "gw_inv g \<Longrightarrow> gw_inv (ping_peers cf now sids g)"
  by (induction cf now sids g rule: ping_peers.induct)
     (auto simp: inv_disconnect inv_alive split: option.split)

lemma inv_ping: "gw_inv g \<Longrightarrow> gw_inv (pingInterval cf now g)"
  by (simp add: pingInterval_def inv_ping_peers)

lemma inv_expire_leases: "gw_inv g \<Longrightarrow> gw_inv (expire_leases cf now bs g)"
  by (induction cf now bs g rule: expire_leases.induct)
     (auto simp: inv_expired split: option.split)

lemma inv_lease_check: "gw_inv g \<Longrightarrow> gw_inv (leaseCheckInterval cf now g)"
  by (simp add: leaseCheckInterval_def inv_expire_leases)

lemma inv_poll: "gw_inv g \<Longrightarrow> gw_inv (registryPollInterval g)"
  by (simp add: registryPollInterval_def)

end
