(* ===== verification/Gw_Hello_Invariant.thy ===== *)
theory Gw_Hello_Invariant
  imports Gw_Invariant
begin

text \<open>
  The handshake keeps the server's invariant, a takeover of a backend included: the new session, its
  lease and its presence are added, the previous owner loses the backend, and the channels and topics
  of the previous epoch go.
\<close>

section \<open>Adding a peer\<close>

definition takes :: "peer_session \<Rightarrow> string \<Rightarrow> bool" where
  "takes q b \<longleftrightarrow> ps_backendId q = Some b"

definition ousted :: "peer_session \<Rightarrow> peer_session \<Rightarrow> peer_session" where
  "ousted q p = (if ps_backendId q \<noteq> None \<and> ps_backendId p = ps_backendId q then unown p else p)"

lemma ousted_fields [simp]:
  "ps_id (ousted q p) = ps_id p" "ps_ws (ousted q p) = ps_ws p"
  "ps_recoveryToken (ousted q p) = ps_recoveryToken p" "ps_namespace (ousted q p) = ps_namespace p"
  "peer_reaches (ousted q p) pr = peer_reaches p pr"
  by (simp_all add: ousted_def unown_def peer_reaches_def)

lemma ousted_backend: "ps_backendId (ousted q p) = Some b \<longleftrightarrow> ps_backendId p = Some b \<and> \<not> takes q b"
  by (auto simp: ousted_def unown_def takes_def)

lemma ousted_epoch: "\<not> takes q b \<Longrightarrow> ps_backendId p = Some b \<Longrightarrow> ousted q p = p"
  by (auto simp: ousted_def takes_def)

definition mentions :: "string \<Rightarrow> gateway \<Rightarrow> bool" where
  "mentions sid g \<longleftrightarrow> jm_get (gs_peers g) sid \<noteq> None
     \<or> (\<exists>i ch. jm_get (gw_channels g) i = Some ch \<and> ch_client ch = sid)
     \<or> (\<exists>b t. sid \<in> set (subscribers b t g))"

lemma inv_add_peer:
  assumes inv: "gw_inv g" and q: "ps_id q = sid" "sid \<noteq> []" "\<not> mentions sid g"
    and tok: "jm_get (gw_recoveryTokens g) (ps_recoveryToken q) = None"
    and wsn: "\<And>i p. jm_get (gs_peers g) i = Some p \<Longrightarrow> ps_ws p \<noteq> ps_ws q"
    and P: "\<And>i. jm_get (gs_peers g') i = (if i = sid then Some q else map_option (ousted q) (jm_get (gs_peers g) i))"
    and W: "\<And>w. jm_get (gs_wsToPeer g') w = (if w = ps_ws q then Some sid else jm_get (gs_wsToPeer g) w)"
    and T: "\<And>t. jm_get (gw_recoveryTokens g') t = (if t = ps_recoveryToken q then Some sid else jm_get (gw_recoveryTokens g) t)"
    and L: "\<And>b. jm_get (gs_leases g') b = (if takes q b then Some l else jm_get (gs_leases g) b)"
    and l: "\<And>b. takes q b \<Longrightarrow> b \<noteq> [] \<and> le_backendId l = b \<and> le_peerSessionId l = sid \<and> ps_epoch q = Some (le_epoch l)
              \<and> le_epoch l \<le> st_maxEpoch (gw_storage g')"
    and R: "\<And>b. jm_get (gs_registry g') b = (if takes q b then Some pr else jm_get (gs_registry g) b)"
    and pr: "\<And>b. takes q b \<Longrightarrow> pr_backendId pr = b \<and> pr_epoch pr = le_epoch l \<and> pr_namespace pr = ps_namespace q"
    and D: "dropped (\<lambda>ch. takes q (ch_backendId ch)) g g'"
    and S: "\<And>b x. jm_get (gw_topicSubs g') b = Some x \<Longrightarrow> \<not> takes q b \<and> (\<exists>y. jm_get (gw_topicSubs g) b = Some y)"
    and sub: "\<And>b t. set (subscribers b t g') \<subseteq> set (subscribers b t g)"
    and nosub: "\<And>b t. takes q b \<Longrightarrow> subscribers b t g' = []"
    and ret: "\<And>b. jm_get (gw_retained g') b = (if takes q b then None else jm_get (gw_retained g) b)"
    and C: "\<And>w. w \<noteq> ps_ws q \<Longrightarrow> jm_get (gw_conns g') w = jm_get (gw_conns g) w"
    and C': "\<exists>c. jm_get (gw_conns g') (ps_ws q) = Some c \<and> cn_session c = Some sid" and IC: "inv_conns g'"
    and ok: "jm_ok (gs_peers g')" "jm_ok (gs_registry g')" "jm_ok (gs_leases g')" "jm_ok (gw_conns g')"
    and st: "st_kept (gw_storage g) (gw_storage g')"
  shows "gw_inv g'"
proof -
  note m = inv_parts(1) [OF inv]
  have new: "jm_get (gs_peers g) sid = None" "\<And>i ch. jm_get (gw_channels g) i = Some ch \<Longrightarrow> ch_client ch \<noteq> sid"
    "\<And>b t. sid \<notin> set (subscribers b t g)"
    using q(3) by (auto simp: mentions_def)
  have "inv_maps g'" using ok droppedD(3,4) [OF D m] by (simp add: inv_maps_def)
  moreover have "inv_peers g'"
    unfolding inv_peers_def
  proof (intro allI impI)
    fix i p assume p: "jm_get (gs_peers g') i = Some p"
    show "ps_id p = i \<and> i \<noteq> []
       \<and> (\<exists>c. jm_get (gw_conns g') (ps_ws p) = Some c \<and> cn_session c = Some i)
       \<and> jm_get (gw_recoveryTokens g') (ps_recoveryToken p) = Some i
       \<and> jm_get (gs_wsToPeer g') (ps_ws p) = Some i
       \<and> (\<forall>b. ps_backendId p = Some b \<longrightarrow> (\<exists>l. jm_get (gs_leases g') b = Some l \<and> le_peerSessionId l = i))"
    proof (cases "i = sid")
      case True
      with p have "p = q" by (simp add: P)
      with True q C' l show ?thesis by (simp add: T W L takes_def)
    next
      case False
      with p obtain p' where p': "jm_get (gs_peers g) i = Some p'" "p = ousted q p'"
        by (auto simp: P)
      have "ps_recoveryToken p' \<noteq> ps_recoveryToken q"
        using inv_peersD(4) [OF inv p'(1)] tok by auto
      with False inv_peersD(1-5) [OF inv p'(1)] wsn [OF p'(1)] inv_peersD(6) [OF inv p'(1)] show ?thesis
        by (simp add: p'(2) T W C L ousted_backend)
    qed
  qed
  moreover have "inv_back g'"
  proof -
    have "jm_get (gs_wsToPeer g) w = Some i \<Longrightarrow> i \<noteq> sid" "jm_get (gw_recoveryTokens g) t = Some i \<Longrightarrow> i \<noteq> sid" for w t i
      using inv_parts(3) [OF inv] new(1) unfolding inv_back_def by fastforce+
    then show ?thesis
      using inv_parts(3) [OF inv] q(1) unfolding inv_back_def by (fastforce simp: P T W split: if_splits)
  qed
  moreover have "inv_leases g'"
    unfolding inv_leases_def
  proof (intro allI impI)
    fix b l' assume l': "jm_get (gs_leases g') b = Some l'"
    show "le_backendId l' = b \<and> b \<noteq> [] \<and> le_epoch l' \<le> st_maxEpoch (gw_storage g') \<and> owned_by g' b l'"
    proof (cases "takes q b")
      case True
      with l' have "l' = l" by (simp add: L)
      with True l [OF True] pr [OF True] q show ?thesis by (simp add: owned_by_def P R takes_def)
    next
      case False
      with l' have old: "jm_get (gs_leases g) b = Some l'" by (simp add: L)
      obtain p pr' where p: "jm_get (gs_peers g) (le_peerSessionId l') = Some p" "ps_backendId p = Some b"
        "ps_epoch p = Some (le_epoch l')" "jm_get (gs_registry g) b = Some pr'" "pr_backendId pr' = b"
        "pr_epoch pr' = le_epoch l'" "pr_namespace pr' = ps_namespace p"
        using inv_leasesD(4) [OF inv old] by blast
      then have "le_peerSessionId l' \<noteq> sid" using new(1) by auto
      with p False have "owned_by g' b l'" by (simp add: owned_by_def P R ousted_epoch)
      with inv_leasesD(1-3) [OF inv old] st show ?thesis by (simp add: st_kept_def)
    qed
  qed
  moreover have "inv_registry g'"
    using inv_parts(5) [OF inv] unfolding inv_registry_def L R by auto
  moreover have "inv_channels g'"
    unfolding inv_channels_def
  proof (intro allI impI)
    fix i ch assume "jm_get (gw_channels g') i = Some ch"
    then have ch: "jm_get (gw_channels g) i = Some ch" "\<not> takes q (ch_backendId ch)"
      using droppedD(1) [OF D m] by (auto split: option.splits if_splits)
    with inv_channelsD [OF inv ch(1)] new(2) [OF ch(1)]
    show "ch_id ch = i \<and> (\<exists>l pr. jm_get (gs_leases g') (ch_backendId ch) = Some l \<and> le_peerSessionId l = ch_backend ch
          \<and> le_epoch l = ch_epoch ch \<and> jm_get (gs_registry g') (ch_backendId ch) = Some pr
          \<and> (\<forall>p. jm_get (gs_peers g') (ch_client ch) = Some p \<longrightarrow> peer_reaches p pr))"
      by (auto simp: L R P)
  qed
  moreover have "inv_tickets g'"
    using inv_dropped_tickets [OF D m inv_parts(7) [OF inv]] .
  moreover have "inv_topics g'"
  proof (rule inv_topicsI)
    note top = inv_topicsD [OF inv_parts(8) [OF inv]]
    show "\<exists>l. jm_get (gs_leases g') b = Some l" if "jm_get (gw_topicSubs g') b = Some x" for b x
      using S [OF that] top(1) by (auto simp: L)
    show "\<exists>l. jm_get (gs_leases g') b = Some l" if "jm_get (gw_retained g') b = Some x" for b x
      using that top(2) [of b x] by (auto simp: L ret split: if_splits)
    show "peer_reaches p pr'" if "i \<in> set (subscribers b t g')" "jm_get (gs_peers g') i = Some p"
      "jm_get (gs_registry g') b = Some pr'" for b t i p pr'
    proof -
      have "\<not> takes q b" using nosub that(1) by fastforce
      moreover have "i \<noteq> sid" using sub [of b t] that(1) new(3) by auto
      ultimately show ?thesis
        using that sub [of b t] top(3) [of i b t _ pr'] by (auto simp: P R)
    qed
    show "retained_bounded g'" using top(4) by (auto simp: retained_bounded_def ret split: if_splits)
  qed
  moreover have "inv_storage g'"
    using inv_parts(10) [OF inv] st unfolding inv_storage_def st_kept_def by blast
  ultimately show ?thesis using IC by (simp add: gw_inv_def)
qed

section \<open>A takeover\<close>

lemma getOrCreate_nonempty:
  "getOrCreateBackendIdV4 ns i e n u now s = (s', Inr b) \<Longrightarrow> ids_ok s \<Longrightarrow> u \<noteq> [] \<Longrightarrow> b \<noteq> []"
  unfolding getOrCreateBackendIdV4_def ids_ok_def Let_def
  by (auto split: option.splits prod.splits sum.splits simp: find_Some_iff)

lemma resolve_nonempty:
  "resolveBackendIdentity c ns i n ch u now s = (s', Inr b) \<Longrightarrow> ids_ok s \<Longrightarrow> u \<noteq> [] \<Longrightarrow> b \<noteq> []"
  by (auto simp: resolveBackendIdentity_def split: option.splits if_splits dest: getOrCreate_nonempty)

lemma jm_upd_absent: "jm_get m k = None \<Longrightarrow> jm_upd k f m = m"
  by (induction m) (auto simp: jm_upd_def jm_get_def split: if_splits)

lemma replaced_fields:
  "gs_peers (handleBackendOwnerReplaced cf b i g) = jm_upd i unown (gs_peers g)"
  "gs_wsToPeer (handleBackendOwnerReplaced cf b i g) = gs_wsToPeer g"
  "gs_registry (handleBackendOwnerReplaced cf b i g) = gs_registry g"
  "gs_leases (handleBackendOwnerReplaced cf b i g) = jm_del b (gs_leases g)"
  "gw_recoveryTokens (handleBackendOwnerReplaced cf b i g) = gw_recoveryTokens g"
  "gw_topicSubs (handleBackendOwnerReplaced cf b i g) = jm_del b (gw_topicSubs g)"
  "gw_retained (handleBackendOwnerReplaced cf b i g) = jm_del b (gw_retained g)"
  "gw_conns (handleBackendOwnerReplaced cf b i g) = gw_conns g"
  "gw_wsPerIp (handleBackendOwnerReplaced cf b i g) = gw_wsPerIp g"
  "gw_storage (handleBackendOwnerReplaced cf b i g) = gw_storage g"
  "gw_channels (handleBackendOwnerReplaced cf b i g) = gw_channels (closeChannelsForBackend cf b ''epoch_changed'' g)"
  "gw_tickets (handleBackendOwnerReplaced cf b i g) = gw_tickets (closeChannelsForBackend cf b ''epoch_changed'' g)"
  by (auto simp: handleBackendOwnerReplaced_def Let_def upd_peer_def removeLease_def jm_upd_absent split: option.split)

text \<open>The state before the new lease: what an earlier lease on the backend leaves behind is gone.\<close>

definition ousting :: "config \<Rightarrow> string \<Rightarrow> peer_session \<Rightarrow> int \<Rightarrow> int \<Rightarrow> gateway \<Rightarrow> gateway" where
  "ousting cf b peer epoch now g =
     (case jm_get (gs_leases g) b of
        Some pl \<Rightarrow>
          if le_peerSessionId pl \<noteq> ps_id peer \<or> le_epoch pl \<noteq> epoch
          then handleBackendOwnerReplaced cf b (le_peerSessionId pl) (noteOwnerReplaced b now g)
          else g
      | None \<Rightarrow> g)"

lemma note_fields [simp]:
  "gs_peers (noteOwnerReplaced b now g) = gs_peers g" "gs_wsToPeer (noteOwnerReplaced b now g) = gs_wsToPeer g"
  "gs_registry (noteOwnerReplaced b now g) = gs_registry g" "gs_leases (noteOwnerReplaced b now g) = gs_leases g"
  "gw_recoveryTokens (noteOwnerReplaced b now g) = gw_recoveryTokens g"
  "gw_topicSubs (noteOwnerReplaced b now g) = gw_topicSubs g" "gw_retained (noteOwnerReplaced b now g) = gw_retained g"
  "gw_conns (noteOwnerReplaced b now g) = gw_conns g" "gw_wsPerIp (noteOwnerReplaced b now g) = gw_wsPerIp g"
  "gw_storage (noteOwnerReplaced b now g) = gw_storage g" "gw_channels (noteOwnerReplaced b now g) = gw_channels g"
  "gw_tickets (noteOwnerReplaced b now g) = gw_tickets g"
  by (simp_all add: noteOwnerReplaced_def)

lemma ousting_fields:
  assumes inv: "gw_inv g" and fresh: "jm_get (gs_peers g) (ps_id peer) = None"
    and q: "ps_backendId q = Some b"
  shows "\<And>i. jm_get (gs_peers (ousting cf b peer e now g)) i = map_option (ousted q) (jm_get (gs_peers g) i)"
    and "gs_wsToPeer (ousting cf b peer e now g) = gs_wsToPeer g"
    and "gs_registry (ousting cf b peer e now g) = gs_registry g"
    and "\<And>c. c \<noteq> b \<Longrightarrow> jm_get (gs_leases (ousting cf b peer e now g)) c = jm_get (gs_leases g) c"
    and "gw_recoveryTokens (ousting cf b peer e now g) = gw_recoveryTokens g"
    and "gw_topicSubs (ousting cf b peer e now g) = jm_del b (gw_topicSubs g)"
    and "gw_retained (ousting cf b peer e now g) = jm_del b (gw_retained g)"
    and "gw_conns (ousting cf b peer e now g) = gw_conns g"
    and "gw_wsPerIp (ousting cf b peer e now g) = gw_wsPerIp g"
    and "gw_storage (ousting cf b peer e now g) = gw_storage g"
    and "dropped (\<lambda>ch. ch_backendId ch = b) g (ousting cf b peer e now g)"
    and "jm_ok (gs_peers (ousting cf b peer e now g))" "jm_ok (gs_leases (ousting cf b peer e now g))"
proof -
  note m = inv_parts(1) [OF inv, unfolded inv_maps_def]
  have owner: "ps_backendId p = Some b \<Longrightarrow> \<exists>pl. jm_get (gs_leases g) b = Some pl \<and> le_peerSessionId pl = i"
    if "jm_get (gs_peers g) i = Some p" for i p
    using inv_peersD(6) [OF inv that] by blast
  have all: "(\<forall>i. jm_get (gs_peers (ousting cf b peer e now g)) i = map_option (ousted q) (jm_get (gs_peers g) i))
    \<and> gs_wsToPeer (ousting cf b peer e now g) = gs_wsToPeer g
    \<and> gs_registry (ousting cf b peer e now g) = gs_registry g
    \<and> (\<forall>c. c \<noteq> b \<longrightarrow> jm_get (gs_leases (ousting cf b peer e now g)) c = jm_get (gs_leases g) c)
    \<and> gw_recoveryTokens (ousting cf b peer e now g) = gw_recoveryTokens g
    \<and> gw_topicSubs (ousting cf b peer e now g) = jm_del b (gw_topicSubs g)
    \<and> gw_retained (ousting cf b peer e now g) = jm_del b (gw_retained g)
    \<and> gw_conns (ousting cf b peer e now g) = gw_conns g
    \<and> gw_wsPerIp (ousting cf b peer e now g) = gw_wsPerIp g
    \<and> gw_storage (ousting cf b peer e now g) = gw_storage g
    \<and> dropped (\<lambda>ch. ch_backendId ch = b) g (ousting cf b peer e now g)
    \<and> jm_ok (gs_peers (ousting cf b peer e now g)) \<and> jm_ok (gs_leases (ousting cf b peer e now g))"
  proof (cases "jm_get (gs_leases g) b")
    case None
    then have eq: "ousting cf b peer e now g = g" by (simp add: ousting_def)
    have "ousted q p = p" if "jm_get (gs_peers g) i = Some p" for i p
      using owner [OF that] None q by (auto simp: ousted_def)
    then have peers: "map_option (ousted q) (jm_get (gs_peers g) i) = jm_get (gs_peers g) i" for i
      by (cases "jm_get (gs_peers g) i") auto
    have "jm_get (gw_topicSubs g) b = None" "jm_get (gw_retained g) b = None"
      using None inv_topicsD(1,2) [OF inv_parts(8) [OF inv], of b] by fastforce+
    moreover have "dropped (\<lambda>ch. ch_backendId ch = b) g g"
      using None m inv_channelsD(2) [OF inv] by (intro dropped_refl) fastforce+
    ultimately show ?thesis using m by (simp add: eq peers jm_del_absent)
  next
    case (Some pl)
    obtain p where p: "jm_get (gs_peers g) (le_peerSessionId pl) = Some p" "ps_backendId p = Some b"
      using inv_leasesD(4) [OF inv Some] by blast
    then have "le_peerSessionId pl \<noteq> ps_id peer" using fresh by auto
    then have eq: "ousting cf b peer e now g =
        handleBackendOwnerReplaced cf b (le_peerSessionId pl) (noteOwnerReplaced b now g)"
      using Some by (simp add: ousting_def)
    have "map_option (ousted q) (jm_get (gs_peers g) i) =
        jm_get (jm_upd (le_peerSessionId pl) unown (gs_peers g)) i" for i
    proof (cases "i = le_peerSessionId pl")
      case True
      with p q show ?thesis by (simp add: ousted_def)
    next
      case False
      then have "ousted q r = r" if "jm_get (gs_peers g) i = Some r" for r
        using owner [OF that] Some q by (auto simp: ousted_def)
      with False show ?thesis by (cases "jm_get (gs_peers g) i") auto
    qed
    moreover have "dropped (\<lambda>ch. ch_backendId ch = b) g (ousting cf b peer e now g)"
      by (rule dropped_from [OF dropped_to [OF dropped_backend [of "noteOwnerReplaced b now g", where cf = cf
            and r = "''epoch_changed''"]]])
         (use inv_chan_ok [OF inv] in \<open>simp_all add: eq replaced_fields chan_ok_def\<close>)
    ultimately show ?thesis using m by (simp add: eq replaced_fields)
  qed
  show "\<And>i. jm_get (gs_peers (ousting cf b peer e now g)) i = map_option (ousted q) (jm_get (gs_peers g) i)"
    and "gs_wsToPeer (ousting cf b peer e now g) = gs_wsToPeer g"
    and "gs_registry (ousting cf b peer e now g) = gs_registry g"
    and "\<And>c. c \<noteq> b \<Longrightarrow> jm_get (gs_leases (ousting cf b peer e now g)) c = jm_get (gs_leases g) c"
    and "gw_recoveryTokens (ousting cf b peer e now g) = gw_recoveryTokens g"
    and "gw_topicSubs (ousting cf b peer e now g) = jm_del b (gw_topicSubs g)"
    and "gw_retained (ousting cf b peer e now g) = jm_del b (gw_retained g)"
    and "gw_conns (ousting cf b peer e now g) = gw_conns g"
    and "gw_wsPerIp (ousting cf b peer e now g) = gw_wsPerIp g"
    and "gw_storage (ousting cf b peer e now g) = gw_storage g"
    and "dropped (\<lambda>ch. ch_backendId ch = b) g (ousting cf b peer e now g)"
    and "jm_ok (gs_peers (ousting cf b peer e now g))" "jm_ok (gs_leases (ousting cf b peer e now g))"
    using all by blast+
qed

section \<open>The handshake\<close>

definition fresh_draws :: "hello_draws \<Rightarrow> gateway \<Rightarrow> bool" where
  "fresh_draws rn g \<longleftrightarrow> hd_session rn \<noteq> [] \<and> \<not> mentions (hd_session rn) g
     \<and> jm_get (gw_recoveryTokens g) (hd_recovery rn) = None \<and> hd_backendId rn \<noteq> []"

lemma admit_fields [simp]:
  "core (admit_peer cf q g) =
     core (addPeer q (g\<lparr>gw_recoveryTokens := jm_set (ps_recoveryToken q) (ps_id q) (gw_recoveryTokens g)\<rparr>))"
  by (auto simp: admit_peer_def Let_def addPeer_def core_eq_iff split: option.split)

definition install_peer :: "ws \<Rightarrow> peer_session \<Rightarrow> gateway \<Rightarrow> gateway" where
  "install_peer w q g =
     upd_conn w (\<lambda>c. c\<lparr>cn_session := Some (ps_id q)\<rparr>)
       (addPeer q (g\<lparr>gw_recoveryTokens := jm_set (ps_recoveryToken q) (ps_id q) (gw_recoveryTokens g)\<rparr>))"

lemma install_peer_fields [simp]:
  "gs_peers (install_peer w q g) = jm_set (ps_id q) q (gs_peers g)"
  "gs_wsToPeer (install_peer w q g) = jm_set (ps_ws q) (ps_id q) (gs_wsToPeer g)"
  "gs_registry (install_peer w q g) = gs_registry g" "gs_leases (install_peer w q g) = gs_leases g"
  "gw_recoveryTokens (install_peer w q g) = jm_set (ps_recoveryToken q) (ps_id q) (gw_recoveryTokens g)"
  "gw_topicSubs (install_peer w q g) = gw_topicSubs g" "gw_retained (install_peer w q g) = gw_retained g"
  "gw_conns (install_peer w q g) = jm_upd w (\<lambda>c. c\<lparr>cn_session := Some (ps_id q)\<rparr>) (gw_conns g)"
  "gw_wsPerIp (install_peer w q g) = gw_wsPerIp g" "gw_storage (install_peer w q g) = gw_storage g"
  "gw_channels (install_peer w q g) = gw_channels g" "gw_tickets (install_peer w q g) = gw_tickets g"
  "subscribers b t (install_peer w q g) = subscribers b t g"
  by (simp_all add: install_peer_def upd_conn_def addPeer_def subscribers_def)

lemma inv_conns_session:
  "inv_conns g \<Longrightarrow> gw_conns h = jm_upd w (\<lambda>c. c\<lparr>cn_session := s\<rparr>) (gw_conns g) \<Longrightarrow> gw_wsPerIp h = gw_wsPerIp g
     \<Longrightarrow> inv_conns h"
  using conns_of_upd [of "\<lambda>c. c\<lparr>cn_session := s\<rparr>" _ w g] by (simp add: inv_conns_def conns_of_def)

lemma ws_unused:
  assumes "gw_inv g" and "jm_get (gw_conns g) w = Some c" and "cn_session c = None"
    and "jm_get (gs_peers g) i = Some p"
  shows "ps_ws p \<noteq> w"
  using inv_peersD(3) [OF assms(1,4)] assms(2,3) by auto

lemma inv_establish_client:
  assumes inv: "gw_inv g" and c: "jm_get (gw_conns g) w = Some c" "cn_session c = None"
    and q: "ps_ws q = w" "ps_id q \<noteq> []" "\<not> mentions (ps_id q) g" "ps_backendId q = None"
    and tok: "jm_get (gw_recoveryTokens g) (ps_recoveryToken q) = None"
  shows "gw_inv (install_peer w q g)"
proof (rule inv_add_peer [OF inv refl q(2,3) tok])
  note m = inv_parts(1) [OF inv, unfolded inv_maps_def]
  have nt: "takes q b = False" for b using q(4) by (simp add: takes_def)
  have o': "ousted q p = p" for p using q(4) by (simp add: ousted_def)
  show "ps_ws p \<noteq> ps_ws q" if "jm_get (gs_peers g) i = Some p" for i p
    using ws_unused [OF inv c that] q(1) by simp
  show "dropped (\<lambda>ch. takes q (ch_backendId ch)) g (install_peer w q g)"
    by (rule dropped_to [OF dropped_refl]) (use m in \<open>simp_all add: nt\<close>)
  show "inv_conns (install_peer w q g)"
    by (rule inv_conns_session [OF inv_parts(9) [OF inv]]) simp_all
  show "jm_get (gs_peers (install_peer w q g)) i = (if i = ps_id q then Some q else map_option (ousted q) (jm_get (gs_peers g) i))" for i
    by (cases "jm_get (gs_peers g) i") (auto simp: o')
qed (use c q inv_parts(1) [OF inv, unfolded inv_maps_def] in \<open>auto simp: takes_def\<close>)

lemma inv_establish_backend:
  assumes inv: "gw_inv g" and c: "jm_get (gw_conns g) w = Some c" "cn_session c = None"
    and q: "ps_ws q = w" "ps_id q \<noteq> []" "\<not> mentions (ps_id q) g" "ps_backendId q = Some b" "b \<noteq> []"
    and tok: "jm_get (gw_recoveryTokens g) (ps_recoveryToken q) = None"
    and l: "le_backendId l = b" "le_peerSessionId l = ps_id q" "ps_epoch q = Some (le_epoch l)" "le_epoch l \<le> st_maxEpoch st"
    and pr: "pr_backendId pr = b" "pr_epoch pr = le_epoch l" "pr_namespace pr = ps_namespace q"
    and st: "st_kept (gw_storage g) st" and id: "ps_id peer = ps_id q"
    and h: "gs_peers h = gs_peers (ousting cf b peer e now g)" "gs_wsToPeer h = gs_wsToPeer g"
      "gs_registry h = jm_set b pr (gs_registry g)" "gs_leases h = jm_set b l (gs_leases (ousting cf b peer e now g))"
      "gw_recoveryTokens h = gw_recoveryTokens g" "gw_topicSubs h = jm_del b (gw_topicSubs g)"
      "gw_retained h = jm_del b (gw_retained g)" "gw_conns h = gw_conns g" "gw_wsPerIp h = gw_wsPerIp g"
      "gw_storage h = st" "gw_channels h = gw_channels (ousting cf b peer e now g)"
      "gw_tickets h = gw_tickets (ousting cf b peer e now g)"
  shows "gw_inv (install_peer w q h)"
proof (rule inv_add_peer [OF inv refl q(2,3) tok, where l = l and pr = pr])
  note m = inv_parts(1) [OF inv, unfolded inv_maps_def]
  have t: "takes q b' \<longleftrightarrow> b' = b" for b' using q(4) by (auto simp: takes_def)
  have new: "jm_get (gs_peers g) (ps_id peer) = None" using q(3) id by (simp add: mentions_def)
  note f = ousting_fields [OF inv new q(4), where cf = cf and e = e and now = now]
  have s: "subscribers b' t' h = (if b' = b then [] else subscribers b' t' g)" for b' t'
    by (simp add: subscribers_def h)
  show "ps_ws p \<noteq> ps_ws q" if "jm_get (gs_peers g) i = Some p" for i p
    using ws_unused [OF inv c that] q(1) by simp
  show "dropped (\<lambda>ch. takes q (ch_backendId ch)) g (install_peer w q h)"
    unfolding t by (rule dropped_to [OF f(11)]) (simp_all add: h)
  show "inv_conns (install_peer w q h)"
    by (rule inv_conns_session [OF inv_parts(9) [OF inv]]) (simp_all add: h)
  show "jm_ok (gs_peers (install_peer w q h))" "jm_ok (gs_leases (install_peer w q h))"
    using f(12,13) by (simp_all add: h)
  show "set (subscribers b' t' (install_peer w q h)) \<subseteq> set (subscribers b' t' g)" for b' t'
    by (simp add: s)
  show "subscribers b' t' (install_peer w q h) = []" if "takes q b'" for b' t'
    using that by (simp add: s t)
  show "jm_get (gs_leases (install_peer w q h)) b' = (if takes q b' then Some l else jm_get (gs_leases g) b')" for b'
    using f(4) by (simp add: h t)
qed (use c q inv_parts(1) [OF inv, unfolded inv_maps_def] l pr st ousting_fields(1) [OF inv _ q(4), of peer cf e now] id in
      \<open>auto simp: h takes_def mentions_def split: if_splits\<close>)

lemma core_upd_conn: "core g = core g' \<Longrightarrow> core (upd_conn w f g) = core (upd_conn w f g')"
  by (simp add: core_eq_iff upd_conn_def)

lemma core_established:
  "core (upd_conn w (\<lambda>c. c\<lparr>cn_session := Some (ps_id q)\<rparr>) (admit_peer cf q g)) = core (install_peer w q g)"
  unfolding install_peer_def by (rule core_upd_conn) simp

lemma register_cases:
  assumes r: "register_backend cf h hb c peer u now g = (g', Inr q)" and inv: "gw_inv g" and "u \<noteq> []"
  obtains b st e where "b \<noteq> []" "st_kept (gw_storage g) st" "e \<le> st_maxEpoch st"
    "q = peer\<lparr>ps_backendId := Some b, ps_epoch := Some e\<rparr>"
    "g' = registryUpsert (hello_presence h hb peer b e now)
       (let k = addLease \<lparr>le_backendId = b, le_epoch = e, le_peerSessionId = ps_id peer,
                 le_leaseTtlMs = cf_leaseTtlMs cf, le_lastHeartbeatAt = now\<rparr>
                (ousting cf b peer e now (g\<lparr>gw_storage := st\<rparr>))
        in k\<lparr>gw_storage := touchBackendIdentity b
             (Some (case ci_parentId c of Some p \<Rightarrow> p | None \<Rightarrow> ci_id c)) (he_name h) now (gw_storage k)\<rparr>)"
proof -
  obtain st1 b where res: "resolveBackendIdentity c (he_namespace h) (he_instanceId h) (he_name h) (ps_channel peer)
      u now (gw_storage g) = (st1, Inr b)"
    using r by (auto simp: register_backend_def split: prod.splits sum.splits)
  define st where "st = fst (allocateEpoch st1)"
  define e where "e = snd (allocateEpoch st1)"
  have al: "allocateEpoch st1 = (st, e)" by (simp add: st_def e_def)
  have "ids_ok (gw_storage g)" using inv_parts(10) [OF inv] by (simp add: inv_storage_def ids_ok_def)
  with resolve_nonempty [OF res] \<open>u \<noteq> []\<close> have "b \<noteq> []" by simp
  moreover have "st_kept (gw_storage g) st"
  proof (rule st_kept_trans)
    show "st_kept (gw_storage g) st1"
      using st_kept_resolve [OF \<open>u \<noteq> []\<close>] res by (metis fst_conv)
    show "st_kept st1 st" unfolding st_def by (rule st_kept_ops)
  qed
  moreover have "e \<le> st_maxEpoch st" by (simp add: st_def e_def allocateEpoch_def Let_def)
  ultimately show thesis
    using that [of b st e] r by (simp add: register_backend_def res al ousting_def Let_def)
qed

lemma register_failed:
  "register_backend cf h hb c peer u now g = (g', Inl e) \<Longrightarrow> gw_inv g \<Longrightarrow> u \<noteq> [] \<Longrightarrow> gw_inv g'"
  using st_kept_resolve [of u "gw_storage g" c "he_namespace h" "he_instanceId h" "he_name h" "ps_channel peer" now]
  by (auto simp: register_backend_def Let_def split: prod.splits sum.splits option.splits if_splits intro: inv_set_storage)

lemma inv_register:
  assumes inv: "gw_inv g" and c: "jm_get (gw_conns g) w = Some cn" "cn_session cn = None"
    and fresh: "fresh_draws rn g" and q: "peer = hello_peer w h c' rn"
    and r: "register_backend cf h hb c' peer (hd_backendId rn) now g = (g', Inr q)"
  shows "gw_inv (install_peer w q g')"
proof -
  have u: "hd_backendId rn \<noteq> []" using fresh by (simp add: fresh_draws_def)
  from register_cases [OF r inv u] obtain b st e where b: "b \<noteq> []" "st_kept (gw_storage g) st" "e \<le> st_maxEpoch st"
    and qe: "q = peer\<lparr>ps_backendId := Some b, ps_epoch := Some e\<rparr>"
    and g': "g' = registryUpsert (hello_presence h hb peer b e now)
       (let k = addLease \<lparr>le_backendId = b, le_epoch = e, le_peerSessionId = ps_id peer,
                 le_leaseTtlMs = cf_leaseTtlMs cf, le_lastHeartbeatAt = now\<rparr>
                (ousting cf b peer e now (g\<lparr>gw_storage := st\<rparr>))
        in k\<lparr>gw_storage := touchBackendIdentity b
             (Some (case ci_parentId c' of Some p \<Rightarrow> p | None \<Rightarrow> ci_id c')) (he_name h) now (gw_storage k)\<rparr>)" .
  define G where "G = g\<lparr>gw_storage := st\<rparr>"
  define root where "root = (case ci_parentId c' of Some p \<Rightarrow> p | None \<Rightarrow> ci_id c')"
  define l where "l = \<lparr>le_backendId = b, le_epoch = e, le_peerSessionId = ps_id peer,
                 le_leaseTtlMs = cf_leaseTtlMs cf, le_lastHeartbeatAt = now\<rparr>"
  have G: "gw_inv G" unfolding G_def by (rule inv_set_storage [OF inv b(2)])
  have m: "mentions s G = mentions s g" for s by (simp add: mentions_def G_def subscribers_def)
  have new: "jm_get (gs_peers G) (ps_id peer) = None"
    using fresh by (simp add: fresh_draws_def mentions_def q hello_peer_def G_def)
  have qb: "ps_backendId q = Some b" by (simp add: qe)
  note f = ousting_fields [OF G new qb, where cf = cf and e = e and now = now]
  have "g' = registryUpsert (hello_presence h hb peer b e now)
       ((addLease l (ousting cf b peer e now G))\<lparr>gw_storage := touchBackendIdentity b (Some root) (he_name h) now
          (gw_storage (addLease l (ousting cf b peer e now G)))\<rparr>)"
    unfolding g' Let_def G_def root_def l_def by (rule refl)
  note g'' = arg_cong [OF this, of gs_peers] arg_cong [OF this, of gs_wsToPeer] arg_cong [OF this, of gs_registry]
    arg_cong [OF this, of gs_leases] arg_cong [OF this, of gw_recoveryTokens] arg_cong [OF this, of gw_topicSubs]
    arg_cong [OF this, of gw_retained] arg_cong [OF this, of gw_conns] arg_cong [OF this, of gw_wsPerIp]
    arg_cong [OF this, of gw_storage] arg_cong [OF this, of gw_channels] arg_cong [OF this, of gw_tickets]
  note g'' = g'' [unfolded registryUpsert_def addLease_def, simplified, unfolded f(2,3,5-10)]
  have touched: "st_kept st (touchBackendIdentity b (Some root) (he_name h) now st)"
    by (rule st_kept_ops)
  show ?thesis
  proof (rule inv_establish_backend [OF G, where b = b and l = l and peer = peer and e = e and cf = cf and now = now
        and pr = "hello_presence h hb peer b e now" and st = "touchBackendIdentity b (Some root) (he_name h) now st"])
    show "le_epoch l \<le> st_maxEpoch (touchBackendIdentity b (Some root) (he_name h) now st)"
      using touched b(3) by (simp add: l_def st_kept_def)
    show "st_kept (gw_storage G) (touchBackendIdentity b (Some root) (he_name h) now st)"
      using touched by (simp add: G_def)
  qed (use c fresh b(1) m f g'' in \<open>auto simp: fresh_draws_def qe l_def q hello_peer_def hello_presence_def G_def\<close>)
qed

lemma inv_resolveToken: "gw_inv g \<Longrightarrow> gw_inv (fst (resolveToken cf tok now g))"
  by (auto simp: resolveToken_def Let_def split: prod.split
      intro!: inv_set_storage dest!: arg_cong [of _ _ fst] intro: st_kept_ops)

lemma resolve_same:
  "resolveToken cf tok now g = (g', r) \<Longrightarrow> gw_conns g' = gw_conns g \<and> fresh_draws rn g' = fresh_draws rn g"
  by (auto simp: resolveToken_def Let_def fresh_draws_def mentions_def subscribers_def split: if_splits prod.splits)

lemma upd_session_None:
  "jm_get (gw_conns g) w = Some c \<Longrightarrow> cn_session c = None \<Longrightarrow> jm_ok (gw_conns g) \<Longrightarrow>
     upd_conn w (\<lambda>c. c\<lparr>cn_session := None\<rparr>) g = g"
proof -
  assume a: "jm_get (gw_conns g) w = Some c" "cn_session c = None" "jm_ok (gw_conns g)"
  have "jm_upd w (\<lambda>c. c\<lparr>cn_session := None\<rparr>) (gw_conns g) = gw_conns g"
    using a by (auto simp: jm_upd_def jm_in_iff intro!: map_idI)
  then show ?thesis by (simp add: upd_conn_def)
qed

lemma inv_hello:
  assumes inv: "gw_inv g" and c: "jm_get (gw_conns g) w = Some cn" "cn_session cn = None"
    and fresh: "fresh_draws rn g"
  shows "case handlePeerHello cf w h ip rn now g of
           (g1, Inl _) \<Rightarrow> gw_inv g1
         | (g1, Inr s) \<Rightarrow> gw_inv (upd_conn w (\<lambda>c. c\<lparr>cn_session := s\<rparr>) g1)"
proof -
  obtain g1 r where res: "resolveToken cf (he_gatewaySecret h) now g = (g1, r)" by fastforce
  have i1: "gw_inv g1" using inv_resolveToken [OF inv] res by (metis fst_conv)
  have c1: "jm_get (gw_conns g1) w = Some cn" and f1: "fresh_draws rn g1"
    using resolve_same [OF res] c fresh by auto
  have ok: "jm_ok (gw_conns g1)" using inv_parts(1) [OF i1] by (simp add: inv_maps_def)
  have refused: "gw_inv (upd_conn w (\<lambda>c. c\<lparr>cn_session := None\<rparr>) (refuse_hello cf w code msg g'))"
    if "gw_inv g'" "gw_conns g' = gw_conns g1" for code msg g'
  proof -
    have "upd_conn w (\<lambda>c. c\<lparr>cn_session := None\<rparr>) (refuse_hello cf w code msg g') = refuse_hello cf w code msg g'"
      by (rule upd_session_None) (use that c1 c(2) ok in \<open>simp_all add: refuse_hello_def\<close>)
    with that show ?thesis by (simp add: refuse_hello_def)
  qed
  have client: "gw_inv (upd_conn w (\<lambda>c. c\<lparr>cn_session := Some (hd_session rn)\<rparr>) (admit_peer cf (hello_peer w h c' rn) g1))" for c'
  proof -
    let ?q = "hello_peer w h c' rn"
    have "gw_inv (install_peer w ?q g1)"
      by (rule inv_establish_client [OF i1 c1 c(2)]) (use f1 in \<open>simp_all add: hello_peer_def fresh_draws_def\<close>)
    then have "gw_inv (upd_conn w (\<lambda>c. c\<lparr>cn_session := Some (ps_id ?q)\<rparr>) (admit_peer cf ?q g1))"
      by (simp add: inv_core [OF core_established])
    then show ?thesis by (simp add: hello_peer_def)
  qed
  show ?thesis
  proof (cases r)
    case None
    then show ?thesis
      using refused i1
      by (auto simp: handlePeerHello_def res recordAuthFailure_def Let_def split: prod.split intro!: refused)
  next
    case (Some c')
    show ?thesis
    proof (cases "hello_refusal h c'")
      case (Some x)
      with \<open>r = Some c'\<close> refused i1 show ?thesis
        by (simp add: handlePeerHello_def res split: prod.split)
    next
      case None
      note h = handlePeerHello_def res \<open>r = Some c'\<close> None
      show ?thesis
      proof (cases "\<exists>hb. he_peerType h = ClientBackend \<and> he_backend h = Some hb")
        case False
        then show ?thesis using client [of c'] by (auto simp: h split: peer_type.split option.split)
      next
        case True
        then obtain hb where hb: "he_peerType h = ClientBackend" "he_backend h = Some hb" by blast
        obtain g2 x where reg: "register_backend cf h hb c' (hello_peer w h c' rn) (hd_backendId rn) now g1 = (g2, x)"
          by fastforce
        show ?thesis
        proof (cases x)
          case (Inl e)
          with reg i1 f1 have "gw_inv g2" by (auto intro: register_failed simp: fresh_draws_def)
          with Inl show ?thesis by (simp add: h hb reg)
        next
          case (Inr q)
          from inv_register [OF i1 c1 c(2) f1 refl] reg Inr
          have "gw_inv (install_peer w q g2)" by blast
          then have "gw_inv (upd_conn w (\<lambda>c. c\<lparr>cn_session := Some (ps_id q)\<rparr>) (admit_peer cf q g2))"
            by (simp add: inv_core [OF core_established])
          with Inr show ?thesis by (simp add: h hb reg)
        qed
      qed
    qed
  qed
qed

end
