(* ===== verification/Gw_Admin_Api.thy ===== *)
theory Gw_Admin_Api
  imports Gw_Access Gw_Credentials
begin

text \<open>
  src/server.ts, the HTTP endpoints: CORS, the admin guard (bearer token or session cookie, with the
  origin check), the admin session, credential and backend management, and the token exchange.  A
  handler that throws is answered by Express's error handler, here \<open>server_error\<close>.  The URL parser
  of the runtime is an argument: \<open>host_of origin\<close> is \<open>new URL(origin).host\<close>, none when it throws.
\<close>

section \<open>Requests\<close>

record http_request =
  hq_method :: string
  hq_remoteAddress :: "string option"
  hq_forwardedFor :: "string option"
  hq_forwardedProto :: "string option"
  hq_secure :: bool
  hq_authorization :: "string option"
  hq_cookie :: "string option"
  hq_origin :: "string option"
  hq_host :: "string option"
  hq_body :: jsval

definition client_ip :: "config \<Rightarrow> http_request \<Rightarrow> string" where
  "client_ip cf rq = extractIp cf (hq_forwardedFor rq) (hq_remoteAddress rq)"

text \<open>\<open>(req.body ?? {}).f\<close>\<close>

definition body_field :: "http_request \<Rightarrow> string \<Rightarrow> jsval" where
  "body_field rq f = js_field (case hq_body rq of None \<Rightarrow> JObj [] | Some JNull \<Rightarrow> JObj [] | Some b \<Rightarrow> b) f"

definition server_error :: "'a reply" where
  "server_error = Fail 500 ''INTERNAL_ERROR'' ''Internal server error''"

text \<open>The response headers of the CORS middleware, and whether it answers the request itself.\<close>

definition cors :: "config \<Rightarrow> http_request \<Rightarrow> (string \<times> string) list \<times> bool" where
  "cors cf rq =
     ((case cf_allowedOrigins cf of
         Some allowed \<Rightarrow>
           (case hq_origin rq of
              Some origin \<Rightarrow>
                if origin \<noteq> [] \<and> origin \<in> set allowed
                then [(''Access-Control-Allow-Origin'', origin), (''Access-Control-Allow-Credentials'', ''true''),
                      (''Vary'', ''Origin'')]
                else []
            | None \<Rightarrow> [])
       | None \<Rightarrow> [(''Access-Control-Allow-Origin'', ''*'')])
      @ [(''Access-Control-Allow-Methods'', ''GET, POST, PUT, DELETE, PATCH, OPTIONS''),
         (''Access-Control-Allow-Headers'', ''Content-Type, Authorization, X-Request-Id'')],
      hq_method rq = ''OPTIONS'')"

definition health :: "gateway \<Rightarrow> nat \<times> nat" where
  "health g = (length (gs_registry g), length (gs_peers g))"

section \<open>The admin guard\<close>

text \<open>UTF-8 of the model's characters, and the comparison of the two buffers.\<close>

definition utf8_char :: "char \<Rightarrow> nat list" where
  "utf8_char c = (let n = (of_char c :: nat) in if n < 128 then [n] else [192 + n div 64, 128 + n mod 64])"

definition safeCompare :: "string \<Rightarrow> string \<Rightarrow> bool" where
  "safeCompare a b =
     (let bufA = concat (map utf8_char a); bufB = concat (map utf8_char b)
      in if length bufA \<noteq> length bufB then False else bufA = bufB)"

definition requestIsSecure :: "config \<Rightarrow> http_request \<Rightarrow> bool" where
  "requestIsSecure cf rq = (if cf_trustProxy cf then hq_forwardedProto rq = Some ''https'' else hq_secure rq)"

definition isTrustedOrigin :: "config \<Rightarrow> (string \<Rightarrow> string option) \<Rightarrow> http_request \<Rightarrow> bool" where
  "isTrustedOrigin cf host_of rq =
     (case hq_origin rq of
        None \<Rightarrow> False
      | Some origin \<Rightarrow>
          if origin = [] then False
          else if or_else (cf_allowedOrigins cf) [] \<noteq> [] then origin \<in> set (or_else (cf_allowedOrigins cf) [])
          else (case host_of origin of None \<Rightarrow> False | Some h \<Rightarrow> hq_host rq = Some h))"

definition isMutatingRequest :: "http_request \<Rightarrow> bool" where
  "isMutatingRequest rq = (hq_method rq \<noteq> ''GET'' \<and> hq_method rq \<noteq> ''HEAD'' \<and> hq_method rq \<noteq> ''OPTIONS'')"

text \<open>
  \<open>sessionId && adminSessions.validate(sessionId)\<close> on the request's cookie: the session it holds, or
  the error its decoding throws.  A cookie with a character no session id has validates as unknown.
\<close>

definition cookie_session :: "http_request \<Rightarrow> int \<Rightarrow> gateway \<Rightarrow> gateway \<times> (unit + string option)" where
  "cookie_session rq now g =
     (case readSessionCookie (hq_cookie rq) ADMIN_SESSION_COOKIE of
        CookieThrows \<Rightarrow> (g, Inl ())
      | CookieValue sid \<Rightarrow>
          if sid = [] then (g, Inr None)
          else (let (s, valid) = sessions_validate sid now (gw_adminSessions g)
                in (g\<lparr>gw_adminSessions := s\<rparr>, Inr (if valid then Some sid else None)))
      | _ \<Rightarrow> (g, Inr None))"

definition bearer_admin :: "config \<Rightarrow> http_request \<Rightarrow> bool" where
  "bearer_admin cf rq =
     (case bearer (hq_authorization rq) of None \<Rightarrow> False | Some tok \<Rightarrow> safeCompare tok (cf_adminToken cf))"

text \<open>The answer that ends the request, or none when the route's handler runs.\<close>

definition requireAdmin ::
  "config \<Rightarrow> (string \<Rightarrow> string option) \<Rightarrow> http_request \<Rightarrow> int \<Rightarrow> gateway \<Rightarrow> gateway \<times> 'a reply option" where
  "requireAdmin cf host_of rq now g =
     (if bearer_admin cf rq then (g, None)
      else case cookie_session rq now g of
             (g1, Inl _) \<Rightarrow> (g1, Some server_error)
           | (g1, Inr (Some _)) \<Rightarrow>
               if isMutatingRequest rq \<and> \<not> isTrustedOrigin cf host_of rq
               then (g1, Some (Fail 403 ''FORBIDDEN'' ''Origin check failed'')) else (g1, None)
           | (g1, Inr None) \<Rightarrow>
               (let (g2, r) = denyUnauthorized cf (client_ip cf rq) ''Invalid admin token'' now g1 in (g2, Some r)))"

definition admin_route ::
  "config \<Rightarrow> (string \<Rightarrow> string option) \<Rightarrow> http_request \<Rightarrow> int \<Rightarrow> (gateway \<Rightarrow> gateway \<times> 'a reply) \<Rightarrow> gateway
     \<Rightarrow> gateway \<times> 'a reply" where
  "admin_route cf host_of rq now handler g =
     (case requireAdmin cf host_of rq now g of (g1, Some r) \<Rightarrow> (g1, r) | (g1, None) \<Rightarrow> handler g1)"

section \<open>The admin session\<close>

record session_cookie =
  sc_value :: string
  sc_secure :: bool
  sc_maxAge :: int
  sc_expiresAt :: int

definition admin_login :: "config \<Rightarrow> http_request \<Rightarrow> string \<Rightarrow> int \<Rightarrow> gateway \<Rightarrow> gateway \<times> session_cookie reply" where
  "admin_login cf rq sid now g =
     (let token = or_else (js_string (body_field rq ''token'')) []
      in if token = [] \<or> \<not> safeCompare token (cf_adminToken cf)
         then denyUnauthorized cf (client_ip cf rq) ''Invalid admin token'' now g
         else
           (let (s, (i, expiresAt)) = sessions_create sid now (gw_adminSessions g)
            in (g\<lparr>gw_adminSessions := s\<rparr>,
                Reply 200 \<lparr>sc_value = i, sc_secure = requestIsSecure cf rq, sc_maxAge = expiresAt - now,
                           sc_expiresAt = expiresAt\<rparr>)))"

definition session_probe :: "http_request \<Rightarrow> int \<Rightarrow> gateway \<Rightarrow> gateway \<times> int option reply" where
  "session_probe rq now g =
     (case cookie_session rq now g of
        (g1, Inl _) \<Rightarrow> (g1, server_error)
      | (g1, Inr None) \<Rightarrow> (g1, Fail 401 ''UNAUTHORIZED'' ''No active session'')
      | (g1, Inr (Some sid)) \<Rightarrow> (g1, Reply 200 (sessions_expiresAt sid (gw_adminSessions g1))))"

definition admin_logout :: "http_request \<Rightarrow> int \<Rightarrow> gateway \<Rightarrow> gateway \<times> unit reply" where
  "admin_logout rq now g =
     (case cookie_session rq now g of
        (g1, Inl _) \<Rightarrow> (g1, server_error)
      | (g1, Inr None) \<Rightarrow> (g1, Reply 200 ())
      | (g1, Inr (Some sid)) \<Rightarrow>
          (g1\<lparr>gw_adminSessions := sessions_destroy sid (gw_adminSessions g1)\<rparr>, Reply 200 ()))"

section \<open>The dashboard\<close>

record overview =
  ov_backends :: nat
  ov_backendIdentities :: nat
  ov_legacyBackendCredentials :: nat
  ov_peers :: "peer_session list"
  ov_total :: nat
  ov_active :: nat
  ov_revoked :: nat
  ov_expired :: nat
  ov_byType :: "(credential_type, nat) jmap"

definition is_revoked :: "credential_info \<Rightarrow> bool" where
  "is_revoked c = (case ci_revokedAt c of None \<Rightarrow> False | Some t \<Rightarrow> t \<noteq> 0)"

definition is_expired :: "int \<Rightarrow> credential_info \<Rightarrow> bool" where
  "is_expired now c = (case ci_expiresAt c of None \<Rightarrow> False | Some t \<Rightarrow> t \<le> now)"

definition count_credential :: "int \<Rightarrow> credential_info \<Rightarrow> overview \<Rightarrow> overview" where
  "count_credential now c ov =
     (let o1 = (if is_revoked c then ov\<lparr>ov_revoked := ov_revoked ov + 1\<rparr>
                else if is_expired now c then ov\<lparr>ov_expired := ov_expired ov + 1\<rparr>
                else ov\<lparr>ov_active := ov_active ov + 1\<rparr>)
      in o1\<lparr>ov_byType := jm_set (ci_type c) (or_else (jm_get (ov_byType o1) (ci_type c)) 0 + 1) (ov_byType o1)\<rparr>)"

definition admin_overview :: "int \<Rightarrow> gateway \<Rightarrow> overview" where
  "admin_overview now g =
     (let cs = listCredentials (gw_storage g)
      in fold (count_credential now) cs
           \<lparr>ov_backends = length (gs_registry g),
            ov_backendIdentities = length (listBackendIdentities (gw_storage g)),
            ov_legacyBackendCredentials =
              length (filter (\<lambda>c. ci_type c = Backend \<and> ci_revokedAt c = None \<and> ci_backendId c = None) cs),
            ov_peers = jm_vals (gs_peers g), ov_total = length cs, ov_active = 0, ov_revoked = 0,
            ov_expired = 0, ov_byType = []\<rparr>)"

definition overview_route ::
  "config \<Rightarrow> (string \<Rightarrow> string option) \<Rightarrow> http_request \<Rightarrow> int \<Rightarrow> gateway \<Rightarrow> gateway \<times> overview reply" where
  "overview_route cf host_of rq now g =
     admin_route cf host_of rq now (\<lambda>g. (g, Reply 200 (admin_overview now g))) g"

section \<open>Issuing credentials\<close>

definition invalid_request :: "string \<Rightarrow> 'a reply" where
  "invalid_request message = Fail 400 ''INVALID_REQUEST'' message"

text \<open>
  \<open>ttlDays\<close> to a lifetime: absent, null, or a finite positive number of days.  A fraction of a
  millisecond is rounded down, which no comparison with the integral clock can tell.
\<close>

definition parse_ttl :: "jsval \<Rightarrow> ttl option" where
  "parse_ttl v =
     (case v of
        None \<Rightarrow> Some TtlDefault
      | Some JNull \<Rightarrow> Some TtlNever
      | Some (JNum (NFin q)) \<Rightarrow> if q > 0 then Some (TtlMs \<lfloor>q * 24 * 60 * 60 * 1000\<rfloor>) else None
      | _ \<Rightarrow> None)"

text \<open>The checks of the body, in the order of the code: what to create, or the message of the 400.\<close>

definition parse_issue :: "http_request \<Rightarrow> storage \<Rightarrow> string + create_input" where
  "parse_issue rq st =
     (let ty = body_field rq ''type''; ns = body_field rq ''namespace''; name = body_field rq ''name'';
          backendId = body_field rq ''backendId''; allowed = body_field rq ''allowedBackends''
      in if ty \<noteq> Some (JStr ''device'') \<and> ty \<noteq> Some (JStr ''backend'') then Inl ''type must be device or backend''
         else case js_string ns of
           None \<Rightarrow> Inl ''namespace must be a non-empty string''
         | Some n \<Rightarrow>
             if n = [] then Inl ''namespace must be a non-empty string''
             else if name \<noteq> None \<and> js_typeof name \<noteq> ''string'' then Inl ''name must be a string''
             else case parse_ttl (body_field rq ''ttlDays'') of
               None \<Rightarrow> Inl ''ttlDays must be a positive number or null''
             | Some t \<Rightarrow>
                 (let credType = (if ty = Some (JStr ''device'') then Device else Backend) in
                  if backendId \<noteq> None \<and> credType \<noteq> Backend then Inl ''backendId only applies to backend credentials''
                  else if backendId \<noteq> None
                      \<and> \<not> (case js_string backendId of Some b \<Rightarrow> isKnownBackend b n st | None \<Rightarrow> False)
                    then Inl ''backendId must be a known backend in the same namespace''
                  else if allowed \<noteq> None \<and> credType \<noteq> Device
                    then Inl ''allowedBackends only applies to device credentials''
                  else case (if allowed = None then Inr None else parseBackendScope allowed n st) of
                    Inl e \<Rightarrow> Inl e
                  | Inr scope \<Rightarrow>
                      Inr \<lparr>in_type = credType, in_namespace = n, in_name = js_string name, in_ttl = t,
                           in_parentId = None, in_backendId = js_string backendId, in_allowedBackends = scope\<rparr>))"

definition issue_credential ::
  "config \<Rightarrow> http_request \<Rightarrow> draws \<Rightarrow> int \<Rightarrow> gateway \<Rightarrow> gateway \<times> (credential_info \<times> string) reply" where
  "issue_credential cf rq rn now g =
     (case parse_issue rq (gw_storage g) of
        Inl e \<Rightarrow> (g, invalid_request e)
      | Inr inp \<Rightarrow>
          (case createCredential (cf_sha cf) inp rn now (gw_storage g) of
             (st, Inl _) \<Rightarrow> (g\<lparr>gw_storage := st\<rparr>, server_error)
           | (st, Inr ct) \<Rightarrow> (g\<lparr>gw_storage := st\<rparr>, Reply 201 ct)))"

section \<open>Backends\<close>

record admin_backend =
  ab_identity :: backend_identity
  ab_boundCredentials :: nat
  ab_online :: "(int \<times> int) option"

definition list_backends :: "gateway \<Rightarrow> admin_backend list" where
  "list_backends g =
     (let bound = boundCredentialCounts (gw_storage g)
      in map (\<lambda>i. \<lparr>ab_identity = i, ab_boundCredentials = or_else (jm_get bound (bi_backendId i)) 0,
                   ab_online = map_option (\<lambda>p. (pr_epoch p, pr_connectedAt p)) (jm_get (gs_registry g) (bi_backendId i))\<rparr>)
           (listBackendIdentities (gw_storage g)))"

definition delete_backend :: "string \<Rightarrow> gateway \<Rightarrow> gateway \<times> unit reply" where
  "delete_backend backendId g =
     (case getBackendIdentity backendId (gw_storage g) of
        None \<Rightarrow> (g, Fail 404 ''NOT_FOUND'' ''Backend identity not found'')
      | Some identity \<Rightarrow>
          if jm_has (gs_registry g) backendId then (g, Fail 409 ''CONFLICT'' ''Backend is online'')
          else if or_else (jm_get (boundCredentialCounts (gw_storage g)) backendId) 0 > 0
            then (g, Fail 409 ''CONFLICT''
                    ''Unrevoked backend credentials are bound to this backend; revoke them first'')
          else if (case bi_lastCredentialId identity of
                     None \<Rightarrow> False
                   | Some i \<Rightarrow>
                       i \<noteq> [] \<and> (case getCredential i (gw_storage g) of
                          None \<Rightarrow> False
                        | Some c \<Rightarrow> ci_revokedAt c = None \<and> ci_backendId c = None))
            then (g, Fail 409 ''CONFLICT''
                    ''The legacy credential last seen registering this backend is still active; bind or revoke it first'')
          else (g\<lparr>gw_storage := fst (deleteBackendIdentity backendId (gw_storage g))\<rparr>, Reply 200 ()))"

section \<open>Changing credentials\<close>

definition bind_credential :: "string \<Rightarrow> http_request \<Rightarrow> gateway \<Rightarrow> gateway \<times> credential_info option reply" where
  "bind_credential i rq g =
     (case getCredential i (gw_storage g) of
        None \<Rightarrow> (g, Fail 404 ''NOT_FOUND'' ''Credential not found'')
      | Some c \<Rightarrow>
          if ci_type c \<noteq> Backend \<or> ci_revokedAt c \<noteq> None \<or> ci_backendId c \<noteq> None
          then (g, Fail 409 ''CONFLICT'' ''Only unrevoked, unbound backend credentials can be bound'')
          else case js_string (body_field rq ''backendId'') of
            None \<Rightarrow> (g, invalid_request ''backendId must be a known backend in the same namespace'')
          | Some b \<Rightarrow>
              if \<not> isKnownBackend b (ci_namespace c) (gw_storage g)
              then (g, invalid_request ''backendId must be a known backend in the same namespace'')
              else
                (let st = fst (bindBackendCredential (ci_id c) b (gw_storage g))
                 in (g\<lparr>gw_storage := st\<rparr>, Reply 200 (getCredential (ci_id c) st))))"

text \<open>Closing the live connections of the credentials in question.\<close>

fun close_peers :: "config \<Rightarrow> (peer_session \<Rightarrow> bool) \<Rightarrow> string \<Rightarrow> peer_session list \<Rightarrow> gateway \<Rightarrow> gateway" where
  "close_peers cf P reason [] g = g"
| "close_peers cf P reason (p # ps) g =
     close_peers cf P reason ps (if P p then ws_close cf (ps_ws p) 1008 reason g else g)"

definition change_scope ::
  "config \<Rightarrow> string \<Rightarrow> http_request \<Rightarrow> gateway \<Rightarrow> gateway \<times> credential_info option reply" where
  "change_scope cf i rq g =
     (case getCredential i (gw_storage g) of
        None \<Rightarrow> (g, Fail 404 ''NOT_FOUND'' ''Credential not found'')
      | Some c \<Rightarrow>
          if ci_type c \<noteq> Device \<or> ci_revokedAt c \<noteq> None
          then (g, Fail 409 ''CONFLICT'' ''Only unrevoked device credentials have a backend scope'')
          else if body_field rq ''allowedBackends'' = None
          then (g, invalid_request ''allowedBackends is required (null = whole namespace)'')
          else case parseBackendScope (body_field rq ''allowedBackends'') (ci_namespace c) (gw_storage g) of
            Inl e \<Rightarrow> (g, invalid_request e)
          | Inr scope \<Rightarrow>
              (let g1 = g\<lparr>gw_storage := fst (setAllowedBackends (ci_id c) scope (gw_storage g))\<rparr>;
                   g2 = close_peers cf (\<lambda>p. ps_credentialId p = Some (ci_id c)) ''Credential scope changed''
                          (jm_vals (gs_peers g1)) g1
               in (g2, Reply 200 (getCredential (ci_id c) (gw_storage g2)))))"

definition afterRevoke :: "config \<Rightarrow> string list \<Rightarrow> gateway \<Rightarrow> gateway" where
  "afterRevoke cf revokedIds g =
     (if revokedIds = [] then g
      else close_peers cf
        (\<lambda>p. case ps_credentialId p of None \<Rightarrow> False | Some c \<Rightarrow> c \<noteq> [] \<and> c \<in> set revokedIds)
        ''Credential revoked'' (jm_vals (gs_peers g)) g)"

definition revoke_credential :: "config \<Rightarrow> string \<Rightarrow> int \<Rightarrow> gateway \<Rightarrow> gateway \<times> string list reply" where
  "revoke_credential cf i now g =
     (let (st, revokedIds) = revokeCredential i now (gw_storage g); g1 = g\<lparr>gw_storage := st\<rparr>
      in if revokedIds = [] then (g1, Fail 404 ''NOT_FOUND'' ''Credential not found or already revoked'')
         else (afterRevoke cf revokedIds g1, Reply 200 revokedIds))"

definition bulk_revoke ::
  "config \<Rightarrow> http_request \<Rightarrow> int \<Rightarrow> gateway \<Rightarrow> gateway \<times> (string list \<times> string list) reply" where
  "bulk_revoke cf rq now g =
     (case js_strings (body_field rq ''ids'') of
        None \<Rightarrow> (g, invalid_request ''ids must be a non-empty array of strings'')
      | Some js \<Rightarrow>
          if js = [] then (g, invalid_request ''ids must be a non-empty array of strings'')
          else
            (let requested = js_uniq js;
                 (st, revokedIds) = revokeCredentials requested now (gw_storage g)
             in (afterRevoke cf revokedIds (g\<lparr>gw_storage := st\<rparr>),
                 Reply 200 (revokedIds, filter (\<lambda>i. i \<notin> set revokedIds) requested))))"

definition purge_credentials :: "http_request \<Rightarrow> gateway \<Rightarrow> gateway \<times> string list reply" where
  "purge_credentials rq g =
     (let ids = body_field rq ''ids''
      in if ids \<noteq> None \<and> js_strings ids = None then (g, invalid_request ''ids must be an array of strings'')
         else
           (let (st, deleted) = purgeRevokedCredentials (js_strings ids) (gw_storage g)
            in (g\<lparr>gw_storage := st\<rparr>, Reply 200 deleted)))"

section \<open>The token exchange\<close>

definition exchange_token ::
  "config \<Rightarrow> http_request \<Rightarrow> draws \<Rightarrow> int \<Rightarrow> gateway \<Rightarrow> gateway \<times> (string \<times> int option \<times> string) reply" where
  "exchange_token cf rq rn now g =
     (let token = or_else (bearer (hq_authorization rq)) [];
          (g1, auth) = (if token = [] then (g, None) else resolveToken cf token now g)
      in case auth of
           None \<Rightarrow> denyUnauthorized cf (client_ip cf rq) ''Invalid credentials'' now g1
         | Some c \<Rightarrow>
             if ci_type c \<noteq> Backend
             then (g1, Fail 403 ''FORBIDDEN'' ''Only backend enrollment credentials can be exchanged'')
             else
               (case exchangeAccessCredential (cf_sha cf) c (cf_accessTtl cf) rn now (gw_storage g1) of
                  (st, Inl _) \<Rightarrow> (g1\<lparr>gw_storage := st\<rparr>, server_error)
                | (st, Inr (a, accessToken, _)) \<Rightarrow>
                    (g1\<lparr>gw_storage := st\<rparr>, Reply 201 (accessToken, ci_expiresAt a, ci_namespace a))))"

section \<open>The comparison of tokens\<close>

lemma of_char_less: "(of_char c :: nat) < 256"
  by (cases c) simp

lemma utf8_char_split:
  "utf8_char c @ xs = utf8_char d @ ys \<longleftrightarrow> c = d \<and> xs = ys"
proof
  assume eq: "utf8_char c @ xs = utf8_char d @ ys"
  show "c = d \<and> xs = ys"
    using eq by (auto simp: utf8_char_def Let_def split: if_splits) (metis div_mult_mod_eq of_char_eq_iff)
qed simp

lemma utf8_char_nonempty: "utf8_char c \<noteq> []"
  by (simp add: utf8_char_def Let_def)

lemma utf8_inj: "concat (map utf8_char a) = concat (map utf8_char b) \<Longrightarrow> a = b"
proof (induction a arbitrary: b)
  case Nil
  then show ?case by (cases b) (auto simp: utf8_char_nonempty)
next
  case (Cons x a)
  then show ?case by (cases b) (auto simp: utf8_char_nonempty utf8_char_split)
qed

lemma safeCompare_iff [simp]: "safeCompare a b \<longleftrightarrow> a = b"
  by (auto simp: safeCompare_def Let_def dest: utf8_inj)

section \<open>The admin guard\<close>

definition live_session :: "http_request \<Rightarrow> int \<Rightarrow> gateway \<Rightarrow> string option" where
  "live_session rq now g =
     (case readSessionCookie (hq_cookie rq) ADMIN_SESSION_COOKIE of
        CookieValue sid \<Rightarrow>
          (case jm_get (as_sessions (gw_adminSessions g)) sid of
             Some e \<Rightarrow> if sid \<noteq> [] \<and> now \<le> e then Some sid else None
           | None \<Rightarrow> None)
      | _ \<Rightarrow> None)"

lemma cookie_session_eq:
  "snd (cookie_session rq now g) =
     (if readSessionCookie (hq_cookie rq) ADMIN_SESSION_COOKIE = CookieThrows then Inl ()
      else Inr (live_session rq now g))"
  by (auto simp: cookie_session_def live_session_def sessions_validate_def Let_def
      split: cookie.split option.split)

lemma cookie_session_frame: "\<exists>s. fst (cookie_session rq now g) = g\<lparr>gw_adminSessions := s\<rparr>"
proof -
  have "\<exists>s. g = g\<lparr>gw_adminSessions := s\<rparr>" by (rule exI [of _ "gw_adminSessions g"]) simp
  then show ?thesis by (auto simp: cookie_session_def Let_def split: cookie.split prod.split)
qed

lemma cookie_session_failures [simp]: "gw_authFailures (fst (cookie_session rq now g)) = gw_authFailures g"
  using cookie_session_frame [of rq now g] by auto

lemma bearer_admin_iff:
  "bearer_admin cf rq \<longleftrightarrow> hq_authorization rq = Some (''Bearer '' @ cf_adminToken cf)"
proof -
  have "bearer_admin cf rq \<longleftrightarrow> bearer (hq_authorization rq) = Some (cf_adminToken cf)"
    by (auto simp: bearer_admin_def split: option.split)
  then show ?thesis by (simp only: bearer_iff)
qed

text \<open>
  C13.  Who gets admin access: exactly the requests with the admin token as bearer, and those whose
  cookie holds a live session and that, when they mutate, come from a trusted origin.  A refusal
  changes nothing but the session that turned out expired and the failure bucket, which is charged
  once exactly when the answer is a 401 or a 429.
\<close>

theorem admin_access_exact:
  "case requireAdmin cf host_of rq now g of (g', answer) \<Rightarrow>
     (answer = None \<longleftrightarrow> hq_authorization rq = Some (''Bearer '' @ cf_adminToken cf)
        \<or> live_session rq now g \<noteq> None \<and> (if isMutatingRequest rq then isTrustedOrigin cf host_of rq else True))
   \<and> g' = g\<lparr>gw_adminSessions := gw_adminSessions g', gw_authFailures := gw_authFailures g'\<rparr>
   \<and> gw_authFailures g' =
       (if answer = None \<or> (\<exists>m. answer = Some (Fail 403 ''FORBIDDEN'' m)) \<or> answer = Some server_error
        then gw_authFailures g
        else fst (checkLimit (gw_authFailures g) (client_ip cf rq) (cf_authFailLimit cf) AUTH_FAIL_WINDOW now))"
proof -
  have b: "bearer_admin cf rq \<longleftrightarrow> hq_authorization rq = Some (''Bearer '' @ cf_adminToken cf)"
    by (rule bearer_admin_iff)
  obtain g1 x where c: "cookie_session rq now g = (g1, x)" by fastforce
  obtain s where g1: "g1 = g\<lparr>gw_adminSessions := s\<rparr>" using cookie_session_frame [of rq now g] c by auto
  have x: "x = (if readSessionCookie (hq_cookie rq) ADMIN_SESSION_COOKIE = CookieThrows then Inl ()
      else Inr (live_session rq now g))"
    using cookie_session_eq [of rq now g] c by simp
  have t: "readSessionCookie (hq_cookie rq) ADMIN_SESSION_COOKIE = CookieThrows \<Longrightarrow> live_session rq now g = None"
    by (simp add: live_session_def)
  show ?thesis
  proof (cases "bearer_admin cf rq")
    case True
    then show ?thesis using b by (simp add: requireAdmin_def)
  next
    case False
    then show ?thesis
      unfolding requireAdmin_def b c using t
      by (auto simp: x g1 b denyUnauthorized_eq server_error_def Let_def split: option.split prod.split)
  qed
qed

section \<open>Closing connections\<close>

lemma close_peers_out:
  "gw_out (close_peers cf P r ps g) = gw_out g @ map (\<lambda>p. OClose (ps_ws p) 1008 r) (filter P ps)"
  by (induction cf P r ps g rule: close_peers.induct) (simp_all add: ws_close_def emit_def)

lemma close_peers_core [simp]: "core (close_peers cf P r ps g) = core g"
  by (induction cf P r ps g rule: close_peers.induct) simp_all

lemmas close_peers_fields [simp] = core_fields [OF close_peers_core]

text \<open>What a revocation reaches: the credential and what was exchanged from it, as far as they are unrevoked.\<close>

definition revocable :: "string \<Rightarrow> credential \<Rightarrow> bool" where
  "revocable i r \<longleftrightarrow> ci_revokedAt r = None \<and> (ci_id r = i \<or> ci_parentId r = Some i)"

lemma revoke_unknown:
  assumes "\<not> (\<exists>r\<in>set (st_credentials s). ci_id r = i \<and> ci_revokedAt r = None)"
  shows "revokeCredential i now s = (s, [])"
proof -
  have "update_where (\<lambda>c. ci_id c = i \<and> ci_revokedAt c = None) f (st_credentials s) = st_credentials s" for f
    using assms by (auto simp: update_where_def intro!: map_idI)
  moreover have "\<not> list_ex (\<lambda>c. ci_id c = i \<and> ci_revokedAt c = None) (st_credentials s)" using assms by (auto simp: list_ex_iff)
  ultimately show ?thesis by (simp add: revokeCredential_def Let_def)
qed

lemma revoke_rows:
  assumes "\<exists>r\<in>set (st_credentials s). ci_id r = i \<and> ci_revokedAt r = None"
  obtains ids where "revokeCredential i now s =
      (s\<lparr>st_credentials := map (\<lambda>r. if revocable i r then r\<lparr>ci_revokedAt := Some now\<rparr> else r) (st_credentials s)\<rparr>, i # ids)"
    and "set (i # ids) = ci_id ` {r \<in> set (st_credentials s). revocable i r}"
proof -
  let ?rows = "st_credentials s"
  let ?s1 = "update_where (\<lambda>c. ci_id c = i \<and> ci_revokedAt c = None) (\<lambda>c. c\<lparr>ci_revokedAt := Some now\<rparr>) ?rows"
  let ?Q = "\<lambda>c. ci_parentId c = Some i \<and> ci_revokedAt c = None"
  have ex: "list_ex (\<lambda>c. ci_id c = i \<and> ci_revokedAt c = None) ?rows" using assms by (auto simp: list_ex_iff)
  have rows: "update_where ?Q (\<lambda>c. c\<lparr>ci_revokedAt := Some now\<rparr>) ?s1 =
      map (\<lambda>r. if revocable i r then r\<lparr>ci_revokedAt := Some now\<rparr> else r) ?rows"
    by (auto simp: update_where_def revocable_def)
  have "set (i # map ci_id (filter ?Q ?s1)) = ci_id ` {r \<in> set ?rows. revocable i r}"
    using assms by (auto simp: update_where_def revocable_def image_iff)
  with ex rows show thesis
    by (intro that [of "map ci_id (filter ?Q ?s1)"]) (simp_all add: revokeCredential_def Let_def)
qed

text \<open>
  C12.  Revoking a credential that is known and not revoked yet revokes, at once, exactly its row and the rows
  of the credentials exchanged from it that are not revoked yet, answers with their ids, and closes with code 1008
  exactly the control connections of the peers that authenticated with one of them; no other row or part of the
  state changes.  Otherwise the answer is a 404 and nothing changes.
\<close>

theorem revoke_disconnects:
  "case revoke_credential cf i now g of (g', answer) \<Rightarrow>
     let rows = st_credentials (gw_storage g)
     in if \<exists>r\<in>set rows. ci_id r = i \<and> ci_revokedAt r = None
        then (\<exists>ids. answer = Reply 200 ids
                \<and> set ids = ci_id ` {r \<in> set rows. ci_revokedAt r = None \<and> (ci_id r = i \<or> ci_parentId r = Some i)})
          \<and> gw_storage g' = (gw_storage g)\<lparr>st_credentials :=
               map (\<lambda>r. if ci_revokedAt r = None \<and> (ci_id r = i \<or> ci_parentId r = Some i)
                          then r\<lparr>ci_revokedAt := Some now\<rparr> else r) rows\<rparr>
          \<and> core g' = core (g\<lparr>gw_storage := gw_storage g'\<rparr>)
          \<and> gw_out g' = gw_out g @ map (\<lambda>p. OClose (ps_ws p) 1008 ''Credential revoked'')
               (filter (\<lambda>p. \<exists>r\<in>set rows. ci_revokedAt r = None \<and> (ci_id r = i \<or> ci_parentId r = Some i)
                    \<and> ci_id r \<noteq> [] \<and> ps_credentialId p = Some (ci_id r)) (jm_vals (gs_peers g)))
        else answer = Fail 404 ''NOT_FOUND'' ''Credential not found or already revoked'' \<and> g' = g"
proof (cases "\<exists>r\<in>set (st_credentials (gw_storage g)). ci_id r = i \<and> ci_revokedAt r = None")
  case False
  then show ?thesis
    by (simp add: revoke_credential_def revoke_unknown [OF False] Let_def)
next
  case True
  from revoke_rows [OF True, of now] obtain ids where
    r: "revokeCredential i now (gw_storage g) = ((gw_storage g)\<lparr>st_credentials :=
        map (\<lambda>r. if revocable i r then r\<lparr>ci_revokedAt := Some now\<rparr> else r) (st_credentials (gw_storage g))\<rparr>, i # ids)"
    and ids: "set (i # ids) = ci_id ` {r \<in> set (st_credentials (gw_storage g)). revocable i r}" .
  have p: "(case ps_credentialId p of None \<Rightarrow> False | Some c \<Rightarrow> c \<noteq> [] \<and> c \<in> set (i # ids))
      \<longleftrightarrow> (\<exists>r\<in>set (st_credentials (gw_storage g)). ci_revokedAt r = None \<and> (ci_id r = i \<or> ci_parentId r = Some i)
                    \<and> ci_id r \<noteq> [] \<and> ps_credentialId p = Some (ci_id r))" for p
    unfolding ids by (auto simp: revocable_def split: option.split)
  show ?thesis
    using True ids by (simp add: revoke_credential_def r Let_def afterRevoke_def close_peers_out p revocable_def del: list.set)
qed

section \<open>What an exchange gives\<close>

lemma insert_credential_row:
  "insert_credential c s = (s1, Inr u) \<Longrightarrow> getCredentialById i s = Some q \<Longrightarrow> getCredentialById i s1 = Some q"
  by (auto simp: insert_credential_def getCredentialById_def find_append split: if_splits)

lemma exchange_keeps:
  assumes "exchangeAccessCredential sha p t rn now s = (s1, Inr (c, tok, rot))"
    and "getCredentialById i s = Some q" and "ci_type q = Backend" and "st_ok s"
  shows "getCredentialById i s1 = Some q"
proof (cases "findAccessCredential (ci_id p) s")
  case None
  then show ?thesis
    using assms
    by (auto simp: exchangeAccessCredential_def createCredential_def credential_backend_def Let_def
        split: prod.splits sum.splits elim!: insert_credential_row)
next
  case (Some e)
  note i = row_id [OF assms(2), THEN conjunct1] and e = findAccess_Some [OF Some]
  have "ci_id q \<noteq> ci_id e"
  proof
    assume "ci_id q = ci_id e"
    with row_of [OF assms(4), of e] e assms(2) i have "e = q" by simp
    with e assms(3) show False by simp
  qed
  moreover have "s1 = s\<lparr>st_credentials := update_where (\<lambda>c. ci_id c = ci_id e)
                       (\<lambda>c. c\<lparr>cr_tokenHash := sha tok, ci_namespace := ci_namespace p,
                              ci_name := accessCredentialName p, ci_createdAt := now,
                              ci_expiresAt := expiry now (ttl_for BackendAccess t), ci_revokedAt := None,
                              ci_backendId := ci_backendId p\<rparr>) (st_credentials s)\<rparr>"
    using assms(1) Some by (auto simp: exchangeAccessCredential_def Let_def split: if_splits option.splits)
  ultimately show ?thesis
    using assms(2) by (simp add: row_update)
qed

lemma exchange_fields:
  assumes "exchangeAccessCredential sha p t rn now s = (s1, Inr (c, tok, rot))"
  shows "ci_namespace c = ci_namespace p" and "ci_backendId c = ci_backendId p"
    and "isCredentialToken tok"
proof -
  show "isCredentialToken tok"
    using assms
    by (auto simp: exchangeAccessCredential_def createCredential_def isCredentialToken_def starts_with_def Let_def
        split: prod.splits sum.splits option.splits if_splits)
  have "ci_namespace c = ci_namespace p \<and> ci_backendId c = ci_backendId p"
    using assms
    by (auto simp: exchangeAccessCredential_def createCredential_def credential_backend_def Let_def new_credential_def
        credential_info.truncate_def getCredential_def row_update
        split: prod.splits sum.splits option.splits if_splits dest: row_id)
  then show "ci_namespace c = ci_namespace p" and "ci_backendId c = ci_backendId p" by simp_all
qed

text \<open>An exchange succeeds when its draws are new to the table: nothing else can make it fail.\<close>

definition fresh_access :: "config \<Rightarrow> draws \<Rightarrow> storage \<Rightarrow> bool" where
  "fresh_access cf rn s \<longleftrightarrow> list_all (\<lambda>r. ci_id r \<noteq> rn_id rn
     \<and> cr_tokenHash r \<noteq> cf_sha cf (CREDENTIAL_TOKEN_PREFIXES BackendAccess @ rn_token rn)) (st_credentials s)"

lemma exchange_succeeds:
  assumes "fresh_access cf rn s" and "st_ok s"
  shows "\<exists>s1 x. exchangeAccessCredential (cf_sha cf) p t rn now s = (s1, Inr x)"
proof (cases "findAccessCredential (ci_id p) s")
  case None
  with assms(1) findAccess_None [OF None] show ?thesis
    by (auto simp: exchangeAccessCredential_def createCredential_def credential_backend_def insert_credential_def
        new_credential_def fresh_access_def list_all_iff access_row_def Let_def)
next
  case (Some e)
  then have "getCredentialById (ci_id e) s = Some e" using assms(2) findAccess_Some row_of by blast
  with assms(1) Some show ?thesis
    by (auto simp: exchangeAccessCredential_def getCredential_def row_update fresh_access_def list_all_iff Let_def)
qed

lemma fresh_access_find [simp]:
  "fresh_access cf rn (fst (findValidCredential sha tok now s)) = fresh_access cf rn s"
proof -
  have eq: "fresh_access cf rn s = list_all (\<lambda>(i, h). i \<noteq> rn_id rn
      \<and> h \<noteq> cf_sha cf (CREDENTIAL_TOKEN_PREFIXES BackendAccess @ rn_token rn)) (map (\<lambda>r. (ci_id r, cr_tokenHash r)) (st_credentials s))" for s
    by (simp add: fresh_access_def list.pred_map comp_def)
  show ?thesis using findValid_fst [of sha tok now s] by (auto simp: eq update_where_map simp del: map_map)
qed

lemma enrolled_exchange:
  assumes "st_ok (gw_storage g)" and "hq_authorization rq = Some (''Bearer '' @ enrolled)"
    and "snd (resolveToken cf enrolled now g) = Some p" and "ci_type p = Backend" and "fresh_access cf rn (gw_storage g)"
  shows "\<exists>g' x. exchange_token cf rq rn now g = (g', Reply 201 x)"
proof -
  have b: "bearer (hq_authorization rq) = Some enrolled" using assms(2) by (simp only: bearer_iff)
  have t: "isCredentialToken enrolled" "gw_storage (fst (resolveToken cf enrolled now g)) =
      fst (findValidCredential (cf_sha cf) enrolled now (gw_storage g))"
    using assms(3) by (auto simp: resolveToken_def Let_def split_def split: if_splits)
  from t(1) have n: "enrolled \<noteq> []" by (auto simp: isCredentialToken_def starts_with_def)
  obtain g1 where r: "resolveToken cf enrolled now g = (g1, Some p)"
    using assms(3) by (cases "resolveToken cf enrolled now g") auto
  with t(2) assms(1,5) have "st_ok (gw_storage g1)" "fresh_access cf rn (gw_storage g1)"
    by (simp_all add: st_ok_findValid)
  from exchange_succeeds [OF this(2,1), of p "cf_accessTtl cf" now] obtain s1 a tok rot where
    "exchangeAccessCredential (cf_sha cf) p (cf_accessTtl cf) rn now (gw_storage g1) = (s1, Inr (a, tok, rot))" by auto
  with b n r assms(4) show ?thesis by (simp add: exchange_token_def)
qed

lemma exchanged_token:
  assumes ok: "st_ok (gw_storage g)"
    and ex: "exchange_token cf rq rn now g = (g', Reply 201 (tok, e, ns))"
  shows "\<exists>p enrolled. hq_authorization rq = Some (''Bearer '' @ enrolled)
    \<and> snd (resolveToken cf enrolled now g) = Some p \<and> ci_type p = Backend \<and> ci_namespace p = ns
    \<and> (\<forall>later. \<not> past later e \<longrightarrow> \<not> past later (ci_expiresAt p) \<longrightarrow>
           (\<exists>c. snd (resolveToken cf tok later g') = Some c \<and> ci_type c = BackendAccess
             \<and> ci_namespace c = ns \<and> ci_parentId c = Some (ci_id p) \<and> ci_backendId c = ci_backendId p))"
proof -
  have fail: "denyUnauthorized cf ip m now h \<noteq> (g', Reply 201 x)" for ip m h and x :: "string \<times> int option \<times> string"
    by (simp add: denyUnauthorized_eq Let_def split: prod.split)
  obtain enrolled where b: "bearer (hq_authorization rq) = Some enrolled" "enrolled \<noteq> []"
    using ex fail by (cases "bearer (hq_authorization rq)") (auto simp: exchange_token_def Let_def split: if_splits)
  obtain g1 p where r: "resolveToken cf enrolled now g = (g1, Some p)"
    using ex b fail by (cases "resolveToken cf enrolled now g") (auto simp: exchange_token_def split: option.splits)
  have ty: "ci_type p = Backend"
    using ex b r by (auto simp: exchange_token_def split: if_splits)
  obtain c rot where xc: "exchangeAccessCredential (cf_sha cf) p (cf_accessTtl cf) rn now (gw_storage g1)
      = (gw_storage g', Inr (c, tok, rot))" and c: "ci_expiresAt c = e" "ci_namespace c = ns"
    using ex b r ty by (auto simp: exchange_token_def server_error_def split: prod.splits sum.splits)
  have g1: "gw_storage g1 = fst (findValidCredential (cf_sha cf) enrolled now (gw_storage g))"
    "snd (findValidCredential (cf_sha cf) enrolled now (gw_storage g)) = Some p"
    using r by (auto simp: resolveToken_def Let_def split: if_splits prod.splits)
  have ok1: "st_ok (gw_storage g1)" unfolding g1 by (rule st_ok_findValid [OF ok])
  have ok': "st_ok (gw_storage g')" using st_ok_exchange [OF ok1] xc by (metis fst_conv)
  obtain q where q: "q \<in> set (st_credentials (gw_storage g))" "p = credential_info.truncate q"
    "ci_revokedAt q = None"
    using g1(2) unfolding findValid_Some [OF ok] by blast
  have tq: "ci_id p = ci_id q" "ci_type p = ci_type q" "ci_expiresAt p = ci_expiresAt q" "ci_revokedAt p = ci_revokedAt q"
    by (simp_all add: q(2) credential_info.truncate_def)
  obtain q' where q': "getCredentialById (ci_id p) (gw_storage g1) = Some q'" "unused q' = unused q"
    using row_findValid [of "ci_id p" "cf_sha cf" enrolled now "gw_storage g"] row_of [OF ok q(1)]
    by (auto simp: g1(1) tq(1))
  have q'f: "ci_type q' = Backend" "ci_expiresAt q' = ci_expiresAt p" "ci_revokedAt q' = None"
    using arg_cong [OF q'(2), of ci_type] arg_cong [OF q'(2), of ci_expiresAt] arg_cong [OF q'(2), of ci_revokedAt]
      tq q(3) ty by (simp_all add: unused_def)
  have kept: "getCredentialById (ci_id p) (gw_storage g') = Some q'"
    by (rule exchange_keeps [OF xc q'(1) q'f(1) ok1])
  obtain a where a: "{x \<in> set (st_credentials (gw_storage g')). access_row x \<and> ci_parentId x = Some (ci_id p)} = {a}"
    "credential_info.truncate a = c" "cr_tokenHash a = cf_sha cf tok" "ci_revokedAt a = None"
    using exchange_row [OF ok1 xc] by blast
  have ta: "ci_expiresAt a = ci_expiresAt c" "ci_type a = ci_type c" "ci_parentId a = ci_parentId c"
    by (simp_all add: a(2) [symmetric] credential_info.truncate_def)
  have ain: "a \<in> set (st_credentials (gw_storage g'))" "ci_type a = BackendAccess" "ci_parentId a = Some (ci_id p)"
    using a(1) by (auto simp: access_row_def)
  show ?thesis
  proof (rule exI [of _ p], rule exI [of _ enrolled], intro conjI allI impI)
    show "hq_authorization rq = Some (''Bearer '' @ enrolled)" using b(1) by (simp only: bearer_iff)
    show "snd (resolveToken cf enrolled now g) = Some p" using r by simp
    show "ci_namespace p = ns" using exchange_fields(1) [OF xc] c(2) by simp
    show "\<exists>c. snd (resolveToken cf tok later g') = Some c \<and> ci_type c = BackendAccess
             \<and> ci_namespace c = ns \<and> ci_parentId c = Some (ci_id p) \<and> ci_backendId c = ci_backendId p"
      if "\<not> past later e" "\<not> past later (ci_expiresAt p)" for later
    proof -
      have "snd (findValidCredential (cf_sha cf) tok later (gw_storage g')) = Some c"
        unfolding findValid_Some [OF ok'] using that ain a(2-4) c(1) kept q'f ta
        by (intro exI [of _ a]) (auto simp: row_alive_def)
      then have "snd (resolveToken cf tok later g') = Some c"
        using exchange_fields(3) [OF xc] by (simp add: resolveToken_def Let_def split_def)
      with ain ta c exchange_fields(2) [OF xc] show ?thesis by simp
    qed
  qed (rule ty)
qed

text \<open>
  C14.  The exchange end to end.  With draws that are new to the table, \<open>/api/backend/token\<close> answers with a token
  whenever the bearer token resolves to an enrollment credential.  And whenever it answers with a token, draws new
  or not, the bearer token resolves to an enrollment credential of that namespace, and the token given
  authenticates, from then until it expires, as that enrollment's access credential for the same backend, as long
  as the enrollment itself has not expired.
\<close>

theorem exchange_authenticates:
  assumes "st_ok (gw_storage g)"
  shows "(\<forall>enrolled p. hq_authorization rq = Some (''Bearer '' @ enrolled) \<longrightarrow> snd (resolveToken cf enrolled now g) = Some p
        \<longrightarrow> ci_type p = Backend \<longrightarrow> fresh_access cf rn (gw_storage g)
        \<longrightarrow> (\<exists>g' x. exchange_token cf rq rn now g = (g', Reply 201 x)))
    \<and> (\<forall>g' tok e ns. exchange_token cf rq rn now g = (g', Reply 201 (tok, e, ns)) \<longrightarrow>
        (\<exists>p enrolled. hq_authorization rq = Some (''Bearer '' @ enrolled)
          \<and> snd (resolveToken cf enrolled now g) = Some p \<and> ci_type p = Backend \<and> ci_namespace p = ns
          \<and> (\<forall>later. \<not> past later e \<longrightarrow> \<not> past later (ci_expiresAt p) \<longrightarrow>
               (\<exists>c. snd (resolveToken cf tok later g') = Some c \<and> ci_type c = BackendAccess
                 \<and> ci_namespace c = ns \<and> ci_parentId c = Some (ci_id p) \<and> ci_backendId c = ci_backendId p))))"
  using enrolled_exchange [OF assms] exchanged_token [OF assms] by blast

definition sample_request :: "string \<Rightarrow> string option \<Rightarrow> http_request" where
  "sample_request method auth = \<lparr>hq_method = method, hq_remoteAddress = Some ''10.0.0.1'', hq_forwardedFor = None,
     hq_forwardedProto = None, hq_secure = False, hq_authorization = auth, hq_cookie = None, hq_origin = None,
     hq_host = None, hq_body = None\<rparr>"

definition sample_exchange :: "gateway \<times> (string \<times> int option \<times> string) reply" where
  "sample_exchange = exchange_token sample_config (sample_request ''POST'' (Some ''Bearer zgb_3''))
     (sample_draws ''4'') 60 (start_gateway sample_config sample_storage)"

theorem exchange_authenticates_witness:
  "\<exists>g' tok e ns c. exchange_token sample_config (sample_request ''POST'' (Some ''Bearer zgb_3'')) (sample_draws ''4'') 60
       (start_gateway sample_config sample_storage) = (g', Reply 201 (tok, e, ns))
     \<and> (past 1000 e \<or> snd (resolveToken sample_config tok 1000 g') = Some c \<and> ci_parentId c = Some ''c3'')"
proof -
  let ?g = "start_gateway sample_config sample_storage"
  let ?rq = "sample_request ''POST'' (Some ''Bearer zgb_3'')"
  have st: "st_ok (gw_storage ?g)" using st_ok_sample by (simp add: start_gateway_def)
  have a: "hq_authorization ?rq = Some (''Bearer '' @ ''zgb_3'')" by (simp add: sample_request_def)
  have r: "snd (resolveToken sample_config ''zgb_3'' 60 ?g) = Some sample_host" by code_simp
  have f: "fresh_access sample_config (sample_draws ''4'') (gw_storage ?g)" "ci_type sample_host = Backend" by code_simp+
  note x = exchange_authenticates [OF st, of ?rq sample_config 60 "sample_draws ''4''"]
  from x [THEN conjunct1, rule_format, OF a r f(2,1)] obtain g' tok e ns where
    y: "exchange_token sample_config ?rq (sample_draws ''4'') 60 ?g = (g', Reply 201 (tok, e, ns))" by auto
  from x [THEN conjunct2, rule_format, OF y] obtain p en where
    "hq_authorization ?rq = Some (''Bearer '' @ en)" "snd (resolveToken sample_config en 60 ?g) = Some p"
    and later: "\<forall>later. \<not> past later e \<longrightarrow> \<not> past later (ci_expiresAt p) \<longrightarrow>
       (\<exists>c. snd (resolveToken sample_config tok later g') = Some c \<and> ci_type c = BackendAccess
             \<and> ci_namespace c = ns \<and> ci_parentId c = Some (ci_id p) \<and> ci_backendId c = ci_backendId p)"
    by blast
  then have "p = sample_host" using r by (auto simp: sample_request_def)
  with later [rule_format, of 1000] y show ?thesis by (auto simp: sample_host_def past_def)
qed

definition sample_revoked :: "gateway \<times> string list reply" where
  "sample_revoked = revoke_credential sample_config ''c3'' 90 (fst sample_exchange)"

text \<open>Revoking the enrollment revokes the token exchanged from it.\<close>

theorem revoke_disconnects_witness:
  "case sample_revoked of (g', answer) \<Rightarrow> \<exists>ids. answer = Reply 200 ids \<and> ''c4'' \<in> set ids"
proof -
  have r: "list_ex (\<lambda>r. ci_id r = ''c3'' \<and> ci_revokedAt r = None) (st_credentials (gw_storage (fst sample_exchange)))"
    "list_ex (\<lambda>r. ci_id r = ''c4'' \<and> ci_revokedAt r = None \<and> ci_parentId r = Some ''c3'') (st_credentials (gw_storage (fst sample_exchange)))"
    by code_simp+
  obtain g' answer where x: "sample_revoked = (g', answer)" by fastforce
  have "\<exists>r\<in>set (st_credentials (gw_storage (fst sample_exchange))). ci_id r = ''c3'' \<and> ci_revokedAt r = None"
    using r(1) by (simp only: list_ex_iff)
  from revoke_disconnects [where cf = sample_config and i = "''c3''" and now = 90 and g = "fst sample_exchange",
      folded sample_revoked_def, unfolded x prod.case Let_def if_P [OF this]]
  obtain ids where ids: "answer = Reply 200 ids" "set ids = ci_id ` {r \<in> set (st_credentials (gw_storage (fst sample_exchange))).
      ci_revokedAt r = None \<and> (ci_id r = ''c3'' \<or> ci_parentId r = Some ''c3'')}" by blast
  obtain q where "q \<in> set (st_credentials (gw_storage (fst sample_exchange)))" "ci_id q = ''c4''" "ci_revokedAt q = None"
      "ci_parentId q = Some ''c3''"
    using r(2) by (auto simp only: list_ex_iff)
  then have "''c4'' \<in> set ids" unfolding ids(2) by (intro image_eqI [of _ _ q]) simp_all
  then show ?thesis by (simp add: x ids(1))
qed

end
