(* ===== verification/Gw_Http_Proxy.thy ===== *)
theory Gw_Http_Proxy
  imports Gw_Hello_Invariant Gw_Validation
begin

text \<open>
  src/server.ts, the HTTP proxy: the route with its authentication and limits, the internal channel
  it opens to the backend, and the bridge between the backend's data socket and the HTTP response.
  The parameters \<open>backendId\<close> and path come from the router.  An event of the data socket that throws
  has no handler above it (the \<open>ws\<close> package calls the listener directly), so it is the result
  \<open>Inl\<close>: the process dies.  \<open>res.write\<close>'s report of back pressure and the buffered amounts come
  from outside.
\<close>

section \<open>The route\<close>

text \<open>The 502 and 429 answers a request gets before it has a channel, or none when it has one.\<close>

definition ticket_for_backend :: "config \<Rightarrow> channel_draws \<Rightarrow> int \<Rightarrow> gateway \<Rightarrow> gateway" where
  "ticket_for_backend cf rn now g = issueChannelTicket cf (cd_id rn) RBackend (cd_backend rn) now g"

definition proxyViaChannel ::
  "config \<Rightarrow> res \<Rightarrow> proxy_request \<Rightarrow> string \<Rightarrow> int \<Rightarrow> peer_session \<Rightarrow> channel_draws \<Rightarrow> int \<Rightarrow> gateway \<Rightarrow> gateway" where
  "proxyViaChannel cf r pq backendId epoch backendPeer rn now g =
     (if countChannelsForPeer (ps_id backendPeer) g \<ge> cf_maxChannelsPerPeer cf
      then res_json r 429 ''RATE_LIMITED'' ''Too many open channels'' g
      else
        (let g1 = ticket_for_backend cf rn now g;
             ch = \<lparr>ch_id = cd_id rn, ch_backendId = backendId, ch_epoch = epoch, ch_kind = Some ''http'',
                   ch_client = [], ch_backend = ps_id backendPeer, ch_clientSocket = None,
                   ch_backendSocket = None, ch_piped = False, ch_tickets = [cd_backend rn],
                   ch_pairingAt = Some (now + cf_channelTicketTtlMs cf), ch_internal = True,
                   ch_internalRes = Some r\<rparr>;
             br = \<lparr>br_request = pq, br_res = r, br_ws = None, br_metaReceived = False,
                   br_responseAt = None, br_idleAt = None\<rparr>;
             g2 = g1\<lparr>gw_channels := jm_set (cd_id rn) ch (gw_channels g1),
                     gw_bridges := jm_set (cd_id rn) br (gw_bridges g1)\<rparr>
         in sendToWs (ps_ws backendPeer)
              (ChannelOffer (cd_id rn) (Some ''http'') None (cd_backend rn) (channel_path (cd_id rn))) g2))"

text \<open>An answer sent whole, with the 429 of a spent bucket.\<close>

definition answer :: "res \<Rightarrow> 'a reply \<Rightarrow> gateway \<Rightarrow> gateway" where
  "answer r rep g =
     (case rep of
        Fail status code message \<Rightarrow> res_json r status code message g
      | TooMany _ \<Rightarrow> res_json r 429 ''RATE_LIMITED'' ''Too many requests'' g
      | Reply _ _ \<Rightarrow> g)"

definition proxy_route ::
  "config \<Rightarrow> res \<Rightarrow> string option \<Rightarrow> string \<Rightarrow> string \<Rightarrow> proxy_request \<Rightarrow> channel_draws \<Rightarrow> int \<Rightarrow> gateway \<Rightarrow> gateway" where
  "proxy_route cf r authHeader ip backendId pq rn now g =
     (case requireGatewayAuth cf authHeader ip now g of
        (g1, Inl (rep :: unit reply)) \<Rightarrow> answer r rep g1
      | (g1, Inr c) \<Rightarrow>
          (case refuseProxyRequest cf (ci_id c) ip now g1 of
             (g2, Some (b, key)) \<Rightarrow>
               answer r (rateLimited (bucket_map b g2) key PROXY_RATE_WINDOW now :: unit reply) g2
           | (g2, None) \<Rightarrow>
               (case jm_get (gs_leases g2) backendId of
                  None \<Rightarrow> res_json r 502 ''BACKEND_OFFLINE'' ''Backend not found or offline'' g2
                | Some lease \<Rightarrow>
                    (case jm_get (gs_registry g2) backendId of
                       None \<Rightarrow> res_json r 502 ''BACKEND_OFFLINE'' ''Backend not found or offline'' g2
                     | Some presence \<Rightarrow>
                         if \<not> canReach (ci_namespace c) (ci_allowedBackends c) (pr_namespace presence) (pr_backendId presence)
                         then res_json r 502 ''BACKEND_OFFLINE'' ''Backend not found or offline'' g2
                         else (case jm_get (gs_peers g2) (le_peerSessionId lease) of
                                 None \<Rightarrow> res_json r 502 ''BACKEND_OFFLINE'' ''Backend peer not found'' g2
                               | Some backendPeer \<Rightarrow>
                                   proxyViaChannel cf r pq backendId (le_epoch lease) backendPeer rn now g2)))))"

section \<open>The bridge, request direction\<close>

definition request_headers :: "(string \<times> json) list \<Rightarrow> (string \<times> json) list" where
  "request_headers headers =
     List.map_filter (\<lambda>name. case js_string (map_of headers name) of
         Some v \<Rightarrow> Some (name, JStr v) | None \<Rightarrow> None) PROXY_REQUEST_HEADER_ALLOWLIST"

definition http_request_frame :: "proxy_request \<Rightarrow> json" where
  "http_request_frame pq =
     JObj [(''type'', JStr ''http_request''), (''method'', JStr (pq_method pq)), (''path'', JStr (pq_path pq)),
           (''headers'', JObj (request_headers (pq_headers pq)))]"

definition upd_bridge :: "string \<Rightarrow> (bridge \<Rightarrow> bridge) \<Rightarrow> gateway \<Rightarrow> gateway" where
  "upd_bridge cid f g = g\<lparr>gw_bridges := jm_upd cid f (gw_bridges g)\<rparr>"

definition bridgeHttpChannel :: "config \<Rightarrow> string \<Rightarrow> ws \<Rightarrow> int \<Rightarrow> gateway \<Rightarrow> gateway" where
  "bridgeHttpChannel cf cid w now g =
     (case jm_get (gw_bridges g) cid of
        None \<Rightarrow> g
      | Some br \<Rightarrow>
          upd_bridge cid (\<lambda>b. b\<lparr>br_ws := Some w, br_responseAt := Some (now + cf_proxyRequestTimeoutMs cf)\<rparr>)
            (emit (OFrame w (http_request_frame (br_request br))) g))"

text \<open>The dial of a data socket, the bridge of an internal channel included.\<close>

definition dial_socket :: "config \<Rightarrow> string \<Rightarrow> string \<Rightarrow> ws \<Rightarrow> int \<Rightarrow> gateway \<Rightarrow> gateway" where
  "dial_socket cf cid token w now g =
     (case handleChannelUpgrade cid token now g of
        (g1, None) \<Rightarrow> g1
      | (g1, Some r) \<Rightarrow>
          (case channelUpgraded cf cid r w g1 of
             (g2, False) \<Rightarrow> g2
           | (g2, True) \<Rightarrow> emit (OResume w) (bridgeHttpChannel cf cid w now g2)))"

text \<open>A chunk of the request's body; the second component starts polling for the buffer to drain.\<close>

definition request_data :: "string \<Rightarrow> string \<Rightarrow> int \<Rightarrow> gateway \<Rightarrow> gateway \<times> bool" where
  "request_data cid chunk buffered g =
     (case jm_get (gw_bridges g) cid of
        None \<Rightarrow> (g, False)
      | Some br \<Rightarrow>
          (case br_ws br of
             None \<Rightarrow> (g, False)
           | Some w \<Rightarrow>
               if gw_ready g w \<noteq> Open then (g, False)
               else
                 (let g1 = emit (OBytes w chunk) g
                  in if buffered > HIGH_WATER then (emit (OPauseReq (br_res br)) g1, True) else (g1, False))))"

definition request_drain_tick :: "string \<Rightarrow> int \<Rightarrow> gateway \<Rightarrow> gateway \<times> bool" where
  "request_drain_tick cid buffered g =
     (case jm_get (gw_bridges g) cid of
        None \<Rightarrow> (g, False)
      | Some br \<Rightarrow>
          (case br_ws br of
             None \<Rightarrow> (g, False)
           | Some w \<Rightarrow>
               if relay_drain_tick (gw_ready g w = Open) buffered then (emit (OResumeReq (br_res br)) g, False)
               else (g, True)))"

definition request_end :: "string \<Rightarrow> gateway \<Rightarrow> gateway" where
  "request_end cid g =
     (case Option.bind (jm_get (gw_bridges g) cid) br_ws of
        None \<Rightarrow> g
      | Some w \<Rightarrow>
          if gw_ready g w = Open then emit (OFrame w (JObj [(''type'', JStr ''http_request_end'')])) g else g)"

section \<open>The bridge, response direction\<close>

text \<open>What Node's \<open>setHeader\<close> accepts as a value.\<close>

definition valid_header_value :: "string \<Rightarrow> bool" where
  "valid_header_value v =
     list_all (\<lambda>c. let n = (of_char c :: nat) in n = 9 \<or> 32 \<le> n \<and> n \<le> 126 \<or> 128 \<le> n) v"

definition header_throws :: "res \<Rightarrow> (string \<times> string) list \<Rightarrow> gateway \<Rightarrow> bool" where
  "header_throws r hs g \<longleftrightarrow>
     hs \<noteq> [] \<and> (rs_headersSent (gw_res g r) \<or> \<not> list_all (\<lambda>(k, v). valid_header_value v) hs)"

text \<open>\<open>res.write('')\<close>: the head goes out unless it has, or the response is destroyed.\<close>

definition res_head :: "res \<Rightarrow> nat \<Rightarrow> (string \<times> string) list \<Rightarrow> gateway \<Rightarrow> gateway" where
  "res_head r status hs g =
     (if rs_headersSent (gw_res g r) \<or> rs_destroyed (gw_res g r) then g
      else emit (OHead r status hs) (g\<lparr>gw_res := (gw_res g)(r := (gw_res g r)\<lparr>rs_headersSent := True\<rparr>)\<rparr>))"

text \<open>Writing to a response that has ended, but is not destroyed, raises an error nobody handles.\<close>

definition write_fails :: "res \<Rightarrow> gateway \<Rightarrow> bool" where
  "write_fails r g \<longleftrightarrow> rs_writableEnded (gw_res g r) \<and> \<not> rs_destroyed (gw_res g r)"

definition response_status :: "json \<Rightarrow> nat" where
  "response_status meta =
     (case js_field meta ''status'' of
        Some (JNum (NFin q)) \<Rightarrow> if rat_is_int q \<and> 100 \<le> q \<and> q \<le> 599 then nat \<lfloor>q\<rfloor> else 502
      | _ \<Rightarrow> 502)"

definition response_headers :: "proxy_request \<Rightarrow> json \<Rightarrow> (string \<times> string) list" where
  "response_headers pq meta =
     filterProxyResponseHeaders (js_field meta ''headers'')
       @ (case js_string (map_of (pq_headers pq) ''x-request-id'') of Some v \<Rightarrow> [(''x-request-id'', v)] | None \<Rightarrow> [])"

text \<open>A frame of the data socket: text with what it parses to, none when it does not, or bytes.\<close>

datatype data_frame = Text "json option" | Binary string

definition bridge_meta :: "config \<Rightarrow> string \<Rightarrow> bridge \<Rightarrow> json \<Rightarrow> int \<Rightarrow> gateway \<Rightarrow> unit + gateway" where
  "bridge_meta cf cid br meta now g =
     (let r = br_res br; hs = response_headers (br_request br) meta in
      if meta = JNull \<or> header_throws r hs g \<or> write_fails r g then Inl ()
      else Inr (upd_bridge cid (\<lambda>b. b\<lparr>br_metaReceived := True,
                                     br_idleAt := Some (now + cf_proxyStreamingTimeoutMs cf)\<rparr>)
                  (res_head r (response_status meta) hs g)))"

definition bridge_message ::
  "config \<Rightarrow> string \<Rightarrow> ws \<Rightarrow> data_frame \<Rightarrow> bool \<Rightarrow> int \<Rightarrow> gateway \<Rightarrow> unit + gateway" where
  "bridge_message cf cid w f writable now g =
     (case jm_get (gw_bridges g) cid of
        None \<Rightarrow> Inr g
      | Some br \<Rightarrow>
          if \<not> br_metaReceived br then
            (let g1 = upd_bridge cid (\<lambda>b. b\<lparr>br_responseAt := None\<rparr>) g in
             case f of
               Text (Some meta) \<Rightarrow> bridge_meta cf cid br meta now g1
             | _ \<Rightarrow> Inr (teardownChannel cf cid ''closed'' g1))
          else
            (case f of
               Text _ \<Rightarrow> Inr g
             | Binary d \<Rightarrow>
                 (let r = br_res br;
                      g1 = upd_bridge cid (\<lambda>b. b\<lparr>br_idleAt := Some (now + cf_proxyStreamingTimeoutMs cf)\<rparr>) g
                  in if write_fails r g1 then Inl ()
                     else if rs_destroyed (gw_res g1 r) then Inr (emit (OPause w) g1)
                     else (let g2 = emit (OWrite r d) g1
                           in Inr (if writable then g2 else emit (OPause w) g2)))))"

definition bridge_drained :: "ws \<Rightarrow> gateway \<Rightarrow> gateway" where
  "bridge_drained w g = emit (OResume w) g"

definition due :: "int \<Rightarrow> int option \<Rightarrow> bool" where
  "due now t = (case t of None \<Rightarrow> False | Some d \<Rightarrow> d \<le> now)"

definition bridge_timeout :: "config \<Rightarrow> string \<Rightarrow> int \<Rightarrow> gateway \<Rightarrow> gateway" where
  "bridge_timeout cf cid now g =
     (case jm_get (gw_bridges g) cid of
        None \<Rightarrow> g
      | Some br \<Rightarrow>
          if due now (br_responseAt br) then
            teardownChannel cf cid ''timeout'' (upd_bridge cid (\<lambda>b. b\<lparr>br_responseAt := None\<rparr>) g)
          else if due now (br_idleAt br) then
            teardownChannel cf cid ''timeout'' (upd_bridge cid (\<lambda>b. b\<lparr>br_idleAt := None\<rparr>) g)
          else g)"

definition res_end :: "res \<Rightarrow> gateway \<Rightarrow> gateway" where
  "res_end r g =
     (if \<not> rs_writableEnded (gw_res g r) \<and> \<not> rs_destroyed (gw_res g r)
      then emit (OEnd r) (g\<lparr>gw_res := (gw_res g)(r := (gw_res g r)\<lparr>rs_writableEnded := True\<rparr>)\<rparr>) else g)"

definition bridge_closed :: "config \<Rightarrow> string \<Rightarrow> gateway \<Rightarrow> gateway" where
  "bridge_closed cf cid g =
     (case jm_get (gw_bridges g) cid of
        None \<Rightarrow> g
      | Some br \<Rightarrow>
          (let g1 = g\<lparr>gw_bridges := jm_del cid (gw_bridges g)\<rparr>
           in if br_metaReceived br then
                (let g2 = res_end (br_res br) g1;
                     g3 = g2\<lparr>gw_channels := jm_upd cid (\<lambda>ch. ch\<lparr>ch_internalRes := None\<rparr>) (gw_channels g2)\<rparr>
                 in teardownChannel cf cid ''closed'' g3)
              else teardownChannel cf cid ''closed'' g1))"

text \<open>The response's own \<open>close\<close> event: Node has marked it destroyed.\<close>

definition response_closed :: "config \<Rightarrow> string \<Rightarrow> res \<Rightarrow> gateway \<Rightarrow> gateway" where
  "response_closed cf cid r g =
     teardownChannel cf cid ''closed'' (g\<lparr>gw_res := (gw_res g)(r := (gw_res g r)\<lparr>rs_destroyed := True\<rparr>)\<rparr>)"

section \<open>The server's invariant\<close>

lemma inv_bridge_frames [simp]:
  "gw_inv (upd_bridge cid f g) = gw_inv g" "gw_inv (res_head r s hs g) = gw_inv g" "gw_inv (res_end r g) = gw_inv g"
  "gw_inv (answer r rep g) = gw_inv g" "gw_inv (bridge_drained w g) = gw_inv g"
  by (simp_all add: upd_bridge_def res_head_def res_end_def answer_def bridge_drained_def split: reply.split)

lemma core_upd_fields [simp]:
  "gw_channels (upd_bridge cid f g) = gw_channels g" "gw_channels (res_head r s hs g) = gw_channels g"
  "gw_channels (res_end r g) = gw_channels g"
  by (simp_all add: upd_bridge_def res_head_def res_end_def)

lemma inv_auth: "gw_inv g \<Longrightarrow> gw_inv (fst (requireGatewayAuth cf h ip now g))"
  using inv_resolveToken [of g cf _ now]
  by (auto simp: requireGatewayAuth_def denyUnauthorized_eq Let_def split: option.split prod.split)
     (metis fst_conv)+

lemma inv_refuse: "gw_inv g \<Longrightarrow> gw_inv (fst (refuseProxyRequest cf c ip now g))"
  by (auto simp: refuseProxyRequest_def Let_def split: prod.split)

lemma refuse_channels: "gw_channels (fst (refuseProxyRequest cf c ip now g)) = gw_channels g"
  by (auto simp: refuseProxyRequest_def Let_def split: prod.split)

lemma auth_channels: "gw_channels (fst (requireGatewayAuth cf h ip now g)) = gw_channels g"
  by (auto simp: requireGatewayAuth_def resolveToken_def denyUnauthorized_eq Let_def split: option.split prod.split if_splits)

lemma inv_proxyViaChannel:
  assumes inv: "gw_inv g" and fresh: "jm_get (gw_channels g) (cd_id rn) = None"
    and l: "jm_get (gs_leases g) b = Some l" "jm_get (gs_registry g) b = Some pr"
    and p: "jm_get (gs_peers g) (le_peerSessionId l) = Some p"
  shows "gw_inv (proxyViaChannel cf r pq b (le_epoch l) p rn now g)"
proof (cases "countChannelsForPeer (ps_id p) g \<ge> cf_maxChannelsPerPeer cf")
  case True
  with inv show ?thesis by (simp add: proxyViaChannel_def)
next
  case False
  define ch where "ch = \<lparr>ch_id = cd_id rn, ch_backendId = b, ch_epoch = le_epoch l, ch_kind = Some ''http'',
                   ch_client = [], ch_backend = ps_id p, ch_clientSocket = None,
                   ch_backendSocket = None, ch_piped = False, ch_tickets = [cd_backend rn],
                   ch_pairingAt = Some (now + cf_channelTicketTtlMs cf), ch_internal = True,
                   ch_internalRes = Some r\<rparr>"
  define ts where "ts = jm_set (cd_backend rn) \<lparr>tk_channelId = cd_id rn, tk_role = RBackend,
                   tk_expiresAt = now + cf_channelTicketTtlMs cf\<rparr> (gw_tickets g)"
  have no: "jm_get (gs_peers g) [] = None" using inv_peersD(2) [OF inv, of "[]"] by fastforce
  have "gw_inv (g\<lparr>gw_tickets := ts, gw_channels := jm_set (ch_id ch) ch (gw_channels g)\<rparr>)"
    by (rule inv_add_channel [OF inv, where l = l and pr = pr])
       (use fresh l p no inv_peersD(1) [OF inv p] inv_parts(1) [OF inv] in
         \<open>auto simp: ch_def ts_def inv_maps_def split: if_splits\<close>)
  then have "gw_inv ((g\<lparr>gw_tickets := ts, gw_channels := jm_set (cd_id rn) ch (gw_channels g)\<rparr>)\<lparr>gw_bridges := bs\<rparr>)" for bs
    by (simp add: ch_def)
  with False show ?thesis
    by (simp add: proxyViaChannel_def ticket_for_backend_def issueChannelTicket_def ch_def ts_def Let_def)
qed

lemma inv_proxy_route:
  assumes inv: "gw_inv g" and fresh: "jm_get (gw_channels g) (cd_id rn) = None"
  shows "gw_inv (proxy_route cf r h ip b pq rn now g)"
proof -
  obtain g1 x where a: "requireGatewayAuth cf h ip now g = (g1, x :: unit reply + credential_info)" by fastforce
  have g1: "gw_inv g1" "jm_get (gw_channels g1) (cd_id rn) = None"
    using inv_auth [OF inv] auth_channels fresh a by (metis fst_conv)+
  show ?thesis
  proof (cases x)
    case (Inl rep)
    with g1 show ?thesis by (simp add: proxy_route_def a)
  next
    case (Inr c)
    obtain g2 y where f: "refuseProxyRequest cf (ci_id c) ip now g1 = (g2, y)" by fastforce
    have "gw_inv g2" "jm_get (gw_channels g2) (cd_id rn) = None"
      using inv_refuse [OF g1(1)] refuse_channels g1(2) f by (metis fst_conv)+
    with Inr show ?thesis
      by (auto simp: proxy_route_def a f split: option.split intro!: inv_proxyViaChannel)
  qed
qed

lemma inv_dial_socket: "gw_inv g \<Longrightarrow> gw_inv (dial_socket cf cid tok w now g)"
proof -
  assume g: "gw_inv g"
  obtain g1 x where u: "handleChannelUpgrade cid tok now g = (g1, x)" by fastforce
  have g1: "gw_inv g1" using inv_upgrade [OF g] u by (metis fst_conv)
  show ?thesis
  proof (cases x)
    case (Some role)
    obtain g2 y where c: "channelUpgraded cf cid role w g1 = (g2, y)" by fastforce
    have "gw_inv g2" using inv_upgraded [OF g1] c by (metis fst_conv)
    with Some c u show ?thesis
      by (simp add: dial_socket_def bridgeHttpChannel_def split: option.split bool.split)
  qed (use g1 u in \<open>simp add: dial_socket_def\<close>)
qed

lemma inv_bridge_meta: "gw_inv g \<Longrightarrow> bridge_meta cf cid br m now g = Inr h \<Longrightarrow> gw_inv h"
  by (auto simp: bridge_meta_def Let_def split: if_splits)

lemma inv_bridge_message: "gw_inv g \<Longrightarrow> bridge_message cf cid w f wr now g = Inr h \<Longrightarrow> gw_inv h"
  by (auto simp: bridge_message_def Let_def inv_teardown split: option.splits if_splits data_frame.splits
      dest: inv_bridge_meta [rotated])

lemma inv_bridge_timeout: "gw_inv g \<Longrightarrow> gw_inv (bridge_timeout cf cid now g)"
  by (auto simp: bridge_timeout_def inv_teardown split: option.split)

lemma inv_bridge_closed: "gw_inv g \<Longrightarrow> gw_inv (bridge_closed cf cid g)"
proof -
  assume g: "gw_inv g"
  have "gw_inv ((res_end r (g\<lparr>gw_bridges := bs\<rparr>))\<lparr>gw_channels :=
      jm_upd cid (\<lambda>ch. ch\<lparr>ch_internalRes := None\<rparr>) (gw_channels (res_end r (g\<lparr>gw_bridges := bs\<rparr>)))\<rparr>)" for r bs
    by (rule inv_upd_channel) (use g in \<open>simp_all add: same_channel_def\<close>)
  with g show ?thesis
    by (auto simp: bridge_closed_def Let_def inv_teardown split: option.split)
qed

lemma inv_response_closed: "gw_inv g \<Longrightarrow> gw_inv (response_closed cf cid r g)"
  by (simp add: response_closed_def inv_teardown)

lemma inv_request_data: "gw_inv g \<Longrightarrow> gw_inv (fst (request_data cid c n g))"
  by (auto simp: request_data_def Let_def split: option.split)

lemma inv_request_drain: "gw_inv g \<Longrightarrow> gw_inv (fst (request_drain_tick cid n g))"
  by (auto simp: request_drain_tick_def Let_def split: option.split)

lemma inv_request_end: "gw_inv g \<Longrightarrow> gw_inv (request_end cid g)"
  by (auto simp: request_end_def Let_def split: option.split)

section \<open>Frames that kill the process\<close>

lemma teardown_bridges [simp]: "gw_bridges (teardownChannel cf cid r g) = gw_bridges g"
  by (simp add: core_fields [OF core_teardown] drop_channel_def)

lemma answer_internal_res:
  "gw_res (answer_internal reason ch g) =
     (case ch_internalRes ch of None \<Rightarrow> gw_res g
      | Some r \<Rightarrow> (gw_res g)(r := (if \<not> rs_headersSent (gw_res g r)
            then (gw_res g r)\<lparr>rs_headersSent := True, rs_writableEnded := True\<rparr>
            else if \<not> rs_writableEnded (gw_res g r) \<and> \<not> rs_destroyed (gw_res g r)
            then (gw_res g r)\<lparr>rs_destroyed := True\<rparr> else gw_res g r)))"
  by (auto simp: answer_internal_def res_json_def res_destroy_def emit_def split: option.split)

lemma leg_res [simp]: "gw_res (close_leg cf reason leg g) = gw_res g" "gw_res (tell_peer sid m g) = gw_res g"
  by (simp_all add: close_leg_def tell_peer_def ws_close_def ws_terminate_def emit_def sendToWs_def Let_def split: option.split)

lemma teardown_res:
  "gw_res (teardownChannel cf cid reason g) =
     (case jm_get (gw_channels g) cid of None \<Rightarrow> gw_res g
      | Some ch \<Rightarrow> gw_res (answer_internal reason ch g))"
  by (auto simp: teardownChannel_def Let_def answer_internal_res split: option.split)

lemma leg_out: "set (gw_out g) \<subseteq> set (gw_out (close_leg cf reason leg g))" "set (gw_out g) \<subseteq> set (gw_out (tell_peer sid m g))"
  by (auto simp: close_leg_def tell_peer_def ws_close_def ws_terminate_def emit_def sendToWs_def Let_def split: option.split)

lemma teardown_answers:
  assumes "jm_get (gw_channels g) cid = Some ch" and "ch_internalRes ch = Some r" and "\<not> rs_headersSent (gw_res g r)"
  shows "OJson r (if reason = ''timeout'' then 504 else 502)
      (if reason = ''timeout'' then ''GATEWAY_TIMEOUT'' else ''BACKEND_OFFLINE'') (''Proxy channel '' @ reason)
    \<in> set (gw_out (teardownChannel cf cid reason g))" (is "?x \<in> _")
proof -
  let ?g = "answer_internal reason ch (g\<lparr>gw_channels := jm_del cid (gw_channels g),
    gw_tickets := fold jm_del (ch_tickets ch) (gw_tickets g)\<rparr>)"
  have "?x \<in> set (gw_out ?g)" using assms(2,3) by (simp add: answer_internal_def res_json_def emit_def)
  moreover have "set (gw_out ?g) \<subseteq> set (gw_out (teardownChannel cf cid reason g))"
    using assms(1) by (simp add: teardownChannel_def Let_def) (meson leg_out subset_trans)
  ultimately show ?thesis by blast
qed

text \<open>
  C17.  A late response kills the gateway: once a proxied request has timed out (504), the backend's
  answer to it, if it still arrives and carries any header the gateway passes on, makes the frame
  handler throw, and nothing catches it.  So does, at any time before the response began, a frame
  whose text is \<open>null\<close>.
\<close>

theorem late_response_throws:
  assumes ch: "jm_get (gw_channels g) cid = Some ch" "ch_internalRes ch = Some r"
    and br: "jm_get (gw_bridges g) cid = Some br" "br_res br = r" "\<not> br_metaReceived br"
    and late: "due now (br_responseAt br)" "\<not> rs_headersSent (gw_res g r)"
    and hs: "response_headers (br_request br) m \<noteq> []"
  shows "OJson r 504 ''GATEWAY_TIMEOUT'' ''Proxy channel timeout'' \<in> set (gw_out (bridge_timeout cf cid now g))
    \<and> bridge_message cf cid w (Text (Some m)) wr later (bridge_timeout cf cid now g) = Inl ()
    \<and> bridge_message cf cid w (Text (Some JNull)) wr later g = Inl ()"
proof -
  let ?k = "upd_bridge cid (\<lambda>b. b\<lparr>br_responseAt := None\<rparr>) g"
  have k: "jm_get (gw_channels ?k) cid = Some ch" "gw_res ?k = gw_res g"
    using ch by (simp_all add: upd_bridge_def)
  have t: "bridge_timeout cf cid now g = teardownChannel cf cid ''timeout'' ?k"
    using br late by (simp add: bridge_timeout_def)
  have "OJson r 504 ''GATEWAY_TIMEOUT'' ''Proxy channel timeout'' \<in> set (gw_out (bridge_timeout cf cid now g))"
    using teardown_answers [OF k(1) ch(2), of "''timeout''" cf] late k(2) by (simp add: t)
  moreover have "rs_headersSent (gw_res (bridge_timeout cf cid now g) r)"
    using ch late by (simp add: t teardown_res k answer_internal_res)
  then have "header_throws r (response_headers (br_request br) m)
      (upd_bridge cid (\<lambda>b. b\<lparr>br_responseAt := None\<rparr>) (bridge_timeout cf cid now g))"
    using hs by (simp add: header_throws_def upd_bridge_def)
  then have "bridge_message cf cid w (Text (Some m)) wr later (bridge_timeout cf cid now g) = Inl ()"
    using br by (simp add: bridge_message_def t Let_def upd_bridge_def) (simp add: bridge_meta_def Let_def)
  moreover have "bridge_message cf cid w (Text (Some JNull)) wr later g = Inl ()"
    using br by (simp add: bridge_message_def bridge_meta_def Let_def)
  ultimately show ?thesis by blast
qed

definition sample_proxy_request :: proxy_request where
  "sample_proxy_request = \<lparr>pq_method = ''GET'', pq_path = ''/x'', pq_headers = [(''accept'', JStr ''text/html'')]\<rparr>"

definition sample_bridged :: gateway where
  "sample_bridged = dial_socket sample_config ''ch1'' ''t2'' 8 200
     (proxyViaChannel sample_config 7 sample_proxy_request ''b1'' 1 sample_host_peer sample_channel_draws 100 sample_online)"

definition sample_meta :: json where
  "sample_meta = JObj [(''status'', JNum (NFin 200)), (''headers'', JObj [(''content-type'', JStr ''text/html'')])]"

theorem late_response_throws_witness:
  "bridge_message sample_config ''ch1'' 8 (Text (Some sample_meta)) True 30300
     (bridge_timeout sample_config ''ch1'' 30200 sample_bridged) = Inl ()"
proof -
  define ch where "ch = the (jm_get (gw_channels sample_bridged) ''ch1'')"
  define br where "br = the (jm_get (gw_bridges sample_bridged) ''ch1'')"
  have c: "jm_get (gw_channels sample_bridged) ''ch1'' = Some ch" "ch_internalRes ch = Some 7"
    unfolding ch_def by code_simp+
  have b: "jm_get (gw_bridges sample_bridged) ''ch1'' = Some br" "br_res br = 7" "\<not> br_metaReceived br"
    "due 30200 (br_responseAt br)" "\<not> rs_headersSent (gw_res sample_bridged 7)"
    unfolding br_def by code_simp+
  have "response_headers (br_request br) sample_meta \<noteq> []"
    unfolding br_def by code_simp
  from late_response_throws [OF c b this] show ?thesis by blast
qed

end
