(* ===== verification/Gw_System.thy ===== *)
theory Gw_System
  imports Gw_Http_Proxy Gw_Admin_Api
begin

text \<open>
  The running server: every event it handles is a step, and the invariant of \<open>Gw_Invariant\<close> holds in
  every reachable state.  What an event draws (ids, tokens, UUIDs) is fresh: 122 or more random bits
  that no earlier draw produced.  A frame handler that throws ends the process, so it has no step.
\<close>

section \<open>Handlers that are not covered yet\<close>

definition fresh_all :: "draws_all \<Rightarrow> gateway \<Rightarrow> bool" where
  "fresh_all rn g \<longleftrightarrow> fresh_draws (da_hello rn) g \<and> jm_get (gw_channels g) (cd_id (da_channel rn)) = None
     \<and> (\<forall>(w, c)\<in>set (gw_conns g). cn_session c \<noteq> Some (hd_session (da_hello rn)))"

lemma inv_push: "gw_inv g \<Longrightarrow> gw_inv (handlePushNotificationRequest p e g)"
  by (auto simp: handlePushNotificationRequest_def split: option.split)

lemma inv_snapshot: "gw_inv g \<Longrightarrow> gw_inv (handleRequestRegistrySnapshot p g)"
  by (simp add: handleRequestRegistrySnapshot_def)

lemma inv_server_message: "gw_inv g \<Longrightarrow> gw_inv (handleBackendServerMessage p b t m g)"
  by (auto simp: handleBackendServerMessage_def split: option.split)

lemma inv_reject: "gw_inv g \<Longrightarrow> gw_inv (handleChannelReject cf p c g)"
  by (auto simp: handleChannelReject_def inv_teardown split: option.split)

lemma inv_close: "gw_inv g \<Longrightarrow> gw_inv (handleChannelClose cf p c g)"
  by (auto simp: handleChannelClose_def inv_teardown split: option.split)

lemma inv_peer_message:
  assumes "gw_inv g" and "jm_get (gw_channels g) (cd_id (da_channel rn)) = None"
  shows "gw_inv (handlePeerMessage cf sid m rn now g)"
proof (cases "jm_get (gs_peers g) sid")
  case (Some p)
  have "jm_get (gs_peers g) (ps_id p) = Some p" using Some inv_peersD(1) [OF assms(1) Some] by simp
  with assms Some show ?thesis
    by (simp add: handlePeerMessage_def Let_def inv_heartbeat inv_snapshot inv_server_message inv_push inv_open
        inv_reject inv_close inv_subscribe inv_unsubscribe inv_publish split: option.split)
qed (use assms in \<open>simp add: handlePeerMessage_def\<close>)

lemma inv_ws_message:
  assumes inv: "gw_inv g" and fresh: "fresh_all rn g"
  shows "gw_inv (ws_message cf w frame rn now g)"
proof (cases "jm_get (gw_conns g) w")
  case None
  with inv show ?thesis by (simp add: ws_message_def)
next
  case (Some c)
  let ?g = "upd_conn w (\<lambda>c. c\<lparr>cn_authAt := None\<rparr>) g"
  have g: "gw_inv ?g" by (rule inv_upd_authAt [OF inv])
  have f: "fresh_draws (da_hello rn) ?g"
    using fresh by (simp add: fresh_all_def fresh_draws_def mentions_def upd_conn_def subscribers_def)
  have bad: "gw_inv (bad_frame cf w b h) = gw_inv h" for b h by (simp add: bad_frame_def Let_def)
  show ?thesis
  proof (cases "\<exists>m. frame = Some m \<and> cn_session c = None \<and> validatePeerHelloV4 m = None")
    case True
    then obtain m where m: "frame = Some m" "cn_session c = None" "validatePeerHelloV4 m = None" by blast
    have c': "jm_get (gw_conns ?g) w = Some (c\<lparr>cn_authAt := None\<rparr>)" "cn_session (c\<lparr>cn_authAt := None\<rparr>) = None"
      using Some m by (simp_all add: upd_conn_def)
    show ?thesis
      using inv_hello [OF g c' f, of cf "parse_hello m" "cn_ip c" now] Some m
      by (simp add: ws_message_def bad split: prod.splits sum.splits)
  next
    case False
    with inv Some fresh show ?thesis
      by (auto simp: ws_message_def bad fresh_all_def inv_peer_message split: option.splits)
  qed
qed

lemma inv_pairing_timeout: "gw_inv g \<Longrightarrow> gw_inv (pairing_timeout cf cid now g)"
  by (auto simp: pairing_timeout_def inv_teardown split: option.split)

lemma inv_socket_closed: "gw_inv g \<Longrightarrow> gw_inv (channel_socket_closed cf cid g)"
  by (simp add: channel_socket_closed_def inv_teardown)

lemma inv_grace: "gw_inv g \<Longrightarrow> gw_inv (replaced_grace_elapsed cf w g)"
  by (simp add: replaced_grace_elapsed_def)

section \<open>The HTTP endpoints\<close>

lemma inv_close_peers [simp]: "gw_inv (close_peers cf P r ps g) = gw_inv g"
  by (rule inv_core) simp

lemma inv_afterRevoke [simp]: "gw_inv (afterRevoke cf ids g) = gw_inv g"
  by (simp add: afterRevoke_def)

lemma inv_deny: "gw_inv (fst (denyUnauthorized cf ip m now g)) = gw_inv g"
  by (simp add: denyUnauthorized_eq Let_def split: prod.split)

lemma inv_cookie: "gw_inv (fst (cookie_session rq now g)) = gw_inv g"
  using cookie_session_frame [of rq now g] by auto

lemma inv_requireAdmin: "gw_inv (fst (requireAdmin cf host_of rq now g)) = gw_inv g"
proof -
  obtain g1 x where c: "cookie_session rq now g = (g1, x)" by fastforce
  have "gw_inv g1 = gw_inv g" using inv_cookie [of rq now g] c by simp
  then show ?thesis
    by (auto simp: requireAdmin_def c Let_def inv_deny split_def split: sum.split option.split)
qed

lemma inv_admin_route:
  fixes handler :: "gateway \<Rightarrow> gateway \<times> 'a reply"
  assumes "gw_inv g" and "\<And>h. gw_inv h \<Longrightarrow> gw_inv (fst (handler h))"
  shows "gw_inv (fst (admin_route cf host_of rq now handler g))"
proof -
  obtain g1 x where r: "requireAdmin cf host_of rq now g = (g1, x :: 'a reply option)" by fastforce
  have "gw_inv g1"
    using arg_cong [OF r, of "\<lambda>z. gw_inv (fst z)"] assms(1) by (simp add: inv_requireAdmin)
  with assms(2) show ?thesis by (simp add: admin_route_def r split: option.split)
qed

lemmas st_kept_api = st_kept_step [of "SForget b" for b, simplified]
  st_kept_step [of "SBind i b" for i b, simplified] st_kept_step [of "SScope i a" for i a, simplified]
  st_kept_step [of "SRevoke i t" for i t, simplified] st_kept_step [of "SRevokes js t" for js t, simplified]
  st_kept_step [of "SPurge ids" for ids, simplified]

lemma inv_issue: "gw_inv g \<Longrightarrow> rn_backendId rn \<noteq> [] \<Longrightarrow> gw_inv (fst (issue_credential cf rq rn now g))"
proof -
  assume g: "gw_inv g" and rn: "rn_backendId rn \<noteq> []"
  have "st_kept (gw_storage g) st" if "createCredential (cf_sha cf) inp rn now (gw_storage g) = (st, x)" for inp st x
    using st_kept_step [of "SCreate inp rn now" "gw_storage g" "cf_sha cf"] rn that by simp
  with g show ?thesis
    by (auto simp: issue_credential_def split: sum.split prod.split intro: inv_set_storage)
qed

lemma inv_exchange: "gw_inv g \<Longrightarrow> gw_inv (fst (exchange_token cf rq rn now g))"
proof -
  assume g: "gw_inv g"
  define tok where "tok = or_else (bearer (hq_authorization rq)) []"
  obtain g1 a where r: "(if tok = [] then (g, None) else resolveToken cf tok now g) = (g1, a)" by fastforce
  have g1: "gw_inv g1" using g inv_resolveToken [OF g, of cf tok now] r by (auto split: if_splits)
  have "st_kept (gw_storage g1) st" if "exchangeAccessCredential (cf_sha cf) p t rn now (gw_storage g1) = (st, x)" for p t st x
    using st_kept_step [of "SExchange p t rn now" "gw_storage g1" "cf_sha cf"] that by simp
  with g1 show ?thesis
    unfolding exchange_token_def tok_def [symmetric] Let_def r prod.case
    by (auto simp: inv_deny split: sum.split prod.split option.split intro: inv_set_storage)
qed

lemma inv_admin_handlers:
  "gw_inv g \<Longrightarrow> gw_inv (fst (delete_backend b g))"
  "gw_inv g \<Longrightarrow> gw_inv (fst (bind_credential i rq g))"
  "gw_inv g \<Longrightarrow> gw_inv (fst (change_scope cf i rq g))"
  "gw_inv g \<Longrightarrow> gw_inv (fst (revoke_credential cf i now g))"
  "gw_inv g \<Longrightarrow> gw_inv (fst (bulk_revoke cf rq now g))"
  "gw_inv g \<Longrightarrow> gw_inv (fst (purge_credentials rq g))"
proof -
  assume g: "gw_inv g"
  note k = inv_set_storage [OF g]
  show "gw_inv (fst (delete_backend b g))"
    using g k [OF st_kept_api(1)] by (simp add: delete_backend_def split: option.split)
  show "gw_inv (fst (bind_credential i rq g))"
    using g k [OF st_kept_api(2)] by (simp add: bind_credential_def Let_def split: option.split)
  show "gw_inv (fst (change_scope cf i rq g))"
    using g k [OF st_kept_api(3)] by (simp add: change_scope_def Let_def split: option.split sum.split)
  show "gw_inv (fst (revoke_credential cf i now g))"
    using k [OF st_kept_api(4), of i now] by (simp add: revoke_credential_def Let_def split_def)
  show "gw_inv (fst (bulk_revoke cf rq now g))"
    using g k [OF st_kept_api(5)] by (simp add: bulk_revoke_def Let_def split_def split: option.split)
  show "gw_inv (fst (purge_credentials rq g))"
    using g k [OF st_kept_api(6)] by (simp add: purge_credentials_def Let_def split_def)
qed

section \<open>The steps\<close>

text \<open>The state-changing endpoints, by what reaches the handler behind the admin guard.\<close>

datatype admin_call =
    Issue draws
  | ForgetBackend string
  | Bind string
  | Scope string
  | Revoke string
  | RevokeMany
  | Purge

fun admin_effect :: "config \<Rightarrow> admin_call \<Rightarrow> http_request \<Rightarrow> int \<Rightarrow> gateway \<Rightarrow> gateway \<times> unit reply" where
  "admin_effect cf (Issue rn) rq now g = (fst (issue_credential cf rq rn now g), Reply 201 ())"
| "admin_effect cf (ForgetBackend b) rq now g = (fst (delete_backend b g), Reply 200 ())"
| "admin_effect cf (Bind i) rq now g = (fst (bind_credential i rq g), Reply 200 ())"
| "admin_effect cf (Scope i) rq now g = (fst (change_scope cf i rq g), Reply 200 ())"
| "admin_effect cf (Revoke i) rq now g = (fst (revoke_credential cf i now g), Reply 200 ())"
| "admin_effect cf RevokeMany rq now g = (fst (bulk_revoke cf rq now g), Reply 200 ())"
| "admin_effect cf Purge rq now g = (fst (purge_credentials rq g), Reply 200 ())"

definition call_draws_ok :: "admin_call \<Rightarrow> bool" where
  "call_draws_ok c = (case c of Issue rn \<Rightarrow> rn_backendId rn \<noteq> [] | _ \<Rightarrow> True)"

inductive gw_step :: "config \<Rightarrow> gateway \<Rightarrow> gateway \<Rightarrow> bool" for cf where
  connect: "jm_get (gw_conns g) w = None \<Longrightarrow> gw_step cf g (ws_connection cf w ip now g)"
| frame: "fresh_all rn g \<Longrightarrow> gw_step cf g (ws_message cf w m rn now g)"
| auth_late: "gw_step cf g (auth_timeout cf w now g)"
| pong: "gw_step cf g (ws_pong w g)"
| gone: "gw_step cf g (ws_closed cf w now g)"
| pings: "gw_step cf g (pingInterval cf now g)"
| leases: "gw_step cf g (leaseCheckInterval cf now g)"
| poll: "gw_step cf g (registryPollInterval g)"
| cleanup: "gw_step cf g (rateLimitCleanup now g)"
| grace: "gw_step cf g (replaced_grace_elapsed cf w g)"
| dialed: "gw_step cf g (dial_socket cf cid tok w now g)"
| unpaired: "gw_step cf g (pairing_timeout cf cid now g)"
| leg_gone: "gw_step cf g (channel_socket_closed cf cid g)"
| proxy: "jm_get (gw_channels g) (cd_id rn) = None \<Longrightarrow> \<not> rs_headersSent (gw_res g r) \<Longrightarrow>
    gw_step cf g (proxy_route cf r h ip b pq rn now g)"
| chunk: "gw_step cf g (fst (request_data cid d n g))"
| drain: "gw_step cf g (fst (request_drain_tick cid n g))"
| body_end: "gw_step cf g (request_end cid g)"
| response: "bridge_message cf cid w f wr now g = Inr h \<Longrightarrow> gw_step cf g h"
| drained: "gw_step cf g (bridge_drained w g)"
| bridge_late: "gw_step cf g (bridge_timeout cf cid now g)"
| bridge_gone: "gw_step cf g (bridge_closed cf cid g)"
| response_gone: "gw_step cf g (response_closed cf cid r g)"
| login: "gw_step cf g (fst (admin_login cf rq sid now g))"
| probe: "gw_step cf g (fst (session_probe rq now g))"
| logout: "gw_step cf g (fst (admin_logout rq now g))"
| overview: "gw_step cf g (fst (overview_route cf host_of rq now g))"
| admin: "call_draws_ok c \<Longrightarrow> gw_step cf g (fst (admin_route cf host_of rq now (admin_effect cf c rq now) g))"
| exchange: "gw_step cf g (fst (exchange_token cf rq rn now g))"
| sync: "gw_step cf g (fst (sync_registry cf h ip now g))"
| discovery: "gw_step cf g (fst (discovery_backends cf h ip now g))"
| sockets: "gw_step cf g (g\<lparr>gw_ready := rd\<rparr>)"

definition started :: "config \<Rightarrow> gateway \<Rightarrow> bool" where
  "started cf g \<longleftrightarrow> (\<exists>st. st_ok st \<and> ids_ok st \<and> g = start_gateway cf st)"

lemma inv_start: "started cf g \<Longrightarrow> gw_inv g"
  by (auto simp: started_def start_gateway_def gw_inv_def inv_defs subscribers_def conns_of_def retained_bounded_def
      ids_ok_def)

lemma inv_admin_effect: "gw_inv h \<Longrightarrow> call_draws_ok c \<Longrightarrow> gw_inv (fst (admin_effect cf c rq now h))"
  by (cases c) (auto simp: inv_admin_handlers inv_issue call_draws_ok_def)

lemma inv_session_routes:
  "gw_inv (fst (admin_login cf rq sid now g)) = gw_inv g"
  "gw_inv (fst (session_probe rq now g)) = gw_inv g"
  "gw_inv (fst (admin_logout rq now g)) = gw_inv g"
proof -
  show "gw_inv (fst (admin_login cf rq sid now g)) = gw_inv g"
    by (simp add: admin_login_def inv_deny Let_def split: prod.split)
  obtain g1 x where c: "cookie_session rq now g = (g1, x)" by fastforce
  have "gw_inv g1 = gw_inv g" using inv_cookie [of rq now g] c by simp
  then show "gw_inv (fst (session_probe rq now g)) = gw_inv g" "gw_inv (fst (admin_logout rq now g)) = gw_inv g"
    by (simp_all add: session_probe_def admin_logout_def c split: sum.split option.split)
qed

lemma inv_read_routes:
  "gw_inv g \<Longrightarrow> gw_inv (fst (sync_registry cf h ip now g))"
  "gw_inv g \<Longrightarrow> gw_inv (fst (discovery_backends cf h ip now g))"
proof -
  assume g: "gw_inv g"
  show "gw_inv (fst (sync_registry cf h ip now g))"
    using g by (auto simp: sync_registry_def requireRecoveryToken_def denyUnauthorized_eq Let_def
        split: option.split prod.split sum.split)
  obtain g1 x where r: "requireGatewayAuth cf h ip now g = (g1, x :: discovered list reply + credential_info)" by fastforce
  have "gw_inv g1"
    using arg_cong [OF r, of "\<lambda>z. gw_inv (fst z)"] by (simp add: inv_auth [OF g])
  then show "gw_inv (fst (discovery_backends cf h ip now g))"
    by (simp add: discovery_backends_def r split: sum.split)
qed

lemma inv_gw_step: "gw_step cf g h \<Longrightarrow> gw_inv g \<Longrightarrow> gw_inv h"
proof (induction rule: gw_step.induct)
  case (admin c host_of rq now g)
  then show ?case by (intro inv_admin_route inv_admin_effect) auto
next
  case (overview host_of rq now g)
  then show ?case unfolding overview_route_def by (intro inv_admin_route) auto
next
  case (response cid w f wr now g h)
  then show ?case by (blast intro: inv_bridge_message)
qed (simp_all add: inv_connection inv_ws_message inv_auth_timeout inv_pong inv_ws_closed inv_ping inv_lease_check
    inv_poll inv_cleanup inv_grace inv_dial_socket inv_pairing_timeout inv_socket_closed inv_proxy_route
    inv_request_data inv_request_drain inv_request_end inv_bridge_timeout inv_bridge_closed inv_response_closed
    inv_session_routes inv_exchange inv_read_routes)

interpretation server: invariant_machine "started cf" "gw_step cf" gw_inv for cf
  by unfold_locales (auto intro: inv_start inv_gw_step)

definition reachable :: "config \<Rightarrow> gateway \<Rightarrow> bool" where
  "reachable cf g \<longleftrightarrow> (\<exists>s. started cf s \<and> rtranclp (gw_step cf) s g)"

lemma gw_reachable: "reachable cf g \<Longrightarrow> gw_inv g"
  unfolding reachable_def by (blast intro: server.reachable_inv)

section \<open>A concrete run\<close>

text \<open>
  The host of the sample database connects and registers its backend, a phone connects, opens a
  channel to it and subscribes to a topic of it.
\<close>

definition sample_hello :: "string \<Rightarrow> bool \<Rightarrow> json" where
  "sample_hello tok backend = JObj
     ([(''type'', JStr ''peer_hello''), (''gatewaySecret'', JStr tok), (''protocolVersion'', JNum (NFin 4)),
       (''namespace'', JStr ''prod''), (''clientProtocolVersion'', JNum (NFin 1)),
       (''peerType'', JStr (if backend then ''client+backend'' else ''client-only''))]
      @ (if backend then [(''backend'', JObj [(''visible'', JBool True), (''capabilities'', JArr []),
           (''backendProtocolVersion'', JNum (NFin 1))])] else []))"

definition sample_all :: "string \<Rightarrow> draws_all" where
  "sample_all x = \<lparr>da_hello = \<lparr>hd_session = CHR ''s'' # x, hd_recovery = CHR ''r'' # x, hd_backendId = CHR ''u'' # x\<rparr>,
     da_channel = \<lparr>cd_id = CHR ''c'' # x, cd_client = CHR ''k'' # x, cd_backend = CHR ''l'' # x\<rparr>\<rparr>"

definition run0 :: gateway where
  "run0 = (start_gateway sample_config sample_storage)\<lparr>gw_ready := (\<lambda>_. Open)\<rparr>"

definition run1 :: gateway where
  "run1 = ws_message sample_config 1 (Some (sample_hello ''zgb_3'' True)) (sample_all ''1'') 100
     (ws_connection sample_config 1 ''10.0.0.1'' 90 run0)"

definition run2 :: gateway where
  "run2 = ws_message sample_config 2 (Some (sample_hello ''zgd_1'' False)) (sample_all ''2'') 200
     (ws_connection sample_config 2 ''10.0.0.2'' 190 run1)"

definition run3 :: gateway where
  "run3 = ws_message sample_config 2 (Some (JObj [(''type'', JStr ''topic_subscribe''), (''backendId'', JStr ''b3''),
       (''topic'', JStr ''t'')])) (sample_all ''4'') 310
     (ws_message sample_config 2 (Some (JObj [(''type'', JStr ''channel_open''), (''target'', JStr ''b3'')]))
       (sample_all ''3'') 300 run2)"

lemma run1_facts:
  "map fst (gw_conns run1) = [1] \<and> map_option cn_session (jm_get (gw_conns run1) 1) = Some (Some ''s1'')
   \<and> map_option ps_backendId (jm_get (gs_peers run1) ''s1'') = Some (Some ''b3'')"
proof -
  have "let g = run1 in map fst (gw_conns g) = [1] \<and> map_option cn_session (jm_get (gw_conns g) 1) = Some (Some ''s1'')
   \<and> map_option ps_backendId (jm_get (gs_peers g) ''s1'') = Some (Some ''b3'')"
    by code_simp
  then show ?thesis by (simp only: Let_def)
qed

lemma run3_facts:
  "map_option (\<lambda>l. (le_peerSessionId l, le_lastHeartbeatAt l, le_leaseTtlMs l)) (jm_get (gs_leases run3) ''b3'') =
     Some (''s1'', 100, 30000)
   \<and> jm_get (gs_leases run3) ''zz'' = None
   \<and> map_option (\<lambda>p. (ps_namespace p, ps_recoveryToken p)) (jm_get (gs_peers run3) ''s2'') = Some (''prod'', ''r2'')
   \<and> map_option cn_session (jm_get (gw_conns run3) 2) = Some (Some ''s2'')
   \<and> map (\<lambda>(i, ch). (i, ch_client ch)) (gw_channels run3) = [(''c3'', ''s2'')]
   \<and> subscribers ''b3'' ''t'' run3 = [''s2'']"
proof -
  have "let g = run3 in map_option (\<lambda>l. (le_peerSessionId l, le_lastHeartbeatAt l, le_leaseTtlMs l)) (jm_get (gs_leases g) ''b3'') =
     Some (''s1'', 100, 30000)
   \<and> jm_get (gs_leases g) ''zz'' = None
   \<and> map_option (\<lambda>p. (ps_namespace p, ps_recoveryToken p)) (jm_get (gs_peers g) ''s2'') = Some (''prod'', ''r2'')
   \<and> map_option cn_session (jm_get (gw_conns g) 2) = Some (Some ''s2'')
   \<and> map (\<lambda>(i, ch). (i, ch_client ch)) (gw_channels g) = [(''c3'', ''s2'')]
   \<and> subscribers ''b3'' ''t'' g = [''s2'']"
    by code_simp
  then show ?thesis by (simp only: Let_def)
qed

text \<open>Freshness as a check that computes.\<close>

definition unmentioned :: "string \<Rightarrow> gateway \<Rightarrow> bool" where
  "unmentioned sid g \<longleftrightarrow> jm_get (gs_peers g) sid = None
     \<and> list_all (\<lambda>(i, ch). ch_client ch \<noteq> sid) (gw_channels g)
     \<and> list_all (\<lambda>(b, ts). list_all (\<lambda>(t, sids). sid \<notin> set sids) ts) (gw_topicSubs g)"

lemma unmentioned: "unmentioned sid g \<Longrightarrow> \<not> mentions sid g"
proof
  assume u: "unmentioned sid g" and "mentions sid g"
  then consider i ch where "jm_get (gw_channels g) i = Some ch" "ch_client ch = sid"
    | b t where "sid \<in> set (subscribers b t g)"
    by (auto simp: mentions_def unmentioned_def)
  then show False
  proof cases
    case 1
    with u show False by (auto simp: unmentioned_def list_all_iff dest!: jm_get_in)
  next
    case 2
    then obtain ts sids where "jm_get (gw_topicSubs g) b = Some ts" "jm_get ts t = Some sids" "sid \<in> set sids"
      by (cases "jm_get (gw_topicSubs g) b"; cases "jm_get (the (jm_get (gw_topicSubs g) b)) t") (auto simp: subscribers_def)
    with u show False by (auto simp: unmentioned_def list_all_iff dest!: jm_get_in)
  qed
qed

definition fresh_check :: "draws_all \<Rightarrow> gateway \<Rightarrow> bool" where
  "fresh_check rn g \<longleftrightarrow> hd_session (da_hello rn) \<noteq> [] \<and> unmentioned (hd_session (da_hello rn)) g
     \<and> jm_get (gw_recoveryTokens g) (hd_recovery (da_hello rn)) = None \<and> hd_backendId (da_hello rn) \<noteq> []
     \<and> jm_get (gw_channels g) (cd_id (da_channel rn)) = None
     \<and> list_all (\<lambda>(w, c). cn_session c \<noteq> Some (hd_session (da_hello rn))) (gw_conns g)"

lemma fresh_check: "fresh_check rn g \<Longrightarrow> fresh_all rn g"
  by (simp add: fresh_check_def fresh_all_def fresh_draws_def unmentioned list_all_iff)

lemma reachable_step: "reachable cf g \<Longrightarrow> gw_step cf g h \<Longrightarrow> reachable cf h"
  unfolding reachable_def by (meson rtranclp.rtrancl_into_rtrancl)

lemma reachable_connect:
  "reachable cf g \<Longrightarrow> jm_get (gw_conns g) w = None \<Longrightarrow> fresh_check rn (ws_connection cf w ip t g) \<Longrightarrow>
     reachable cf (ws_message cf w m rn now (ws_connection cf w ip t g))"
  by (blast intro: reachable_step gw_step.connect gw_step.frame fresh_check)

lemma reachable_message:
  "reachable cf g \<Longrightarrow> fresh_check rn g \<Longrightarrow> reachable cf (ws_message cf w m rn now g)"
  by (blast intro: reachable_step gw_step.frame fresh_check)

lemma reachable_runs: "reachable sample_config run1" "reachable sample_config run2" "reachable sample_config run3"
proof -
  have "ids_ok sample_storage" by code_simp
  then have "started sample_config (start_gateway sample_config sample_storage)"
    using st_ok_sample by (auto simp: started_def)
  then have "reachable sample_config run0"
    unfolding run0_def reachable_def by (blast intro: r_into_rtranclp gw_step.sockets)
  then show r1: "reachable sample_config run1"
    unfolding run1_def by (rule reachable_connect) code_simp+
  then show r2: "reachable sample_config run2"
    unfolding run2_def by (rule reachable_connect) code_simp+
  show "reachable sample_config run3"
    unfolding run3_def by (rule reachable_message, rule reachable_message, rule r2) code_simp+
qed

section \<open>What holds of a running server\<close>

text \<open>
  C1.  One owner per backend: in every reachable state a backend is registered exactly when it has a
  lease, the lease's session is a live peer that claims that backend at the lease's epoch and in the
  registered namespace, and no other live peer claims it; no epoch exceeds the last one allocated.
\<close>

theorem single_owner:
  assumes "reachable cf g"
  shows "case jm_get (gs_leases g) b of
     None \<Rightarrow> jm_get (gs_registry g) b = None \<and> (\<forall>i p. jm_get (gs_peers g) i = Some p \<longrightarrow> ps_backendId p \<noteq> Some b)
   | Some l \<Rightarrow> le_epoch l \<le> st_maxEpoch (gw_storage g)
      \<and> (\<exists>pr. jm_get (gs_registry g) b = Some pr \<and> pr_epoch pr = le_epoch l
          \<and> (\<exists>p. ps_epoch p = Some (le_epoch l) \<and> ps_namespace p = pr_namespace pr
               \<and> (\<forall>i q. jm_get (gs_peers g) i = Some q \<and> ps_backendId q = Some b \<longleftrightarrow>
                    i = le_peerSessionId l \<and> q = p)))"
proof -
  note inv = gw_reachable [OF assms]
  show ?thesis
  proof (cases "jm_get (gs_leases g) b")
    case None
    then show ?thesis
      using inv_parts(5) [OF inv] inv_peersD(6) [OF inv] by (fastforce simp: inv_registry_def)
  next
    case (Some l)
    obtain p pr where p: "jm_get (gs_peers g) (le_peerSessionId l) = Some p" "ps_backendId p = Some b"
      "ps_epoch p = Some (le_epoch l)" "jm_get (gs_registry g) b = Some pr" "pr_epoch pr = le_epoch l"
      "pr_namespace pr = ps_namespace p"
      using inv_leasesD(4) [OF inv Some] by blast
    have u: "i = le_peerSessionId l" if "jm_get (gs_peers g) i = Some q" "ps_backendId q = Some b" for i q
      using inv_peersD(6) [OF inv that] Some by auto
    have one: "(jm_get (gs_peers g) i = Some q \<and> ps_backendId q = Some b) = (i = le_peerSessionId l \<and> q = p)" for i q
      using u [of i q] p(1,2) by auto
    show ?thesis
      unfolding Some option.case using p inv_leasesD(3) [OF inv Some] by (simp add: one) auto
  qed
qed

theorem single_owner_witness:
  "jm_get (gs_registry run3) ''b3'' \<noteq> None \<and> jm_get (gs_registry run3) ''zz'' = None"
proof -
  have "jm_get (gs_leases run3) ''b3'' \<noteq> None" "jm_get (gs_leases run3) ''zz'' = None" using run3_facts by auto
  then show ?thesis
    using single_owner [OF reachable_runs(3), of "''b3''"] single_owner [OF reachable_runs(3), of "''zz''"]
    by (auto split: option.splits)
qed

text \<open>
  C16.  The connection cap holds, and the counter cannot leak: in every reachable state the number kept
  for an address is the number of its open control connections, and no address has more than ten.
\<close>

theorem connection_cap:
  assumes "reachable cf g"
  shows "or_else (jm_get (gw_wsPerIp g) ip) 0 = length (filter (\<lambda>(w, c). cn_ip c = ip) (gw_conns g))
    \<and> length (filter (\<lambda>(w, c). cn_ip c = ip) (gw_conns g)) \<le> 10"
  using inv_parts(9) [OF gw_reachable [OF assms]]
  by (simp add: inv_conns_def conns_of_def MAX_WS_CONNECTIONS_PER_IP_def)

theorem connection_cap_witness: "or_else (jm_get (gw_wsPerIp run3) ''10.0.0.2'') 0 \<le> 10"
  using connection_cap [OF reachable_runs(3), of "''10.0.0.2''"] by simp

text \<open>
  C15.  A recovery token works exactly as long as its session: in every reachable state the poll
  endpoint accepts a token if and only if it is the one a live peer was given, and then acts as that
  peer.
\<close>

theorem recovery_exact:
  assumes "reachable cf g"
  shows "(\<exists>g'. requireRecoveryToken cf h ip now g = (g', Inr p)) \<longleftrightarrow>
     (\<exists>sid. jm_get (gs_peers g) sid = Some p \<and> h = Some (''Bearer '' @ ps_recoveryToken p))"
proof -
  note inv = gw_reachable [OF assms]
  have look: "Option.bind (jm_get (gw_recoveryTokens g) tok) (\<lambda>sid. if sid = [] then None else jm_get (gs_peers g) sid) = Some p
      \<longleftrightarrow> (\<exists>sid. jm_get (gs_peers g) sid = Some p \<and> ps_recoveryToken p = tok)" (is "?L tok \<longleftrightarrow> ?R tok") for tok
  proof
    assume "?L tok"
    then obtain i where i: "jm_get (gw_recoveryTokens g) tok = Some i" "jm_get (gs_peers g) i = Some p"
      by (auto simp: bind_eq_Some_conv split: if_splits)
    obtain q where "jm_get (gs_peers g) i = Some q" "ps_recoveryToken q = tok"
      using inv_parts(3) [OF inv, unfolded inv_back_def, THEN conjunct1, rule_format, OF i(1)] by auto
    with i(2) show "?R tok" by auto
  next
    assume "?R tok"
    then obtain i where i: "jm_get (gs_peers g) i = Some p" "ps_recoveryToken p = tok" by (elim exE conjE)
    then show "?L tok" using inv_peersD(2,4) [OF inv i(1)] by simp
  qed
  show ?thesis
  proof (cases "bearer h")
    case None
    then have "h \<noteq> Some (''Bearer '' @ ps_recoveryToken p)" by (metis bearer_iff option.distinct(1))
    with None show ?thesis by (simp add: requireRecoveryToken_def Let_def split: prod.split)
  next
    case (Some tok)
    then have "h = Some (''Bearer '' @ tok)" by (simp only: bearer_iff)
    moreover have "(\<exists>g'. requireRecoveryToken cf h ip now g = (g', Inr p)) \<longleftrightarrow>
        Option.bind (jm_get (gw_recoveryTokens g) tok) (\<lambda>sid. if sid = [] then None else jm_get (gs_peers g) sid) = Some p"
      by (auto simp: requireRecoveryToken_def Some Let_def split: prod.split option.split)
    ultimately show ?thesis using look [of tok] by auto
  qed
qed

theorem recovery_exact_witness:
  "\<exists>g' p. requireRecoveryToken sample_config (Some ''Bearer r2'') ''10.0.0.2'' 400 run3 = (g', Inr p)"
proof -
  obtain p where "jm_get (gs_peers run3) ''s2'' = Some p" "ps_recoveryToken p = ''r2''" using run3_facts by auto
  with recovery_exact [OF reachable_runs(3), of "Some ''Bearer r2''" "''10.0.0.2''" 400 p] show ?thesis by auto
qed

end
