(* ===== verification/Gw_Lifecycle.thy ===== *)
theory Gw_Lifecycle
  imports Gw_System "HOL-Library.Sublist"
begin

text \<open>
  How sessions and backends of a running server come and go: a disconnection leaves no trace of its
  session, a lease that is not renewed is gone after the next check, a takeover fences the previous
  owner off, an identity is only forgotten when nothing refers to it; and the lease expiry of a backend
  that is itself a client of others leaves its channels and subscriptions behind.
\<close>

section \<open>Disconnection\<close>

lemma ws_closed_session:
  assumes "jm_get (gw_conns g) w = Some c" and "cn_session c = Some sid"
  obtains ips where "ws_closed cf w now g =
    handlePeerDisconnect cf sid now (g\<lparr>gw_conns := jm_del w (gw_conns g), gw_wsPerIp := ips\<rparr>)"
proof (rule that)
  show "ws_closed cf w now g = handlePeerDisconnect cf sid now
    (g\<lparr>gw_conns := jm_del w (gw_conns g), gw_wsPerIp := gw_wsPerIp
       (ws_closed cf w now (g\<lparr>gw_conns := jm_set w (c\<lparr>cn_session := None\<rparr>) (gw_conns g)\<rparr>))\<rparr>)"
    using assms by (simp add: ws_closed_def Let_def)
qed

lemma disconnect_closed:
  assumes inv: "gw_inv g" and p: "jm_get (gs_peers g) sid = Some p"
    and c: "jm_get (gw_conns g) w = Some c" "cn_session c = Some sid"
  shows "\<exists>k. ws_closed cf w now g = handlePeerDisconnect cf sid now k \<and> chan_ok k
     \<and> jm_get (gs_peers k) sid = Some p \<and> (\<forall>b. ps_backendId p = Some b \<longrightarrow> b \<noteq> [] \<and> isCurrentBackendOwner p None k)
     \<and> gs_peers k = gs_peers g \<and> gs_wsToPeer k = gs_wsToPeer g \<and> gs_leases k = gs_leases g \<and> gs_registry k = gs_registry g
     \<and> gw_channels k = gw_channels g \<and> gw_recoveryTokens k = gw_recoveryTokens g \<and> gw_topicSubs k = gw_topicSubs g
     \<and> gw_retained k = gw_retained g \<and> gw_tickets k = gw_tickets g \<and> inv_maps k"
proof -
  from ws_closed_session [OF c] obtain ips where k: "ws_closed cf w now g =
    handlePeerDisconnect cf sid now (g\<lparr>gw_conns := jm_del w (gw_conns g), gw_wsPerIp := ips\<rparr>)" .
  let ?k = "g\<lparr>gw_conns := jm_del w (gw_conns g), gw_wsPerIp := ips\<rparr>"
  have "\<forall>b. ps_backendId p = Some b \<longrightarrow> b \<noteq> [] \<and> isCurrentBackendOwner p None ?k"
    using inv_owner [OF inv p] owner_cong [of ?k g p None] by simp
  moreover have "chan_ok ?k" using inv_chan_ok [OF inv] by (simp add: chan_ok_def)
  moreover have "inv_maps ?k" using inv_parts(1) [OF inv] by (simp add: inv_maps_def)
  ultimately show ?thesis using k p by (intro exI [of _ ?k]) simp
qed

text \<open>
  C10.  A disconnection forgets.  When a control connection closes, its session is gone from every map of
  the server: no peer, no recovery token, no channel end, no topic subscription; a backend it owned has no
  lease, presence, channel, subscription or retained payload.  The other sessions, leases and presences
  and the channels of others stay as they were.
\<close>

theorem disconnect_forgets:
  assumes "reachable cf g" and p: "jm_get (gs_peers g) sid = Some p"
    and c: "jm_get (gw_conns g) w = Some c" "cn_session c = Some sid"
  shows "let h = ws_closed cf w now g in
     (\<forall>i. jm_get (gs_peers h) i = (if i = sid then None else jm_get (gs_peers g) i))
   \<and> jm_get (gw_recoveryTokens h) (ps_recoveryToken p) = None
   \<and> (\<forall>i. jm_get (gw_channels h) i =
         (case jm_get (gw_channels g) i of
            None \<Rightarrow> None
          | Some ch \<Rightarrow> if ps_backendId p = Some (ch_backendId ch) \<or> channel_of_peer sid ch then None else Some ch))
   \<and> (\<forall>b t. set (subscribers b t h) = (if ps_backendId p = Some b then {} else set (subscribers b t g) - {sid}))
   \<and> (\<forall>b. (jm_get (gs_leases h) b, jm_get (gs_registry h) b, jm_get (gw_retained h) b) =
         (if ps_backendId p = Some b then (None, None, None)
          else (jm_get (gs_leases g) b, jm_get (gs_registry g) b, jm_get (gw_retained g) b)))"
proof -
  note inv = gw_reachable [OF assms(1)]
  from disconnect_closed [OF inv p c] obtain k where k: "ws_closed cf w now g = handlePeerDisconnect cf sid now k"
    "chan_ok k" "jm_get (gs_peers k) sid = Some p" "\<forall>b. ps_backendId p = Some b \<longrightarrow> b \<noteq> [] \<and> isCurrentBackendOwner p None k"
    and same: "gs_peers k = gs_peers g" "gs_leases k = gs_leases g" "gs_registry k = gs_registry g"
    "gw_channels k = gw_channels g" "gw_recoveryTokens k = gw_recoveryTokens g" "gw_topicSubs k = gw_topicSubs g"
    "gw_retained k = gw_retained g" "inv_maps k" by blast
  note f = disconnect_fields [OF k(2-4)]
  have sub: "subscribers b t k = subscribers b t g" for b t by (simp add: subscribers_def same)
  show ?thesis
    unfolding Let_def k(1) f(1,3,4,5,6,8) sub same droppedD(1) [OF f(12) same(8)]
    by (auto split: option.split)
qed

theorem disconnect_forgets_witness:
  "gw_channels (ws_closed sample_config 2 400 run3) = []
    \<and> jm_get (gs_peers (ws_closed sample_config 2 400 run3)) ''s2'' = None"
proof -
  obtain p c where p: "jm_get (gs_peers run3) ''s2'' = Some p" and c: "jm_get (gw_conns run3) 2 = Some c" "cn_session c = Some ''s2''"
    using run3_facts by auto
  note d = disconnect_forgets [OF reachable_runs(3) p c, of 400, unfolded Let_def]
  have "channel_of_peer ''s2'' ch" if "jm_get (gw_channels run3) i = Some ch" for i ch
  proof -
    have "\<forall>x\<in>set (gw_channels run3). ch_client (snd x) = ''s2''" using run3_facts by auto
    with that show ?thesis by (auto simp: channel_of_peer_def dest!: jm_get_in)
  qed
  then have "jm_get (gw_channels (ws_closed sample_config 2 400 run3)) i = None" for i
    using d by (simp split: option.split)
  then have "gw_channels (ws_closed sample_config 2 400 run3) = []"
    by (metis jm_get_Cons neq_Nil_conv option.distinct(1) surj_pair)
  with d show ?thesis by simp
qed

section \<open>Leases\<close>

lemma expired_state:
  assumes inv: "gw_inv g" and l: "jm_get (gs_leases g) b = Some l" and p: "jm_get (gs_peers g) (le_peerSessionId l) = Some p"
  shows "gs_leases (handleBackendLeaseExpired cf b now g) = jm_del b (gs_leases g)"
    and "jm_get (gs_peers (handleBackendLeaseExpired cf b now g)) i =
           (if i = le_peerSessionId l then None else jm_get (gs_peers g) i)"
    and "jm_get (gw_channels (handleBackendLeaseExpired cf b now g)) k =
           (case jm_get (gw_channels g) k of None \<Rightarrow> None | Some ch \<Rightarrow> if ch_backendId ch = b then None else Some ch)"
    and "gw_topicSubs (handleBackendLeaseExpired cf b now g) = jm_del b (gw_topicSubs g)"
    and "gw_conns (handleBackendLeaseExpired cf b now g) = gw_conns g"
proof -
  let ?sid = "le_peerSessionId l"
  note pid = inv_peersD(1) [OF inv p]
  have eq: "handleBackendLeaseExpired cf b now g = forget_peer cf ?sid p (expired cf b now ?sid g)"
    using expired_eq [OF l p pid, of cf now] by (simp add: pid expired_def)
  have "jm_get (gs_peers (expired cf b now ?sid g)) ?sid = Some (unown p)" "ps_ws (unown p) = ps_ws p"
    using p by (simp_all add: unown_def)
  note f = forget_removes [OF this, where cf = cf]
  show "gs_leases (handleBackendLeaseExpired cf b now g) = jm_del b (gs_leases g)"
    "gw_topicSubs (handleBackendLeaseExpired cf b now g) = jm_del b (gw_topicSubs g)"
    "gw_conns (handleBackendLeaseExpired cf b now g) = gw_conns g"
    by (simp_all add: eq f)
  show "jm_get (gs_peers (handleBackendLeaseExpired cf b now g)) i =
      (if i = ?sid then None else jm_get (gs_peers g) i)"
    by (simp add: eq f)
  have "dropped (\<lambda>ch. ch_backendId ch = b) g (handleBackendLeaseExpired cf b now g)"
    unfolding eq
    by (rule dropped_to [OF dropped_backend [OF inv_chan_ok [OF inv], where cf = cf and r = "''backend_offline''"]])
       (simp_all add: f)
  from droppedD(1) [OF this inv_parts(1) [OF inv]]
  show "jm_get (gw_channels (handleBackendLeaseExpired cf b now g)) k =
      (case jm_get (gw_channels g) k of None \<Rightarrow> None | Some ch \<Rightarrow> if ch_backendId ch = b then None else Some ch)" .
qed

definition stale :: "int \<Rightarrow> lease \<Rightarrow> bool" where
  "stale now l \<longleftrightarrow> now - le_lastHeartbeatAt l > le_leaseTtlMs l"

lemma expire_one:
  "gw_inv g \<Longrightarrow> jm_get (gs_leases (handleBackendLeaseExpired cf b now g)) k = (if k = b then None else jm_get (gs_leases g) k)"
proof -
  assume inv: "gw_inv g"
  show ?thesis
  proof (cases "jm_get (gs_leases g) b")
    case None
    then show ?thesis by (simp add: handleBackendLeaseExpired_def)
  next
    case (Some l)
    with inv_leasesD(4) [OF inv Some] expired_state(1) [OF inv Some] show ?thesis by auto
  qed
qed

lemma expire_all:
  "gw_inv g \<Longrightarrow> jm_get (gs_leases (expire_leases cf now bs g)) b =
     (case jm_get (gs_leases g) b of
        None \<Rightarrow> None
      | Some l \<Rightarrow> if b \<in> set bs \<and> stale now l then None else Some l)"
proof (induction cf now bs g rule: expire_leases.induct)
  case (1 cf now g)
  then show ?case by (simp split: option.split)
next
  case (2 cf now c bs g)
  let ?h = "case jm_get (gs_leases g) c of None \<Rightarrow> g
    | Some l \<Rightarrow> if now - le_lastHeartbeatAt l > le_leaseTtlMs l then handleBackendLeaseExpired cf c now g else g"
  have "gw_inv ?h" using 2 by (simp add: inv_expired split: option.split)
  from 2(1) [OF this] show ?case
    using expire_one [OF 2(2), of cf c now] by (auto simp: stale_def split: option.split)
qed

text \<open>
  C11.  A backend that stops renewing goes offline.  In every reachable state one lease check leaves exactly
  the leases renewed within their lifetime, unchanged; a backend whose lease it removes has no presence any
  more, and no live session claims it.
\<close>

theorem lease_expiry:
  assumes "reachable cf g"
  shows "let h = leaseCheckInterval cf now g in
     jm_get (gs_leases h) b = (case jm_get (gs_leases g) b of
        None \<Rightarrow> None
      | Some l \<Rightarrow> if now - le_lastHeartbeatAt l > le_leaseTtlMs l then None else Some l)
   \<and> (jm_get (gs_leases h) b = None \<longrightarrow> jm_get (gs_registry h) b = None
        \<and> (\<forall>i p. jm_get (gs_peers h) i = Some p \<longrightarrow> ps_backendId p \<noteq> Some b))"
proof -
  note inv = gw_reachable [OF assms]
  note inv' = inv_lease_check [OF inv, of cf now]
  have "b \<in> set (jm_keys (gs_leases g))" if "jm_get (gs_leases g) b = Some l" for l
    using that by (metis jm_keys_iff option.distinct(1))
  then have l: "jm_get (gs_leases (leaseCheckInterval cf now g)) b = (case jm_get (gs_leases g) b of
      None \<Rightarrow> None | Some l \<Rightarrow> if now - le_lastHeartbeatAt l > le_leaseTtlMs l then None else Some l)"
    using expire_all [OF inv, of cf now _ b] by (auto simp: leaseCheckInterval_def stale_def split: option.split)
  have "jm_get (gs_registry (leaseCheckInterval cf now g)) b = None"
    if "jm_get (gs_leases (leaseCheckInterval cf now g)) b = None"
    using inv_parts(5) [OF inv'] that unfolding inv_registry_def by (metis not_None_eq)
  moreover have "ps_backendId p \<noteq> Some b"
    if "jm_get (gs_leases (leaseCheckInterval cf now g)) b = None" "jm_get (gs_peers (leaseCheckInterval cf now g)) i = Some p" for i p
    using inv_peersD(6) [OF inv' that(2)] that(1) by auto
  ultimately show ?thesis unfolding Let_def using l by simp
qed

theorem lease_expiry_witness:
  "jm_get (gs_registry (leaseCheckInterval sample_config 200000 run3)) ''b3'' = None
    \<and> jm_get (gs_leases (leaseCheckInterval sample_config 5000 run3)) ''b3'' \<noteq> None"
proof -
  obtain l where l: "jm_get (gs_leases run3) ''b3'' = Some l" "200000 - le_lastHeartbeatAt l > le_leaseTtlMs l"
    "\<not> 5000 - le_lastHeartbeatAt l > le_leaseTtlMs l"
    using run3_facts by auto
  with lease_expiry [OF reachable_runs(3), of 200000 "''b3''"] lease_expiry [OF reachable_runs(3), of 5000 "''b3''"]
  show ?thesis by (simp add: Let_def)
qed

section \<open>What lease expiry leaves behind\<close>

lemma ws_closed_absent:
  assumes "jm_get (gs_peers g) sid = None" and "jm_get (gw_conns g) w = Some c" and "cn_session c = Some sid"
  shows "gw_channels (ws_closed cf w now g) = gw_channels g" "gw_topicSubs (ws_closed cf w now g) = gw_topicSubs g"
  using assms by (simp_all add: ws_closed_def Let_def handlePeerDisconnect_def)

text \<open>
  C28.  Lease expiry leaks.  When the lease of a backend expires, its session is gone, but a channel the same
  session opened as a client of another backend and its topic subscriptions there stay; the close of its
  socket, which would remove them, finds no session and does nothing.
\<close>

theorem expiry_leaks:
  assumes "reachable cf g" and l: "jm_get (gs_leases g) b = Some l"
    and c: "jm_get (gw_conns g) w = Some c" "cn_session c = Some (le_peerSessionId l)"
    and ch: "jm_get (gw_channels g) i = Some ch" "ch_client ch = le_peerSessionId l" "ch_backendId ch \<noteq> b"
    and sub: "le_peerSessionId l \<in> set (subscribers b' t g)" "b' \<noteq> b"
  shows "let h = handleBackendLeaseExpired cf b now g; h' = ws_closed cf w later h in
     jm_get (gs_peers h) (le_peerSessionId l) = None
   \<and> jm_get (gw_channels h) i = Some ch \<and> jm_get (gw_channels h') i = Some ch
   \<and> le_peerSessionId l \<in> set (subscribers b' t h')"
proof -
  note inv = gw_reachable [OF assms(1)]
  obtain p where p: "jm_get (gs_peers g) (le_peerSessionId l) = Some p" using inv_leasesD(4) [OF inv l] by blast
  let ?h = "handleBackendLeaseExpired cf b now g"
  note e = expired_state [OF inv l p, of cf now]
  have none: "jm_get (gs_peers ?h) (le_peerSessionId l) = None" by (simp add: e(2))
  have chan: "jm_get (gw_channels ?h) i = Some ch" using ch by (simp add: e(3))
  have subs: "subscribers b' t ?h = subscribers b' t g" using sub(2) by (simp add: subscribers_def e(4))
  have "jm_get (gw_conns ?h) w = Some c" using c(1) by (simp add: e(5))
  note closed = ws_closed_absent [OF none this c(2), of cf later]
  then have "subscribers b' t (ws_closed cf w later ?h) = subscribers b' t ?h" by (simp add: subscribers_def)
  with none chan subs closed sub(1) show ?thesis by (simp add: Let_def)
qed

text \<open>Two backends, the first of which is also a client of the second.\<close>

definition two_backends :: storage where
  "two_backends = fst (createCredential (\<lambda>t. t) (sample_input Backend ''host2'') (sample_draws ''4'') 40 sample_storage)"

definition pair0 :: gateway where
  "pair0 = (start_gateway sample_config two_backends)\<lparr>gw_ready := (\<lambda>_. Open)\<rparr>"

definition pair1 :: gateway where
  "pair1 = ws_message sample_config 1 (Some (sample_hello ''zgb_3'' True)) (sample_all ''1'') 100
     (ws_connection sample_config 1 ''10.0.0.1'' 90 pair0)"

definition pair2 :: gateway where
  "pair2 = ws_message sample_config 2 (Some (sample_hello ''zgb_4'' True)) (sample_all ''2'') 200
     (ws_connection sample_config 2 ''10.0.0.2'' 190 pair1)"

definition pair3 :: gateway where
  "pair3 = ws_message sample_config 1 (Some (JObj [(''type'', JStr ''topic_subscribe''), (''backendId'', JStr ''b4''),
       (''topic'', JStr ''t'')])) (sample_all ''4'') 310
     (ws_message sample_config 1 (Some (JObj [(''type'', JStr ''channel_open''), (''target'', JStr ''b4'')]))
       (sample_all ''3'') 300 pair2)"

lemma reachable_pair: "reachable sample_config pair3"
proof -
  have "ids_ok two_backends" by code_simp
  moreover have "st_ok two_backends"
    unfolding two_backends_def by (rule st_ok_createCredential [OF st_ok_sample])
  ultimately have "started sample_config (start_gateway sample_config two_backends)" by (auto simp: started_def)
  then have "reachable sample_config pair0"
    unfolding pair0_def reachable_def by (blast intro: r_into_rtranclp gw_step.sockets)
  then have r1: "reachable sample_config pair1"
    unfolding pair1_def by (rule reachable_connect) code_simp+
  then have r2: "reachable sample_config pair2"
    unfolding pair2_def by (rule reachable_connect) code_simp+
  show ?thesis
    unfolding pair3_def by (rule reachable_message, rule reachable_message, rule r2) code_simp+
qed

lemma pair3_facts:
  "map_option le_peerSessionId (jm_get (gs_leases pair3) ''b3'') = Some ''s1''
   \<and> map_option cn_session (jm_get (gw_conns pair3) 1) = Some (Some ''s1'')
   \<and> map_option (\<lambda>ch. (ch_client ch, ch_backendId ch)) (jm_get (gw_channels pair3) ''c3'') = Some (''s1'', ''b4'')
   \<and> subscribers ''b4'' ''t'' pair3 = [''s1'']"
proof -
  have "let g = pair3 in map_option le_peerSessionId (jm_get (gs_leases g) ''b3'') = Some ''s1''
   \<and> map_option cn_session (jm_get (gw_conns g) 1) = Some (Some ''s1'')
   \<and> map_option (\<lambda>ch. (ch_client ch, ch_backendId ch)) (jm_get (gw_channels g) ''c3'') = Some (''s1'', ''b4'')
   \<and> subscribers ''b4'' ''t'' g = [''s1'']"
    by code_simp
  then show ?thesis by (simp only: Let_def)
qed

theorem expiry_leaks_witness:
  "''s1'' \<in> set (subscribers ''b4'' ''t'' (ws_closed sample_config 1 90001 (handleBackendLeaseExpired sample_config ''b3'' 90000 pair3)))"
proof -
  obtain l c ch where l: "jm_get (gs_leases pair3) ''b3'' = Some l" "le_peerSessionId l = ''s1''"
    and c: "jm_get (gw_conns pair3) 1 = Some c" "cn_session c = Some (le_peerSessionId l)"
    and ch: "jm_get (gw_channels pair3) ''c3'' = Some ch" "ch_client ch = le_peerSessionId l" "ch_backendId ch \<noteq> ''b3''"
    and sub: "le_peerSessionId l \<in> set (subscribers ''b4'' ''t'' pair3)"
    using pair3_facts by auto
  from expiry_leaks [OF reachable_pair l(1) c ch sub, of 90000 90001] show ?thesis
    by (simp add: Let_def l(2))
qed

section \<open>Takeover\<close>

lemma out_send: "prefix (gw_out g) (gw_out (sendToWs w x g))"
  by (simp add: sendToWs_def emit_def)

lemma out_broadcast: "prefix (gw_out g) (gw_out (broadcastRegistrySnapshot e g))"
proof -
  have "prefix (gw_out g) (gw_out (broadcast_to e ps cache g))" for ps cache
  proof (induction e ps cache g rule: broadcast_to.induct)
    case (2 excl peer peers perScope g)
    then show ?case by (auto simp: Let_def intro: prefix_order.trans [OF out_send])
  qed simp
  then show ?thesis by (simp add: broadcastRegistrySnapshot_def)
qed

lemma out_admit: "prefix (gw_out g) (gw_out (admit_peer cf q g))"
proof -
  have "prefix (gw_out g) (gw_out (sendToWs w x (k\<lparr>gw_recoveryTokens := ts\<rparr>)))" if "gw_out k = gw_out g" for w x k ts
    using out_send [of "k\<lparr>gw_recoveryTokens := ts\<rparr>" w x] that by simp
  then show ?thesis
    by (auto simp: admit_peer_def Let_def addPeer_def intro: prefix_order.trans [OF _ out_broadcast] split: option.split)
qed

lemma resolve_epoch:
  "st_maxEpoch (fst (resolveBackendIdentity c ns i n ch u now s)) = st_maxEpoch s"
proof -
  have "st_maxEpoch (fst (getOrCreateBackendIdV4 a x y n u now s)) = st_maxEpoch s" for a x y n s
    by (auto simp: getOrCreateBackendIdV4_def Let_def split: option.split prod.split sum.split dest: epoch_insertD)
  then show ?thesis by (simp add: resolveBackendIdentity_def split: option.split)
qed

lemma register_epoch:
  assumes "register_backend cf h hb c peer u now g = (g', Inr q)"
  shows "ps_epoch q = Some (st_maxEpoch (gw_storage g) + 1)"
proof -
  obtain st1 b where res: "resolveBackendIdentity c (he_namespace h) (he_instanceId h) (he_name h) (ps_channel peer)
      u now (gw_storage g) = (st1, Inr b)"
    using assms by (auto simp: register_backend_def split: prod.splits sum.splits)
  have "st_maxEpoch st1 = st_maxEpoch (gw_storage g)"
    using resolve_epoch [of c "he_namespace h" "he_instanceId h" "he_name h" "ps_channel peer" u now "gw_storage g"] res by simp
  then show ?thesis
    using assms by (auto simp: register_backend_def res allocateEpoch_def Let_def)
qed

lemma resolve_storage: "resolveToken cf tok now g = (g1, r) \<Longrightarrow>
   \<exists>st. g1 = g\<lparr>gw_storage := st\<rparr> \<and> st_maxEpoch st = st_maxEpoch (gw_storage g)"
  using findValid_fst [of "cf_sha cf" tok now "gw_storage g"]
  by (auto simp: resolveToken_def Let_def split: if_splits prod.splits intro: exI [of _ "gw_storage g"])

text \<open>What an accepted handshake of a backend does; every other outcome leaves the leases alone.\<close>

lemma ws_hello_cases:
  assumes inv: "gw_inv g" and c: "jm_get (gw_conns g) w = Some c" "cn_session c = None"
    and fresh: "fresh_all rn g" and v: "validatePeerHelloV4 m = None"
    and other: "\<not> (gs_leases (ws_message cf w (Some m) rn now g) = gs_leases g
      \<and> st_maxEpoch (gw_storage (ws_message cf w (Some m) rn now g)) = st_maxEpoch (gw_storage g))"
  obtains h hb cr g1 g2 q st where
    "g1 = upd_conn w (\<lambda>c. c\<lparr>cn_authAt := None\<rparr>) g \<lparr>gw_storage := st\<rparr>" "gw_inv g1"
    "st_maxEpoch st = st_maxEpoch (gw_storage g)" "fresh_draws (da_hello rn) g1"
    "register_backend cf h hb cr (hello_peer w h cr (da_hello rn)) (hd_backendId (da_hello rn)) now g1 = (g2, Inr q)"
    "ws_message cf w (Some m) rn now g = upd_conn w (\<lambda>c. c\<lparr>cn_session := Some (ps_id q)\<rparr>) (admit_peer cf q g2)"
proof -
  let ?u = "upd_conn w (\<lambda>c. c\<lparr>cn_authAt := None\<rparr>) g"
  define h where "h = parse_hello m"
  let ?rn = "da_hello rn"
  have fresh_u: "fresh_draws ?rn (?u\<lparr>gw_storage := st\<rparr>)" for st
    using fresh by (simp add: fresh_all_def fresh_draws_def mentions_def upd_conn_def subscribers_def)
  obtain g1 r where res: "resolveToken cf (he_gatewaySecret h) now ?u = (g1, r)" by fastforce
  obtain st where g1: "g1 = ?u\<lparr>gw_storage := st\<rparr>" "st_maxEpoch st = st_maxEpoch (gw_storage g)"
    using resolve_storage [OF res] by (auto simp: upd_conn_def)
  have i1: "gw_inv g1" using inv_resolveToken [OF inv_upd_authAt [OF inv, of w None]] res by (metis fst_conv)
  define own where "own k = (gs_leases k, st_maxEpoch (gw_storage k))" for k :: gateway
  have leases: "own g1 = own g" by (simp add: own_def g1 upd_conn_def)
  have quiet: "own (refuse_hello cf w a b k) = own k" "own (bad_frame cf w x k) = own k"
    "own (upd_conn w f k) = own k" "own (fst (recordAuthFailure cf ip now k)) = own k"
    for a b k x f ip
    by (auto simp: own_def refuse_hello_def bad_frame_def upd_conn_def recordAuthFailure_def Let_def split: prod.split)
  have recorded: "own k' = own k" if "recordAuthFailure cf ip now k = (k', x)" for ip k k' x
    using quiet(4) [of ip k] that by simp
  have hello: "ws_message cf w (Some m) rn now g = (case handlePeerHello cf w h (cn_ip c) ?rn now ?u of
      (g1, Inl _) \<Rightarrow> bad_frame cf w False g1
    | (g1, Inr session) \<Rightarrow> upd_conn w (\<lambda>c. c\<lparr>cn_session := session\<rparr>) g1)"
    using c v by (simp add: ws_message_def h_def)
  have adm: "own (admit_peer cf p k) = own k" for p k
    using core_fields [OF admit_fields [of cf p k]] by (simp add: own_def addPeer_def)
  show thesis
  proof (cases "\<exists>cr hb g2 q. r = Some cr \<and> hello_refusal h cr = None \<and> he_peerType h = ClientBackend \<and> he_backend h = Some hb
      \<and> register_backend cf h hb cr (hello_peer w h cr ?rn) (hd_backendId ?rn) now g1 = (g2, Inr q)")
    case True
    then obtain cr hb g2 q where t: "r = Some cr" "hello_refusal h cr = None" "he_peerType h = ClientBackend"
      "he_backend h = Some hb" "register_backend cf h hb cr (hello_peer w h cr ?rn) (hd_backendId ?rn) now g1 = (g2, Inr q)"
      by blast
    have "ws_message cf w (Some m) rn now g = upd_conn w (\<lambda>c. c\<lparr>cn_session := Some (ps_id q)\<rparr>) (admit_peer cf q g2)"
      by (simp add: hello handlePeerHello_def res t)
    with that [OF g1(1) i1 g1(2) _ t(5)] fresh_u g1(1) show thesis by simp
  next
    case False
    have failed: "own g2 = own g"
      if "register_backend cf h hb cr (hello_peer w h cr ?rn) (hd_backendId ?rn) now g1 = (g2, Inl e)" for hb cr g2 e
      using that leases resolve_epoch [of cr "he_namespace h" "he_instanceId h" "he_name h"]
      by (auto simp: own_def register_backend_def Let_def split: prod.splits sum.splits option.splits if_splits dest!: arg_cong [of _ _ fst])
    have "own (ws_message cf w (Some m) rn now g) = own g"
      using False leases failed unfolding hello handlePeerHello_def res prod.case
      by (auto simp: quiet adm Let_def dest: recorded split: option.split peer_type.split sum.split prod.split)
    with other show thesis by (simp add: own_def)
  qed
qed

lemma ousting_closes:
  assumes "jm_get (gs_leases g) b = Some l" and "jm_get (gs_peers g) (le_peerSessionId l) = Some p"
    and "le_peerSessionId l \<noteq> ps_id peer"
  shows "OClose (ps_ws p) 4001 ''Backend replaced by a newer connection'' \<in> set (gw_out (ousting cf b peer e now g))"
proof -
  have "gs_peers (removeLease b (removeTopicsForBackend b (closeChannelsForBackend cf b r (noteOwnerReplaced b now g)))) =
      gs_peers g" for r
    by (simp add: removeLease_def)
  with assms show ?thesis
    by (simp add: ousting_def handleBackendOwnerReplaced_def Let_def ws_close_def emit_def GATEWAY_CLOSE_BACKEND_REPLACED_def)
qed

text \<open>The state after a handshake that changed the leases, and the effects it left.\<close>

lemma takeover_state:
  assumes inv: "gw_inv g" and c: "jm_get (gw_conns g) w = Some c" "cn_session c = None"
    and fresh: "fresh_all rn g" and v: "validatePeerHelloV4 m = None"
    and ne: "\<not> (gs_leases (ws_message cf w (Some m) rn now g) = gs_leases g
      \<and> st_maxEpoch (gw_storage (ws_message cf w (Some m) rn now g)) = st_maxEpoch (gw_storage g))"
  obtains d peer q k o' where "ps_id peer = hd_session (da_hello rn)" "ps_id q = hd_session (da_hello rn)"
    "ps_backendId q = Some d" "gw_inv k" "jm_get (gs_peers k) (ps_id peer) = None"
    "gs_leases k = gs_leases g" "gs_peers k = gs_peers g" "gw_channels k = gw_channels g"
    "o' = ousting cf d peer (st_maxEpoch (gw_storage g) + 1) now k"
    "gs_leases (ws_message cf w (Some m) rn now g) =
       jm_set d \<lparr>le_backendId = d, le_epoch = st_maxEpoch (gw_storage g) + 1, le_peerSessionId = ps_id peer,
                 le_leaseTtlMs = cf_leaseTtlMs cf, le_lastHeartbeatAt = now\<rparr> (gs_leases o')"
    "gs_peers (ws_message cf w (Some m) rn now g) = jm_set (ps_id q) q (gs_peers o')"
    "gw_channels (ws_message cf w (Some m) rn now g) = gw_channels o'"
    "gw_topicSubs (ws_message cf w (Some m) rn now g) = gw_topicSubs o'"
    "gw_retained (ws_message cf w (Some m) rn now g) = gw_retained o'"
    "prefix (gw_out o') (gw_out (ws_message cf w (Some m) rn now g))"
proof -
  from ws_hello_cases [OF inv c fresh v ne] obtain hl hb cr g1 g2 q st where
    g1: "g1 = upd_conn w (\<lambda>c. c\<lparr>cn_authAt := None\<rparr>) g \<lparr>gw_storage := st\<rparr>" "gw_inv g1"
    "st_maxEpoch st = st_maxEpoch (gw_storage g)" "fresh_draws (da_hello rn) g1"
    and r: "register_backend cf hl hb cr (hello_peer w hl cr (da_hello rn)) (hd_backendId (da_hello rn)) now g1 = (g2, Inr q)"
    and h: "ws_message cf w (Some m) rn now g = upd_conn w (\<lambda>c. c\<lparr>cn_session := Some (ps_id q)\<rparr>) (admit_peer cf q g2)" .
  let ?peer = "hello_peer w hl cr (da_hello rn)"
  have u: "hd_backendId (da_hello rn) \<noteq> []" and new: "jm_get (gs_peers g1) (ps_id ?peer) = None"
    using g1(4) by (simp_all add: fresh_draws_def mentions_def hello_peer_def)
  from register_cases [OF r g1(2) u] obtain d st' e where
    q: "q = ?peer\<lparr>ps_backendId := Some d, ps_epoch := Some e\<rparr>" and st': "st_kept (gw_storage g1) st'" and
    g2: "g2 = registryUpsert (hello_presence hl hb ?peer d e now)
       (let k = addLease \<lparr>le_backendId = d, le_epoch = e, le_peerSessionId = ps_id ?peer,
                 le_leaseTtlMs = cf_leaseTtlMs cf, le_lastHeartbeatAt = now\<rparr>
                (ousting cf d ?peer e now (g1\<lparr>gw_storage := st'\<rparr>))
        in k\<lparr>gw_storage := touchBackendIdentity d
             (Some (case ci_parentId cr of Some p \<Rightarrow> p | None \<Rightarrow> ci_id cr)) (he_name hl) now (gw_storage k)\<rparr>)" .
  have e: "e = st_maxEpoch (gw_storage g) + 1" using register_epoch [OF r] by (simp add: q g1)
  have "core (ws_message cf w (Some m) rn now g) = core (install_peer w q g2)"
    unfolding h by (rule core_established)
  note E = core_fields [OF this]
  have "prefix (gw_out (ousting cf d ?peer e now (g1\<lparr>gw_storage := st'\<rparr>))) (gw_out (ws_message cf w (Some m) rn now g))"
    using out_admit [of g2 cf q] by (simp add: h upd_conn_def g2 Let_def registryUpsert_def addLease_def)
  then show thesis
    by (intro that [of ?peer q d "g1\<lparr>gw_storage := st'\<rparr>" "ousting cf d ?peer e now (g1\<lparr>gw_storage := st'\<rparr>)"])
       (use new inv_set_storage [OF g1(2) st'] e in
         \<open>simp_all add: E g2 Let_def registryUpsert_def addLease_def q hello_peer_def g1 upd_conn_def\<close>)
qed

text \<open>
  C3.  A takeover fences the previous owner off.  When a frame on a fresh control connection moves the lease
  of a backend to another session, the new epoch is larger than the old one and the new owner is the
  session of this handshake; the previous owner is told to close with 4001, keeps its session but no
  backend, and is no longer the current owner under any epoch; and no channel, subscription or retained
  payload of the backend survives.
\<close>

theorem takeover_fences:
  assumes "reachable cf g" and c: "jm_get (gw_conns g) w = Some c" "cn_session c = None"
    and fresh: "fresh_all rn g" and v: "validatePeerHelloV4 m = None"
    and l: "jm_get (gs_leases g) b = Some l"
    and l': "jm_get (gs_leases (ws_message cf w (Some m) rn now g)) b = Some l'" "le_peerSessionId l' \<noteq> le_peerSessionId l"
  shows "let h = ws_message cf w (Some m) rn now g in
     le_epoch l < le_epoch l' \<and> le_peerSessionId l' = hd_session (da_hello rn)
   \<and> (\<exists>p. jm_get (gs_peers h) (le_peerSessionId l) = Some p \<and> ps_backendId p = None
        \<and> (\<forall>e. \<not> isCurrentBackendOwner p e h)
        \<and> OClose (ps_ws p) 4001 ''Backend replaced by a newer connection'' \<in> set (gw_out h))
   \<and> (\<forall>i ch. jm_get (gw_channels h) i = Some ch \<longrightarrow> ch_backendId ch \<noteq> b)
   \<and> jm_get (gw_topicSubs h) b = None \<and> jm_get (gw_retained h) b = None"
proof -
  note inv = gw_reachable [OF assms(1)]
  have ne: "\<not> (gs_leases (ws_message cf w (Some m) rn now g) = gs_leases g
      \<and> st_maxEpoch (gw_storage (ws_message cf w (Some m) rn now g)) = st_maxEpoch (gw_storage g))" using l l' by auto
  from takeover_state [OF inv c fresh v ne] obtain d peer q k o' where
    q: "ps_id peer = hd_session (da_hello rn)" "ps_id q = hd_session (da_hello rn)" "ps_backendId q = Some d"
    and k: "gw_inv k" "jm_get (gs_peers k) (ps_id peer) = None" "gs_leases k = gs_leases g" "gs_peers k = gs_peers g"
      "gw_channels k = gw_channels g" and o': "o' = ousting cf d peer (st_maxEpoch (gw_storage g) + 1) now k"
    and h: "gs_leases (ws_message cf w (Some m) rn now g) =
       jm_set d \<lparr>le_backendId = d, le_epoch = st_maxEpoch (gw_storage g) + 1, le_peerSessionId = ps_id peer,
                 le_leaseTtlMs = cf_leaseTtlMs cf, le_lastHeartbeatAt = now\<rparr> (gs_leases o')"
    "gs_peers (ws_message cf w (Some m) rn now g) = jm_set (ps_id q) q (gs_peers o')"
    "gw_channels (ws_message cf w (Some m) rn now g) = gw_channels o'"
    "gw_topicSubs (ws_message cf w (Some m) rn now g) = gw_topicSubs o'"
    "gw_retained (ws_message cf w (Some m) rn now g) = gw_retained o'"
    "prefix (gw_out o') (gw_out (ws_message cf w (Some m) rn now g))" .
  note f = ousting_fields [OF k(1,2) q(3), where cf = cf and e = "st_maxEpoch (gw_storage g) + 1" and now = now, folded o']
  have b: "b = d" using l l' f(4) [of b] k(3) by (cases "b = d") (auto simp: h(1))
  obtain p where p: "jm_get (gs_peers g) (le_peerSessionId l) = Some p" "ps_backendId p = Some b"
    using inv_leasesD(4) [OF inv l] by blast
  have other: "le_peerSessionId l \<noteq> ps_id peer" using k(2,4) p(1) by auto
  have closed: "OClose (ps_ws p) 4001 ''Backend replaced by a newer connection'' \<in> set (gw_out o')"
    unfolding o' by (rule ousting_closes) (use l p k b other in auto)
  have old: "jm_get (gs_peers (ws_message cf w (Some m) rn now g)) (le_peerSessionId l) = Some (unown p)"
    using f(1) [of "le_peerSessionId l"] p other q b by (simp add: h(2) k(4) ousted_def)
  have "ch_backendId ch \<noteq> b" if "jm_get (gw_channels o') i = Some ch" for i ch
    using droppedD(1) [OF f(11) inv_parts(1) [OF k(1)], of i] that b by (auto split: option.splits if_splits)
  moreover have "set (gw_out o') \<subseteq> set (gw_out (ws_message cf w (Some m) rn now g))"
    using h(6) by (rule set_mono_prefix)
  ultimately show ?thesis
    using old closed inv_leasesD(3) [OF inv l] l'(1) q(1) b
    by (auto simp: Let_def h f unown_def isCurrentBackendOwner_def)
qed

definition run1_again :: gateway where
  "run1_again = ws_connection sample_config 5 ''10.0.0.5'' 490 run1"

lemma run1_again_facts:
  "map_option cn_session (jm_get (gw_conns run1_again) 5) = Some None
   \<and> fresh_check (sample_all ''9'') run1_again
   \<and> map_option le_peerSessionId (jm_get (gs_leases run1_again) ''b3'') = Some ''s1''
   \<and> map_option le_peerSessionId (jm_get (gs_leases
        (ws_message sample_config 5 (Some (sample_hello ''zgb_3'' True)) (sample_all ''9'') 500 run1_again)) ''b3'') = Some ''s9''"
proof -
  have "let g = run1_again in map_option cn_session (jm_get (gw_conns g) 5) = Some None
   \<and> fresh_check (sample_all ''9'') g
   \<and> map_option le_peerSessionId (jm_get (gs_leases g) ''b3'') = Some ''s1''
   \<and> map_option le_peerSessionId (jm_get (gs_leases
        (ws_message sample_config 5 (Some (sample_hello ''zgb_3'' True)) (sample_all ''9'') 500 g)) ''b3'') = Some ''s9''"
    by code_simp
  then show ?thesis by (simp only: Let_def)
qed

theorem takeover_fences_witness:
  "\<exists>p. jm_get (gs_peers (ws_message sample_config 5 (Some (sample_hello ''zgb_3'' True)) (sample_all ''9'') 500 run1_again)) ''s1''
     = Some p \<and> ps_backendId p = None"
proof -
  obtain c l l' where c: "jm_get (gw_conns run1_again) 5 = Some c" "cn_session c = None"
    and l: "jm_get (gs_leases run1_again) ''b3'' = Some l" "le_peerSessionId l = ''s1''"
    and l': "jm_get (gs_leases (ws_message sample_config 5 (Some (sample_hello ''zgb_3'' True)) (sample_all ''9'') 500 run1_again))
        ''b3'' = Some l'" "le_peerSessionId l' \<noteq> le_peerSessionId l"
    using run1_again_facts by auto
  have "jm_get (gw_conns run1) 5 = None" using run1_facts jm_keys_iff [of 5 "gw_conns run1"] by (simp add: jm_keys_def)
  then have "reachable sample_config run1_again"
    unfolding run1_again_def by (blast intro: reachable_step reachable_runs gw_step.connect)
  moreover have "fresh_all (sample_all ''9'') run1_again" using run1_again_facts by (blast intro: fresh_check)
  moreover have "validatePeerHelloV4 (sample_hello ''zgb_3'' True) = None" by code_simp
  ultimately show ?thesis
    using takeover_fences [OF _ c _ _ l(1) l'] l(2) by (auto simp: Let_def)
qed

section \<open>Forgetting an identity\<close>

definition bound_to :: "string \<Rightarrow> credential_info \<Rightarrow> bool" where
  "bound_to b c \<longleftrightarrow> ci_type c = Backend \<and> ci_revokedAt c = None \<and> ci_backendId c = Some b \<and> b \<noteq> []"

lemma bound_counts:
  "or_else (jm_get (boundCredentialCounts st) b) 0 = length (filter (bound_to b) (listCredentials st))"
proof -
  let ?f = "\<lambda>c counts. case ci_backendId c of
           Some b \<Rightarrow>
             if ci_type c = Backend \<and> ci_revokedAt c = None \<and> b \<noteq> []
             then jm_set b (or_else (jm_get counts b) 0 + 1) counts else counts
         | None \<Rightarrow> counts"
  have step: "or_else (jm_get (?f c counts) b) 0 = or_else (jm_get counts b) 0 + (if bound_to b c then 1 else 0)"
    for c and counts :: "(string, nat) jmap"
    by (auto simp: bound_to_def split: option.split)
  have "or_else (jm_get (fold ?f cs counts) b) 0 = or_else (jm_get counts b) 0 + length (filter (bound_to b) cs)"
    for cs and counts :: "(string, nat) jmap"
    by (induction cs arbitrary: counts) (simp_all only: fold_simps step filter.simps, auto)
  then show ?thesis by (simp add: boundCredentialCounts_def)
qed

lemma getBackendIdentity_iff:
  assumes "st_ok s"
  shows "getBackendIdentity b s = Some x \<longleftrightarrow> x \<in> backend_identity.truncate ` set (st_identities s) \<and> bi_backendId x = b"
proof -
  have "distinct (map bi_backendId (order_by_created_desc bi_createdAt (st_identities s)))"
    using assms by (intro distinct_order) (simp add: st_ok_def)
  then have "distinct (map bi_backendId (listBackendIdentities s))"
    by (simp add: listBackendIdentities_def comp_def backend_identity.truncate_def)
  from find_key_iff [OF this, of b x] show ?thesis by (simp add: getBackendIdentity_def listBackendIdentities_def)
qed

lemma getBackendIdentity_delete:
  assumes "st_ok s"
  shows "getBackendIdentity b' (fst (deleteBackendIdentity b s)) = (if b' = b then None else getBackendIdentity b' s)"
proof -
  have "getBackendIdentity b' (fst (deleteBackendIdentity b s)) = Some x \<longleftrightarrow> b' \<noteq> b \<and> getBackendIdentity b' s = Some x" for x
    unfolding getBackendIdentity_iff [OF assms] getBackendIdentity_iff [OF st_ok_deleteIdentity [OF assms]]
    by (auto simp: deleteBackendIdentity_def set_delete_where backend_identity.truncate_def image_iff)
  then show ?thesis by (auto split: if_splits) (metis not_Some_eq)+
qed

text \<open>
  An identity is only forgotten when nothing uses it.  When the admin endpoint deletes a backend, no
  live session claims it, it has no lease, and no unrevoked enrollment credential is bound to it; after it
  the identity is gone, every other identity and every credential is as before.
\<close>

theorem delete_backend_safe:
  assumes "reachable cf g" and d: "delete_backend b g = (g', Reply 200 ())"
  shows "jm_get (gs_leases g) b = None
    \<and> (\<forall>i p. jm_get (gs_peers g) i = Some p \<longrightarrow> ps_backendId p \<noteq> Some b)
    \<and> (\<forall>c\<in>set (listCredentials (gw_storage g)). ci_type c = Backend \<and> ci_revokedAt c = None \<longrightarrow> ci_backendId c \<noteq> Some b)
    \<and> (\<forall>b'. getBackendIdentity b' (gw_storage g') = (if b' = b then None else getBackendIdentity b' (gw_storage g)))
    \<and> st_credentials (gw_storage g') = st_credentials (gw_storage g)"
proof -
  note inv = gw_reachable [OF assms(1)]
  from d obtain x where x: "getBackendIdentity b (gw_storage g) = Some x" "\<not> jm_has (gs_registry g) b"
    "or_else (jm_get (boundCredentialCounts (gw_storage g)) b) 0 = 0"
    "g' = g\<lparr>gw_storage := fst (deleteBackendIdentity b (gw_storage g))\<rparr>"
    by (auto simp: delete_backend_def split: option.splits if_splits)
  have b: "b \<noteq> []"
    using inv_parts(10) [OF inv] x(1)
    by (auto simp: inv_storage_def getBackendIdentity_iff backend_identity.truncate_def)
  have lease: "jm_get (gs_leases g) b = None"
    using x(2) inv_leasesD(4) [OF inv, of b] by (cases "jm_get (gs_leases g) b") (auto simp: jm_has_iff)
  then have "ps_backendId p \<noteq> Some b" if "jm_get (gs_peers g) i = Some p" for i p
    using inv_peersD(6) [OF inv that] by auto
  moreover have "ci_backendId c \<noteq> Some b"
    if "c \<in> set (listCredentials (gw_storage g))" "ci_type c = Backend" "ci_revokedAt c = None" for c
    using x(3) that b by (auto simp: bound_counts bound_to_def filter_empty_conv)
  moreover have "getBackendIdentity b' (gw_storage g') = (if b' = b then None else getBackendIdentity b' (gw_storage g))" for b'
    using inv_parts(10) [OF inv] by (simp add: x(4) getBackendIdentity_delete inv_storage_def)
  ultimately show ?thesis using lease by (auto simp: x(4) deleteBackendIdentity_def)
qed

definition retired :: gateway where
  "retired = start_gateway sample_config (fst (revokeCredential ''c3'' 50 sample_storage))"

theorem delete_backend_safe_witness:
  "getBackendIdentity ''b3'' (gw_storage (fst (delete_backend ''b3'' retired))) = None
    \<and> getBackendIdentity ''b3'' (gw_storage retired) \<noteq> None"
proof -
  have "ids_ok (fst (revokeCredential ''c3'' 50 sample_storage))" by code_simp
  then have "reachable sample_config retired"
    using st_ok_revoke [OF st_ok_sample] unfolding reachable_def retired_def started_def by blast
  moreover have "snd (delete_backend ''b3'' retired) = Reply 200 ()" "getBackendIdentity ''b3'' (gw_storage retired) \<noteq> None"
    by code_simp+
  ultimately show ?thesis
    using delete_backend_safe [of sample_config retired "''b3''" "fst (delete_backend ''b3'' retired)"] by (simp add: prod_eq_iff)
qed

end
