(* ===== verification/Gw_Fencing.thy ===== *)
theory Gw_Fencing
  imports Gw_Lifecycle
begin

text \<open>
  Ownership as the rest of the system may rely on it.  The abstract specification is a table of owners
  and the last epoch given out; a step may take owners away and may give a backend to a session only
  under an epoch that was never given out before.  Every step of the running server is a step of it.
\<close>

section \<open>The specification\<close>

record ownership =
  ow_owner :: "string \<Rightarrow> (string \<times> int) option"
  ow_last :: int

definition owns_ok :: "ownership \<Rightarrow> bool" where
  "owns_ok a \<longleftrightarrow> (\<forall>b s e. ow_owner a b = Some (s, e) \<longrightarrow> e \<le> ow_last a)"

definition own_step :: "ownership \<Rightarrow> ownership \<Rightarrow> bool" where
  "own_step a a' \<longleftrightarrow> ow_last a \<le> ow_last a'
     \<and> (\<forall>b. ow_owner a' b = None \<or> ow_owner a' b = ow_owner a b
          \<or> (\<exists>s e. ow_owner a' b = Some (s, e) \<and> ow_last a < e \<and> e \<le> ow_last a'))"

text \<open>What the fencing epoch is for: once a backend has changed hands, the new owner's epoch is larger.\<close>

definition fenced :: "ownership \<Rightarrow> ownership \<Rightarrow> bool" where
  "fenced a a' \<longleftrightarrow> (\<forall>b s e s' e'. ow_owner a b = Some (s, e) \<longrightarrow> ow_owner a' b = Some (s', e') \<longrightarrow>
     (s' = s \<and> e' = e) \<or> e < e')"

lemma own_step_refl [simp]: "own_step a a"
  by (simp add: own_step_def)

lemma own_step_trans: "own_step a b \<Longrightarrow> own_step b c \<Longrightarrow> own_step a c"
  unfolding own_step_def
proof (intro conjI allI)
  fix x
  assume a: "ow_last a \<le> ow_last b \<and> (\<forall>x. ow_owner b x = None \<or> ow_owner b x = ow_owner a x
      \<or> (\<exists>s e. ow_owner b x = Some (s, e) \<and> ow_last a < e \<and> e \<le> ow_last b))"
    and b: "ow_last b \<le> ow_last c \<and> (\<forall>x. ow_owner c x = None \<or> ow_owner c x = ow_owner b x
      \<or> (\<exists>s e. ow_owner c x = Some (s, e) \<and> ow_last b < e \<and> e \<le> ow_last c))"
  then show "ow_last a \<le> ow_last c" by linarith
  show "ow_owner c x = None \<or> ow_owner c x = ow_owner a x
      \<or> (\<exists>s e. ow_owner c x = Some (s, e) \<and> ow_last a < e \<and> e \<le> ow_last c)"
    using b [THEN conjunct2, rule_format, of x] a [THEN conjunct2, rule_format, of x]
      a [THEN conjunct1] b [THEN conjunct1] by (elim disjE) auto
qed

lemma own_step_fenced: "own_step a b \<Longrightarrow> owns_ok a \<Longrightarrow> fenced a b"
  unfolding fenced_def
proof (intro allI impI)
  fix x s e s' e'
  assume "own_step a b" and ok: "owns_ok a" and o: "ow_owner a x = Some (s, e)" "ow_owner b x = Some (s', e')"
  then have "ow_owner b x = ow_owner a x \<or> ow_last a < e'" unfolding own_step_def by (metis option.distinct(1) option.inject prod.inject)
  moreover have "e \<le> ow_last a" using ok o(1) by (simp add: owns_ok_def)
  ultimately show "s' = s \<and> e' = e \<or> e < e'" using o by auto
qed

section \<open>Simulation\<close>

text \<open>
  A system whose steps, where its invariant holds, are steps of a reflexive and transitive specification:
  then so is every run.
\<close>

locale simulation = invariant_machine start step inv
  for start :: "'s \<Rightarrow> bool" and step :: "'s \<Rightarrow> 's \<Rightarrow> bool" and inv :: "'s \<Rightarrow> bool" +
  fixes spec :: "'a \<Rightarrow> 'a \<Rightarrow> bool" and absf :: "'s \<Rightarrow> 'a"
  assumes spec_refl: "spec a a"
    and spec_trans: "spec a b \<Longrightarrow> spec b c \<Longrightarrow> spec a c"
    and refines: "inv s \<Longrightarrow> step s t \<Longrightarrow> spec (absf s) (absf t)"
begin

lemma run_refines: "rtranclp step s t \<Longrightarrow> inv s \<Longrightarrow> spec (absf s) (absf t)"
proof (induction rule: rtranclp_induct)
  case base
  then show ?case by (simp add: spec_refl)
next
  case (step y z)
  then show ?case by (blast intro: spec_trans refines steps_inv)
qed

end

section \<open>The server's ownership\<close>

definition own_of :: "gateway \<Rightarrow> ownership" where
  "own_of g = \<lparr>ow_owner = (\<lambda>b. map_option (\<lambda>l. (le_peerSessionId l, le_epoch l)) (jm_get (gs_leases g) b)),
               ow_last = st_maxEpoch (gw_storage g)\<rparr>"

lemma own_core: "core g = core h \<Longrightarrow> own_of g = own_of h"
  by (simp add: core_eq_iff own_of_def)

text \<open>Steps that keep, or only remove, leases.\<close>

lemma own_keeps:
  "gs_leases h = gs_leases g \<Longrightarrow> st_maxEpoch (gw_storage h) = st_maxEpoch (gw_storage g) \<Longrightarrow> own_step (own_of g) (own_of h)"
  by (simp add: own_of_def)

lemma own_removes:
  assumes "\<And>b. jm_get (gs_leases h) b = None \<or> jm_get (gs_leases h) b = jm_get (gs_leases g) b"
    and "st_maxEpoch (gw_storage h) = st_maxEpoch (gw_storage g)"
  shows "own_step (own_of g) (own_of h)"
proof -
  have "ow_owner (own_of h) b = None \<or> ow_owner (own_of h) b = ow_owner (own_of g) b" for b
    using assms(1) [of b] by (auto simp: own_of_def)
  moreover have "ow_last (own_of h) = ow_last (own_of g)" using assms(2) by (simp add: own_of_def)
  ultimately show ?thesis unfolding own_step_def by (metis order_refl)
qed

lemma epoch_touch [simp]: "st_maxEpoch (touchBackendIdentity b r n now s) = st_maxEpoch s"
  by (simp add: touchBackendIdentity_def)

lemma own_disconnect: "own_step (own_of g) (own_of (handlePeerDisconnect cf sid now g))"
proof (rule own_removes)
  show "jm_get (gs_leases (handlePeerDisconnect cf sid now g)) b = None
      \<or> jm_get (gs_leases (handlePeerDisconnect cf sid now g)) b = jm_get (gs_leases g) b" for b
    by (auto simp: handlePeerDisconnect_def Let_def touch_def removeBackend_def registryRemove_def removeLease_def
        unregisterRecoveryToken_def removePeer_def closePeer_fields removeTopics_fields split: option.split)
  show "st_maxEpoch (gw_storage (handlePeerDisconnect cf sid now g)) = st_maxEpoch (gw_storage g)"
    by (auto simp: handlePeerDisconnect_def Let_def touch_def removeBackend_def registryRemove_def removeLease_def
        unregisterRecoveryToken_def removePeer_def closePeer_fields removeTopics_fields split: option.split)
qed

lemma own_expired: "own_step (own_of g) (own_of (handleBackendLeaseExpired cf b now g))"
  by (rule own_removes)
     (auto simp: handleBackendLeaseExpired_def Let_def touch_def removeBackend_def registryRemove_def removeLease_def
       unregisterRecoveryToken_def removePeer_def upd_peer_def split: option.split)

lemma own_expire_leases: "own_step (own_of g) (own_of (expire_leases cf now bs g))"
proof (induction cf now bs g rule: expire_leases.induct)
  case (2 cf now b bs g)
  then show ?case by (auto intro: own_step_trans [OF own_expired] split: option.splits)
qed simp

lemma own_ping_peers: "own_step (own_of g) (own_of (ping_peers cf now sids g))"
proof (induction cf now sids g rule: ping_peers.induct)
  case (2 cf now sid sids g)
  have "own_of (upd_peer sid f k) = own_of k" "own_of (emit x k) = own_of k" for f k x
    by (simp_all add: own_of_def upd_peer_def emit_def)
  then show ?case using 2 by (auto intro: own_step_trans [OF own_disconnect] split: option.splits)
qed simp

lemma own_ws_closed: "own_step (own_of g) (own_of (ws_closed cf w now g))"
proof -
  have "own_of (g\<lparr>gw_conns := cs, gw_wsPerIp := ips\<rparr>) = own_of g" for cs ips by (simp add: own_of_def)
  then show ?thesis
    using own_disconnect [of "g\<lparr>gw_conns := cs, gw_wsPerIp := ips\<rparr>" for cs ips]
    by (auto simp: ws_closed_def Let_def split: option.split)
qed

lemma own_connections:
  "own_of (ws_connection cf w ip now g) = own_of g" "own_of (auth_timeout cf w now g) = own_of g"
  "own_of (ws_pong w g) = own_of g" "own_of (registryPollInterval g) = own_of g"
  "own_of (replaced_grace_elapsed cf w g) = own_of g" "own_of (bad_frame cf w b g) = own_of g"
  by (auto simp: own_of_def ws_connection_def auth_timeout_def upd_conn_def ws_pong_def upd_peer_def registryPollInterval_def
      replaced_grace_elapsed_def bad_frame_def Let_def split: option.split)

lemma own_channels:
  "own_of (teardownChannel cf cid r g) = own_of g" "own_of (pairing_timeout cf cid now g) = own_of g"
  "own_of (channel_socket_closed cf cid g) = own_of g"
  by (auto simp: own_of_def teardown_fields drop_channel_def pairing_timeout_def channel_socket_closed_def split: option.split)

lemma own_messages:
  "own_of (handleChannelOpen cf p t k rn now g) = own_of g" "own_of (handleChannelReject cf p c g) = own_of g"
  "own_of (handleChannelClose cf p c g) = own_of g" "own_of (handleTopicSubscribe p b t g) = own_of g"
  "own_of (handleTopicUnsubscribe p b t g) = own_of g" "own_of (handleTopicPublish p t v r g) = own_of g"
  "own_of (handlePushNotificationRequest p e g) = own_of g" "own_of (handleRequestRegistrySnapshot p g) = own_of g"
  "own_of (handleBackendServerMessage p b tg m g) = own_of g" "own_of (gateway_error p c s g) = own_of g"
  "own_of (handleBackendHeartbeat p ep now g) = own_of g"
proof -
  show "own_of (handleChannelOpen cf p t k rn now g) = own_of g"
    by (auto simp: own_of_def handleChannelOpen_def issueChannelTicket_def gateway_error_def Let_def split: option.split)
  show "own_of (handleChannelReject cf p c g) = own_of g" "own_of (handleChannelClose cf p c g) = own_of g"
    by (auto simp: handleChannelReject_def handleChannelClose_def own_channels split: option.split)
  show "own_of (handleTopicSubscribe p b t g) = own_of g"
    unfolding own_core [OF subscribe_core] by (simp add: own_of_def add_subscriber_def Let_def)
  show "own_of (handleTopicPublish p t v r g) = own_of g"
    unfolding own_core [OF publish_core] by (auto simp: own_of_def retain_payload_def Let_def split: option.split)
  show "own_of (handleTopicUnsubscribe p b t g) = own_of g" "own_of (handlePushNotificationRequest p e g) = own_of g"
    "own_of (handleRequestRegistrySnapshot p g) = own_of g" "own_of (handleBackendServerMessage p b tg m g) = own_of g"
    "own_of (gateway_error p c s g) = own_of g"
    by (auto simp: own_of_def handleTopicUnsubscribe_def handlePushNotificationRequest_def gateway_error_def emit_def
        handleRequestRegistrySnapshot_def handleBackendServerMessage_def split: option.split)
  show "own_of (handleBackendHeartbeat p ep now g) = own_of g"
    by (auto simp: own_of_def handleBackendHeartbeat_def fun_eq_iff split: option.split)
qed

lemma own_peer_message: "own_of (handlePeerMessage cf sid m rn now g) = own_of g"
  by (auto simp: handlePeerMessage_def Let_def own_messages split: option.split) (simp add: own_of_def)

lemma own_http:
  "own_of (rateLimitCleanup now g) = own_of g" "own_of (dial_socket cf cid tok w now g) = own_of g"
  "own_of (fst (request_data cid d n g)) = own_of g" "own_of (fst (request_drain_tick cid n g)) = own_of g"
  "own_of (request_end cid g) = own_of g" "own_of (bridge_drained w g) = own_of g"
  "own_of (bridge_timeout cf cid now g) = own_of g" "own_of (bridge_closed cf cid g) = own_of g"
  "own_of (response_closed cf cid r g) = own_of g"
proof -
  have small: "own_of (upd_bridge cid f k) = own_of k" "own_of (k\<lparr>gw_bridges := bs\<rparr>) = own_of k" "own_of (res_end r k) = own_of k"
    "own_of (emit x k) = own_of k" "own_of (k\<lparr>gw_channels := cs\<rparr>) = own_of k" "own_of (k\<lparr>gw_res := rs\<rparr>) = own_of k"
    "own_of (sendToWs w m k) = own_of k" for f k bs r x cs rs w m
    by (simp_all add: own_of_def upd_bridge_def res_end_def emit_def)
  show "own_of (rateLimitCleanup now g) = own_of g" by (simp add: own_of_def rateLimitCleanup_def Let_def)
  show "own_of (dial_socket cf cid tok w now g) = own_of g"
    by (auto simp: own_of_def dial_socket_def handleChannelUpgrade_def channelUpgraded_def bridgeHttpChannel_def wireChannel_def
        upd_bridge_def emit_def Let_def split: option.split prod.split bool.split)
  show "own_of (fst (request_data cid d n g)) = own_of g" "own_of (fst (request_drain_tick cid n g)) = own_of g"
    "own_of (request_end cid g) = own_of g" "own_of (bridge_drained w g) = own_of g"
    by (auto simp: request_data_def request_drain_tick_def request_end_def bridge_drained_def Let_def small split: option.split)
  show "own_of (bridge_timeout cf cid now g) = own_of g" "own_of (bridge_closed cf cid g) = own_of g"
    "own_of (response_closed cf cid r g) = own_of g"
    by (auto simp: bridge_timeout_def bridge_closed_def response_closed_def Let_def small own_channels split: option.split)
qed

lemma own_bridge_message: "bridge_message cf cid w f wr now g = Inr h \<Longrightarrow> own_of h = own_of g"
proof -
  have small: "own_of (upd_bridge cid f k) = own_of k" "own_of (res_head r s hs k) = own_of k" "own_of (emit x k) = own_of k"
    "own_of (k\<lparr>gw_bridges := bs\<rparr>) = own_of k"
    for f k r s hs x bs
    by (simp_all add: own_of_def upd_bridge_def res_head_def emit_def)
  show "bridge_message cf cid w f wr now g = Inr h \<Longrightarrow> own_of h = own_of g"
    by (auto simp: bridge_message_def bridge_meta_def Let_def small own_channels split: option.splits if_splits data_frame.splits)
qed

lemma own_resolve: "resolveToken cf tok now g = (g1, r) \<Longrightarrow> own_of g1 = own_of g"
  using resolve_storage [of cf tok now g g1 r] by (auto simp: own_of_def)

lemma own_auth:
  "own_of (fst (denyUnauthorized cf ip m now g)) = own_of g"
  "own_of (fst (requireGatewayAuth cf h ip now g)) = own_of g"
  "own_of (fst (refuseProxyRequest cf c ip now g)) = own_of g"
proof -
  show deny: "own_of (fst (denyUnauthorized cf ip m now g)) = own_of g" for m g
    by (simp add: denyUnauthorized_eq own_of_def Let_def split: prod.split)
  show "own_of (fst (refuseProxyRequest cf c ip now g)) = own_of g"
    by (auto simp: refuseProxyRequest_def own_of_def Let_def split: prod.split)
  have r: "own_of (fst (resolveToken cf tok now g)) = own_of g" for tok
    using own_resolve [of cf tok now g] by (cases "resolveToken cf tok now g") simp
  have d: "own_of (fst (case denyUnauthorized cf ip m now k of (g2, r) \<Rightarrow> (g2, Inl r))) = own_of k" for m k
    using deny [of m k] by (simp add: split_def)
  show "own_of (fst (requireGatewayAuth cf h ip now g)) = own_of g"
  proof (cases "bearer h")
    case None
    then show ?thesis by (simp add: requireGatewayAuth_def Let_def d)
  next
    case (Some tok)
    obtain g1 x where t: "resolveToken cf tok now g = (g1, x)" by fastforce
    with r [of tok] Some show ?thesis by (cases x) (simp_all add: requireGatewayAuth_def Let_def d)
  qed
qed

lemma own_proxy: "own_of (proxy_route cf r h ip b pq rn now g) = own_of g"
proof -
  have via: "own_of (proxyViaChannel cf r pq b e p rn now k) = own_of k" for e p k
    by (auto simp: proxyViaChannel_def ticket_for_backend_def issueChannelTicket_def own_of_def Let_def)
  have ans: "own_of (answer r rep k) = own_of k" "own_of (res_json r s c m k) = own_of k"
    for rep :: "unit reply" and k s c m
    by (simp_all add: answer_def own_of_def split: reply.split)
  obtain g1 x where a: "requireGatewayAuth cf h ip now g = (g1, x :: unit reply + credential_info)" by fastforce
  have g1: "own_of g1 = own_of g" using arg_cong [OF a, of "\<lambda>z. own_of (fst z)"] by (simp add: own_auth)
  show ?thesis
  proof (cases x)
    case (Inr c)
    obtain g2 y where f: "refuseProxyRequest cf (ci_id c) ip now g1 = (g2, y)" by fastforce
    have "own_of g2 = own_of g1" using own_auth(3) [of cf "ci_id c" ip now g1] f by simp
    with Inr g1 show ?thesis
      by (auto simp: proxy_route_def a f via ans split: option.split)
  qed (use g1 in \<open>simp add: proxy_route_def a ans\<close>)
qed

lemma own_hello:
  assumes inv: "gw_inv g" and c: "jm_get (gw_conns g) w = Some c" "cn_session c = None"
    and fresh: "fresh_all rn g" and v: "validatePeerHelloV4 m = None"
  shows "own_step (own_of g) (own_of (ws_message cf w (Some m) rn now g))"
proof -
  let ?h = "ws_message cf w (Some m) rn now g"
  have i: "gw_inv ?h" by (rule inv_ws_message [OF inv fresh])
  show ?thesis
  proof (cases "gs_leases ?h = gs_leases g \<and> st_maxEpoch (gw_storage ?h) = st_maxEpoch (gw_storage g)")
    case True
    then show ?thesis by (simp add: own_keeps)
  next
    case False
    from takeover_state [OF inv c fresh v False] obtain d peer q k o' where
      "ps_id peer = hd_session (da_hello rn)" "ps_id q = hd_session (da_hello rn)" and q: "ps_backendId q = Some d"
      and k: "gw_inv k" "jm_get (gs_peers k) (ps_id peer) = None" "gs_leases k = gs_leases g"
        "gs_peers k = gs_peers g" "gw_channels k = gw_channels g"
      and o': "o' = ousting cf d peer (st_maxEpoch (gw_storage g) + 1) now k"
      and h: "gs_leases ?h = jm_set d \<lparr>le_backendId = d, le_epoch = st_maxEpoch (gw_storage g) + 1, le_peerSessionId = ps_id peer,
                 le_leaseTtlMs = cf_leaseTtlMs cf, le_lastHeartbeatAt = now\<rparr> (gs_leases o')"
        "gs_peers ?h = jm_set (ps_id q) q (gs_peers o')" "gw_channels ?h = gw_channels o'"
        "gw_topicSubs ?h = gw_topicSubs o'" "gw_retained ?h = gw_retained o'" "prefix (gw_out o') (gw_out ?h)" .
    have new: "st_maxEpoch (gw_storage g) + 1 \<le> st_maxEpoch (gw_storage ?h)"
      using inv_leasesD(3) [OF i, of d] by (simp add: h(1))
    have "jm_get (gs_leases ?h) b = jm_get (gs_leases g) b" if "b \<noteq> d" for b
      using ousting_fields(4) [OF k(1,2) q that] k(3) that by (simp add: h(1) o')
    with new show ?thesis
      by (auto simp: own_step_def own_of_def h(1))
  qed
qed

lemma own_ws_message:
  assumes inv: "gw_inv g" and fresh: "fresh_all rn g"
  shows "own_step (own_of g) (own_of (ws_message cf w frame rn now g))"
proof (cases "jm_get (gw_conns g) w")
  case None
  then show ?thesis by (simp add: ws_message_def)
next
  case (Some c)
  show ?thesis
  proof (cases "\<exists>m. frame = Some m \<and> cn_session c = None \<and> validatePeerHelloV4 m = None")
    case True
    with own_hello [OF inv Some _ fresh] show ?thesis by blast
  next
    case False
    have "own_of (ws_message cf w frame rn now g) = own_of g"
      using False Some by (auto simp: ws_message_def own_connections own_peer_message split: option.splits)
         (simp_all add: own_of_def)
    then show ?thesis by simp
  qed
qed

text \<open>The endpoints change neither leases nor epochs.\<close>

lemma own_storage: "st_maxEpoch s = st_maxEpoch (gw_storage g) \<Longrightarrow> own_of (g\<lparr>gw_storage := s\<rparr>) = own_of g"
  by (simp add: own_of_def)

lemma own_small:
  "own_of (g\<lparr>gw_adminSessions := ss\<rparr>) = own_of g" "own_of (close_peers cf P r ps g) = own_of g"
  "own_of (afterRevoke cf ids g) = own_of g" "own_of (fst (cookie_session rq now g)) = own_of g"
proof -
  show c: "own_of (close_peers cf P r ps g) = own_of g" by (rule own_core) simp
  show s: "own_of (g\<lparr>gw_adminSessions := ss\<rparr>) = own_of g" for ss by (simp add: own_of_def)
  show "own_of (afterRevoke cf ids g) = own_of g" using own_core [OF close_peers_core] by (auto simp: afterRevoke_def)
  show "own_of (fst (cookie_session rq now g)) = own_of g" using cookie_session_frame [of rq now g] s by metis
qed

lemma own_session_routes:
  "own_of (fst (admin_login cf rq sid now g)) = own_of g" "own_of (fst (session_probe rq now g)) = own_of g"
  "own_of (fst (admin_logout rq now g)) = own_of g"
proof -
  show "own_of (fst (admin_login cf rq sid now g)) = own_of g"
    by (auto simp: admin_login_def Let_def own_small own_auth split: prod.split)
  obtain k x where c: "cookie_session rq now g = (k, x)" by fastforce
  have "own_of k = own_of g" using own_small(4) [of rq now g] c by simp
  then show "own_of (fst (session_probe rq now g)) = own_of g" "own_of (fst (admin_logout rq now g)) = own_of g"
    by (simp_all add: session_probe_def admin_logout_def c own_small split: sum.split option.split)
qed

lemma epoch_ops [simp]:
  "st_maxEpoch (fst (deleteBackendIdentity b s)) = st_maxEpoch s"
  "st_maxEpoch (fst (bindBackendCredential i b s)) = st_maxEpoch s"
  "st_maxEpoch (fst (setAllowedBackends i a s)) = st_maxEpoch s"
  "st_maxEpoch (fst (revokeCredential i now s)) = st_maxEpoch s"
  "st_maxEpoch (fst (revokeCredentials js now s)) = st_maxEpoch s"
  "st_maxEpoch (fst (purgeRevokedCredentials ids s)) = st_maxEpoch s"
  "st_maxEpoch (fst (exchangeAccessCredential sha p t rn now s)) = st_maxEpoch s"
  using epoch_step [of sha "SForget b" s] epoch_step [of sha "SBind i b" s] epoch_step [of sha "SScope i a" s]
    epoch_step [of sha "SRevoke i now" s] epoch_step [of sha "SRevokes js now" s] epoch_step [of sha "SPurge ids" s]
    epoch_step [of sha "SExchange p t rn now" s]
  by simp_all

lemma own_admin_effect: "own_of (fst (admin_effect cf c rq now g)) = own_of g"
proof (cases c)
  case (Issue rn)
  have "own_of (g\<lparr>gw_storage := st\<rparr>) = own_of g" if "createCredential (cf_sha cf) i rn now (gw_storage g) = (st, x)" for i st x
    using epoch_createCredential [of "cf_sha cf" i rn now "gw_storage g"] that by (simp add: own_of_def)
  with Issue show ?thesis by (auto simp: issue_credential_def split: sum.split prod.split)
qed (simp_all add: delete_backend_def bind_credential_def change_scope_def revoke_credential_def bulk_revoke_def
      purge_credentials_def Let_def split_def own_storage own_small split: option.split sum.split)

lemma own_admin_route:
  fixes handler :: "gateway \<Rightarrow> gateway \<times> 'a reply"
  assumes "\<And>h. own_of (fst (handler h)) = own_of h"
  shows "own_of (fst (admin_route cf host_of rq now handler g)) = own_of g"
proof -
  obtain g1 x where r: "requireAdmin cf host_of rq now g = (g1, x :: 'a reply option)" by fastforce
  obtain g2 y where c: "cookie_session rq now g = (g2, y)" by fastforce
  have g2: "own_of g2 = own_of g" using own_small(4) [of rq now g] c by simp
  have d: "own_of k = own_of g2" if "denyUnauthorized cf ip m now g2 = (k, z)" for ip m k and z :: "'a reply"
    using own_auth(1) [of cf ip m now g2] that by (metis fst_conv)
  have "own_of g1 = own_of g"
    using r g2 by (auto simp: requireAdmin_def c Let_def dest: d split: if_splits sum.splits option.splits prod.splits)
  with assms show ?thesis by (simp add: admin_route_def r split: option.split)
qed

lemma own_read_routes:
  "own_of (fst (sync_registry cf h ip now g)) = own_of g" "own_of (fst (discovery_backends cf h ip now g)) = own_of g"
  "own_of (fst (exchange_token cf rq rn now g)) = own_of g"
proof -
  have deny: "own_of (fst (case denyUnauthorized cf ip m now k of (g2, r) \<Rightarrow> (g2, Inl r))) = own_of k" for ip m k
    using own_auth(1) [of cf ip m now k] by (simp add: split_def)
  obtain g1 x where r: "requireRecoveryToken cf h ip now g = (g1, x :: presence list reply + peer_session)" by fastforce
  have "own_of g1 = own_of g" using arg_cong [OF r, of "\<lambda>z. own_of (fst z)"]
    by (auto simp: requireRecoveryToken_def Let_def deny split: option.splits)
  then show "own_of (fst (sync_registry cf h ip now g)) = own_of g"
    by (simp add: sync_registry_def r split: sum.split)
  obtain g2 y where a: "requireGatewayAuth cf h ip now g = (g2, y :: discovered list reply + credential_info)" by fastforce
  have "own_of g2 = own_of g" using arg_cong [OF a, of "\<lambda>z. own_of (fst z)"] by (simp add: own_auth)
  then show "own_of (fst (discovery_backends cf h ip now g)) = own_of g"
    by (simp add: discovery_backends_def a split: sum.split)
  define tok where "tok = or_else (bearer (hq_authorization rq)) []"
  obtain g3 z where t: "(if tok = [] then (g, None) else resolveToken cf tok now g) = (g3, z)" by fastforce
  have g3: "own_of g3 = own_of g" using t own_resolve [of cf tok now g] by (auto split: if_splits)
  have "own_of (g3\<lparr>gw_storage := st\<rparr>) = own_of g"
    if "exchangeAccessCredential (cf_sha cf) p u rn now (gw_storage g3) = (st, v)" for p u st v
    using epoch_ops(7) [of "cf_sha cf" p u rn now "gw_storage g3"] that g3 by (simp add: own_of_def)
  then show "own_of (fst (exchange_token cf rq rn now g)) = own_of g"
    unfolding exchange_token_def tok_def [symmetric] Let_def t prod.case
    using g3 by (auto simp: own_auth split: option.split prod.split sum.split)
qed

section \<open>The refinement\<close>

lemma own_same: "own_of h = own_of g \<Longrightarrow> own_step (own_of g) (own_of h)"
  by simp

lemma own_gw_step: "gw_step cf g h \<Longrightarrow> gw_inv g \<Longrightarrow> own_step (own_of g) (own_of h)"
proof (induction rule: gw_step.induct)
  case (frame rn g w m now)
  then show ?case by (blast intro: own_ws_message)
next
  case (pings now g)
  show ?case by (simp add: pingInterval_def own_ping_peers)
next
  case (leases now g)
  show ?case by (simp add: leaseCheckInterval_def own_expire_leases)
next
  case (gone w now g)
  show ?case by (rule own_ws_closed)
next
  case (response cid w f wr now g h)
  then show ?case by (blast intro: own_same own_bridge_message)
next
  case (overview host_of rq now g)
  show ?case unfolding overview_route_def by (rule own_same) (rule own_admin_route, simp)
next
  case (admin c host_of rq now g)
  show ?case by (rule own_same) (rule own_admin_route, rule own_admin_effect)
qed (simp_all add: own_connections own_channels own_http own_proxy own_session_routes own_read_routes, simp add: own_of_def)

interpretation ownership: simulation "started cf" "gw_step cf" gw_inv own_step own_of for cf
  by unfold_locales (auto intro: own_step_trans own_gw_step)

lemma owns_ok_inv: "gw_inv g \<Longrightarrow> owns_ok (own_of g)"
  using inv_leasesD(3) [of g] by (auto simp: owns_ok_def own_of_def)

text \<open>
  C4.  The server implements the ownership specification: whatever happens between two reachable states, the
  table of owners and the last epoch change as the specification allows, so a backend that has changed
  hands in between has an owner with a larger epoch, and its epochs identify its owners for good.
\<close>

theorem epoch_fencing:
  assumes "reachable cf g" and "rtranclp (gw_step cf) g h"
  shows "own_step (own_of g) (own_of h) \<and> fenced (own_of g) (own_of h)"
proof -
  note inv = gw_reachable [OF assms(1)]
  have "own_step (own_of g) (own_of h)" by (rule ownership.run_refines [OF assms(2) inv])
  with own_step_fenced [OF _ owns_ok_inv [OF inv]] show ?thesis by blast
qed

theorem epoch_fencing_witness: "ow_last (own_of run1) \<le> ow_last (own_of run2)"
proof -
  have "jm_get (gw_conns run1) 2 = None" using run1_facts jm_keys_iff [of 2 "gw_conns run1"] by (simp add: jm_keys_def)
  moreover have "fresh_check (sample_all ''2'') (ws_connection sample_config 2 ''10.0.0.2'' 190 run1)" by code_simp
  ultimately have "rtranclp (gw_step sample_config) run1 run2"
    unfolding run2_def by (blast intro: converse_rtranclp_into_rtranclp r_into_rtranclp gw_step.connect gw_step.frame fresh_check)
  from epoch_fencing [OF reachable_runs(1) this] show ?thesis by (simp add: own_step_def)
qed

end
