(* ===== verification/Gw_Provenance.thy ===== *)
theory Gw_Provenance
  imports Gw_Lifecycle
begin

text \<open>
  Where the authority of a session comes from.  A session exists because a frame on its socket was a hello
  whose secret resolved to a credential; what the session may reach was copied from that credential then, and
  no later event changes it.  So the isolation of channels and topics is isolation between credentials.
\<close>

section \<open>Sessions are only opened by hellos\<close>

text \<open>What a session is fixed to when it is opened.\<close>

definition badge :: "peer_session \<Rightarrow> string \<times> ws \<times> string \<times> string option \<times> string list option" where
  "badge p = (ps_id p, ps_ws p, ps_namespace p, ps_credentialId p, ps_allowedBackends p)"

text \<open>A session of the later state is a session of the earlier one that kept its badge and claims no other backend.\<close>

definition same_session :: "peer_session \<Rightarrow> peer_session \<Rightarrow> bool" where
  "same_session p q \<longleftrightarrow> badge q = badge p \<and> (ps_backendId q = None \<or> ps_backendId q = ps_backendId p)"

definition no_newcomer :: "gateway \<Rightarrow> gateway \<Rightarrow> bool" where
  "no_newcomer g h \<longleftrightarrow> (\<forall>i q. jm_get (gs_peers h) i = Some q \<longrightarrow>
     (\<exists>p. jm_get (gs_peers g) i = Some p \<and> same_session p q))"

lemma same_session_refl [simp]: "same_session p p"
  by (simp add: same_session_def)

lemma same_session_trans: "same_session p q \<Longrightarrow> same_session q r \<Longrightarrow> same_session p r"
  by (auto simp: same_session_def)

lemma same_session_upd [simp]:
  "same_session p (unown p)" "same_session p (p\<lparr>ps_isAlive := b\<rparr>)"
  by (simp_all add: same_session_def badge_def unown_def)

lemma kept_peers: "gs_peers h = gs_peers g \<Longrightarrow> no_newcomer g h"
  by (simp add: no_newcomer_def)

lemma no_newcomer_trans: "no_newcomer f g \<Longrightarrow> no_newcomer g h \<Longrightarrow> no_newcomer f h"
  unfolding no_newcomer_def by (meson same_session_trans)

text \<open>Changes of one peer that keep its session, and removals.\<close>

lemma peers_changed:
  assumes "gs_peers h = jm_upd i f (gs_peers g)" and "\<And>p. same_session p (f p)"
  shows "no_newcomer g h"
  using assms by (auto simp: no_newcomer_def jm_get_upd split: if_splits)

lemma peers_removed:
  assumes "gs_peers h = jm_del i (gs_peers g)"
  shows "no_newcomer g h"
  using assms by (simp add: no_newcomer_def)

lemma newcomer_disconnect: "no_newcomer g (handlePeerDisconnect cf sid now g)"
  by (cases "jm_get (gs_peers g) sid")
     (auto simp: handlePeerDisconnect_def Let_def touch_def removeBackend_def registryRemove_def removeLease_def
       unregisterRecoveryToken_def removePeer_def closePeer_fields removeTopics_fields
       intro: kept_peers peers_removed split: option.split)

lemma newcomer_expired: "no_newcomer g (handleBackendLeaseExpired cf b now g)"
  by (auto simp: handleBackendLeaseExpired_def Let_def touch_def removeBackend_def registryRemove_def removeLease_def
      unregisterRecoveryToken_def removePeer_def upd_peer_def no_newcomer_def jm_get_upd split: option.split if_splits)

lemma newcomer_ping: "no_newcomer g (ping_peers cf now sids g)"
proof (induction cf now sids g rule: ping_peers.induct)
  case (2 cf now sid sids g)
  have "no_newcomer g (emit x (upd_peer sid (\<lambda>p. p\<lparr>ps_isAlive := False\<rparr>) g))" for x
    by (rule peers_changed [of _ sid "\<lambda>p. p\<lparr>ps_isAlive := False\<rparr>"]) (simp_all add: upd_peer_def)
  from no_newcomer_trans [OF this] show ?case
    using 2 by (auto intro: no_newcomer_trans [OF newcomer_disconnect] split: option.splits)
qed (simp add: kept_peers)

lemma newcomer_leases: "no_newcomer g (expire_leases cf now bs g)"
proof (induction cf now bs g rule: expire_leases.induct)
  case (2 cf now b bs g)
  then show ?case by (auto intro: no_newcomer_trans [OF newcomer_expired] split: option.splits)
qed (simp add: kept_peers)

lemma newcomer_gone: "no_newcomer g (ws_closed cf w now g)"
proof -
  have "no_newcomer g (g\<lparr>gw_conns := cs, gw_wsPerIp := ips\<rparr>)" for cs ips by (rule kept_peers) simp
  then show ?thesis
    by (auto simp: ws_closed_def Let_def intro: no_newcomer_trans [OF _ newcomer_disconnect] kept_peers split: option.split)
qed

lemma newcomer_pong: "no_newcomer g (ws_pong w g)"
  by (auto simp: ws_pong_def upd_peer_def no_newcomer_def jm_get_upd split: option.split if_splits)

lemma newcomer_replaced: "no_newcomer g (handleBackendOwnerReplaced cf b sid g)"
  by (auto simp: handleBackendOwnerReplaced_def Let_def removeLease_def upd_peer_def no_newcomer_def jm_get_upd
      removeTopics_fields split: option.split if_splits)

section \<open>What leaves the sessions alone\<close>

lemma peers_connections [simp]:
  "gs_peers (ws_connection cf w ip now g) = gs_peers g" "gs_peers (auth_timeout cf w now g) = gs_peers g"
  "gs_peers (registryPollInterval g) = gs_peers g" "gs_peers (replaced_grace_elapsed cf w g) = gs_peers g"
  "gs_peers (bad_frame cf w b g) = gs_peers g" "gs_peers (upd_conn w f g) = gs_peers g"
  "gs_peers (refuse_hello cf w c m g) = gs_peers g" "gs_peers (fst (recordAuthFailure cf ip now g)) = gs_peers g"
  by (auto simp: ws_connection_def auth_timeout_def upd_conn_def registryPollInterval_def
      replaced_grace_elapsed_def bad_frame_def refuse_hello_def recordAuthFailure_def Let_def split: option.split prod.split)

lemma peers_messages [simp]:
  "gs_peers (handleChannelOpen cf p t k rn now g) = gs_peers g" "gs_peers (handleChannelReject cf p c g) = gs_peers g"
  "gs_peers (handleChannelClose cf p c g) = gs_peers g" "gs_peers (handleTopicSubscribe p b t g) = gs_peers g"
  "gs_peers (handleTopicUnsubscribe p b t g) = gs_peers g" "gs_peers (handleTopicPublish p t v r g) = gs_peers g"
  "gs_peers (handlePushNotificationRequest p e g) = gs_peers g" "gs_peers (handleRequestRegistrySnapshot p g) = gs_peers g"
  "gs_peers (handleBackendServerMessage p b tg m g) = gs_peers g" "gs_peers (gateway_error p c s g) = gs_peers g"
  "gs_peers (handleBackendHeartbeat p ep now g) = gs_peers g"
proof -
  show "gs_peers (handleTopicSubscribe p b t g) = gs_peers g"
    using subscribe_core [of p b t g] by (simp add: core_eq_iff add_subscriber_def Let_def split: if_splits)
  show "gs_peers (handleTopicPublish p t v r g) = gs_peers g"
    using publish_core [of p t v r g] by (auto simp: core_eq_iff retain_payload_def Let_def split: option.splits if_splits)
qed (auto simp: handleChannelOpen_def issueChannelTicket_def gateway_error_def handleChannelReject_def handleChannelClose_def
    handleTopicUnsubscribe_def handlePushNotificationRequest_def handleRequestRegistrySnapshot_def
    handleBackendServerMessage_def handleBackendHeartbeat_def Let_def split: option.split)

lemma peers_peer_message [simp]: "gs_peers (handlePeerMessage cf sid m rn now g) = gs_peers g"
  by (auto simp: handlePeerMessage_def Let_def split: option.split)


lemma peers_channels [simp]:
  "gs_peers (pairing_timeout cf cid now g) = gs_peers g" "gs_peers (channel_socket_closed cf cid g) = gs_peers g"
  "gs_peers (dial_socket cf cid tok w now g) = gs_peers g"
  by (auto simp: pairing_timeout_def channel_socket_closed_def dial_socket_def handleChannelUpgrade_def channelUpgraded_def
      bridgeHttpChannel_def wireChannel_def upd_bridge_def emit_def Let_def split: option.split prod.split bool.split)

lemma peers_http [simp]:
  "gs_peers (rateLimitCleanup now g) = gs_peers g" "gs_peers (fst (request_data cid d n g)) = gs_peers g"
  "gs_peers (fst (request_drain_tick cid n g)) = gs_peers g" "gs_peers (request_end cid g) = gs_peers g"
  "gs_peers (bridge_drained w g) = gs_peers g" "gs_peers (bridge_timeout cf cid now g) = gs_peers g"
  "gs_peers (bridge_closed cf cid g) = gs_peers g" "gs_peers (response_closed cf cid r g) = gs_peers g"
  by (auto simp: rateLimitCleanup_def request_data_def request_drain_tick_def request_end_def bridge_drained_def
      bridge_timeout_def bridge_closed_def response_closed_def upd_bridge_def res_end_def Let_def split: option.split)

lemma peers_bridge_message: "bridge_message cf cid w f wr now g = Inr h \<Longrightarrow> gs_peers h = gs_peers g"
  by (auto simp: bridge_message_def bridge_meta_def upd_bridge_def res_head_def Let_def
      split: option.splits if_splits data_frame.splits)

lemma peers_auth [simp]:
  "gs_peers (fst (denyUnauthorized cf ip m now g)) = gs_peers g" "gs_peers (fst (refuseProxyRequest cf c ip now g)) = gs_peers g"
  "gs_peers (fst (resolveToken cf tok now g)) = gs_peers g" "gs_peers (fst (cookie_session rq now g)) = gs_peers g"
  by (auto simp: denyUnauthorized_def recordAuthFailure_def refuseProxyRequest_def resolveToken_def cookie_session_def Let_def
      split: prod.split option.split cookie.split)

lemma peers_fst:
  "recordAuthFailure cf ip now g = (g1, a1) \<Longrightarrow> gs_peers g1 = gs_peers g"
  "denyUnauthorized cf ip m now g = (g1, a2) \<Longrightarrow> gs_peers g1 = gs_peers g"
  "refuseProxyRequest cf c ip now g = (g1, a3) \<Longrightarrow> gs_peers g1 = gs_peers g"
  "resolveToken cf tok now g = (g1, a4) \<Longrightarrow> gs_peers g1 = gs_peers g"
  "cookie_session rq now g = (g1, a5) \<Longrightarrow> gs_peers g1 = gs_peers g"
  using peers_auth peers_connections(8) by (metis fst_conv)+

lemma peers_requireAuth: "requireGatewayAuth cf h ip now g = (g1, x) \<Longrightarrow> gs_peers g1 = gs_peers g"
  by (auto simp: requireGatewayAuth_def Let_def dest!: peers_fst split: option.splits prod.splits)

lemma peers_proxy [simp]: "gs_peers (proxy_route cf r h ip b pq rn now g) = gs_peers g"
  by (auto simp: proxy_route_def proxyViaChannel_def ticket_for_backend_def issueChannelTicket_def answer_def Let_def
      dest!: peers_fst peers_requireAuth split: prod.split sum.split option.split reply.split)

lemma peers_session_routes [simp]:
  "gs_peers (fst (admin_login cf rq sid now g)) = gs_peers g" "gs_peers (fst (session_probe rq now g)) = gs_peers g"
  "gs_peers (fst (admin_logout rq now g)) = gs_peers g"
  by (auto simp: admin_login_def session_probe_def admin_logout_def Let_def dest!: peers_fst
      split: prod.split sum.split option.split)

lemma peers_afterRevoke [simp]: "gs_peers (afterRevoke cf ids g) = gs_peers g"
  by (simp add: afterRevoke_def)

lemma peers_admin_effect [simp]: "gs_peers (fst (admin_effect cf c rq now g)) = gs_peers g"
  by (cases c) (auto simp: issue_credential_def delete_backend_def bind_credential_def change_scope_def revoke_credential_def
      bulk_revoke_def purge_credentials_def Let_def split_def split: option.split sum.split prod.split)

lemma peers_admin_route:
  fixes handler :: "gateway \<Rightarrow> gateway \<times> 'a reply"
  assumes "\<And>h. gs_peers (fst (handler h)) = gs_peers h"
  shows "gs_peers (fst (admin_route cf host_of rq now handler g)) = gs_peers g"
proof -
  obtain g1 x where r: "requireAdmin cf host_of rq now g = (g1, x :: 'a reply option)" by fastforce
  then have "gs_peers g1 = gs_peers g"
    by (auto simp: requireAdmin_def Let_def dest!: peers_fst split: if_splits prod.splits sum.splits option.splits)
  with assms show ?thesis by (simp add: admin_route_def r split: option.split)
qed

lemma peers_read_routes [simp]:
  "gs_peers (fst (sync_registry cf h ip now g)) = gs_peers g" "gs_peers (fst (discovery_backends cf h ip now g)) = gs_peers g"
  "gs_peers (fst (exchange_token cf rq rn now g)) = gs_peers g"
  by (auto simp: sync_registry_def requireRecoveryToken_def discovery_backends_def exchange_token_def Let_def
      dest!: peers_fst peers_requireAuth split: prod.splits sum.splits option.splits if_splits)


section \<open>What a hello opens\<close>

text \<open>What a credential entitles to: its namespace, a device its scope, and a backend only for credentials of backends, their own if they are bound to one.\<close>

definition scope_of :: "credential_info \<Rightarrow> string list option" where
  "scope_of c = (if ci_type c = Device then ci_allowedBackends c else None)"

definition entitled :: "credential_info \<Rightarrow> peer_session \<Rightarrow> bool" where
  "entitled c p \<longleftrightarrow> ps_credentialId p = Some (ci_id c) \<and> ps_namespace p = ci_namespace c \<and> ps_allowedBackends p = scope_of c
     \<and> (\<forall>b. ps_backendId p = Some b \<longrightarrow> ci_type c \<noteq> Device \<and> ci_backendId c \<in> {None, Some [], Some b})"

lemma entitled_same: "same_session p q \<Longrightarrow> entitled c p \<Longrightarrow> entitled c q"
  by (auto simp: same_session_def badge_def entitled_def)

lemma register_opens:
  assumes "register_backend cf h hb c peer u now g = (g1, r)"
  shows "no_newcomer g g1"
    and "r = Inr q \<Longrightarrow> \<exists>b e. q = peer\<lparr>ps_backendId := Some b, ps_epoch := e\<rparr> \<and> ci_backendId c \<in> {None, Some [], Some b}"
proof -
  have upd: "no_newcomer g (k\<lparr>gs_leases := ls\<rparr>) = no_newcomer g k" "no_newcomer g (k\<lparr>gw_storage := st\<rparr>) = no_newcomer g k"
    "no_newcomer g (k\<lparr>gs_registry := rs\<rparr>) = no_newcomer g k" "no_newcomer g (k\<lparr>gw_ownerReplacements := os\<rparr>) = no_newcomer g k"
    "no_newcomer g g" for k ls st rs os
    by (simp_all add: no_newcomer_def)
  have replaced: "no_newcomer g (handleBackendOwnerReplaced cf b sid k)" if "no_newcomer g k" for b sid k
    using no_newcomer_trans [OF that newcomer_replaced] .
  show "no_newcomer g g1"
    using assms
    by (auto simp: register_backend_def Let_def registryUpsert_def addLease_def noteOwnerReplaced_def upd
        intro!: replaced split: prod.splits sum.splits option.splits if_splits)
  show "\<exists>b e. q = peer\<lparr>ps_backendId := Some b, ps_epoch := e\<rparr> \<and> ci_backendId c \<in> {None, Some [], Some b}" if "r = Inr q"
    using assms that
    by (fastforce simp: register_backend_def resolveBackendIdentity_def Let_def split: prod.splits sum.splits option.splits if_splits)
qed

lemma peers_admit: "gs_peers (admit_peer cf p g) = jm_set (ps_id p) p (gs_peers g)"
  by (auto simp: admit_peer_def addPeer_def Let_def split: option.split)

lemma hello_entitles:
  assumes "hello_refusal h c = None"
  shows "entitled c (hello_peer w h c rn)"
    and "he_peerType h = ClientBackend \<Longrightarrow> ci_backendId c \<in> {None, Some [], Some b} \<Longrightarrow>
      entitled c ((hello_peer w h c rn)\<lparr>ps_backendId := Some b, ps_epoch := e\<rparr>)"
  using assms by (auto simp: entitled_def hello_peer_def scope_of_def hello_refusal_def split: if_splits)

text \<open>The sessions after a hello: those before it, and one for the credential its secret resolved to.\<close>

lemma hello_opens:
  assumes "handlePeerHello cf w h ip rn now g = (k, r)" and "jm_get (gs_peers k) i = Some q"
  shows "(\<exists>p. jm_get (gs_peers g) i = Some p \<and> same_session p q)
    \<or> (\<exists>c. snd (resolveToken cf (he_gatewaySecret h) now g) = Some c \<and> entitled c q \<and> ps_id q = hd_session rn \<and> ps_ws q = w)"
proof -
  obtain g1 a where t: "resolveToken cf (he_gatewaySecret h) now g = (g1, a)" by fastforce
  note g1 = peers_fst(4) [OF t]
  show ?thesis
  proof (cases "\<exists>c. a = Some c \<and> hello_refusal h c = None")
    case False
    then have "gs_peers k = gs_peers g"
      using assms(1) g1 by (auto simp: handlePeerHello_def t Let_def dest!: peers_fst split: option.splits prod.splits)
    with assms(2) show ?thesis by auto
  next
    case True
    then obtain c where c: "a = Some c" "hello_refusal h c = None" by blast
    show ?thesis
    proof (cases "he_peerType h = ClientBackend \<and> he_backend h \<noteq> None")
      case False
      then have "k = admit_peer cf (hello_peer w h c rn) g1"
        using assms(1) c by (auto simp: handlePeerHello_def t split: peer_type.splits option.splits)
      with assms(2) g1 t c hello_entitles(1) [OF c(2), of w rn] show ?thesis
        by (auto simp: peers_admit hello_peer_def split: if_splits)
    next
      case True
      then obtain hb where hb: "he_peerType h = ClientBackend" "he_backend h = Some hb" by auto
      obtain g2 x where b: "register_backend cf h hb c (hello_peer w h c rn) (hd_backendId rn) now g1 = (g2, x)" by fastforce
      note opens = register_opens [OF b]
      have old: "\<exists>p. jm_get (gs_peers g) i = Some p \<and> same_session p q" if "jm_get (gs_peers g2) i = Some q"
        using opens(1) that g1 by (simp add: no_newcomer_def)
      show ?thesis
      proof (cases x)
        case (Inl e)
        with assms c hb b t old show ?thesis by (auto simp: handlePeerHello_def)
      next
        case (Inr p)
        then have k: "k = admit_peer cf p g2" using assms(1) c hb b t by (simp add: handlePeerHello_def)
        from opens(2) [OF Inr] obtain d e where p: "p = (hello_peer w h c rn)\<lparr>ps_backendId := Some d, ps_epoch := e\<rparr>"
          "ci_backendId c \<in> {None, Some [], Some d}" by blast
        have "entitled c p" unfolding p(1) by (rule hello_entitles(2) [OF c(2) hb(1) p(2)])
        moreover have "ps_id p = hd_session rn" "ps_ws p = w" by (simp_all add: p(1) hello_peer_def)
        ultimately show ?thesis using assms(2) old t c(1) by (auto simp: k peers_admit split: if_splits)
      qed
    qed
  qed
qed


section \<open>Every session has its credential\<close>

text \<open>
  A session was opened with a credential: in an earlier reachable state a frame on the session's socket, which
  had no session yet, was a valid hello whose secret resolved to that credential, and the session has the id
  drawn for it.
\<close>

definition presented :: "config \<Rightarrow> gateway \<Rightarrow> peer_session \<Rightarrow> credential_info \<Rightarrow> bool" where
  "presented cf g p c \<longleftrightarrow> (\<exists>k cn m rn now. reachable cf k \<and> fresh_all rn k
     \<and> jm_get (gw_conns k) (ps_ws p) = Some cn \<and> cn_session cn = None \<and> validatePeerHelloV4 m = None
     \<and> snd (resolveToken cf (he_gatewaySecret (parse_hello m)) now k) = Some c \<and> ps_id p = hd_session (da_hello rn)
     \<and> rtranclp (gw_step cf) (ws_message cf (ps_ws p) (Some m) rn now k) g)"

definition authorized :: "config \<Rightarrow> gateway \<Rightarrow> bool" where
  "authorized cf g \<longleftrightarrow> (\<forall>i p. jm_get (gs_peers g) i = Some p \<longrightarrow> (\<exists>c. presented cf g p c \<and> entitled c p))"

lemma presented_step:
  assumes "presented cf g p c" and "same_session p q" and "gw_step cf g h"
  shows "presented cf h q c"
proof -
  have same: "ps_id q = ps_id p" "ps_ws q = ps_ws p" using assms(2) by (simp_all add: same_session_def badge_def)
  have "rtranclp (gw_step cf) k h" if "rtranclp (gw_step cf) k g" for k
    using that assms(3) by (rule rtranclp.rtrancl_into_rtrancl)
  with assms(1) show ?thesis unfolding presented_def same by blast
qed

lemma authorized_kept:
  assumes "authorized cf g" and "gw_step cf g h" and "no_newcomer g h"
  shows "authorized cf h"
  using assms presented_step entitled_same unfolding authorized_def no_newcomer_def by meson

lemma resolve_upd_conn: "snd (resolveToken cf tok now (upd_conn w f g)) = snd (resolveToken cf tok now g)"
  by (simp add: resolveToken_def upd_conn_def split_def Let_def)

lemma authorized_frame:
  assumes "authorized cf g" and "reachable cf g" and "fresh_all rn g"
  shows "authorized cf (ws_message cf w frame rn now g)" (is "authorized cf ?h")
proof -
  have step: "gw_step cf g ?h" using assms(3) by (rule gw_step.frame)
  show ?thesis
  proof (cases "\<exists>cn m. jm_get (gw_conns g) w = Some cn \<and> frame = Some m \<and> cn_session cn = None \<and> validatePeerHelloV4 m = None")
    case False
    then have "gs_peers ?h = gs_peers g" by (auto simp: ws_message_def split: option.splits)
    with authorized_kept [OF assms(1) step] show ?thesis by (blast intro: kept_peers)
  next
    case True
    then obtain cn m where c: "jm_get (gw_conns g) w = Some cn" "frame = Some m" "cn_session cn = None"
      "validatePeerHelloV4 m = None" by blast
    let ?g = "upd_conn w (\<lambda>c. c\<lparr>cn_authAt := None\<rparr>) g"
    obtain k r where hk: "handlePeerHello cf w (parse_hello m) (cn_ip cn) (da_hello rn) now ?g = (k, r)" by fastforce
    have peers: "gs_peers ?h = gs_peers k" using c hk by (simp add: ws_message_def split: sum.split)
    have "\<exists>c. presented cf ?h q c \<and> entitled c q" if q: "jm_get (gs_peers ?h) i = Some q" for i q
      using hello_opens [OF hk q [unfolded peers]]
    proof (elim disjE exE conjE)
      fix p assume p: "jm_get (gs_peers ?g) i = Some p" "same_session p q"
      then obtain d where "presented cf g p d" "entitled d p" using assms(1) unfolding authorized_def by auto
      with p(2) step show ?thesis by (blast intro: presented_step entitled_same)
    next
      fix d assume d: "snd (resolveToken cf (he_gatewaySecret (parse_hello m)) now ?g) = Some d" "entitled d q"
        "ps_id q = hd_session (da_hello rn)" "ps_ws q = w"
      moreover have "rtranclp (gw_step cf) (ws_message cf (ps_ws q) (Some m) rn now g) ?h" by (simp add: d(4) c(2))
      ultimately have "presented cf ?h q d" unfolding presented_def resolve_upd_conn using assms(2,3) c by blast
      with d(2) show ?thesis by blast
    qed
    then show ?thesis unfolding authorized_def by blast
  qed
qed

lemma newcomer_gw_step: "gw_step cf g h \<Longrightarrow> (\<exists>w m rn now. fresh_all rn g \<and> h = ws_message cf w m rn now g) \<or> no_newcomer g h"
proof (induction rule: gw_step.induct)
  case (response cid w f wr now g h)
  then show ?case by (blast intro: kept_peers peers_bridge_message)
next
  case (overview host_of rq now g)
  show ?case unfolding overview_route_def by (rule disjI2, rule kept_peers) (simp add: peers_admin_route)
next
  case (admin c host_of rq now g)
  show ?case by (rule disjI2, rule kept_peers) (simp add: peers_admin_route)
qed (auto simp: pingInterval_def leaseCheckInterval_def newcomer_ping newcomer_leases newcomer_gone newcomer_pong
    intro: kept_peers)

interpretation provenance: invariant_machine "started cf" "gw_step cf" "\<lambda>g. reachable cf g \<and> authorized cf g" for cf
proof (unfold_locales, goal_cases)
  case (1 g)
  then have "gs_peers g = []" by (auto simp: started_def start_gateway_def)
  with 1 show ?case by (auto simp: reachable_def authorized_def)
next
  case (2 g h)
  then show ?case using newcomer_gw_step [OF 2(2)] authorized_frame authorized_kept reachable_step by metis
qed

lemma authorized_reachable: "reachable cf g \<Longrightarrow> authorized cf g"
  using provenance.reachable_inv unfolding reachable_def by blast


section \<open>Isolation\<close>

text \<open>
  C2.  Isolation.  In every reachable state every session was opened by a hello whose secret resolved to a
  credential; the session's namespace is that credential's, its scope that of a device, and it claims a backend
  only if the credential is a backend's, the credential's own if it is bound to one.  Whoever is the client end
  of a channel, or subscribes to a topic, reaches the backend by the namespace and scope of the credential it
  presented; the other end of the channel is the backend's current owner, at the epoch the channel carries, and
  the registered namespace is that owner's.
\<close>

theorem isolation:
  assumes "reachable cf g"
  shows "(\<forall>i p. jm_get (gs_peers g) i = Some p \<longrightarrow>
        (\<exists>c. presented cf g p c \<and> ps_credentialId p = Some (ci_id c) \<and> ps_namespace p = ci_namespace c
          \<and> ps_allowedBackends p = scope_of c
          \<and> (\<forall>b. ps_backendId p = Some b \<longrightarrow> ci_type c \<noteq> Device \<and> ci_backendId c \<in> {None, Some [], Some b})))
    \<and> (\<forall>i ch p. jm_get (gw_channels g) i = Some ch \<longrightarrow> jm_get (gs_peers g) (ch_client ch) = Some p \<longrightarrow>
        (\<exists>c l o' pr. presented cf g p c \<and> jm_get (gs_leases g) (ch_backendId ch) = Some l \<and> le_peerSessionId l = ch_backend ch
          \<and> le_epoch l = ch_epoch ch \<and> jm_get (gs_registry g) (ch_backendId ch) = Some pr
          \<and> jm_get (gs_peers g) (ch_backend ch) = Some o' \<and> ps_backendId o' = Some (ch_backendId ch)
          \<and> pr_namespace pr = ps_namespace o'
          \<and> canReach (ci_namespace c) (scope_of c) (pr_namespace pr) (pr_backendId pr)))
    \<and> (\<forall>b t sid p. sid \<in> set (subscribers b t g) \<longrightarrow> jm_get (gs_peers g) sid = Some p \<longrightarrow>
        (\<exists>c pr. presented cf g p c \<and> jm_get (gs_registry g) b = Some pr
          \<and> canReach (ci_namespace c) (scope_of c) (pr_namespace pr) (pr_backendId pr)))"
proof (intro conjI allI impI)
  note inv = gw_reachable [OF assms]
  have session: "\<exists>c. presented cf g p c \<and> entitled c p" if "jm_get (gs_peers g) i = Some p" for i p
    using authorized_reachable [OF assms] that unfolding authorized_def by blast
  show "\<exists>c. presented cf g p c \<and> ps_credentialId p = Some (ci_id c) \<and> ps_namespace p = ci_namespace c
      \<and> ps_allowedBackends p = scope_of c
      \<and> (\<forall>b. ps_backendId p = Some b \<longrightarrow> ci_type c \<noteq> Device \<and> ci_backendId c \<in> {None, Some [], Some b})"
    if "jm_get (gs_peers g) i = Some p" for i p
    using session [OF that] unfolding entitled_def .
  have reach: "\<exists>c. presented cf g p c \<and> canReach (ci_namespace c) (scope_of c) (pr_namespace pr) (pr_backendId pr)"
    if "jm_get (gs_peers g) i = Some p" "peer_reaches p pr" for i p pr
    using session [OF that(1)] that(2) unfolding entitled_def peer_reaches_def by metis
  show "\<exists>c l o' pr. presented cf g p c \<and> jm_get (gs_leases g) (ch_backendId ch) = Some l \<and> le_peerSessionId l = ch_backend ch
      \<and> le_epoch l = ch_epoch ch \<and> jm_get (gs_registry g) (ch_backendId ch) = Some pr
      \<and> jm_get (gs_peers g) (ch_backend ch) = Some o' \<and> ps_backendId o' = Some (ch_backendId ch)
      \<and> pr_namespace pr = ps_namespace o' \<and> canReach (ci_namespace c) (scope_of c) (pr_namespace pr) (pr_backendId pr)"
    if ch: "jm_get (gw_channels g) i = Some ch" "jm_get (gs_peers g) (ch_client ch) = Some p" for i ch p
  proof -
    obtain l pr where l: "jm_get (gs_leases g) (ch_backendId ch) = Some l" "le_peerSessionId l = ch_backend ch"
      "le_epoch l = ch_epoch ch" "jm_get (gs_registry g) (ch_backendId ch) = Some pr" "peer_reaches p pr"
      using inv_channelsD(2) [OF inv ch(1)] ch(2) by blast
    with inv_leasesD(4) [OF inv l(1)] reach [OF ch(2) l(5)] show ?thesis by fastforce
  qed
  show "\<exists>c pr. presented cf g p c \<and> jm_get (gs_registry g) b = Some pr
      \<and> canReach (ci_namespace c) (scope_of c) (pr_namespace pr) (pr_backendId pr)"
    if sub: "sid \<in> set (subscribers b t g)" "jm_get (gs_peers g) sid = Some p" for b t sid p
  proof -
    obtain x where "jm_get (gw_topicSubs g) b = Some x"
      using sub(1) by (cases "jm_get (gw_topicSubs g) b") (simp_all add: subscribers_def)
    then obtain l where "jm_get (gs_leases g) b = Some l"
      using inv_topicsD(1) [OF inv_parts(8) [OF inv]] by blast
    then obtain pr where pr: "jm_get (gs_registry g) b = Some pr" using inv_leasesD(4) [OF inv] by blast
    with inv_topicsD(3) [OF inv_parts(8) [OF inv] sub] have "peer_reaches p pr" by blast
    with reach [OF sub(2)] pr show ?thesis by blast
  qed
qed

theorem isolation_witness:
  "\<exists>p c pr. jm_get (gs_peers run3) ''s2'' = Some p \<and> presented sample_config run3 p c \<and> jm_get (gs_registry run3) ''b3'' = Some pr
     \<and> ci_namespace c = pr_namespace pr"
proof -
  have s: "''s2'' \<in> set (subscribers ''b3'' ''t'' run3)" by (simp add: run3_facts)
  obtain p where p: "jm_get (gs_peers run3) ''s2'' = Some p" using run3_facts by auto
  from isolation [OF reachable_runs(3)] s p obtain c pr where "presented sample_config run3 p c"
    "jm_get (gs_registry run3) ''b3'' = Some pr"
    "canReach (ci_namespace c) (scope_of c) (pr_namespace pr) (pr_backendId pr)" by blast
  with p show ?thesis by (auto simp: canReach_def split: if_splits)
qed

end
