(* ===== verification/Gw_Answers.thy ===== *)
theory Gw_Answers
  imports Gw_Fencing
begin

text \<open>
  Who is told the outcome of what.  A control connection's operations have no correlation id: the client
  takes the next grant, confirmation or error on its socket for the answer to the operation it has pending.
  Whatever the server does, such a message is sent on a socket only while it handles a message that came on
  the same socket, and at most one for each.
\<close>

section \<open>Answers\<close>

text \<open>The messages the client SDK settles a pending operation with.\<close>

fun settles :: "wire \<Rightarrow> bool" where
  "settles (GatewayError c m) = True"
| "settles (ChannelReady i t p) = True"
| "settles (TopicSubscribed b t) = True"
| "settles (TopicUnsubscribed b t) = True"
| "settles _ = False"

text \<open>What a socket was sent, the answers among it, and the session of a connection.\<close>

definition received :: "ws \<Rightarrow> gateway \<Rightarrow> wire list" where
  "received w g = map snd (filter (\<lambda>(v, m). v = w) (sent g))"

definition answers :: "ws \<Rightarrow> gateway \<Rightarrow> wire list" where
  "answers w g = filter settles (received w g)"

definition session_at :: "gateway \<Rightarrow> ws \<Rightarrow> string option" where
  "session_at g v = Option.bind (jm_get (gw_conns g) v) cn_session"

text \<open>What most of the server leaves alone: the answers a socket got, and the sessions of all connections.\<close>

definition talk :: "ws \<Rightarrow> gateway \<Rightarrow> wire list \<times> (ws \<Rightarrow> string option)" where
  "talk w g = (answers w g, session_at g)"

lemma talkD: "talk w h = talk w g \<Longrightarrow> answers w h = answers w g \<and> session_at h = session_at g"
  by (simp add: talk_def)

lemma talk_same: "sent h = sent g \<Longrightarrow> gw_conns h = gw_conns g \<Longrightarrow> talk w h = talk w g"
  by (simp add: talk_def answers_def received_def session_at_def fun_eq_iff)

lemma talk_upd [simp]:
  "talk w (g\<lparr>gs_peers := a1\<rparr>) = talk w g" "talk w (g\<lparr>gs_wsToPeer := a2\<rparr>) = talk w g" "talk w (g\<lparr>gs_registry := a3\<rparr>) = talk w g"
  "talk w (g\<lparr>gs_leases := a4\<rparr>) = talk w g" "talk w (g\<lparr>gw_storage := a5\<rparr>) = talk w g" "talk w (g\<lparr>gw_recoveryTokens := a6\<rparr>) = talk w g"
  "talk w (g\<lparr>gw_authFailures := a7\<rparr>) = talk w g" "talk w (g\<lparr>gw_proxyRequests := a8\<rparr>) = talk w g"
  "talk w (g\<lparr>gw_proxyIpRequests := a9\<rparr>) = talk w g" "talk w (g\<lparr>gw_ownerReplacements := b1\<rparr>) = talk w g"
  "talk w (g\<lparr>gw_channels := b2\<rparr>) = talk w g" "talk w (g\<lparr>gw_tickets := b3\<rparr>) = talk w g" "talk w (g\<lparr>gw_bridges := b4\<rparr>) = talk w g"
  "talk w (g\<lparr>gw_topicSubs := b5\<rparr>) = talk w g" "talk w (g\<lparr>gw_retained := b6\<rparr>) = talk w g" "talk w (g\<lparr>gw_wsPerIp := b7\<rparr>) = talk w g"
  "talk w (g\<lparr>gw_adminSessions := b9\<rparr>) = talk w g" "talk w (g\<lparr>gw_ready := c1\<rparr>) = talk w g" "talk w (g\<lparr>gw_res := c2\<rparr>) = talk w g"
  by (rule talk_same; simp add: sent_def)+

lemma received_send:
  "received w (sendToWs v m g) = received w g @ (if v = w \<and> gw_ready g v = Open then [m] else [])"
  by (simp add: received_def)

lemma talk_send:
  "talk w (sendToWs v m g) = (answers w g @ (if v = w \<and> gw_ready g v = Open \<and> settles m then [m] else []), session_at g)"
  by (auto simp: talk_def answers_def received_send session_at_def fun_eq_iff)

lemma talk_emit [simp]: "sent_by x = None \<Longrightarrow> talk w (emit x g) = talk w g"
  by (rule talk_same) (simp_all add: sent_def emit_def map_filter_def)

lemma talk_quiet [simp]: "\<not> settles m \<Longrightarrow> talk w (sendToWs v m g) = talk w g"
  by (simp add: talk_send) (simp add: talk_def)

lemma talk_effects [simp]:
  "talk w (ws_close cf v n r g) = talk w g" "talk w (ws_terminate cf v g) = talk w g"
  "talk w (res_json q st c x g) = talk w g" "talk w (res_destroy q x g) = talk w g"
  by (rule talk_same; simp)+

section \<open>What sends no answer\<close>

lemma talk_notices [simp]:
  assumes "\<not> settles m"
  shows "talk w (tell_peer sid m g) = talk w g" "talk w (fan_out m sids g) = talk w g"
proof -
  show t: "talk w (tell_peer sid m g) = talk w g" for sid g
    using assms by (auto simp: tell_peer_def split: option.split)
  show "talk w (fan_out m sids g) = talk w g"
    by (induction sids arbitrary: g) (simp_all add: t)
qed

lemma talk_teardown [simp]: "talk w (teardownChannel cf cid r g) = talk w g"
  by (auto simp: teardownChannel_def answer_internal_def close_leg_def Let_def split: option.split)

lemma talk_teardowns [simp]:
  "talk w (teardown_all cf r P chs g) = talk w g" "talk w (closeChannelsForBackend cf b r g) = talk w g"
  "talk w (closeChannelsForPeer cf sid g) = talk w g"
proof -
  show t: "talk w (teardown_all cf r P chs g) = talk w g" for r P chs g
    by (induction chs arbitrary: g) simp_all
  show "talk w (closeChannelsForBackend cf b r g) = talk w g" "talk w (closeChannelsForPeer cf sid g) = talk w g"
    by (simp_all add: closeChannelsForBackend_def closeChannelsForPeer_def t)
qed

lemma talk_broadcast [simp]: "talk w (broadcastRegistrySnapshot excl g) = talk w g"
proof -
  have "talk w (broadcast_to excl ps cache g) = talk w g" for ps cache
    by (induction excl ps cache g rule: broadcast_to.induct) (auto simp: Let_def)
  then show ?thesis by (simp add: broadcastRegistrySnapshot_def)
qed

lemma talk_state [simp]:
  "talk w (addPeer p g) = talk w g" "talk w (fst (removePeer sid g)) = talk w g" "talk w (upd_peer sid f g) = talk w g"
  "talk w (registryUpsert pr g) = talk w g" "talk w (registryRemove b g) = talk w g" "talk w (addLease l g) = talk w g"
  "talk w (removeLease b g) = talk w g" "talk w (removeBackend b g) = talk w g"
  "talk w (removeTopicsForBackend b g) = talk w g" "talk w (removeTopicSubscriptionsForPeer sid g) = talk w g"
  "talk w (unregisterRecoveryToken p g) = talk w g" "talk w (touch b now g) = talk w g"
  "talk w (noteOwnerReplaced b now g) = talk w g" "talk w (issueChannelTicket cf i r t now g) = talk w g"
  "talk w (add_subscriber b t sid g) = talk w g" "talk w (retain_payload b t p' g) = talk w g"
  by (auto simp: addPeer_def removePeer_def upd_peer_def registryUpsert_def registryRemove_def addLease_def removeLease_def
      removeBackend_def removeTopicsForBackend_def removeTopicSubscriptionsForPeer_def unregisterRecoveryToken_def touch_def
      noteOwnerReplaced_def issueChannelTicket_def add_subscriber_def retain_payload_def Let_def
      split: option.split prod.split)

lemma talk_ends [simp]:
  "talk w (handlePeerDisconnect cf sid now g) = talk w g" "talk w (handleBackendOwnerReplaced cf b sid g) = talk w g"
  "talk w (handleBackendLeaseExpired cf b now g) = talk w g" "talk w (replaced_grace_elapsed cf v g) = talk w g"
  by (auto simp: handlePeerDisconnect_def handleBackendOwnerReplaced_def handleBackendLeaseExpired_def
      replaced_grace_elapsed_def Let_def split: option.split)

section \<open>Messages\<close>

text \<open>From one state to the next, a socket gets no answer, or one and it is the socket the message came on.\<close>

definition answered :: "ws \<Rightarrow> ws \<Rightarrow> gateway \<Rightarrow> gateway \<Rightarrow> bool" where
  "answered w v g h \<longleftrightarrow> talk w h = talk w g \<or> v = w \<and> (\<exists>a. talk w h = (answers w g @ [a], session_at g))"

lemma answered_send: "talk w k = talk w g \<Longrightarrow> answered w v g (sendToWs v m k)"
  by (auto simp: answered_def talk_send) (auto simp: talk_def)

lemma answered_quiet [simp]: "\<not> settles m \<Longrightarrow> answered w v g (sendToWs u m k) = answered w v g k"
  by (simp add: answered_def)

lemma answered_close: "answered w v g k \<Longrightarrow> answered w v g (ws_close cf u n r k)"
  by (simp add: answered_def)

lemma answered_error: "answered w (ps_ws p) g (gateway_error p c m g)"
  by (simp add: gateway_error_def answered_send)

lemma answered_none: "talk w h = talk w g \<Longrightarrow> answered w v g h"
  by (simp add: answered_def)

lemmas answered_intros = answered_send answered_error answered_none

lemma answered_messages:
  "answered w (ps_ws p) g (handleChannelOpen cf p t k rn now g)" "answered w (ps_ws p) g (handleTopicSubscribe p b t g)"
  "answered w (ps_ws p) g (handleTopicUnsubscribe p b t g)" "answered w (ps_ws p) g (handlePushNotificationRequest p e g)"
  "answered w (ps_ws p) g (handleChannelReject cf p c g)" "answered w (ps_ws p) g (handleChannelClose cf p c g)"
  "answered w (ps_ws p) g (handleTopicPublish p t x r g)" "answered w (ps_ws p) g (handleRequestRegistrySnapshot p g)"
  "answered w (ps_ws p) g (handleBackendServerMessage p b tg m g)" "answered w (ps_ws p) g (handleBackendHeartbeat p ep now g)"
  by (auto simp: handleTopicSubscribe_def handleChannelOpen_def handleTopicUnsubscribe_def handlePushNotificationRequest_def
      handleChannelReject_def handleChannelClose_def handleTopicPublish_def handleRequestRegistrySnapshot_def
      handleBackendServerMessage_def handleBackendHeartbeat_def Let_def intro: answered_intros
      split: option.split prod.split)

lemma answered_peer_message:
  "jm_get (gs_peers g) sid = Some p \<Longrightarrow> answered w (ps_ws p) g (handlePeerMessage cf sid m rn now g)"
  by (auto simp: handlePeerMessage_def Let_def intro: answered_messages answered_intros split: option.split)

lemma answered_bad_frame: "talk w k = talk w g \<Longrightarrow> answered w v g (bad_frame cf v b k)"
  by (simp add: bad_frame_def Let_def answered_send answered_close)

lemma talk_auth [simp]:
  "talk w (fst (recordAuthFailure cf ip now g)) = talk w g"
  "talk w (fst (denyUnauthorized cf ip m now g)) = talk w g"
  "talk w (fst (refuseProxyRequest cf c ip now g)) = talk w g"
  "talk w (fst (resolveToken cf tok now g)) = talk w g"
  by (auto simp: recordAuthFailure_def denyUnauthorized_def refuseProxyRequest_def resolveToken_def Let_def
      split: prod.split option.split)

lemma talk_fst:
  "recordAuthFailure cf ip now g = (g1, a1) \<Longrightarrow> talk w g1 = talk w g"
  "denyUnauthorized cf ip m now g = (g1, a2) \<Longrightarrow> talk w g1 = talk w g"
  "refuseProxyRequest cf c ip now g = (g1, a3) \<Longrightarrow> talk w g1 = talk w g"
  "resolveToken cf tok now g = (g1, a4) \<Longrightarrow> talk w g1 = talk w g"
  using talk_auth [of w] by (metis fst_conv)+

lemma talk_register: "register_backend cf h hb c p u now g = (g1, r) \<Longrightarrow> talk w g1 = talk w g"
  by (auto simp: register_backend_def Let_def split: prod.splits sum.splits option.splits if_splits)

lemma talk_admit [simp]: "talk w (admit_peer cf p g) = talk w g"
  by (auto simp: admit_peer_def Let_def split: option.split)

lemma answered_refused: "talk w k = talk w g \<Longrightarrow> answered w v g (refuse_hello cf v c m k)"
  by (simp add: refuse_hello_def answered_send answered_close)

lemma answered_hello:
  "handlePeerHello cf v hi ip rn now g = (h, r) \<Longrightarrow>
   answered w v g h \<and> ((\<exists>e. r = Inl e) \<longrightarrow> talk w h = talk w g)"
  by (auto simp: handlePeerHello_def Let_def dest!: talk_fst [where w = w] talk_register [where w = w]
      intro: answered_refused answered_none split: prod.splits option.splits sum.splits if_splits peer_type.splits)

text \<open>
  A frame on a socket with a session is a message of that session; without one it is a hello, which may give
  the connection the session just drawn.
\<close>

lemma session_conn: "jm_get (gw_conns g) v = Some c \<Longrightarrow> session_at g v = cn_session c"
  by (simp add: session_at_def)

lemma talk_authAt: "talk w (upd_conn v (\<lambda>c. c\<lparr>cn_authAt := t\<rparr>) g) = talk w g"
  by (simp add: talk_def answers_def received_def session_at_def sent_def upd_conn_def fun_eq_iff bind_map_option comp_def)

lemma session_set:
  "session_at (upd_conn v (\<lambda>c. c\<lparr>cn_session := x\<rparr>) g) =
     (\<lambda>u. if u = v \<and> jm_get (gw_conns g) v \<noteq> None then x else session_at g u)"
  "answers w (upd_conn v (\<lambda>c. c\<lparr>cn_session := x\<rparr>) g) = answers w g"
  by (auto simp: answers_def received_def session_at_def sent_def upd_conn_def fun_eq_iff jm_get_upd split: option.split)

definition sole_sessions :: "gateway \<Rightarrow> bool" where
  "sole_sessions g \<longleftrightarrow> (\<forall>v w sid. session_at g v = Some sid \<longrightarrow> session_at g w = Some sid \<longrightarrow> v = w)"

text \<open>What a step may do to the answers of a socket: nothing, or one more while a message of the socket is handled.\<close>

definition one_answer :: "ws \<Rightarrow> ws \<Rightarrow> gateway \<Rightarrow> gateway \<Rightarrow> bool" where
  "one_answer w v g h \<longleftrightarrow> answers w h = answers w g \<or> v = w \<and> (\<exists>a. answers w h = answers w g @ [a])"

lemma answered_one: "answered w v g h \<Longrightarrow> one_answer w v g h \<and> session_at h = session_at g"
  by (auto simp: answered_def one_answer_def talk_def)

lemma message_frame:
  assumes inv: "gw_inv g" and sole: "sole_sessions g" and v: "session_at g v = Some sid"
  shows "answered w v g (ws_message cf v frame rn now g)"
proof (cases frame)
  case None
  from v show ?thesis
    by (auto simp: None ws_message_def session_at_def intro: answered_bad_frame split: option.split bind_splits)
next
  case (Some m)
  with v have h: "ws_message cf v frame rn now g = handlePeerMessage cf sid m rn now g"
    by (auto simp: ws_message_def session_at_def split: option.split bind_splits)
  show ?thesis
  proof (cases "jm_get (gs_peers g) sid")
    case None
    then show ?thesis by (simp add: h handlePeerMessage_def answered_none)
  next
    case (Some p)
    from inv_peersD(3) [OF inv Some] have "session_at g (ps_ws p) = Some sid" by (auto simp: session_at_def)
    with sole v have "ps_ws p = v" unfolding sole_sessions_def by blast
    with answered_peer_message [OF Some] show ?thesis by (simp add: h)
  qed
qed

lemma hello_session: "handlePeerHello cf v hi ip dr now g = (k, Inr (Some sid)) \<Longrightarrow> sid = hd_session dr"
  by (auto simp: handlePeerHello_def register_backend_def hello_peer_def Let_def
      split: prod.splits option.splits sum.splits if_splits peer_type.splits)

lemma hello_frame:
  assumes c: "jm_get (gw_conns g) v = Some c" "cn_session c = None"
  shows "\<exists>x. one_answer w v g (ws_message cf v frame rn now g)
     \<and> session_at (ws_message cf v frame rn now g) = (session_at g)(v := x) \<and> (x = None \<or> x = Some (hd_session (da_hello rn)))"
proof -
  have same: "(session_at g)(v := None) = session_at g" using c by (simp add: session_at_def fun_eq_iff)
  have plain: ?thesis if "answered w v g (ws_message cf v frame rn now g)"
    using answered_one [OF that] same by metis
  show ?thesis
  proof (cases "\<exists>m. frame = Some m \<and> validatePeerHelloV4 m = None")
    case False
    then have "answered w v g (ws_message cf v frame rn now g)"
      by (auto simp: ws_message_def c intro: answered_bad_frame answered_close answered_send split: option.split)
    then show ?thesis by (rule plain)
  next
    case True
    then obtain m where m: "frame = Some m" "validatePeerHelloV4 m = None" by blast
    let ?g = "upd_conn v (\<lambda>c. c\<lparr>cn_authAt := None\<rparr>) g"
    obtain k r where hk: "handlePeerHello cf v (parse_hello m) (cn_ip c) (da_hello rn) now ?g = (k, r)" by fastforce
    note a = answered_hello [OF hk, of w]
    show ?thesis
    proof (cases r)
      case (Inl e)
      with a have "answered w v g (bad_frame cf v False k)" by (intro answered_bad_frame) (simp add: talk_authAt)
      then show ?thesis by (intro plain) (simp add: ws_message_def c m hk Inl)
    next
      case (Inr x)
      then have h: "ws_message cf v frame rn now g = upd_conn v (\<lambda>c. c\<lparr>cn_session := x\<rparr>) k"
        by (simp add: ws_message_def c m hk)
      from a have "answered w v g k" by (simp add: answered_def talk_authAt) (metis talkD talk_authAt)
      from answered_one [OF this] have k: "one_answer w v g k" "session_at k = session_at g" by simp_all
      have "x = None \<or> x = Some (hd_session (da_hello rn))"
        using hello_session [of cf v "parse_hello m" "cn_ip c" "da_hello rn" now ?g k] hk Inr by (cases x) auto
      moreover have "session_at (upd_conn v (\<lambda>c. c\<lparr>cn_session := x\<rparr>) k) = (session_at g)(v := if jm_get (gw_conns k) v = None then None else x)"
        using k(2) same by (auto simp: session_set fun_eq_iff)
      ultimately show ?thesis using k(1) unfolding h by (auto simp: one_answer_def session_set)
    qed
  qed
qed

section \<open>Everything else\<close>

lemma talk_timers [simp]:
  "talk w (auth_timeout cf v now g) = talk w g" "talk w (ws_pong v g) = talk w g"
  "talk w (pingInterval cf now g) = talk w g" "talk w (leaseCheckInterval cf now g) = talk w g"
  "talk w (registryPollInterval g) = talk w g" "talk w (rateLimitCleanup now g) = talk w g"
proof -
  have "talk w (ping_peers cf now sids g) = talk w g" for sids
    by (induction cf now sids g rule: ping_peers.induct) (auto split: option.split)
  then show "talk w (pingInterval cf now g) = talk w g" by (simp add: pingInterval_def)
  have "talk w (expire_leases cf now bs g) = talk w g" for bs
    by (induction cf now bs g rule: expire_leases.induct) (auto split: option.split)
  then show "talk w (leaseCheckInterval cf now g) = talk w g" by (simp add: leaseCheckInterval_def)
qed (auto simp: auth_timeout_def ws_pong_def registryPollInterval_def rateLimitCleanup_def talk_authAt Let_def split: option.split)

lemma talk_connect: "jm_get (gw_conns g) v = None \<Longrightarrow> talk w (ws_connection cf v ip now g) = talk w g"
  by (auto simp: ws_connection_def Let_def) (simp add: talk_def answers_def received_def session_at_def sent_def fun_eq_iff)

lemma talk_gone:
  "answers w (ws_closed cf v now g) = answers w g" "session_at (ws_closed cf v now g) = (session_at g)(v := None)"
proof -
  have "talk w (g\<lparr>gw_conns := jm_del v (gw_conns g), gw_wsPerIp := n\<rparr>) = (answers w g, (session_at g)(v := None))" for n
    by (simp add: talk_def answers_def received_def session_at_def sent_def fun_eq_iff)
  then have "talk w (ws_closed cf v now g) = (answers w g, (session_at g)(v := None))"
    by (auto simp: ws_closed_def Let_def split: option.split) (simp add: talk_def session_at_def fun_eq_iff)
  then show "answers w (ws_closed cf v now g) = answers w g" "session_at (ws_closed cf v now g) = (session_at g)(v := None)"
    by (simp_all add: talk_def)
qed

lemma talk_channels [simp]:
  "talk w (pairing_timeout cf cid now g) = talk w g" "talk w (channel_socket_closed cf cid g) = talk w g"
  "talk w (fst (handleChannelUpgrade cid tok now g)) = talk w g" "talk w (fst (channelUpgraded cf cid r v g)) = talk w g"
  "talk w (bridgeHttpChannel cf cid v now g) = talk w g" "talk w (dial_socket cf cid tok v now g) = talk w g"
proof -
  show u: "talk w (fst (handleChannelUpgrade cid tok now g)) = talk w g" for g
    by (auto simp: handleChannelUpgrade_def Let_def split: option.split)
  show c: "talk w (fst (channelUpgraded cf cid r v g)) = talk w g" for r g
    by (auto simp: channelUpgraded_def wireChannel_def Let_def split: option.split)
  show b: "talk w (bridgeHttpChannel cf cid v now g) = talk w g" for g
    by (auto simp: bridgeHttpChannel_def upd_bridge_def split: option.split)
  have "talk w k = talk w g" if "handleChannelUpgrade cid tok now g = (k, x)" for k x using u [of g] that by simp
  moreover have "talk w k = talk w h" if "channelUpgraded cf cid r v h = (k, x)" for k x r h using c [of r h] that by simp
  ultimately show "talk w (dial_socket cf cid tok v now g) = talk w g"
    by (auto simp: dial_socket_def b split: prod.split option.split bool.split)
qed (auto simp: pairing_timeout_def channel_socket_closed_def split: option.split)

lemma talk_bridge [simp]:
  "talk w (upd_bridge cid f g) = talk w g" "talk w (res_head r s hs g) = talk w g" "talk w (res_end r g) = talk w g"
  "talk w (answer r rep g) = talk w g" "talk w (bridge_drained v g) = talk w g"
  by (auto simp: upd_bridge_def res_head_def res_end_def answer_def bridge_drained_def split: reply.split)

lemma talk_http [simp]:
  "talk w (fst (request_data cid d n g)) = talk w g" "talk w (fst (request_drain_tick cid n g)) = talk w g"
  "talk w (request_end cid g) = talk w g" "talk w (bridge_timeout cf cid now g) = talk w g"
  "talk w (bridge_closed cf cid g) = talk w g" "talk w (response_closed cf cid r g) = talk w g"
  by (auto simp: request_data_def request_drain_tick_def request_end_def bridge_timeout_def bridge_closed_def
      response_closed_def Let_def split: option.split)

lemma talk_bridge_message: "bridge_message cf cid v f wr now g = Inr h \<Longrightarrow> talk w h = talk w g"
  by (auto simp: bridge_message_def bridge_meta_def Let_def split: option.splits if_splits data_frame.splits)

lemma talk_requireAuth: "requireGatewayAuth cf h ip now g = (g1, x) \<Longrightarrow> talk w g1 = talk w g"
  by (auto simp: requireGatewayAuth_def Let_def dest!: talk_fst [where w = w] split: option.splits prod.splits)

lemma talk_proxy [simp]: "talk w (proxy_route cf r h ip b pq rn now g) = talk w g"
proof -
  have via: "talk w (proxyViaChannel cf r pq b e p rn now k) = talk w k" for e p k
    by (auto simp: proxyViaChannel_def ticket_for_backend_def Let_def)
  show ?thesis
    by (auto simp: proxy_route_def via dest!: talk_fst [where w = w] talk_requireAuth [where w = w]
        split: prod.split sum.split option.split)
qed

lemma talk_cookie: "cookie_session rq now g = (g1, x) \<Longrightarrow> talk w g1 = talk w g"
  by (auto simp: cookie_session_def Let_def split: cookie.splits prod.splits if_splits)

lemma talk_session_routes [simp]:
  "talk w (fst (admin_login cf rq sid now g)) = talk w g" "talk w (fst (session_probe rq now g)) = talk w g"
  "talk w (fst (admin_logout rq now g)) = talk w g"
  by (auto simp: admin_login_def session_probe_def admin_logout_def Let_def dest!: talk_cookie [where w = w]
      split: prod.split sum.split option.split)

lemma talk_close_peers [simp]: "talk w (close_peers cf P r ps g) = talk w g"
  by (induction cf P r ps g rule: close_peers.induct) simp_all

lemma talk_afterRevoke [simp]: "talk w (afterRevoke cf ids g) = talk w g"
  by (simp add: afterRevoke_def)

lemma talk_admin_effect [simp]: "talk w (fst (admin_effect cf c rq now g)) = talk w g"
  by (cases c) (auto simp: issue_credential_def delete_backend_def bind_credential_def change_scope_def revoke_credential_def
      bulk_revoke_def purge_credentials_def Let_def split_def split: option.split sum.split prod.split)

lemma talk_admin_route:
  fixes handler :: "gateway \<Rightarrow> gateway \<times> 'a reply"
  assumes "\<And>h. talk w (fst (handler h)) = talk w h"
  shows "talk w (fst (admin_route cf host_of rq now handler g)) = talk w g"
proof -
  obtain g1 x where r: "requireAdmin cf host_of rq now g = (g1, x :: 'a reply option)" by fastforce
  then have "talk w g1 = talk w g"
    by (auto simp: requireAdmin_def Let_def dest!: talk_cookie [where w = w] talk_fst [where w = w]
        split: if_splits prod.splits sum.splits option.splits)
  with assms show ?thesis by (simp add: admin_route_def r split: option.split)
qed

lemma talk_read_routes [simp]:
  "talk w (fst (sync_registry cf h ip now g)) = talk w g" "talk w (fst (discovery_backends cf h ip now g)) = talk w g"
  "talk w (fst (exchange_token cf rq rn now g)) = talk w g"
  by (auto simp: sync_registry_def requireRecoveryToken_def discovery_backends_def exchange_token_def Let_def
      dest!: talk_fst [where w = w] talk_requireAuth [where w = w] split: prod.splits sum.splits option.splits if_splits)

text \<open>One step: the sessions stay on one connection each, and no answer comes unasked.\<close>

definition sound_step :: "config \<Rightarrow> gateway \<Rightarrow> gateway \<Rightarrow> bool" where
  "sound_step cf g h \<longleftrightarrow> (sole_sessions g \<longrightarrow> sole_sessions h
     \<and> (\<forall>w. answers w h = answers w g \<or> (\<exists>m rn now a. h = ws_message cf w m rn now g \<and> answers w h = answers w g @ [a])))"

lemma sound_same: "(\<And>w. talk w h = talk w g) \<Longrightarrow> sound_step cf g h"
  by (simp add: sound_step_def sole_sessions_def talk_def)

lemma sound_frame:
  assumes inv: "gw_inv g" and fresh: "fresh_all rn g"
  shows "sound_step cf g (ws_message cf v frame rn now g)"
proof (cases "jm_get (gw_conns g) v")
  case None
  then show ?thesis by (intro sound_same) (simp add: ws_message_def)
next
  case (Some c)
  let ?h = "ws_message cf v frame rn now g"
  show ?thesis
  proof (cases "cn_session c")
    case (Some sid)
    with \<open>jm_get (gw_conns g) v = Some c\<close> have "session_at g v = Some sid" by (simp add: session_at_def)
    then show ?thesis
      using message_frame [OF inv, of v sid _ cf frame rn now, THEN answered_one]
      by (fastforce simp: sound_step_def sole_sessions_def one_answer_def)
  next
    case None
    note f = hello_frame [OF \<open>jm_get (gw_conns g) v = Some c\<close> None, of _ cf frame rn now]
    have new: "session_at g u \<noteq> Some (hd_session (da_hello rn))" for u
      using fresh by (auto simp: fresh_all_def session_at_def dest!: jm_get_in split: bind_splits)
    obtain x where x: "session_at ?h = (session_at g)(v := x)" "x = None \<or> x = Some (hd_session (da_hello rn))"
      using f [of 0] by blast
    have "sole_sessions ?h" if "sole_sessions g"
      using that x new unfolding sole_sessions_def x(1) by (auto split: if_splits)
    moreover have "one_answer w v g ?h" for w using f [of w] by blast
    ultimately show ?thesis by (fastforce simp: sound_step_def one_answer_def)
  qed
qed

lemma sound_gw_step: "gw_step cf g h \<Longrightarrow> gw_inv g \<Longrightarrow> sound_step cf g h"
proof (induction rule: gw_step.induct)
  case (frame rn g v m now)
  then show ?case by (blast intro: sound_frame)
next
  case (connect g v ip now)
  then show ?case by (intro sound_same talk_connect)
next
  case (gone v now g)
  show ?case by (auto simp: sound_step_def sole_sessions_def talk_gone split: if_splits)
next
  case (overview host_of rq now g)
  show ?case unfolding overview_route_def by (rule sound_same) (simp add: talk_admin_route)
next
  case (admin c host_of rq now g)
  show ?case by (rule sound_same) (simp add: talk_admin_route)
next
  case (response cid v f wr now g h)
  then show ?case by (intro sound_same talk_bridge_message)
qed (rule sound_same; simp)+

lemma sole_start: "started cf g \<Longrightarrow> sole_sessions g"
  by (auto simp: started_def start_gateway_def sole_sessions_def session_at_def)

interpretation correlation: invariant_machine "started cf" "gw_step cf" "\<lambda>g. gw_inv g \<and> sole_sessions g" for cf
  by unfold_locales (auto intro: inv_start sole_start inv_gw_step dest: sound_gw_step simp: sound_step_def)

lemma sole_reachable: "reachable cf g \<Longrightarrow> sole_sessions g"
  unfolding reachable_def using correlation.reachable_inv by blast

text \<open>
  C5.  Answers are correlated.  Whatever the server does in any reachable state, no socket is sent a grant, a
  confirmation or an error but while the server handles a message that came on that very socket, and then at
  most one: the client may take it for the answer to what it asked.
\<close>

theorem answers_correlated:
  assumes "reachable cf g" and "gw_step cf g h"
  shows "answers w h = answers w g \<or> (\<exists>m rn now a. h = ws_message cf w m rn now g \<and> answers w h = answers w g @ [a])"
  using sound_gw_step [OF assms(2) gw_reachable [OF assms(1)]] sole_reachable [OF assms(1)] unfolding sound_step_def by blast

theorem answers_correlated_witness:
  "let h = ws_message sample_config 2 (Some (JObj [(''type'', JStr ''channel_open''), (''target'', JStr ''b3'')])) (sample_all ''3'') 300 run2
   in answers 1 h = answers 1 run2
      \<or> (\<exists>m rn now a. h = ws_message sample_config 1 m rn now run2 \<and> answers 1 h = answers 1 run2 @ [a])"
proof -
  have "fresh_check (sample_all ''3'') run2" by code_simp
  then have "gw_step sample_config run2 (ws_message sample_config 2
     (Some (JObj [(''type'', JStr ''channel_open''), (''target'', JStr ''b3'')])) (sample_all ''3'') 300 run2)"
    by (blast intro: gw_step.frame fresh_check)
  from answers_correlated [OF reachable_runs(2) this] show ?thesis unfolding Let_def .
qed

end
