(* ===== verification/Gw_Shutdown.thy ===== *)
theory Gw_Shutdown
  imports Gw_System
begin

text \<open>
  src/server.ts, the edges of the server: which of its two WebSocket servers takes an upgrade, and how
  \<open>httpServer.close\<close> ends: it waits for the control plane's server and for the HTTP server, in either
  order, and then cleans up once and calls back.  The timer for the test runner is not modelled.
\<close>

section \<open>Upgrades\<close>

datatype upgrade = ControlPlane | DataPlane string | DestroySocket

definition on_upgrade :: "string \<Rightarrow> upgrade" where
  "on_upgrade pathname =
     (if pathname = ''/ws'' then ControlPlane
      else if starts_with ''/channel/'' pathname then DataPlane (drop (length ''/channel/'') pathname)
      else DestroySocket)"

text \<open>The path of a grant leads back to its channel, and to no other.\<close>

lemma grant_path: "on_upgrade (channel_path cid) = DataPlane cid"
  by (simp add: on_upgrade_def channel_path_def starts_with_def)

section \<open>Shutdown\<close>

record shutdown =
  sd_gateway :: gateway
  sd_cleanedUp :: bool
  sd_callbackCalled :: bool
  sd_pendingClosers :: int
  sd_closeError :: "string option"
  sd_callback :: "string option list"

definition cleanupServerResources :: "config \<Rightarrow> shutdown \<Rightarrow> shutdown" where
  "cleanupServerResources cf s =
     (if sd_cleanedUp s then s
      else
        let g = sd_gateway s;
            g1 = g\<lparr>gw_adminSessions := sessions_dispose (gw_adminSessions g)\<rparr>;
            g2 = teardown_all cf ''closed'' (\<lambda>ch. True) (jm_vals (gw_channels g1)) g1
        in s\<lparr>sd_cleanedUp := True, sd_gateway := state_destroy g2\<rparr>)"

definition finishClose :: "config \<Rightarrow> shutdown \<Rightarrow> shutdown" where
  "finishClose cf s =
     (if sd_callbackCalled s \<or> sd_pendingClosers s > 0 then s
      else let s1 = cleanupServerResources cf (s\<lparr>sd_callbackCalled := True\<rparr>)
           in s1\<lparr>sd_callback := sd_callback s1 @ [sd_closeError s1]\<rparr>)"

text \<open>A closer is done, with the error it had; the callback of \<open>closeFn\<close> may also run at once, when that throws.\<close>

definition closer_done :: "config \<Rightarrow> string option \<Rightarrow> shutdown \<Rightarrow> shutdown" where
  "closer_done cf err s =
     finishClose cf (s\<lparr>sd_closeError := (if err \<noteq> None \<and> sd_closeError s = None then err else sd_closeError s),
                       sd_pendingClosers := sd_pendingClosers s - 1\<rparr>)"

definition registerCloser :: "config \<Rightarrow> string option \<Rightarrow> shutdown \<Rightarrow> shutdown" where
  "registerCloser cf thrown s =
     (let s1 = s\<lparr>sd_pendingClosers := sd_pendingClosers s + 1\<rparr>
      in case thrown of None \<Rightarrow> s1 | Some e \<Rightarrow> closer_done cf (Some e) s1)"

definition terminate_clients :: "config \<Rightarrow> gateway \<Rightarrow> gateway" where
  "terminate_clients cf g = fold (\<lambda>w. ws_terminate cf w) (jm_keys (gw_conns g)) g"

text \<open>The call of \<open>httpServer.close\<close>, with what the two closers throw at once, if they do.\<close>

definition server_close :: "config \<Rightarrow> string option \<Rightarrow> string option \<Rightarrow> gateway \<Rightarrow> bool \<Rightarrow> shutdown" where
  "server_close cf wssThrows httpThrows g cleanedUp =
     finishClose cf (registerCloser cf httpThrows (registerCloser cf wssThrows
       \<lparr>sd_gateway = terminate_clients cf g, sd_cleanedUp = cleanedUp, sd_callbackCalled = False, sd_pendingClosers = 0,
        sd_closeError = None, sd_callback = []\<rparr>))"

text \<open>What happens then: a closer calls back, or the control plane's server reports its close.\<close>

datatype close_event = CloserDone "string option" | WssClosed

fun on_close :: "config \<Rightarrow> close_event \<Rightarrow> shutdown \<Rightarrow> shutdown" where
  "on_close cf (CloserDone err) s = closer_done cf err s"
| "on_close cf WssClosed s = cleanupServerResources cf s"

definition is_done :: "close_event \<Rightarrow> bool" where
  "is_done e = (e \<noteq> WssClosed)"

section \<open>Shutdown is orderly\<close>

lemma teardown_every: "jm_get (gw_channels (teardown_all cf r (\<lambda>ch. True) chs g)) i =
    (if \<exists>ch\<in>set chs. ch_id ch = i then None else jm_get (gw_channels g) i)"
  by (induction chs arbitrary: g) auto

definition swept :: "gateway \<Rightarrow> bool" where
  "swept g \<longleftrightarrow> (\<forall>i. jm_get (gw_channels g) i = None) \<and> gs_peers g = [] \<and> gs_leases g = [] \<and> gs_registry g = []
     \<and> as_sessions (gw_adminSessions g) = []"

lemma cleanup_sweeps:
  assumes "gw_inv (sd_gateway s)" and "\<not> sd_cleanedUp s"
  shows "swept (sd_gateway (cleanupServerResources cf s))"
proof -
  have "jm_get (gw_channels (sd_gateway s)) i = None" if "\<forall>ch\<in>set (jm_vals (gw_channels (sd_gateway s))). ch_id ch \<noteq> i" for i
  proof (cases "jm_get (gw_channels (sd_gateway s)) i")
    case (Some ch)
    with assms(1) have "ch_id ch = i" by (simp add: gw_inv_def inv_channels_def)
    with that jm_get_vals [OF Some] show ?thesis by blast
  qed
  with assms(2) show ?thesis
    by (auto simp: swept_def cleanupServerResources_def state_destroy_def sessions_dispose_def teardown_every Let_def)
qed

definition calm :: "shutdown \<Rightarrow> bool" where
  "calm s \<longleftrightarrow> (if sd_cleanedUp s then swept (sd_gateway s) else gw_inv (sd_gateway s))"

lemma calm_cleanup: "calm s \<Longrightarrow> calm (cleanupServerResources cf s) \<and> sd_cleanedUp (cleanupServerResources cf s)"
  using cleanup_sweeps [of s cf]
  by (cases "sd_cleanedUp s") (simp_all add: calm_def, simp_all add: cleanupServerResources_def Let_def)

lemma calm_fields:
  "calm (s\<lparr>sd_callbackCalled := a\<rparr>) = calm s" "calm (s\<lparr>sd_pendingClosers := b\<rparr>) = calm s" "calm (s\<lparr>sd_closeError := c\<rparr>) = calm s"
  "calm (s\<lparr>sd_callback := d\<rparr>) = calm s"
  by (simp_all add: calm_def)

lemma cleanup_fields [simp]:
  "sd_callbackCalled (cleanupServerResources cf s) = sd_callbackCalled s" "sd_pendingClosers (cleanupServerResources cf s) = sd_pendingClosers s"
  "sd_closeError (cleanupServerResources cf s) = sd_closeError s" "sd_callback (cleanupServerResources cf s) = sd_callback s"
  by (simp_all add: cleanupServerResources_def Let_def)

lemma calm_event: "calm s \<Longrightarrow> calm (on_close cf e s)"
  using calm_cleanup [of "s\<lparr>sd_closeError := x, sd_pendingClosers := y, sd_callbackCalled := True\<rparr>" cf for x y] calm_cleanup [of s cf]
  by (cases e) (auto simp: closer_done_def finishClose_def calm_fields Let_def)

text \<open>How far the closers are: none called back before the last is done, and the first error is the one reported.\<close>

definition first_error :: "close_event list \<Rightarrow> string option" where
  "first_error es = Option.bind (find (\<lambda>e. \<exists>x. e = CloserDone (Some x)) es) (\<lambda>e. case e of CloserDone x \<Rightarrow> x | WssClosed \<Rightarrow> None)"

definition waiting_for :: "nat \<Rightarrow> string option \<Rightarrow> shutdown \<Rightarrow> bool" where
  "waiting_for n err s \<longleftrightarrow> sd_pendingClosers s = int n \<and> sd_closeError s = err \<and> calm s
     \<and> (if n > 0 then \<not> sd_callbackCalled s \<and> sd_callback s = []
        else sd_callbackCalled s \<and> sd_callback s = [err] \<and> sd_cleanedUp s)"

lemma waiting_step:
  "waiting_for (Suc n) err s \<Longrightarrow> waiting_for n (if err = None then x else err) (on_close cf (CloserDone x) s)"
  using calm_event [of s cf "CloserDone x"] calm_cleanup [of "s\<lparr>sd_closeError := x', sd_pendingClosers := 0, sd_callbackCalled := True\<rparr>" cf for x']
  by (auto simp: waiting_for_def closer_done_def finishClose_def calm_fields Let_def)

lemma waiting_still: "waiting_for n err s \<Longrightarrow> waiting_for n err (on_close cf WssClosed s)"
  using calm_cleanup [of s cf] by (simp add: waiting_for_def)

lemma waiting_run:
  "waiting_for n err s \<Longrightarrow> length (filter is_done es) \<le> n \<Longrightarrow>
   waiting_for (n - length (filter is_done es)) (if err = None then first_error es else err) (fold (on_close cf) es s)"
proof (induction es arbitrary: n err s)
  case (Cons e es)
  show ?case
  proof (cases e)
    case (CloserDone x)
    with Cons.prems(2) obtain m where m: "n = Suc m" by (cases n) (auto simp: is_done_def)
    have "waiting_for m (if err = None then x else err) (on_close cf e s)"
      using waiting_step [of m err s x cf] Cons.prems(1) by (simp add: m CloserDone)
    from Cons.IH [OF this] Cons.prems(2) show ?thesis
      by (cases x) (auto simp: m CloserDone is_done_def first_error_def)
  next
    case WssClosed
    have "waiting_for n err (on_close cf e s)" using waiting_still Cons.prems(1) by (simp add: WssClosed)
    from Cons.IH [OF this] Cons.prems(2) show ?thesis
      by (cases err) (simp_all add: WssClosed is_done_def first_error_def)
  qed
qed (auto simp: first_error_def)

text \<open>
  C40.  A shutdown is orderly.  From any reachable state, whatever order the closers and the control plane's close
  come in, the callback is not called before both closers are done, and then once, with the first error; by
  then every channel is torn down, and no session, lease, presence or admin session is left.
\<close>

theorem shutdown_orderly:
  assumes "reachable cf g" and "length (filter is_done es) \<le> 2"
  shows "let s = fold (on_close cf) es (server_close cf None None g False)
     in if length (filter is_done es) = 2
        then sd_callback s = [first_error es] \<and> swept (sd_gateway s)
        else sd_callback s = []"
proof -
  have "gw_inv (terminate_clients cf g)"
  proof -
    have "gw_inv (fold (\<lambda>w. ws_terminate cf w) ws h) = gw_inv h" for ws h by (induction ws arbitrary: h) simp_all
    with gw_reachable [OF assms(1)] show ?thesis by (simp add: terminate_clients_def)
  qed
  then have "waiting_for 2 None (server_close cf None None g False)"
    by (simp add: waiting_for_def server_close_def registerCloser_def finishClose_def calm_def)
  from waiting_run [OF this assms(2), of cf] show ?thesis
    using assms(2) by (auto simp: waiting_for_def calm_def Let_def split: if_splits)
qed

theorem shutdown_orderly_witness:
  "sd_callback (fold (on_close sample_config) [CloserDone None, WssClosed, CloserDone (Some ''ERR'')] (server_close sample_config None None run3 False))
     = [Some ''ERR'']"
proof -
  have n: "length (filter is_done [CloserDone None, WssClosed, CloserDone (Some ''ERR'')]) = 2" by (simp add: is_done_def)
  have "first_error [CloserDone None, WssClosed, CloserDone (Some ''ERR'')] = Some ''ERR''" by (simp add: first_error_def)
  with shutdown_orderly [OF reachable_runs(3), of "[CloserDone None, WssClosed, CloserDone (Some ''ERR'')]"] n show ?thesis
    by (simp add: Let_def)
qed

text \<open>
  A closer that throws at once is done before the next is registered: the callback then runs while the HTTP
  server has not been asked to close.
\<close>

lemma thrown_closer_hurries:
  "sd_callback (registerCloser cf (Some e) \<lparr>sd_gateway = g, sd_cleanedUp = c, sd_callbackCalled = False, sd_pendingClosers = 0,
      sd_closeError = None, sd_callback = []\<rparr>) = [Some e]"
  by (simp add: registerCloser_def closer_done_def finishClose_def Let_def)

end
