(* ===== verification/Gw_Push.thy ===== *)
theory Gw_Push
  imports Gw_System
begin

text \<open>
  src/push-notification.ts: the ntfy push service of the server, its configuration, which events it
  delivers, the request it makes for one, and the exceptions of \<open>notify\<close>, which nobody awaits; and the two
  notification endpoints of src/server.ts.  The HTTP client is outside: a delivery is the request handed
  to \<open>fetch\<close>, and what \<open>fetch\<close> itself refuses is caught there.
\<close>

section \<open>Configuration\<close>

datatype auth_mode = AuthNone | AuthBearer | AuthBasic

record notification_config =
  nc_enabled :: bool
  nc_ntfyUrl :: string
  nc_ntfyTopic :: string
  nc_authMode :: auth_mode
  nc_publishToken :: string
  nc_subscribeToken :: string
  nc_username :: string
  nc_password :: string
  nc_allowlist :: "string list"
  nc_denylist :: "string list"
  nc_minSeverity :: "string option"

definition DEFAULT_NOTIFICATION_CONFIG :: notification_config where
  "DEFAULT_NOTIFICATION_CONFIG = \<lparr>nc_enabled = False, nc_ntfyUrl = ''https://ntfy.sh'', nc_ntfyTopic = [],
     nc_authMode = AuthNone, nc_publishToken = [], nc_subscribeToken = [], nc_username = [], nc_password = [],
     nc_allowlist = [], nc_denylist = [], nc_minSeverity = None\<rparr>"

text \<open>A name that every object has by inheritance, so that \<open>in\<close> and an index find it in the tables too.\<close>

definition object_prototype :: "string list" where
  "object_prototype = [''constructor'', ''__defineGetter__'', ''__defineSetter__'', ''hasOwnProperty'',
     ''__lookupGetter__'', ''__lookupSetter__'', ''isPrototypeOf'', ''propertyIsEnumerable'', ''toString'',
     ''valueOf'', ''__proto__'', ''toLocaleString'']"

definition SEVERITY_ORDER :: "string \<Rightarrow> nat option" where
  "SEVERITY_ORDER s =
     (if s = ''info'' then Some 0 else if s = ''success'' then Some 1
      else if s = ''warning'' then Some 2 else if s = ''error'' then Some 3 else None)"

definition SEVERITY_PRIORITY :: "string \<Rightarrow> string option" where
  "SEVERITY_PRIORITY s =
     (if s = ''info'' \<or> s = ''success'' then Some ''default'' else if s = ''warning'' then Some ''high''
      else if s = ''error'' then Some ''urgent'' else None)"

text \<open>
  What is given to the constructor: a partial configuration.  The fields the constructor normalizes are
  JavaScript values, the three it takes over are typed.
\<close>

record partial_config =
  pc_enabled :: "bool option"
  pc_ntfyUrl :: "string option"
  pc_ntfyTopic :: "string option"
  pc_authMode :: jsval
  pc_publishToken :: jsval
  pc_subscribeToken :: jsval
  pc_username :: jsval
  pc_password :: jsval
  pc_allowlist :: jsval
  pc_denylist :: jsval
  pc_minSeverity :: "string option"

definition normalizeAuthMode :: "jsval \<Rightarrow> auth_mode" where
  "normalizeAuthMode mode =
     (if mode = Some (JStr ''bearer'') then AuthBearer
      else if mode = Some (JStr ''basic'') then AuthBasic else AuthNone)"

definition normalizeString :: "jsval \<Rightarrow> string" where
  "normalizeString v = (case v of Some (JStr s) \<Rightarrow> js_trim s | _ \<Rightarrow> [])"

definition list_entry :: "json \<Rightarrow> string option" where
  "list_entry v = (case v of JStr s \<Rightarrow> if js_trim s \<noteq> [] then Some (js_trim s) else None | _ \<Rightarrow> None)"

definition normalizeList :: "jsval \<Rightarrow> string list" where
  "normalizeList v = (case v of Some (JArr xs) \<Rightarrow> List.map_filter list_entry xs | _ \<Rightarrow> [])"

definition normalizeConfig :: "partial_config \<Rightarrow> notification_config" where
  "normalizeConfig pc = \<lparr>
     nc_enabled = or_else (pc_enabled pc) (nc_enabled DEFAULT_NOTIFICATION_CONFIG),
     nc_ntfyUrl = or_else (pc_ntfyUrl pc) (nc_ntfyUrl DEFAULT_NOTIFICATION_CONFIG),
     nc_ntfyTopic = or_else (pc_ntfyTopic pc) (nc_ntfyTopic DEFAULT_NOTIFICATION_CONFIG),
     nc_authMode = normalizeAuthMode (pc_authMode pc),
     nc_publishToken = normalizeString (pc_publishToken pc),
     nc_subscribeToken = normalizeString (pc_subscribeToken pc),
     nc_username = normalizeString (pc_username pc),
     nc_password = (case pc_password pc of Some (JStr s) \<Rightarrow> s | _ \<Rightarrow> []),
     nc_allowlist = normalizeList (pc_allowlist pc),
     nc_denylist = normalizeList (pc_denylist pc),
     nc_minSeverity =
       (case pc_minSeverity pc of
          Some s \<Rightarrow> if s \<noteq> [] \<and> (SEVERITY_ORDER s \<noteq> None \<or> s \<in> set object_prototype) then Some s else None
        | None \<Rightarrow> None)\<rparr>"

section \<open>Which events are delivered\<close>

definition matchesEntry :: "string \<Rightarrow> string \<Rightarrow> bool" where
  "matchesEntry eventName entry \<longleftrightarrow> eventName = entry \<or> starts_with (entry @ ''.'') eventName"

text \<open>
  \<open>list.some(entry => matchesEntry(event.name, entry))\<close>: reading a property of null throws, and a name that
  is no string has no \<open>startsWith\<close>; an empty list evaluates nothing.
\<close>

definition event_some :: "json \<Rightarrow> string list \<Rightarrow> bool option" where
  "event_some event entries =
     (if entries = [] then Some False
      else case js_field event ''name'' of
             Some (JStr s) \<Rightarrow> Some (list_ex (matchesEntry s) entries)
           | _ \<Rightarrow> None)"

text \<open>
  Turning a value into text throws when it is an object with an own \<open>toString\<close> (no JSON value is
  callable, and the inherited \<open>valueOf\<close> gives no primitive), or an array with such an element.
\<close>

fun text_throws :: "json \<Rightarrow> bool" where
  "text_throws (JObj fs) = (''toString'' \<in> fst ` set fs)"
| "text_throws (JArr xs) = list_ex text_throws xs"
| "text_throws _ = False"

text \<open>
  \<open>event.severity ?? 'info'\<close> used as a property key, which turns it into text: an array of one string is
  the key that string is, and every other value but a string is a key the tables do not have.
\<close>

fun severity_key :: "json \<Rightarrow> string" where
  "severity_key (JStr s) = s"
| "severity_key (JArr [v]) = severity_key v"
| "severity_key _ = []"

definition event_severity :: "jsval \<Rightarrow> string option" where
  "event_severity v =
     (case v of
        None \<Rightarrow> Some ''info''
      | Some JNull \<Rightarrow> Some ''info''
      | Some j \<Rightarrow> if text_throws j then None else Some (severity_key j))"

text \<open>\<open>SEVERITY_ORDER[severity] < SEVERITY_ORDER[minSeverity]\<close>: false when one of them is no number.\<close>

definition below :: "string \<Rightarrow> string \<Rightarrow> bool" where
  "below severity least =
     (case (SEVERITY_ORDER severity, SEVERITY_ORDER least) of (Some a, Some b) \<Rightarrow> a < b | _ \<Rightarrow> False)"

text \<open>Whether to deliver; none when evaluating it throws.\<close>

definition shouldNotify :: "notification_config \<Rightarrow> json \<Rightarrow> bool option" where
  "shouldNotify nc event =
     Option.bind (event_some event (nc_denylist nc)) (\<lambda>denied.
       if denied then Some False
       else Option.bind (if nc_allowlist nc = [] then Some True else event_some event (nc_allowlist nc)) (\<lambda>allowed.
         if \<not> allowed then Some False
         else case nc_minSeverity nc of
                None \<Rightarrow> Some True
              | Some least \<Rightarrow>
                  if event = JNull then None
                  else map_option (\<lambda>severity. \<not> below severity least)
                         (event_severity (js_field event ''severity''))))"

section \<open>The request\<close>

text \<open>
  A header is text, a value \<open>fetch\<close> turns into text, the text of the array elements \<open>join\<close> puts together, or
  the text of an inherited property.
\<close>

datatype header_value = HText string | HValue jsval | HJoin "json list" | HInherited string

definition priority :: "string \<Rightarrow> header_value" where
  "priority key =
     (case SEVERITY_PRIORITY key of
        Some p \<Rightarrow> HText p
      | None \<Rightarrow> if key \<in> set object_prototype then HInherited key else HValue None)"

definition base64_digit :: "nat \<Rightarrow> char" where
  "base64_digit n =
     (if n < 26 then char_of (65 + n) else if n < 52 then char_of (71 + n)
      else if n < 62 then char_of (n - 4) else if n = 62 then CHR ''+'' else CHR ''/'')"

fun base64 :: "nat list \<Rightarrow> string" where
  "base64 (a # b # c # rest) =
     base64_digit (a div 4) # base64_digit (a mod 4 * 16 + b div 16)
     # base64_digit (b mod 16 * 4 + c div 64) # base64_digit (c mod 64) # base64 rest"
| "base64 [a, b] =
     [base64_digit (a div 4), base64_digit (a mod 4 * 16 + b div 16), base64_digit (b mod 16 * 4), CHR ''='']"
| "base64 [a] = [base64_digit (a div 4), base64_digit (a mod 4 * 16), CHR ''='', CHR ''='']"
| "base64 [] = []"

definition applyPublishAuth :: "notification_config \<Rightarrow> (string \<times> header_value) list" where
  "applyPublishAuth nc =
     (if nc_authMode nc = AuthBearer \<and> nc_publishToken nc \<noteq> []
      then [(''Authorization'', HText (''Bearer '' @ nc_publishToken nc))]
      else if nc_authMode nc = AuthBasic \<and> nc_username nc \<noteq> [] \<and> nc_password nc \<noteq> []
      then [(''Authorization'', HText (''Basic '' @
             base64 (concat (map utf8_char (nc_username nc @ '':'' @ nc_password nc)))))]
      else [])"

definition strip_slash :: "string \<Rightarrow> string" where
  "strip_slash s = (if s \<noteq> [] \<and> last s = CHR ''/'' then butlast s else s)"

definition topicUrl :: "notification_config \<Rightarrow> string option \<Rightarrow> string" where
  "topicUrl nc backendId =
     strip_slash (nc_ntfyUrl nc) @ ''/'' @
     (case backendId of
        Some b \<Rightarrow> if b \<noteq> [] then nc_ntfyTopic nc @ ''-'' @ b else nc_ntfyTopic nc
      | None \<Rightarrow> nc_ntfyTopic nc)"

text \<open>
  The \<open>Tags\<close> header: none when \<open>tags && tags.length > 0\<close> fails, \<open>Inl ()\<close> when evaluating it or \<open>join\<close>
  throws.  Only an array has a \<open>join\<close>; an object can have a \<open>length\<close>, and \<open>positive\<close> is the comparison
  \<open>length > 0\<close> on it, with its conversion to a number.
\<close>

definition tags_header :: "(json \<Rightarrow> bool) \<Rightarrow> jsval \<Rightarrow> unit + (string \<times> header_value) list" where
  "tags_header positive tags =
     (case tags of
        Some (JArr xs) \<Rightarrow>
          if xs = [] then Inr [] else if list_ex text_throws xs then Inl ()
          else Inr [(''Tags'', HJoin xs)]
      | Some (JStr s) \<Rightarrow> if s = [] then Inr [] else Inl ()
      | Some (JObj fs) \<Rightarrow>
          (case map_of fs ''length'' of
             None \<Rightarrow> Inr []
           | Some n \<Rightarrow> if text_throws n \<or> positive n then Inl () else Inr [])
      | _ \<Rightarrow> Inr [])"

datatype delivery =
    Thrown
  | NotSent
  | Post string "(string \<times> header_value) list" jsval

definition notify :: "(json \<Rightarrow> bool) \<Rightarrow> notification_config \<Rightarrow> json \<Rightarrow> string option \<Rightarrow> delivery" where
  "notify positive nc event backendId =
     (if \<not> nc_enabled nc \<or> nc_ntfyTopic nc = [] then NotSent
      else case shouldNotify nc event of
             None \<Rightarrow> Thrown
           | Some False \<Rightarrow> NotSent
           | Some True \<Rightarrow>
               if event = JNull then Thrown
               else
                 case (event_severity (js_field event ''severity''), tags_header positive (js_field event ''tags'')) of
                   (Some severity, Inr tags) \<Rightarrow>
                     let click = (if js_truthy (js_field event ''clickUrl'')
                                  then [(''Click'', HValue (js_field event ''clickUrl''))] else [])
                     in Post (topicUrl nc backendId)
                          ([(''Title'', HValue (js_field event ''title'')), (''Priority'', priority severity)]
                           @ tags @ click @ applyPublishAuth nc)
                          (js_field event ''body'')
                 | _ \<Rightarrow> Thrown)"

section \<open>Test deliveries and the endpoints\<close>

text \<open>What \<open>fetch\<close> comes back with: a response with its status and status text, or an error.\<close>

datatype fetch_result = Response nat string | FetchFails string

text \<open>\<open>sendTest\<close>: the request it makes, and the message of what it throws when it throws.\<close>

definition sendTest ::
  "notification_config \<Rightarrow> string option \<Rightarrow> (delivery \<Rightarrow> fetch_result) \<Rightarrow> delivery \<times> string option" where
  "sendTest nc backendId answers =
     (if nc_ntfyTopic nc = [] then (NotSent, Some ''ntfy topic is not configured'')
      else let request =
        Post (topicUrl nc backendId)
          ([(''Title'', HText ''ZClaudia - Test Notification''), (''Priority'', HText ''default''),
            (''Tags'', HText ''white_check_mark'')] @ applyPublishAuth nc)
          (Some (JStr ''If you see this, notifications are working!''))
      in (request,
          case answers request of
            FetchFails e \<Rightarrow> Some e
          | Response status text \<Rightarrow>
              if 200 \<le> status \<and> status \<le> 299 then None
              else Some (''ntfy returned '' @ show_nat status @ '': '' @ text)))"

definition notification_config_route ::
  "config \<Rightarrow> notification_config \<Rightarrow> http_request \<Rightarrow> int \<Rightarrow> gateway \<Rightarrow> gateway \<times> notification_config reply" where
  "notification_config_route cf nc rq now g =
     (case requireGatewayAuth cf (hq_authorization rq) (client_ip cf rq) now g of
        (g1, Inl refused) \<Rightarrow> (g1, refused)
      | (g1, Inr _) \<Rightarrow> (g1, Reply 200 nc))"

definition test_backend_id :: "http_request \<Rightarrow> string option" where
  "test_backend_id rq =
     (case body_field rq ''backendId'' of
        Some (JStr s) \<Rightarrow> if js_trim s \<noteq> [] then Some (js_trim s) else None
      | _ \<Rightarrow> None)"

definition notification_test_route ::
  "config \<Rightarrow> notification_config \<Rightarrow> (delivery \<Rightarrow> fetch_result) \<Rightarrow> http_request \<Rightarrow> int \<Rightarrow> gateway
     \<Rightarrow> gateway \<times> delivery \<times> unit reply" where
  "notification_test_route cf nc answers rq now g =
     (case requireGatewayAuth cf (hq_authorization rq) (client_ip cf rq) now g of
        (g1, Inl refused) \<Rightarrow> (g1, NotSent, refused)
      | (g1, Inr _) \<Rightarrow>
          (case sendTest nc (test_backend_id rq) answers of
             (request, Some e) \<Rightarrow> (g1, request, Fail 400 ''NOTIFICATION_FAILED'' e)
           | (request, None) \<Rightarrow> (g1, request, Reply 200 ())))"

section \<open>Which events are delivered, and where\<close>

text \<open>An event as the protocol declares it.\<close>

definition declared_event :: "json \<Rightarrow> bool" where
  "declared_event event \<longleftrightarrow> event \<noteq> JNull
     \<and> (\<exists>n. js_field event ''name'' = Some (JStr n))
     \<and> (case js_field event ''severity'' of None \<Rightarrow> True | Some s \<Rightarrow> \<exists>x. s = JStr x \<and> SEVERITY_ORDER x \<noteq> None)
     \<and> (case js_field event ''tags'' of None \<Rightarrow> True | Some t \<Rightarrow> \<exists>xs. t = JArr (map JStr xs))"

definition severity_rank :: "json \<Rightarrow> nat" where
  "severity_rank event =
     (case js_field event ''severity'' of Some (JStr x) \<Rightarrow> or_else (SEVERITY_ORDER x) 0 | _ \<Rightarrow> 0)"

definition wanted :: "notification_config \<Rightarrow> json \<Rightarrow> bool" where
  "wanted nc event =
     (case js_field event ''name'' of
        Some (JStr n) \<Rightarrow>
          (\<forall>d\<in>set (nc_denylist nc). \<not> matchesEntry n d)
          \<and> (nc_allowlist nc = [] \<or> (\<exists>a\<in>set (nc_allowlist nc). matchesEntry n a))
          \<and> (case nc_minSeverity nc of None \<Rightarrow> True
             | Some least \<Rightarrow> or_else (SEVERITY_ORDER least) 0 \<le> severity_rank event)
      | _ \<Rightarrow> False)"

lemma severity_info [simp]: "SEVERITY_ORDER ''info'' = Some 0"
  by (simp add: SEVERITY_ORDER_def)

lemma declared_severity:
  "declared_event event \<Longrightarrow>
     \<exists>s. event_severity (js_field event ''severity'') = Some s \<and> SEVERITY_ORDER s = Some (severity_rank event)"
  by (auto simp: declared_event_def event_severity_def severity_rank_def split: option.splits json.splits)

lemma declared_tags:
  "declared_event event \<Longrightarrow> \<exists>t. tags_header positive (js_field event ''tags'') = Inr t"
  by (auto simp: declared_event_def tags_header_def list_ex_iff split: option.splits)

lemma below_rank:
  "SEVERITY_ORDER s = Some n \<Longrightarrow> \<not> below s least \<longleftrightarrow> or_else (SEVERITY_ORDER least) 0 \<le> n"
  by (auto simp: below_def split: option.split)

lemma shouldNotify_declared:
  assumes "declared_event event"
  shows "shouldNotify nc event = Some (wanted nc event)"
proof -
  obtain n where n: "js_field event ''name'' = Some (JStr n)" "event \<noteq> JNull"
    using assms by (auto simp: declared_event_def)
  obtain s where s: "event_severity (js_field event ''severity'') = Some s" "SEVERITY_ORDER s = Some (severity_rank event)"
    using declared_severity [OF assms] by blast
  note sev = below_rank [OF s(2)]
  have some: "event_some event es = Some (\<exists>e\<in>set es. matchesEntry n e)" for es
    using n by (simp add: event_some_def list_ex_iff)
  show ?thesis
    by (cases "nc_minSeverity nc") (simp_all add: shouldNotify_def wanted_def some n s(1) sev)
qed

text \<open>
  C29.  Push delivery.  An event as the protocol declares it never makes \<open>notify\<close> throw.  It is posted
  exactly when push is enabled with a topic, no denylist entry is its name or a dotted prefix of it, an
  allowlist, if there is one, has such an entry, and its severity reaches the configured minimum; the
  post goes to the topic of the backend that sent it.
\<close>

theorem push_delivery:
  assumes "declared_event event" and "b \<noteq> []"
  shows "(nc_enabled nc \<and> nc_ntfyTopic nc \<noteq> [] \<and> wanted nc event \<longleftrightarrow> notify positive nc event (Some b) \<noteq> NotSent)
    \<and> (case notify positive nc event (Some b) of
         Thrown \<Rightarrow> False
       | NotSent \<Rightarrow> True
       | Post url headers body \<Rightarrow>
           url = strip_slash (nc_ntfyUrl nc) @ ''/'' @ nc_ntfyTopic nc @ ''-'' @ b
           \<and> body = js_field event ''body''
           \<and> map_of headers ''Title'' = Some (HValue (js_field event ''title''))
           \<and> (\<exists>p. map_of headers ''Priority'' = Some (HText p)))"
proof -
  obtain s where s: "event_severity (js_field event ''severity'') = Some s" "SEVERITY_ORDER s = Some (severity_rank event)"
    using declared_severity [OF assms(1)] by blast
  obtain t where t: "tags_header positive (js_field event ''tags'') = Inr t"
    using declared_tags [OF assms(1)] by blast
  have p: "\<exists>p. priority s = HText p"
    using s(2) by (auto simp: priority_def SEVERITY_ORDER_def SEVERITY_PRIORITY_def split: if_splits)
  have "event \<noteq> JNull" using assms(1) by (simp add: declared_event_def)
  then show ?thesis
    using assms(2) p by (simp add: notify_def shouldNotify_declared [OF assms(1)] s(1) t topicUrl_def Let_def split: bool.split)
qed

definition sample_push :: notification_config where
  "sample_push = normalizeConfig \<lparr>pc_enabled = Some True, pc_ntfyUrl = Some ''https://n/'', pc_ntfyTopic = Some ''z'',
     pc_authMode = Some (JStr ''basic''), pc_publishToken = None, pc_subscribeToken = None,
     pc_username = Some (JStr '' u ''), pc_password = Some (JStr ''pw''), pc_allowlist = Some (JArr [JStr ''run'']),
     pc_denylist = None, pc_minSeverity = Some ''warning''\<rparr>"

definition sample_event :: json where
  "sample_event = JObj [(''name'', JStr ''run.failed''), (''severity'', JStr ''error''), (''title'', JStr ''T''),
     (''body'', JStr ''B''), (''tags'', JArr [JStr ''x''])]"

theorem push_delivery_witness:
  "\<exists>headers. notify (\<lambda>_. False) sample_push sample_event (Some ''b3'') = Post ''https://n/z-b3'' headers (Some (JStr ''B''))"
proof -
  have "wanted sample_push sample_event" "nc_enabled sample_push" "nc_ntfyTopic sample_push \<noteq> []"
    and url: "strip_slash (nc_ntfyUrl sample_push) @ ''/'' @ nc_ntfyTopic sample_push @ ''-'' @ ''b3'' = ''https://n/z-b3''"
      "js_field sample_event ''body'' = Some (JStr ''B'')"
    by code_simp+
  moreover have "declared_event sample_event"
    by (auto simp: declared_event_def sample_event_def SEVERITY_ORDER_def intro: exI [of _ "[''x'']"])
  ultimately show ?thesis
    using push_delivery [of sample_event "''b3''" sample_push "\<lambda>_. False"]
    by (cases "notify (\<lambda>_. False) sample_push sample_event (Some ''b3'')") auto
qed

text \<open>
  A backend can end the process through push.  With push enabled, the frame
  \<open>push_notification_request\<close> with \<open>event: null\<close> passes the validator, reaches \<open>notify\<close> with the backend's
  id, and \<open>notify\<close> throws whatever else is configured; its promise is discarded, so the rejection is
  unhandled.
\<close>

definition null_push :: json where
  "null_push = JObj [(''type'', JStr ''push_notification_request''), (''event'', JNull)]"

theorem null_push_throws:
  assumes "jm_get (gw_conns g) w = Some c" and "cn_session c = Some sid" and "jm_get (gs_peers g) sid = Some p"
    and "ps_backendId p = Some b" and "b \<noteq> []"
    and "nc_enabled nc" and "nc_ntfyTopic nc \<noteq> []"
  shows "ws_message cf w (Some null_push) rn now g = emit (ONotify JNull b) g
    \<and> notify positive nc JNull (Some b) = Thrown"
proof -
  have "validateGatewayMessage null_push = None" by code_simp
  moreover have "msg_string null_push ''type'' = ''push_notification_request''" "js_field null_push ''event'' = Some JNull"
    by code_simp+
  ultimately have "ws_message cf w (Some null_push) rn now g = emit (ONotify JNull b) g"
    using assms by (simp add: ws_message_def handlePeerMessage_def handlePushNotificationRequest_def Let_def)
  moreover have "notify positive nc JNull (Some b) = Thrown"
    using assms by (auto simp: notify_def shouldNotify_def event_some_def split: option.split bool.split)
  ultimately show ?thesis by blast
qed

theorem null_push_throws_witness:
  "gw_out (ws_message sample_config 1 (Some null_push) (sample_all ''9'') 500 run1) = gw_out run1 @ [ONotify JNull ''b3'']
    \<and> notify (\<lambda>_. False) sample_push JNull (Some ''b3'') = Thrown"
proof -
  obtain c p where "jm_get (gw_conns run1) 1 = Some c" "cn_session c = Some ''s1''" "jm_get (gs_peers run1) ''s1'' = Some p"
    "ps_backendId p = Some ''b3''"
    using run1_facts by auto
  moreover have "nc_enabled sample_push" "nc_ntfyTopic sample_push \<noteq> []" by code_simp+
  ultimately show ?thesis
    using null_push_throws [of run1 1 c "''s1''" p "''b3''" sample_push sample_config "sample_all ''9''" 500 "\<lambda>_. False"]
    by (simp add: emit_def)
qed

end
