(* ===== verification/Gw_Env.thy ===== *)
theory Gw_Env
  imports Gw_Push
begin

text \<open>
  src/index.ts: the environment parsed into the server's settings, or the message the process exits
  with.  The environment is a function from names to values; \<open>url_protocol\<close> is the URL parser of the
  runtime, the protocol of a URL or the message it throws.  Numbers are exact rationals.
\<close>

section \<open>parseInt and parseFloat\<close>

definition digit_value :: "char \<Rightarrow> nat" where
  "digit_value c = of_char c - 48"

definition is_digit :: "char \<Rightarrow> bool" where
  "is_digit c \<longleftrightarrow> 48 \<le> (of_char c :: nat) \<and> of_char c \<le> (57 :: nat)"

definition digits_value :: "string \<Rightarrow> nat" where
  "digits_value ds = fold (\<lambda>c n. 10 * n + digit_value c) ds 0"

definition signed :: "string \<Rightarrow> bool \<times> string" where
  "signed s = (case s of
     c # cs \<Rightarrow> if c = CHR ''-'' then (True, cs) else if c = CHR ''+'' then (False, cs) else (False, s)
   | [] \<Rightarrow> (False, []))"

text \<open>\<open>parseInt(s, 10)\<close>: the longest run of digits after spaces and a sign, none (NaN) when it is empty.\<close>

definition parseInt :: "string \<Rightarrow> int option" where
  "parseInt s =
     (let (neg, t) = signed (dropWhile is_js_space s);
          ds = takeWhile is_digit t
      in if ds = [] then None else Some (if neg then - int (digits_value ds) else int (digits_value ds)))"

definition power_of_ten :: "int \<Rightarrow> rat" where
  "power_of_ten e = (if 0 \<le> e then 10 ^ nat e else 1 / 10 ^ nat (- e))"

text \<open>An exponent part that is not complete is not part of the number.\<close>

definition parse_exponent :: "string \<Rightarrow> int" where
  "parse_exponent t =
     (case t of
        c # cs \<Rightarrow>
          if c = CHR ''e'' \<or> c = CHR ''E''
          then let (neg, u) = signed cs; ds = takeWhile is_digit u
               in if neg then - int (digits_value ds) else int (digits_value ds)
          else 0
      | [] \<Rightarrow> 0)"

definition parseFloat :: "string \<Rightarrow> jsnum option" where
  "parseFloat s =
     (let (neg, t) = signed (dropWhile is_js_space s);
          whole = takeWhile is_digit t; t1 = dropWhile is_digit t;
          frac = (case t1 of c # cs \<Rightarrow> if c = CHR ''.'' then takeWhile is_digit cs else [] | [] \<Rightarrow> []);
          t2 = (case t1 of c # cs \<Rightarrow> if c = CHR ''.'' then dropWhile is_digit cs else t1 | [] \<Rightarrow> []);
          size = rat_of_nat (digits_value (whole @ frac)) / 10 ^ length frac * power_of_ten (parse_exponent t2)
      in if starts_with ''Infinity'' t then Some (NInf neg)
         else if whole = [] \<and> frac = [] then None
         else Some (NFin (if neg then - size else size)))"

section \<open>The single settings\<close>

type_synonym env = "string \<Rightarrow> string option"

definition trimmed :: "env \<Rightarrow> string \<Rightarrow> string option" where
  "trimmed env name = map_option js_trim (env name)"

text \<open>\<open>s || undefined\<close> and \<open>!s\<close> of an optional string.\<close>

definition non_empty :: "string option \<Rightarrow> string option" where
  "non_empty s = (case s of Some [] \<Rightarrow> None | _ \<Rightarrow> s)"

definition env_port :: "env \<Rightarrow> string + int" where
  "env_port env =
     (case parseInt (or_else (non_empty (env ''GATEWAY_PORT'')) ''3200'') of
        Some port \<Rightarrow>
          if port < 1 \<or> port > 65535
          then Inl (''Error: GATEWAY_PORT must be a valid port number (1-65535), got: '' @ or_else (env ''GATEWAY_PORT'') ''undefined'')
          else Inr port
      | None \<Rightarrow>
          Inl (''Error: GATEWAY_PORT must be a valid port number (1-65535), got: '' @ or_else (env ''GATEWAY_PORT'') ''undefined''))"

definition env_admin_token :: "env \<Rightarrow> string + string" where
  "env_admin_token env =
     (case non_empty (trimmed env ''GATEWAY_ADMIN_TOKEN'') of
        Some t \<Rightarrow> Inr t
      | None \<Rightarrow> Inl (''Error: GATEWAY_ADMIN_TOKEN environment variable is required -- ''
                    @ ''issued credentials are the only authentication (see README)''))"

definition parseBooleanEnv :: "string option \<Rightarrow> bool \<Rightarrow> bool" where
  "parseBooleanEnv value fallback =
     (case value of
        None \<Rightarrow> fallback
      | Some v \<Rightarrow>
          (let normalized = to_lower (js_trim v)
           in if normalized \<in> {''1'', ''true'', ''yes'', ''on''} then True
              else if normalized \<in> {''0'', ''false'', ''no'', ''off''} then False
              else fallback))"

definition parseAuthModeEnv :: "string option \<Rightarrow> string + auth_mode" where
  "parseAuthModeEnv value =
     (case non_empty (map_option (\<lambda>v. to_lower (js_trim v)) value) of
        None \<Rightarrow> Inr AuthNone
      | Some normalized \<Rightarrow>
          if normalized = ''none'' then Inr AuthNone
          else if normalized = ''bearer'' then Inr AuthBearer
          else if normalized = ''basic'' then Inr AuthBasic
          else Inl (''Error: invalid NTFY_AUTH_MODE: '' @ or_else value ''undefined'' @ ''. Expected none, bearer, or basic.''))"

definition parseListEnv :: "string option \<Rightarrow> string list" where
  "parseListEnv value =
     (case value of
        None \<Rightarrow> []
      | Some v \<Rightarrow> if v = [] then [] else filter (\<lambda>entry. entry \<noteq> []) (map js_trim (split_on (CHR '','') v)))"

definition parseSeverityEnv :: "string option \<Rightarrow> string + string option" where
  "parseSeverityEnv value =
     (case non_empty (map_option (\<lambda>v. to_lower (js_trim v)) value) of
        None \<Rightarrow> Inr None
      | Some normalized \<Rightarrow>
          if normalized \<in> {''info'', ''success'', ''warning'', ''error''} then Inr (Some normalized)
          else Inl (''Error: invalid NTFY_MIN_SEVERITY: '' @ or_else value ''undefined''
                    @ ''. Expected info, success, warning, or error.''))"

definition parsePositiveIntEnv :: "env \<Rightarrow> string \<Rightarrow> string + int option" where
  "parsePositiveIntEnv env name =
     (case non_empty (trimmed env name) of
        None \<Rightarrow> Inr None
      | Some raw \<Rightarrow>
          (case parseInt raw of
             Some parsed \<Rightarrow>
               if \<not> list_all is_digit raw \<or> parsed \<le> 0
               then Inl (''Error: '' @ name @ '' must be a positive integer, got: '' @ raw)
               else Inr (Some parsed)
           | None \<Rightarrow> Inl (''Error: '' @ name @ '' must be a positive integer, got: '' @ raw)))"

text \<open>The session lifetime in milliseconds; \<open>Infinity\<close> hours is a number above zero.\<close>

definition env_session_ttl :: "env \<Rightarrow> string + jsnum option" where
  "env_session_ttl env =
     (case non_empty (trimmed env ''GATEWAY_ADMIN_SESSION_TTL_HOURS'') of
        None \<Rightarrow> Inr None
      | Some _ \<Rightarrow>
          (let raw = or_else (env ''GATEWAY_ADMIN_SESSION_TTL_HOURS'') []
           in case parseFloat raw of
                Some (NFin hours) \<Rightarrow>
                  if hours \<le> 0
                  then Inl (''Error: GATEWAY_ADMIN_SESSION_TTL_HOURS must be a positive number, got: '' @ raw)
                  else Inr (Some (NFin (hours * 60 * 60 * 1000)))
              | Some (NInf neg) \<Rightarrow>
                  if neg
                  then Inl (''Error: GATEWAY_ADMIN_SESSION_TTL_HOURS must be a positive number, got: '' @ raw)
                  else Inr (Some (NInf False))
              | None \<Rightarrow>
                  Inl (''Error: GATEWAY_ADMIN_SESSION_TTL_HOURS must be a positive number, got: '' @ raw)))"

section \<open>The notification settings and the whole start\<close>

text \<open>\<open>process.exit(1)\<close> with a message ends the start; otherwise it goes on with the value.\<close>

definition or_exit :: "string + 'a \<Rightarrow> ('a \<Rightarrow> string + 'b) \<Rightarrow> string + 'b" where
  "or_exit x f = (case x of Inl e \<Rightarrow> Inl e | Inr v \<Rightarrow> f v)"

definition exit_if :: "bool \<Rightarrow> string \<Rightarrow> string + unit" where
  "exit_if b e = (if b then Inl e else Inr ())"

definition check_url :: "(string \<Rightarrow> string + string) \<Rightarrow> string option \<Rightarrow> string + unit" where
  "check_url url_protocol ntfyUrl =
     (case non_empty ntfyUrl of
        None \<Rightarrow> Inr ()
      | Some url \<Rightarrow>
          (case url_protocol url of
             Inl e \<Rightarrow> Inl (''Error: invalid NTFY_URL: '' @ e)
           | Inr protocol \<Rightarrow>
               if protocol \<noteq> ''http:'' \<and> protocol \<noteq> ''https:''
               then Inl (''Error: invalid NTFY_URL: NTFY_URL must use http or https'') else Inr ()))"

definition env_publish_token :: "env \<Rightarrow> string" where
  "env_publish_token env = or_else (trimmed env ''NTFY_PUBLISH_TOKEN'') []"

definition env_enabled :: "env \<Rightarrow> bool" where
  "env_enabled env = parseBooleanEnv (env ''NTFY_ENABLED'') (nc_enabled DEFAULT_NOTIFICATION_CONFIG)"

definition env_topic :: "env \<Rightarrow> string" where
  "env_topic env = or_else (trimmed env ''NTFY_TOPIC'') (nc_ntfyTopic DEFAULT_NOTIFICATION_CONFIG)"

definition mode_name :: "auth_mode \<Rightarrow> string" where
  "mode_name mode = (case mode of AuthNone \<Rightarrow> ''none'' | AuthBearer \<Rightarrow> ''bearer'' | AuthBasic \<Rightarrow> ''basic'')"

definition notification_settings :: "env \<Rightarrow> auth_mode \<Rightarrow> string option \<Rightarrow> partial_config" where
  "notification_settings env mode minSeverity =
     \<lparr>pc_enabled = Some (env_enabled env),
      pc_ntfyUrl = Some (or_else (trimmed env ''NTFY_URL'') (nc_ntfyUrl DEFAULT_NOTIFICATION_CONFIG)),
      pc_ntfyTopic = Some (env_topic env),
      pc_authMode = Some (JStr (mode_name mode)),
      pc_publishToken = Some (JStr (env_publish_token env)),
      pc_subscribeToken = Some (JStr (or_else (trimmed env ''NTFY_SUBSCRIBE_TOKEN'') (env_publish_token env))),
      pc_username = Some (JStr (or_else (trimmed env ''NTFY_USERNAME'') [])),
      pc_password = Some (JStr (or_else (env ''NTFY_PASSWORD'') [])),
      pc_allowlist = Some (JArr (map JStr (parseListEnv (env ''NTFY_EVENT_ALLOWLIST'')))),
      pc_denylist = Some (JArr (map JStr (parseListEnv (env ''NTFY_EVENT_DENYLIST'')))),
      pc_minSeverity = minSeverity\<rparr>"

definition parseNotificationConfigFromEnv ::
  "(string \<Rightarrow> string + string) \<Rightarrow> env \<Rightarrow> string + partial_config" where
  "parseNotificationConfigFromEnv url_protocol env =
     or_exit (check_url url_protocol (trimmed env ''NTFY_URL'')) (\<lambda>_.
     or_exit (parseAuthModeEnv (env ''NTFY_AUTH_MODE'')) (\<lambda>mode.
     or_exit (exit_if (mode = AuthBearer \<and> env_publish_token env = [])
       ''Error: NTFY_PUBLISH_TOKEN is required when NTFY_AUTH_MODE=bearer'') (\<lambda>_.
     or_exit (exit_if (mode = AuthBasic \<and> (or_else (trimmed env ''NTFY_USERNAME'') [] = [] \<or> or_else (env ''NTFY_PASSWORD'') [] = []))
       ''Error: NTFY_USERNAME and NTFY_PASSWORD are required when NTFY_AUTH_MODE=basic'') (\<lambda>_.
     or_exit (exit_if (env_enabled env \<and> env_topic env \<noteq> [] \<and> length (env_topic env) > 27)
       (''Error: NTFY_TOPIC must be at most 27 characters when notifications are enabled (got ''
        @ show_nat (length (env_topic env))
        @ ''): per-backend topics append \"-<uuid>\" and ntfy caps topics at 64 characters.'')) (\<lambda>_.
     or_exit (parseSeverityEnv (env ''NTFY_MIN_SEVERITY'')) (\<lambda>minSeverity.
     Inr (notification_settings env mode minSeverity)))))))"

text \<open>What the process starts the server with: \<open>GatewayConfig\<close> as the file builds it, and the port.\<close>

record settings =
  se_port :: int
  se_adminToken :: string
  se_notification :: partial_config
  se_trustProxy :: bool
  se_allowedOrigins :: "string list option"
  se_adminStaticDir :: "string option"
  se_adminSessionTtlMs :: "jsnum option"
  se_proxyRateLimit :: "int option"
  se_proxyIpRateLimit :: "int option"
  se_authFailRateLimit :: "int option"

definition start_process :: "(string \<Rightarrow> string + string) \<Rightarrow> env \<Rightarrow> string + settings" where
  "start_process url_protocol env =
     or_exit (env_port env) (\<lambda>port.
     or_exit (env_admin_token env) (\<lambda>adminToken.
     let allowedOrigins = parseListEnv (env ''GATEWAY_ALLOWED_ORIGINS'');
         dir = non_empty (trimmed env ''GATEWAY_ADMIN_UI_DIR'') in
     or_exit (env_session_ttl env) (\<lambda>sessionTtl.
     or_exit (parseNotificationConfigFromEnv url_protocol env) (\<lambda>notification.
     or_exit (parsePositiveIntEnv env ''GATEWAY_PROXY_RATE_LIMIT'') (\<lambda>proxyRate.
     or_exit (parsePositiveIntEnv env ''GATEWAY_PROXY_IP_RATE_LIMIT'') (\<lambda>proxyIpRate.
     or_exit (parsePositiveIntEnv env ''GATEWAY_AUTH_FAIL_RATE_LIMIT'') (\<lambda>authFailRate.
     Inr \<lparr>se_port = port, se_adminToken = adminToken, se_notification = notification,
          se_trustProxy = (env ''GATEWAY_TRUST_PROXY'' = Some ''true''),
          se_allowedOrigins = (if allowedOrigins = [] then None else Some allowedOrigins),
          se_adminStaticDir = dir, se_adminSessionTtlMs = sessionTtl,
          se_proxyRateLimit = proxyRate, se_proxyIpRateLimit = proxyIpRate,
          se_authFailRateLimit = authFailRate\<rparr>)))))))"

text \<open>
  The settings as \<open>createGatewayServer\<close> takes them.  Times are whole milliseconds and compared with
  \<open>now > expiresAt\<close>, so the whole part of a lifetime decides as the lifetime does; an endless lifetime
  has no counterpart.
\<close>

definition server_settings :: "settings \<Rightarrow> gateway_config option" where
  "server_settings s =
     (case se_adminSessionTtlMs s of
        Some (NInf _) \<Rightarrow> None
      | ttl \<Rightarrow> Some \<lparr>gc_adminToken = se_adminToken s, gc_backendAccessTokenTtlMs = None, gc_authTimeoutMs = None,
           gc_proxyRequestTimeoutMs = None, gc_proxyStreamingTimeoutMs = None, gc_channelTicketTtlMs = None,
           gc_maxChannelsPerPeer = None, gc_channelByteRateLimit = None,
           gc_proxyRateLimit = se_proxyRateLimit s, gc_proxyIpRateLimit = se_proxyIpRateLimit s,
           gc_authFailRateLimit = se_authFailRateLimit s, gc_trustProxy = Some (se_trustProxy s),
           gc_allowedOrigins = se_allowedOrigins s,
           gc_adminSessionTtlMs = map_option (\<lambda>t. case t of NFin q \<Rightarrow> \<lfloor>q\<rfloor> | NInf _ \<Rightarrow> 0) ttl\<rparr>)"

section \<open>What the environment is checked for\<close>

lemma or_exit_Inr [simp]: "or_exit x f = Inr v \<longleftrightarrow> (\<exists>y. x = Inr y \<and> f y = Inr v)"
  by (cases x) (simp_all add: or_exit_def)

lemma exit_if_Inr [simp]: "exit_if b e = Inr u \<longleftrightarrow> \<not> b"
  by (simp add: exit_if_def)

lemma env_port_ok: "env_port env = Inr p \<Longrightarrow> 1 \<le> p \<and> p \<le> 65535"
  by (auto simp: env_port_def split: option.splits if_splits)

lemma non_empty_Some: "non_empty s = Some t \<longleftrightarrow> s = Some t \<and> t \<noteq> []"
  by (cases s; cases "the s") (auto simp: non_empty_def)

lemma env_token_ok: "env_admin_token env = Inr t \<Longrightarrow> t \<noteq> []"
  by (auto simp: env_admin_token_def non_empty_Some split: option.splits)

lemma positive_int_ok: "parsePositiveIntEnv env name = Inr (Some n) \<Longrightarrow> 0 < n"
  by (auto simp: parsePositiveIntEnv_def split: option.splits if_splits)

lemma session_ttl_ok: "env_session_ttl env = Inr (Some (NFin q)) \<Longrightarrow> 0 < q"
  by (auto simp: env_session_ttl_def Let_def split: option.splits jsnum.splits if_splits)

lemma normalize_mode_name [simp]: "normalizeAuthMode (Some (JStr (mode_name mode))) = mode"
  by (cases mode) (simp_all add: mode_name_def normalizeAuthMode_def)

lemma notification_env_cases:
  assumes "parseNotificationConfigFromEnv url_protocol env = Inr pc"
  obtains mode sev where "pc = notification_settings env mode sev" "parseAuthModeEnv (env ''NTFY_AUTH_MODE'') = Inr mode"
    "mode = AuthBearer \<longrightarrow> env_publish_token env \<noteq> []"
    "mode = AuthBasic \<longrightarrow> or_else (trimmed env ''NTFY_USERNAME'') [] \<noteq> [] \<and> or_else (env ''NTFY_PASSWORD'') [] \<noteq> []"
    "env_enabled env \<longrightarrow> length (env_topic env) \<le> 27"
proof -
  obtain mode sev where "pc = notification_settings env mode sev" "parseAuthModeEnv (env ''NTFY_AUTH_MODE'') = Inr mode"
    "\<not> (mode = AuthBearer \<and> env_publish_token env = [])"
    "\<not> (mode = AuthBasic \<and> (or_else (trimmed env ''NTFY_USERNAME'') [] = [] \<or> or_else (env ''NTFY_PASSWORD'') [] = []))"
    "\<not> (env_enabled env \<and> env_topic env \<noteq> [] \<and> length (env_topic env) > 27)"
    using assms unfolding parseNotificationConfigFromEnv_def or_exit_Inr exit_if_Inr sum.inject
    by - (elim exE conjE, rule that, (assumption | erule sym)+)
  then show thesis by (intro that [of mode sev]) auto
qed

text \<open>A string with no space at either end.\<close>

definition tidy :: "string \<Rightarrow> bool" where
  "tidy s \<longleftrightarrow> (s = [] \<or> \<not> is_js_space (hd s) \<and> \<not> is_js_space (last s))"

lemma js_trim_tidy: "tidy s \<Longrightarrow> js_trim s = s"
proof -
  assume t: "tidy s"
  then have "dropWhile is_js_space s = s" by (auto simp: tidy_def dropWhile_eq_self_iff)
  moreover have "dropWhile is_js_space (rev s) = rev s"
    using t by (auto simp: tidy_def dropWhile_eq_self_iff hd_rev)
  ultimately show ?thesis by (simp add: js_trim_def)
qed

lemma tidy_trim: "tidy (js_trim s)"
proof -
  define t where "t = dropWhile is_js_space s"
  define u where "u = dropWhile is_js_space (rev t)"
  have u: "js_trim s = rev u" by (simp add: js_trim_def t_def u_def)
  obtain v where v: "rev t = v @ u" by (metis takeWhile_dropWhile_id u_def)
  have "\<not> is_js_space (hd (rev u))" if "u \<noteq> []"
  proof -
    from v have t: "t = rev u @ rev v" by (metis rev_append rev_rev_ident)
    then have "t \<noteq> []" "hd t = hd (rev u)" using that by simp_all
    then show ?thesis using hd_dropWhile [of is_js_space s] t_def by simp
  qed
  moreover have "\<not> is_js_space (last (rev u))" if "u \<noteq> []"
    using that hd_dropWhile [of is_js_space "rev t"] by (simp add: u_def last_rev)
  ultimately show ?thesis by (auto simp: tidy_def u)
qed

lemma js_trim_trim [simp]: "js_trim (js_trim s) = js_trim s"
  by (rule js_trim_tidy [OF tidy_trim])

lemma js_trim_Nil [simp]: "js_trim [] = []"
  by (simp add: js_trim_def)

lemma digits_show_nat: "list_all is_digit (show_nat n) \<and> digits_value (show_nat n) = n"
proof (induction n rule: show_nat.induct)
  case (1 n)
  show ?case
  proof (cases "n < 10")
    case True
    then show ?thesis
      by (subst (1 2) show_nat.simps) (simp add: is_digit_def digits_value_def digit_value_def take_bit_eq_mod)
  next
    case False
    with 1 have ih: "list_all is_digit (show_nat (n div 10))" "digits_value (show_nat (n div 10)) = n div 10" by simp_all
    have s: "show_nat n = show_nat (n div 10) @ [char_of (n mod 10 + 48)]" using False by (subst show_nat.simps) simp
    have "n mod 10 + 48 < 256" using mod_less_divisor [of 10 n] by linarith
    then have d: "is_digit (char_of (n mod 10 + 48))" "digit_value (char_of (n mod 10 + 48)) = n mod 10"
      using mod_less_divisor [of 10 n] by (simp_all add: is_digit_def digit_value_def take_bit_eq_mod)
    show ?thesis using ih d by (simp add: s digits_value_def)
  qed
qed

lemma digit_no_space: "is_digit c \<Longrightarrow> \<not> is_js_space c \<and> c \<noteq> CHR ''-'' \<and> c \<noteq> CHR ''+''"
  by (auto simp: is_digit_def is_js_space_def)

lemma tidy_digits: "list_all is_digit s \<Longrightarrow> tidy s"
  by (cases s) (auto simp: tidy_def list_all_iff digit_no_space)

lemma parseInt_digits:
  assumes "list_all is_digit ds" and "ds \<noteq> []"
  shows "parseInt ds = Some (int (digits_value ds))"
proof -
  obtain c cs where c: "ds = c # cs" "is_digit c" using assms by (cases ds) auto
  then have "dropWhile is_js_space ds = ds" "signed ds = (False, ds)" using digit_no_space [OF c(2)] by (simp_all add: signed_def)
  moreover have "takeWhile is_digit ds = ds" using assms(1) by (simp add: takeWhile_eq_all_conv list_all_iff)
  ultimately show ?thesis using assms(2) by (simp add: parseInt_def Let_def del: takeWhile_eq_all_conv)
qed

lemma start_cases:
  assumes "start_process url_protocol env = Inr s"
  shows "env_port env = Inr (se_port s)" and "env_admin_token env = Inr (se_adminToken s)"
    and "env_session_ttl env = Inr (se_adminSessionTtlMs s)"
    and "parseNotificationConfigFromEnv url_protocol env = Inr (se_notification s)"
    and "parsePositiveIntEnv env ''GATEWAY_PROXY_RATE_LIMIT'' = Inr (se_proxyRateLimit s)"
    and "parsePositiveIntEnv env ''GATEWAY_PROXY_IP_RATE_LIMIT'' = Inr (se_proxyIpRateLimit s)"
    and "parsePositiveIntEnv env ''GATEWAY_AUTH_FAIL_RATE_LIMIT'' = Inr (se_authFailRateLimit s)"
  using assms unfolding start_process_def Let_def or_exit_Inr by auto

lemma env_settings_config:
  assumes "start_process url_protocol env = Inr s" and "server_settings s = Some gc"
  shows "\<exists>cf. configure gc sha wsClose wsTerminate = Inr cf \<and> 0 < cf_proxyRateLimit cf \<and> 0 \<le> cf_proxyIpRateLimit cf
     \<and> 0 < cf_authFailLimit cf \<and> 0 \<le> cf_adminSessionTtlMs cf"
proof -
  note st = start_cases [OF assms(1)]
  have gc: "gc_adminToken gc = se_adminToken s" "gc_proxyRateLimit gc = se_proxyRateLimit s"
    "gc_proxyIpRateLimit gc = se_proxyIpRateLimit s" "gc_authFailRateLimit gc = se_authFailRateLimit s"
    "gc_adminSessionTtlMs gc = map_option (\<lambda>t. case t of NFin q \<Rightarrow> \<lfloor>q\<rfloor> | NInf _ \<Rightarrow> 0) (se_adminSessionTtlMs s)"
    using assms(2) by (auto simp: server_settings_def split: option.splits jsnum.splits)
  have p: "0 < or_else (gc_proxyRateLimit gc) 1200" "0 \<le> or_else (gc_proxyIpRateLimit gc) 0"
    "0 < or_else (gc_authFailRateLimit gc) 10"
    using positive_int_ok st(5-7) by (auto simp: gc or_else_def split: option.split intro: less_imp_le)
  have "0 \<le> or_else (gc_adminSessionTtlMs gc) 43200000"
  proof (cases "se_adminSessionTtlMs s")
    case (Some t)
    with st(3) session_ttl_ok [of env] show ?thesis by (cases t) (auto simp: gc intro: less_imp_le)
  qed (simp add: gc)
  with p env_token_ok [OF st(2)] show ?thesis by (simp add: configure_def gc(1))
qed

text \<open>
  What the process checks before it starts.  If it starts, the port is a TCP port, the server factory
  accepts the settings with positive rate limits and a session lifetime that is not negative, a bearer or
  basic push configuration has its credentials, and with push enabled every per-backend topic (a UUID has
  36 characters) fits the 64 characters ntfy allows.
\<close>

theorem start_checked:
  assumes "start_process url_protocol env = Inr s"
  shows "1 \<le> se_port s \<and> se_port s \<le> 65535
    \<and> (\<forall>gc. server_settings s = Some gc \<longrightarrow>
        (\<exists>cf. configure gc sha wsClose wsTerminate = Inr cf \<and> 0 < cf_proxyRateLimit cf \<and> 0 \<le> cf_proxyIpRateLimit cf
          \<and> 0 < cf_authFailLimit cf \<and> 0 \<le> cf_adminSessionTtlMs cf))
    \<and> (let nc = normalizeConfig (se_notification s) in
         (nc_authMode nc = AuthBearer \<longrightarrow> nc_publishToken nc \<noteq> [])
       \<and> (nc_authMode nc = AuthBasic \<longrightarrow> nc_username nc \<noteq> [] \<and> nc_password nc \<noteq> [])
       \<and> (nc_enabled nc \<longrightarrow> (\<forall>b. length b = 36 \<longrightarrow> length (nc_ntfyTopic nc @ ''-'' @ b) \<le> 64)))"
proof -
  note st = start_cases [OF assms]
  have trim: "js_trim (or_else (trimmed env name) []) = or_else (trimmed env name) []" for name
    by (cases "env name") (simp_all add: trimmed_def)
  from st(4) obtain mode sev where pc: "se_notification s = notification_settings env mode sev"
    "parseAuthModeEnv (env ''NTFY_AUTH_MODE'') = Inr mode"
    "mode = AuthBearer \<longrightarrow> env_publish_token env \<noteq> []"
    "mode = AuthBasic \<longrightarrow> or_else (trimmed env ''NTFY_USERNAME'') [] \<noteq> [] \<and> or_else (env ''NTFY_PASSWORD'') [] \<noteq> []"
    "env_enabled env \<longrightarrow> length (env_topic env) \<le> 27"
    by (rule notification_env_cases)
  have nc: "nc_authMode (normalizeConfig (se_notification s)) = mode"
    "nc_publishToken (normalizeConfig (se_notification s)) = env_publish_token env"
    "nc_username (normalizeConfig (se_notification s)) = or_else (trimmed env ''NTFY_USERNAME'') []"
    "nc_password (normalizeConfig (se_notification s)) = or_else (env ''NTFY_PASSWORD'') []"
    "nc_enabled (normalizeConfig (se_notification s)) = env_enabled env"
    "nc_ntfyTopic (normalizeConfig (se_notification s)) = env_topic env"
    by (simp_all add: pc(1) normalizeConfig_def notification_settings_def normalizeString_def env_publish_token_def trim)
  show ?thesis
    using env_port_ok [OF st(1)] env_settings_config [OF assms] pc(3-5) by (auto simp: nc Let_def)
qed

definition sample_env :: env where
  "sample_env name =
     (if name = ''GATEWAY_ADMIN_TOKEN'' then Some '' adm '' else if name = ''NTFY_ENABLED'' then Some ''on''
      else if name = ''NTFY_TOPIC'' then Some ''topic'' else if name = ''GATEWAY_PROXY_RATE_LIMIT'' then Some ''600''
      else if name = ''GATEWAY_ADMIN_SESSION_TTL_HOURS'' then Some ''0.5'' else None)"

theorem start_checked_witness:
  "\<exists>s cf. start_process (\<lambda>_. Inr ''https:'') sample_env = Inr s
     \<and> configure (the (server_settings s)) (\<lambda>x. x) (\<lambda>x. x) (\<lambda>x. x) = Inr cf \<and> 0 < cf_authFailLimit cf"
proof -
  obtain s where s: "start_process (\<lambda>_. Inr ''https:'') sample_env = Inr s" "server_settings s \<noteq> None"
  proof (rule that)
    show "start_process (\<lambda>_. Inr ''https:'') sample_env
        = Inr (projr (start_process (\<lambda>_. Inr ''https:'') sample_env))"
      by code_simp
    show "server_settings (projr (start_process (\<lambda>_. Inr ''https:'') sample_env)) \<noteq> None" by code_simp
  qed
  then obtain gc where "server_settings s = Some gc" by blast
  with s start_checked [OF s(1), of "\<lambda>x. x" "\<lambda>x. x" "\<lambda>x. x"] show ?thesis by auto
qed

text \<open>
  Settings read back.  A list of entries without commas and without spaces at their ends, joined by
  commas, is parsed to itself; and a positive number printed in decimal is parsed to itself by the
  integer settings.
\<close>

theorem settings_roundtrip:
  assumes "\<forall>x\<in>set xs. x \<noteq> [] \<and> tidy x \<and> CHR '','' \<notin> set x"
    and "0 < n" and "env name = Some (show_nat n)"
  shows "parseListEnv (Some (join_with '','' xs)) = xs \<and> parsePositiveIntEnv env name = Inr (Some (int n))"
proof
  show "parseListEnv (Some (join_with '','' xs)) = xs"
  proof (cases "join_with '','' xs = []")
    case True
    with assms(1) show ?thesis by (cases "('','', xs)" rule: join_with.cases) (auto simp: parseListEnv_def)
  next
    case False
    then have "xs \<noteq> []" by auto
    then have "split_on (CHR '','') (join_with '','' xs) = xs" using assms(1) by (intro split_on_join_with) auto
    moreover have "map js_trim xs = xs" using assms(1) by (simp add: map_idI js_trim_tidy)
    moreover have "filter (\<lambda>x. x \<noteq> []) xs = xs" using assms(1) by (simp add: filter_id_conv)
    ultimately show ?thesis using False by (simp add: parseListEnv_def)
  qed
next
  have d: "list_all is_digit (show_nat n)" "digits_value (show_nat n) = n" using digits_show_nat by simp_all
  have "non_empty (trimmed env name) = Some (show_nat n)"
    using assms(3) js_trim_tidy [OF tidy_digits [OF d(1)]] by (simp add: non_empty_Some trimmed_def show_nat_not_Nil)
  moreover have "parseInt (show_nat n) = Some (int n)"
    using parseInt_digits [OF d(1) show_nat_not_Nil] d(2) by simp
  ultimately show "parsePositiveIntEnv env name = Inr (Some (int n))"
    using d(1) assms(2) by (simp add: parsePositiveIntEnv_def)
qed

theorem settings_roundtrip_witness:
  "parseListEnv (Some ''https://a.example,https://b.example'') = [''https://a.example'', ''https://b.example'']
    \<and> parsePositiveIntEnv (\<lambda>_. Some ''600'') ''GATEWAY_PROXY_RATE_LIMIT'' = Inr (Some 600)"
proof -
  have n: "show_nat 600 = ''600''" by code_simp
  show ?thesis
    using settings_roundtrip [of "[''https://a.example'', ''https://b.example'']" 600 "\<lambda>_. Some ''600''" "''GATEWAY_PROXY_RATE_LIMIT''"]
    by (simp add: tidy_def is_js_space_def n)
qed

text \<open>
  The subscribe token falls back to the publish token only when its variable is absent: set to the empty
  string, as docker-compose.yml sets it by default, it stays empty.
\<close>

lemma blank_subscribe_token:
  assumes "parseNotificationConfigFromEnv url_protocol env = Inr pc" and "env ''NTFY_SUBSCRIBE_TOKEN'' = Some []"
  shows "nc_subscribeToken (normalizeConfig pc) = []"
proof -
  from assms(1) obtain mode sev where "pc = notification_settings env mode sev" by (blast elim: notification_env_cases)
  with assms(2) show ?thesis
    by (simp add: normalizeConfig_def notification_settings_def normalizeString_def trimmed_def)
qed

end
