(* ===== verification/Sdk_Prelude.thy ===== *)
theory Sdk_Prelude
  imports Gw_Model
begin

text \<open>
  What the two SDKs share: machines of events, each event a function on the state, and their invariants.  An
  invariant may hold only short of certain events; then it holds after every run without them.
\<close>

locale event_machine =
  fixes event :: "'e \<Rightarrow> 's \<Rightarrow> 's"
    and allowed :: "'e \<Rightarrow> bool"
    and inv :: "'s \<Rightarrow> bool"
  assumes event_inv: "inv s \<Longrightarrow> allowed e \<Longrightarrow> inv (event e s)"
begin

lemma run_inv: "inv s \<Longrightarrow> \<forall>e\<in>set evs. allowed e \<Longrightarrow> inv (fold event evs s)"
  by (induction evs arbitrary: s) (auto intro: event_inv)

end

text \<open>A machine whose steps all relate the state before to the state after, by a preorder.\<close>

locale event_preorder =
  fixes event :: "'e \<Rightarrow> 's \<Rightarrow> 's"
    and rel :: "'s \<Rightarrow> 's \<Rightarrow> bool"
  assumes rel_refl: "rel s s"
    and rel_trans: "rel s t \<Longrightarrow> rel t u \<Longrightarrow> rel s u"
    and event_rel: "rel s (event e s)"

sublocale event_preorder \<subseteq> from_start: event_machine event "\<lambda>_. True" "rel s" for s
  by unfold_locales (blast intro: rel_trans event_rel)

context event_preorder begin

lemma run_rel: "rel s (fold event evs s)"
  by (rule from_start.run_inv) (simp_all add: rel_refl)

end

text \<open>
  Where what a machine holds comes from: what is held after an event was held before it, or has its origin in
  the state before.  Then what is held after a run was held at the start, or has its origin in a state on the way.
\<close>

locale event_origin =
  fixes event :: "'e \<Rightarrow> 's \<Rightarrow> 's"
    and good :: "'s \<Rightarrow> bool"
    and holds :: "'c \<Rightarrow> 's \<Rightarrow> bool"
    and origin :: "'c \<Rightarrow> 's \<Rightarrow> bool"
  assumes good_event: "good s \<Longrightarrow> good (event e s)"
    and event_holds: "good s \<Longrightarrow> holds c (event e s) \<Longrightarrow> holds c s \<or> origin c s"
begin

lemma good_run: "good s \<Longrightarrow> good (fold event evs s)"
  by (induction evs arbitrary: s) (auto intro: good_event)

lemma run_origin:
  "good s \<Longrightarrow> holds c (fold event evs s) \<Longrightarrow> \<not> holds c s \<Longrightarrow> \<exists>before after. evs = before @ after \<and> origin c (fold event before s)"
proof (induction evs rule: rev_induct)
  case Nil
  then show ?case by simp
next
  case (snoc e evs)
  have "holds c (event e (fold event evs s))" using snoc.prems(2) by simp
  then consider "holds c (fold event evs s)" | "origin c (fold event evs s)"
    using event_holds [OF good_run [OF snoc.prems(1)]] by blast
  then show ?case
  proof cases
    case 1
    from snoc.IH [OF snoc.prems(1) 1 snoc.prems(3)] obtain before after
      where "evs = before @ after" "origin c (fold event before s)" by blast
    then show ?thesis by (intro exI [of _ before] exI [of _ "after @ [e]"]) simp
  next
    case 2
    then show ?thesis by blast
  qed
qed

text \<open>Since when: the last time it came to be held it had its origin in the state just before, and it has been held ever since.\<close>

lemma run_since:
  "good s \<Longrightarrow> holds c (fold event evs s) \<Longrightarrow> \<not> holds c s \<Longrightarrow>
     \<exists>before e mid. evs = before @ e # mid \<and> origin c (fold event before s) \<and> \<not> holds c (fold event before s)
       \<and> (\<forall>m r. mid = m @ r \<longrightarrow> holds c (fold event (before @ e # m) s))"
proof (induction evs rule: rev_induct)
  case Nil
  then show ?case by simp
next
  case (snoc x evs)
  show ?case
  proof (cases "holds c (fold event evs s)")
    case True
    from snoc.IH [OF snoc.prems(1) True snoc.prems(3)] obtain before e mid where
      s: "evs = before @ e # mid" "origin c (fold event before s)" "\<not> holds c (fold event before s)"
      and h: "\<And>m r. mid = m @ r \<Longrightarrow> holds c (fold event (before @ e # m) s)" by blast
    have "holds c (fold event (before @ e # m) s)" if "mid @ [x] = m @ r" for m r
    proof (cases r rule: rev_cases)
      case Nil
      with that snoc.prems(2) s(1) show ?thesis by simp
    next
      case (snoc r' y)
      with that have "mid = m @ r'" by simp
      then show ?thesis by (rule h)
    qed
    with s show ?thesis by (intro exI [of _ before] exI [of _ e] exI [of _ "mid @ [x]"]) simp
  next
    case False
    with snoc.prems event_holds [OF good_run [OF snoc.prems(1)], of c x evs] show ?thesis
      by (intro exI [of _ evs] exI [of _ x] exI [of _ "[]"]) simp
  qed
qed

end

end
