(* ===== verification/Sdk_Backend.thy ===== *)
theory Sdk_Backend
  imports Sdk_Prelude
begin

text \<open>
  packages/backend/src/index.ts: the backend SDK.  The asynchronous methods are runs of \<open>establish\<close> that
  wait in a stage, and every event (a call of the application, an answer, a socket event, a timer) is a
  function on the state; an event that finds nothing to act on changes nothing.  A socket is a number, the
  ready state of sockets is an oracle, and the effects are a log.
\<close>

section \<open>Options, errors and state\<close>

record backend_options =
  bo_credential :: string
  bo_exchangeEnrollment :: "bool option"
  bo_namespace :: string
  bo_identity :: "json option"
  bo_visible :: "bool option"
  bo_capabilities :: "string list option"
  bo_backendProtocolVersion :: "int option"
  bo_heartbeatIntervalMs :: "int option"
  bo_reconnect :: "bool option"
  bo_reconnectMinMs :: "int option"
  bo_reconnectMaxMs :: "int option"

datatype sdk_state = SIdle | SConnecting | SConnected | SClosed

datatype backend_error =
    AUTH_FAILED | GATEWAY_REJECTED | GATEWAY_UNREACHABLE | HANDSHAKE_TIMEOUT | PROTOCOL_ERROR | CONNECT_FAILED | REPLACED

text \<open>What a run can fail with: an \<open>AttemptError\<close>, or any other exception.\<close>

datatype thrown = AttemptError backend_error string "string option" | OtherError

record error_info =
  ei_code :: backend_error
  ei_message :: string
  ei_gatewayCode :: "string option"
  ei_occurredAt :: int

definition ACCESS_TOKEN_REFRESH_MARGIN_MS :: rat where
  "ACCESS_TOKEN_REFRESH_MARGIN_MS = 60000"

definition KNOWN_GATEWAY_ERROR_CODES :: "string list" where
  "KNOWN_GATEWAY_ERROR_CODES =
     [''INVALID_MESSAGE'', ''PROTOCOL_VERSION_MISMATCH'', ''UNAUTHORIZED'', ''BACKEND_OFFLINE'', ''RATE_LIMITED'']"

fun ERROR_MESSAGES :: "backend_error \<Rightarrow> string" where
  "ERROR_MESSAGES AUTH_FAILED = ''The gateway refused the credential.''"
| "ERROR_MESSAGES GATEWAY_REJECTED = ''The gateway rejected the handshake.''"
| "ERROR_MESSAGES GATEWAY_UNREACHABLE = ''The gateway could not be reached.''"
| "ERROR_MESSAGES HANDSHAKE_TIMEOUT = ''The gateway did not complete the handshake in time.''"
| "ERROR_MESSAGES PROTOCOL_ERROR = ''The gateway sent an unexpected handshake response.''"
| "ERROR_MESSAGES CONNECT_FAILED = ''Connecting to the gateway failed.''"
| "ERROR_MESSAGES REPLACED = ''Another connection using the same backend credential replaced this one.''"

definition describeFailure :: "thrown \<Rightarrow> int \<Rightarrow> error_info" where
  "describeFailure e now =
     (case e of
        OtherError \<Rightarrow>
          \<lparr>ei_code = CONNECT_FAILED, ei_message = ERROR_MESSAGES CONNECT_FAILED, ei_gatewayCode = None, ei_occurredAt = now\<rparr>
      | AttemptError code _ gatewayCode \<Rightarrow>
          (case gatewayCode of
             Some g \<Rightarrow>
               if g \<in> set KNOWN_GATEWAY_ERROR_CODES
               then \<lparr>ei_code = code,
                     ei_message = (if code = GATEWAY_REJECTED then ''The gateway rejected the handshake ('' @ g @ '').''
                                   else ERROR_MESSAGES code),
                     ei_gatewayCode = Some g, ei_occurredAt = now\<rparr>
               else \<lparr>ei_code = code, ei_message = ERROR_MESSAGES code, ei_gatewayCode = None, ei_occurredAt = now\<rparr>
           | None \<Rightarrow> \<lparr>ei_code = code, ei_message = ERROR_MESSAGES code, ei_gatewayCode = None, ei_occurredAt = now\<rparr>))"

text \<open>Who waits for a run of \<open>establish\<close>, and where the run stands.\<close>

datatype asker = ByConnect | ByRetry

datatype stage =
    Exchanging
  | Resolved string bool
  | Opening nat string bool
  | Greeting nat string bool int

datatype sdk_out =
    ExchangeRequest string
  | NewSocket nat
  | SocketSend nat json
  | SocketClose nat
  | StateChange sdk_state
  | Delivered json
  | Resolves nat jsval jsval
  | Rejects nat thrown
  | DialOffer json
  | HandlerCall string json

record sdk =
  sk_socket :: "nat option"
  sk_ready :: "nat \<Rightarrow> ready_state"
  sk_backendId :: jsval
  sk_epoch :: jsval
  sk_heartbeatTimer :: "nat option"
  sk_intervals :: "nat list"
  sk_kinds :: "string list"
  sk_defaultHandler :: bool
  sk_closed :: bool
  sk_state :: sdk_state
  sk_failure :: "error_info option"
  sk_reconnectAttempt :: nat
  sk_accessToken :: "(string \<times> jsnum option) option"
  sk_listening :: "nat list"
  sk_runs :: "(nat, asker \<times> stage) jmap"
  sk_retries :: "int list"
  sk_log :: "sdk_out list"

definition new_backend :: "(nat \<Rightarrow> ready_state) \<Rightarrow> sdk" where
  "new_backend ready = \<lparr>sk_socket = None, sk_ready = ready, sk_backendId = Some (JStr []), sk_epoch = Some (JNum (NFin 0)),
     sk_heartbeatTimer = None, sk_intervals = [], sk_kinds = [], sk_defaultHandler = False, sk_closed = False,
     sk_state = SIdle, sk_failure = None, sk_reconnectAttempt = 0, sk_accessToken = None, sk_listening = [],
     sk_runs = [], sk_retries = [], sk_log = []\<rparr>"

definition put :: "sdk_out \<Rightarrow> sdk \<Rightarrow> sdk" where
  "put x s = s\<lparr>sk_log := sk_log s @ [x]\<rparr>"

definition setState :: "sdk_state \<Rightarrow> sdk \<Rightarrow> sdk" where
  "setState st s = put (StateChange st) (s\<lparr>sk_state := st\<rparr>)"

definition set_run :: "nat \<Rightarrow> asker \<Rightarrow> stage \<Rightarrow> sdk \<Rightarrow> sdk" where
  "set_run r a st s = s\<lparr>sk_runs := jm_set r (a, st) (sk_runs s)\<rparr>"

definition recordFailure :: "thrown \<Rightarrow> int \<Rightarrow> sdk \<Rightarrow> sdk" where
  "recordFailure e now s = (if sk_closed s then s else s\<lparr>sk_failure := Some (describeFailure e now)\<rparr>)"

section \<open>Reconnection\<close>

definition reconnect_delay :: "backend_options \<Rightarrow> nat \<Rightarrow> int" where
  "reconnect_delay opt n = min (or_else (bo_reconnectMinMs opt) 1000 * 2 ^ n) (or_else (bo_reconnectMaxMs opt) 30000)"

definition scheduleReconnect :: "backend_options \<Rightarrow> int \<Rightarrow> sdk \<Rightarrow> sdk" where
  "scheduleReconnect opt now s =
     s\<lparr>sk_reconnectAttempt := sk_reconnectAttempt s + 1,
       sk_retries := sk_retries s @ [now + reconnect_delay opt (sk_reconnectAttempt s)]\<rparr>"

text \<open>A run rejects: \<open>connect\<close> records the failure and rejects, the retry loop records it and schedules again.\<close>

definition run_rejects :: "backend_options \<Rightarrow> nat \<Rightarrow> asker \<Rightarrow> thrown \<Rightarrow> int \<Rightarrow> sdk \<Rightarrow> sdk" where
  "run_rejects opt r a e now s =
     (let s1 = recordFailure e now (s\<lparr>sk_runs := jm_del r (sk_runs s)\<rparr>)
      in case a of
           ByConnect \<Rightarrow> put (Rejects r e) s1
         | ByRetry \<Rightarrow> scheduleReconnect opt now s1)"

section \<open>Credentials\<close>

definition exchanges :: "backend_options \<Rightarrow> bool" where
  "exchanges opt \<longleftrightarrow> bo_exchangeEnrollment opt \<noteq> Some False \<and> starts_with ''zgb_'' (bo_credential opt)"

definition token_fresh :: "int \<Rightarrow> jsnum option \<Rightarrow> bool" where
  "token_fresh now expiresAt =
     (case expiresAt of
        None \<Rightarrow> True
      | Some (NFin e) \<Rightarrow> of_int now < e - ACCESS_TOKEN_REFRESH_MARGIN_MS
      | Some (NInf negative) \<Rightarrow> \<not> negative)"

definition resolveCredential :: "backend_options \<Rightarrow> nat \<Rightarrow> asker \<Rightarrow> int \<Rightarrow> sdk \<Rightarrow> sdk" where
  "resolveCredential opt r a now s =
     (if \<not> exchanges opt then set_run r a (Resolved (bo_credential opt) False) s
      else
        let again = put (ExchangeRequest (bo_credential opt)) (set_run r a Exchanging (s\<lparr>sk_accessToken := None\<rparr>))
        in case sk_accessToken s of
             Some (token, expiresAt) \<Rightarrow>
               if token_fresh now expiresAt then set_run r a (Resolved token True) s else again
           | None \<Rightarrow> again)"

text \<open>The answer to the exchange: \<open>fetch\<close> throws, a status that is not 2xx, or a body (none when it does not parse).\<close>

datatype exchange_answer = FetchThrows string | BadStatus nat | OkBody "json option"

definition opt_field :: "jsval \<Rightarrow> string \<Rightarrow> jsval" where
  "opt_field v f = (case v of None \<Rightarrow> None | Some JNull \<Rightarrow> None | Some j \<Rightarrow> js_field j f)"

definition exchange_answered ::
  "backend_options \<Rightarrow> nat \<Rightarrow> exchange_answer \<Rightarrow> int \<Rightarrow> sdk \<Rightarrow> sdk" where
  "exchange_answered opt r ans now s =
     (case jm_get (sk_runs s) r of
        Some (a, Exchanging) \<Rightarrow>
          (case ans of
             FetchThrows m \<Rightarrow> run_rejects opt r a (AttemptError GATEWAY_UNREACHABLE m None) now s
           | BadStatus n \<Rightarrow>
               run_rejects opt r a (AttemptError (if n = 401 \<or> n = 403 then AUTH_FAILED else GATEWAY_UNREACHABLE)
                 (''Enrollment exchange failed: HTTP '' @ show_nat n) None) now s
           | OkBody body \<Rightarrow>
               (case opt_field (opt_field body ''data'') ''token'' of
                  Some (JStr token) \<Rightarrow>
                    if token = [] then run_rejects opt r a (AttemptError PROTOCOL_ERROR ''Enrollment exchange returned no token'' None) now s
                    else set_run r a (Resolved token False)
                      (s\<lparr>sk_accessToken := Some (token,
                          case opt_field (opt_field body ''data'') ''expiresAt'' of Some (JNum n) \<Rightarrow> Some n | _ \<Rightarrow> None)\<rparr>)
                | _ \<Rightarrow> run_rejects opt r a (AttemptError PROTOCOL_ERROR ''Enrollment exchange returned no token'' None) now s))
      | _ \<Rightarrow> s)"

section \<open>Attempts\<close>

definition establish :: "backend_options \<Rightarrow> nat \<Rightarrow> asker \<Rightarrow> int \<Rightarrow> sdk \<Rightarrow> sdk" where
  "establish opt r a now s = resolveCredential opt r a now (setState SConnecting s)"

definition connect :: "backend_options \<Rightarrow> nat \<Rightarrow> int \<Rightarrow> sdk \<Rightarrow> sdk" where
  "connect opt r now s = establish opt r ByConnect now (s\<lparr>sk_closed := False, sk_failure := None\<rparr>)"

text \<open>The continuation after \<open>await resolveCredential()\<close>: the socket the factory makes, none when it throws.\<close>

definition attempt :: "backend_options \<Rightarrow> nat \<Rightarrow> nat option \<Rightarrow> int \<Rightarrow> sdk \<Rightarrow> sdk" where
  "attempt opt r made now s =
     (case jm_get (sk_runs s) r of
        Some (a, Resolved credential cached) \<Rightarrow>
          (case made of
             None \<Rightarrow> run_rejects opt r a OtherError now s
           | Some w \<Rightarrow> set_run r a (Opening w credential cached) (put (NewSocket w) (s\<lparr>sk_socket := Some w\<rparr>)))
      | _ \<Rightarrow> s)"

text \<open>
  A failed attempt gives up its socket; a cached token the gateway refused is dropped and the credential
  resolved again, once, since what comes of it is not cached.
\<close>

definition attempt_fails ::
  "backend_options \<Rightarrow> nat \<Rightarrow> asker \<Rightarrow> nat \<Rightarrow> bool \<Rightarrow> thrown \<Rightarrow> int \<Rightarrow> sdk \<Rightarrow> sdk" where
  "attempt_fails opt r a w cached e now s =
     (let s1 = put (SocketClose w) (if sk_socket s = Some w then s\<lparr>sk_socket := None\<rparr> else s)
      in case e of
           AttemptError c m (Some g) \<Rightarrow>
             if cached \<and> g = ''UNAUTHORIZED'' then resolveCredential opt r a now (s1\<lparr>sk_accessToken := None\<rparr>)
             else run_rejects opt r a e now s1
         | _ \<Rightarrow> run_rejects opt r a e now s1)"

definition hello_message :: "backend_options \<Rightarrow> string \<Rightarrow> json" where
  "hello_message opt credential = JObj
     ([(''type'', JStr ''peer_hello''), (''protocolVersion'', JNum (NFin 4)), (''namespace'', JStr (bo_namespace opt)),
       (''clientProtocolVersion'', JNum (NFin (of_int (or_else (bo_backendProtocolVersion opt) 1)))),
       (''peerType'', JStr ''client+backend''), (''gatewaySecret'', JStr credential)]
      @ (case bo_identity opt of Some i \<Rightarrow> [(''identity'', i)] | None \<Rightarrow> [])
      @ [(''backend'', JObj [(''visible'', JBool (or_else (bo_visible opt) True)),
           (''capabilities'', JArr (map JStr (or_else (bo_capabilities opt) []))),
           (''backendProtocolVersion'', JNum (NFin (of_int (or_else (bo_backendProtocolVersion opt) 1))))])])"

definition socket_opened :: "backend_options \<Rightarrow> nat \<Rightarrow> int \<Rightarrow> sdk \<Rightarrow> sdk" where
  "socket_opened opt r now s =
     (case jm_get (sk_runs s) r of
        Some (a, Opening w credential cached) \<Rightarrow>
          set_run r a (Greeting w credential cached (now + 10000)) (put (SocketSend w (hello_message opt credential)) s)
      | _ \<Rightarrow> s)"

definition socket_failed :: "backend_options \<Rightarrow> nat \<Rightarrow> int \<Rightarrow> sdk \<Rightarrow> sdk" where
  "socket_failed opt r now s =
     (case jm_get (sk_runs s) r of
        Some (a, Opening w credential cached) \<Rightarrow>
          attempt_fails opt r a w cached (AttemptError GATEWAY_UNREACHABLE ''WebSocket error'' None) now s
      | _ \<Rightarrow> s)"

definition handshake_timeout :: "backend_options \<Rightarrow> nat \<Rightarrow> int \<Rightarrow> sdk \<Rightarrow> sdk" where
  "handshake_timeout opt r now s =
     (case jm_get (sk_runs s) r of
        Some (a, Greeting w credential cached deadline) \<Rightarrow>
          if deadline \<le> now
          then attempt_fails opt r a w cached (AttemptError HANDSHAKE_TIMEOUT ''peer_ready timeout'' None) now s else s
      | _ \<Rightarrow> s)"

definition handshake_closed :: "backend_options \<Rightarrow> nat \<Rightarrow> int \<Rightarrow> sdk \<Rightarrow> sdk" where
  "handshake_closed opt r now s =
     (case jm_get (sk_runs s) r of
        Some (a, Greeting w credential cached deadline) \<Rightarrow>
          attempt_fails opt r a w cached (AttemptError GATEWAY_UNREACHABLE ''Connection closed before peer_ready'' None) now s
      | _ \<Rightarrow> s)"

text \<open>The interval that sends heartbeats, by a number of its own.\<close>

definition established :: "nat \<Rightarrow> nat \<Rightarrow> nat \<Rightarrow> asker \<Rightarrow> json \<Rightarrow> sdk \<Rightarrow> sdk" where
  "established r w timer a backend s =
     (let s1 = s\<lparr>sk_backendId := js_field backend ''backendId'', sk_epoch := js_field backend ''epoch'',
                 sk_listening := sk_listening s @ [w],
                 sk_heartbeatTimer := Some timer, sk_intervals := sk_intervals s @ [timer],
                 sk_reconnectAttempt := 0, sk_failure := None, sk_runs := jm_del r (sk_runs s)\<rparr>;
          s2 = setState SConnected s1
      in case a of
           ByConnect \<Rightarrow> put (Resolves r (js_field backend ''backendId'') (js_field backend ''epoch'')) s2
         | ByRetry \<Rightarrow> s2)"

text \<open>
  \<open>String(msg.code)\<close>, where the result may be a code: a string, or an array of one such value, whose text is
  that of its element.  Every other value of JSON has a text that is no code of the gateway's.
\<close>

fun code_text :: "json \<Rightarrow> string option" where
  "code_text (JStr c) = Some c"
| "code_text (JArr [v]) = code_text v"
| "code_text _ = None"

text \<open>
  A \<open>gateway_error\<close>.  A code whose text is no known one is not kept, nor is the message, which is text as the
  server sends it.
\<close>

definition refused_by :: "json \<Rightarrow> thrown" where
  "refused_by msg =
     (case Option.bind (js_field msg ''code'') code_text of
        Some c \<Rightarrow>
          AttemptError (if c = ''UNAUTHORIZED'' then AUTH_FAILED else GATEWAY_REJECTED)
            (c @ '': '' @ or_else (js_string (js_field msg ''message'')) []) (Some c)
      | None \<Rightarrow> AttemptError GATEWAY_REJECTED [] None)"

text \<open>A parsed text frame during the handshake; what a listener throws goes to the runtime and settles nothing.\<close>

definition handshake_message ::
  "backend_options \<Rightarrow> nat \<Rightarrow> nat \<Rightarrow> json \<Rightarrow> int \<Rightarrow> sdk \<Rightarrow> sdk" where
  "handshake_message opt r timer msg now s =
     (case jm_get (sk_runs s) r of
        Some (a, Greeting w credential cached deadline) \<Rightarrow>
          if js_field msg ''type'' = Some (JStr ''peer_ready'') then
            (case js_field msg ''backend'' of
               Some b \<Rightarrow>
                 if js_truthy (Some b) then established r w timer a b s
                 else attempt_fails opt r a w cached
                        (AttemptError PROTOCOL_ERROR ''Gateway did not assign a backend identity'' None) now s
             | None \<Rightarrow>
                 attempt_fails opt r a w cached
                   (AttemptError PROTOCOL_ERROR ''Gateway did not assign a backend identity'' None) now s)
          else if js_field msg ''type'' = Some (JStr ''gateway_error'') then
            attempt_fails opt r a w cached (refused_by msg) now s
          else s
      | _ \<Rightarrow> s)"

section \<open>The established connection\<close>

definition connection_closed :: "backend_options \<Rightarrow> nat \<Rightarrow> nat \<Rightarrow> int \<Rightarrow> sdk \<Rightarrow> sdk" where
  "connection_closed opt w code now s =
     (if w \<notin> set (sk_listening s) \<or> sk_socket s \<noteq> Some w then s
      else
        let s1 = s\<lparr>sk_socket := None,
                   sk_intervals := (case sk_heartbeatTimer s of Some t \<Rightarrow> filter (\<lambda>i. i \<noteq> t) (sk_intervals s) | None \<Rightarrow> sk_intervals s),
                   sk_heartbeatTimer := None\<rparr>
        in if code = 4001 \<and> \<not> sk_closed s then
             setState SClosed (s1\<lparr>sk_failure := Some \<lparr>ei_code = REPLACED, ei_message = ERROR_MESSAGES REPLACED,
                                                    ei_gatewayCode = None, ei_occurredAt = now\<rparr>\<rparr>)
           else if sk_closed s \<or> bo_reconnect opt = Some False then setState SClosed s1
           else scheduleReconnect opt now (setState SConnecting s1))"

definition retry_fires :: "backend_options \<Rightarrow> nat \<Rightarrow> int \<Rightarrow> sdk \<Rightarrow> sdk" where
  "retry_fires opt r now s =
     (case List.extract (\<lambda>due. due \<le> now) (sk_retries s) of
        None \<Rightarrow> s
      | Some (before, due, after) \<Rightarrow>
          (let s1 = s\<lparr>sk_retries := before @ after\<rparr>
           in if sk_closed s then s1 else establish opt r ByRetry now s1))"

definition heartbeat_tick :: "nat \<Rightarrow> int \<Rightarrow> sdk \<Rightarrow> sdk" where
  "heartbeat_tick timer now s =
     (if timer \<notin> set (sk_intervals s) then s
      else case sk_socket s of
             Some w \<Rightarrow>
               if sk_ready s w = Open
               then put (SocketSend w (JObj ([(''type'', JStr ''backend_heartbeat'')]
                      @ (case sk_epoch s of Some e \<Rightarrow> [(''epoch'', e)] | None \<Rightarrow> [])
                      @ [(''observedAt'', JNum (NFin (of_int now)))]))) s
               else s
           | None \<Rightarrow> s)"

definition sdk_close :: "sdk \<Rightarrow> sdk" where
  "sdk_close s =
     (let s1 = setState SClosed (s\<lparr>sk_closed := True\<rparr>);
          s2 = s1\<lparr>sk_intervals := (case sk_heartbeatTimer s1 of Some t \<Rightarrow> filter (\<lambda>i. i \<noteq> t) (sk_intervals s1) | None \<Rightarrow> sk_intervals s1),
                  sk_heartbeatTimer := None\<rparr>;
          s3 = (case sk_socket s2 of Some w \<Rightarrow> put (SocketClose w) s2 | None \<Rightarrow> s2)
      in s3\<lparr>sk_socket := None\<rparr>)"

definition reject_message :: "jsval \<Rightarrow> string \<Rightarrow> json" where
  "reject_message channelId reason = JObj ([(''type'', JStr ''channel_reject'')]
     @ (case channelId of Some c \<Rightarrow> [(''channelId'', c)] | None \<Rightarrow> []) @ [(''reason'', JStr reason)])"

definition send_now :: "json \<Rightarrow> sdk \<Rightarrow> sdk" where
  "send_now m s = (case sk_socket s of Some w \<Rightarrow> put (SocketSend w m) s | None \<Rightarrow> s)"

text \<open>
  \<open>(offer.kind && handlers.get(offer.kind)) ?? default\<close>: the handler of a kind, by its name, the default one
  (none when there is none), and for the empty kind no handler at all, since the empty string is not
  nullish.
\<close>

definition offer_handler :: "json \<Rightarrow> sdk \<Rightarrow> string option option" where
  "offer_handler offer s =
     (let default = (if sk_defaultHandler s then Some None else None)
      in case js_field offer ''kind'' of
           Some (JStr k) \<Rightarrow>
             if k = [] then None else if k \<in> set (sk_kinds s) then Some (Some k) else default
         | Some v \<Rightarrow> if js_truthy (Some v) \<or> v = JNull then default else None
         | None \<Rightarrow> default)"

definition handleOffer :: "json \<Rightarrow> sdk \<Rightarrow> sdk" where
  "handleOffer offer s =
     (if sk_closed s then s
      else case offer_handler offer s of
             None \<Rightarrow> send_now (reject_message (js_field offer ''channelId'') ''no_handler'') s
           | Some _ \<Rightarrow> put (DialOffer offer) s)"

text \<open>The end of a dial: the handler found before it is called, or the offer is rejected.\<close>

definition offer_dialled :: "json \<Rightarrow> string \<Rightarrow> bool \<Rightarrow> sdk \<Rightarrow> sdk" where
  "offer_dialled offer handler ok s =
     (if DialOffer offer \<notin> set (sk_log s) then s
      else if ok then put (HandlerCall handler offer) s
      else send_now (reject_message (js_field offer ''channelId'') ''dial_failed'') s)"

text \<open>A text frame on the established socket that parses; null has no type to read and the listener throws.\<close>

definition control_message :: "nat \<Rightarrow> json \<Rightarrow> sdk \<Rightarrow> sdk" where
  "control_message w msg s =
     (if w \<notin> set (sk_listening s) \<or> msg = JNull then s
      else put (Delivered msg)
        (if js_field msg ''type'' = Some (JStr ''channel_offer'') then handleOffer msg s else s))"

text \<open>The calls that need a connection; \<open>Inl ()\<close> is the exception \<open>Not connected\<close>.\<close>

definition sdk_send :: "json \<Rightarrow> sdk \<Rightarrow> unit + sdk" where
  "sdk_send m s =
     (case sk_socket s of
        Some w \<Rightarrow> if sk_ready s w = Open then Inr (put (SocketSend w m) s) else Inl ()
      | None \<Rightarrow> Inl ())"

definition publishTopic :: "string \<Rightarrow> jsval \<Rightarrow> bool option \<Rightarrow> sdk \<Rightarrow> unit + sdk" where
  "publishTopic topic payload retain s = sdk_send (JObj ([(''type'', JStr ''topic_publish''), (''topic'', JStr topic)]
     @ (case payload of Some p \<Rightarrow> [(''payload'', p)] | None \<Rightarrow> [])
     @ (case retain of Some r \<Rightarrow> [(''retain'', JBool r)] | None \<Rightarrow> []))) s"

definition onChannel :: "string \<Rightarrow> sdk \<Rightarrow> sdk" where
  "onChannel kind s = s\<lparr>sk_kinds := List.insert kind (sk_kinds s)\<rparr>"

definition onAnyChannel :: "sdk \<Rightarrow> sdk" where
  "onAnyChannel s = s\<lparr>sk_defaultHandler := True\<rparr>"

section \<open>Events\<close>

datatype sdk_event =
    Connect nat int
  | Resume nat "nat option" int
  | Exchanged nat exchange_answer int
  | Opened nat int
  | OpenFailed nat int
  | HandshakeMessage nat nat json int
  | HandshakeTimeout nat int
  | HandshakeClosed nat int
  | ControlMessage nat json
  | Dialled json string bool
  | ConnectionClosed nat nat int
  | RetryTimer nat int
  | HeartbeatTimer nat int
  | Close
  | OnChannel string
  | OnAnyChannel
  | Send json
  | Sockets "nat \<Rightarrow> ready_state"

text \<open>A run and a socket keep the number their event gives them; an event that would reuse one is not possible.\<close>

fun sdk_do :: "backend_options \<Rightarrow> sdk_event \<Rightarrow> sdk \<Rightarrow> sdk" where
  "sdk_do opt (Connect r now) s = (if jm_has (sk_runs s) r then s else connect opt r now s)"
| "sdk_do opt (Resume r made now) s = (if made \<noteq> None \<and> NewSocket (the made) \<in> set (sk_log s) then s else attempt opt r made now s)"
| "sdk_do opt (Exchanged r ans now) s = exchange_answered opt r ans now s"
| "sdk_do opt (Opened r now) s = socket_opened opt r now s"
| "sdk_do opt (OpenFailed r now) s = socket_failed opt r now s"
| "sdk_do opt (HandshakeMessage r timer m now) s = handshake_message opt r timer m now s"
| "sdk_do opt (HandshakeTimeout r now) s = handshake_timeout opt r now s"
| "sdk_do opt (HandshakeClosed r now) s = handshake_closed opt r now s"
| "sdk_do opt (ControlMessage w m) s = control_message w m s"
| "sdk_do opt (Dialled offer h ok) s = offer_dialled offer h ok s"
| "sdk_do opt (ConnectionClosed w code now) s = connection_closed opt w code now s"
| "sdk_do opt (RetryTimer r now) s = (if jm_has (sk_runs s) r then s else retry_fires opt r now s)"
| "sdk_do opt (HeartbeatTimer t now) s = heartbeat_tick t now s"
| "sdk_do opt Close s = sdk_close s"
| "sdk_do opt (OnChannel k) s = onChannel k s"
| "sdk_do opt OnAnyChannel s = onAnyChannel s"
| "sdk_do opt (Send m) s = (case sdk_send m s of Inr s' \<Rightarrow> s' | Inl _ \<Rightarrow> s)"
| "sdk_do opt (Sockets ready) s = s\<lparr>sk_ready := ready\<rparr>"

definition sdk_run :: "backend_options \<Rightarrow> sdk_event list \<Rightarrow> sdk \<Rightarrow> sdk" where
  "sdk_run opt evs s = fold (sdk_do opt) evs s"

lemma sdk_run_simps [simp]:
  "sdk_run opt [] s = s" "sdk_run opt (e # evs) s = sdk_run opt evs (sdk_do opt e s)"
  by (simp_all add: sdk_run_def)

section \<open>The enrollment secret\<close>

fun stage_credential :: "stage \<Rightarrow> string option" where
  "stage_credential Exchanging = None"
| "stage_credential (Resolved c _) = Some c"
| "stage_credential (Opening _ c _) = Some c"
| "stage_credential (Greeting _ c _ _) = Some c"

definition reveals :: "string \<Rightarrow> sdk_out \<Rightarrow> bool" where
  "reveals secret x \<longleftrightarrow> (\<exists>w m. x = SocketSend w m \<and> js_field m ''gatewaySecret'' = Some (JStr secret))"

definition keeps_secret :: "string \<Rightarrow> sdk \<Rightarrow> bool" where
  "keeps_secret secret s \<longleftrightarrow> (\<forall>x\<in>set (sk_log s). \<not> reveals secret x)
     \<and> (\<forall>r a st. jm_get (sk_runs s) r = Some (a, st) \<longrightarrow> stage_credential st \<noteq> Some secret)
     \<and> (\<forall>t e. sk_accessToken s = Some (t, e) \<longrightarrow> t \<noteq> secret)"

named_theorems keeps

lemma keeps_put [keeps]: "\<not> reveals secret x \<Longrightarrow> keeps_secret secret (put x s) = keeps_secret secret s"
  by (simp add: keeps_secret_def put_def)

lemma keeps_run [keeps]: "keeps_secret secret s \<Longrightarrow> stage_credential st \<noteq> Some secret \<Longrightarrow> keeps_secret secret (set_run r a st s)"
  by (simp add: keeps_secret_def set_run_def)

lemma reveals_other [simp]:
  "\<not> reveals x (ExchangeRequest c)" "\<not> reveals x (NewSocket w)" "\<not> reveals x (SocketClose w)" "\<not> reveals x (StateChange st)"
  "\<not> reveals x (Delivered m)" "\<not> reveals x (Resolves r b e)" "\<not> reveals x (Rejects r t)" "\<not> reveals x (DialOffer m)"
  "\<not> reveals x (HandlerCall h m)"
  by (simp_all add: reveals_def)

lemma keeps_fields [keeps]:
  "keeps_secret x (s\<lparr>sk_socket := a\<rparr>) = keeps_secret x s" "keeps_secret x (s\<lparr>sk_closed := b\<rparr>) = keeps_secret x s"
  "keeps_secret x (s\<lparr>sk_failure := c\<rparr>) = keeps_secret x s" "keeps_secret x (s\<lparr>sk_retries := d\<rparr>) = keeps_secret x s"
  "keeps_secret x (s\<lparr>sk_reconnectAttempt := n\<rparr>) = keeps_secret x s" "keeps_secret x (s\<lparr>sk_state := st\<rparr>) = keeps_secret x s"
  "keeps_secret x (s\<lparr>sk_intervals := i\<rparr>) = keeps_secret x s" "keeps_secret x (s\<lparr>sk_heartbeatTimer := h\<rparr>) = keeps_secret x s"
  "keeps_secret x (s\<lparr>sk_kinds := k\<rparr>) = keeps_secret x s" "keeps_secret x (s\<lparr>sk_defaultHandler := df\<rparr>) = keeps_secret x s"
  "keeps_secret x (s\<lparr>sk_ready := rd\<rparr>) = keeps_secret x s" "keeps_secret x (s\<lparr>sk_listening := l\<rparr>) = keeps_secret x s"
  "keeps_secret x (s\<lparr>sk_backendId := bi\<rparr>) = keeps_secret x s" "keeps_secret x (s\<lparr>sk_epoch := ep\<rparr>) = keeps_secret x s"
  by (simp_all add: keeps_secret_def)

lemma keeps_drop [keeps]:
  "keeps_secret x s \<Longrightarrow> keeps_secret x (s\<lparr>sk_runs := jm_del r (sk_runs s)\<rparr>)"
  "keeps_secret x s \<Longrightarrow> keeps_secret x (s\<lparr>sk_accessToken := None\<rparr>)"
  "keeps_secret x s \<Longrightarrow> t \<noteq> x \<Longrightarrow> keeps_secret x (s\<lparr>sk_accessToken := Some (t, e)\<rparr>)"
  by (auto simp: keeps_secret_def split: if_splits)

lemma keeps_record [keeps]: "keeps_secret x (recordFailure e now s) = keeps_secret x s"
  by (simp add: recordFailure_def keeps)

lemma keeps_rejects [keeps]: "keeps_secret x s \<Longrightarrow> keeps_secret x (run_rejects opt r a e now s)"
  by (simp add: run_rejects_def Let_def scheduleReconnect_def keeps split: asker.split)

lemma keeps_resolve [keeps]:
  "keeps_secret (bo_credential opt) s \<Longrightarrow> exchanges opt \<Longrightarrow> keeps_secret (bo_credential opt) (resolveCredential opt r a now s)"
  by (auto simp: resolveCredential_def Let_def keeps split: option.split) (simp add: keeps_secret_def set_run_def)

lemma keeps_fails [keeps]:
  "keeps_secret (bo_credential opt) s \<Longrightarrow> exchanges opt \<Longrightarrow> keeps_secret (bo_credential opt) (attempt_fails opt r a w c e now s)"
  by (auto simp: attempt_fails_def Let_def keeps split: thrown.split option.split)

lemma hello_secret [simp]: "js_field (hello_message opt c) ''gatewaySecret'' = Some (JStr c)"
  by (simp add: hello_message_def)

lemma reveals_send [simp]: "reveals x (SocketSend w m) \<longleftrightarrow> js_field m ''gatewaySecret'' = Some (JStr x)"
  by (simp add: reveals_def)

lemma reject_secret [simp]: "js_field (reject_message c reason) ''gatewaySecret'' = None"
  by (simp add: reject_message_def split: option.split)

lemma keeps_stage: "keeps_secret x s \<Longrightarrow> jm_get (sk_runs s) r = Some (a, st) \<Longrightarrow> stage_credential st \<noteq> Some x"
  by (auto simp: keeps_secret_def)

lemma keeps_settled:
  "keeps_secret x s \<Longrightarrow> sk_log s' = sk_log s \<Longrightarrow> sk_accessToken s' = sk_accessToken s \<Longrightarrow> sk_runs s' = jm_del r (sk_runs s)
   \<Longrightarrow> keeps_secret x s'"
  by (auto simp: keeps_secret_def split: if_splits)

lemma keeps_state [keeps]: "keeps_secret x (setState st s) = keeps_secret x s"
  by (simp add: setState_def keeps)

lemma keeps_established [keeps]: "keeps_secret x s \<Longrightarrow> keeps_secret x (established r w t a b s)"
  by (simp add: established_def Let_def keeps split: asker.split) (auto intro: keeps_settled)

text \<open>The events that could bring the secret back: a gateway that answers the exchange with it, or the application itself.\<close>

definition betrays :: "string \<Rightarrow> sdk_event \<Rightarrow> bool" where
  "betrays secret e =
     (case e of
        Exchanged _ (OkBody body) _ \<Rightarrow> opt_field (opt_field body ''data'') ''token'' = Some (JStr secret)
      | Send m \<Rightarrow> js_field m ''gatewaySecret'' = Some (JStr secret)
      | _ \<Rightarrow> False)"

lemma keeps_attempt:
  assumes "keeps_secret (bo_credential opt) s" and "exchanges opt"
  shows "keeps_secret (bo_credential opt) (attempt opt r made now s)"
  using assms by (auto simp: attempt_def keeps keeps_stage split: option.split stage.split)
     (auto dest: keeps_stage intro!: keeps simp: keeps)

lemma keeps_opened:
  assumes "keeps_secret (bo_credential opt) s"
  shows "keeps_secret (bo_credential opt) (socket_opened opt r now s)"
  using assms by (auto simp: socket_opened_def split: option.split stage.split)
     (frule (1) keeps_stage, auto intro!: keeps_run simp: keeps)

lemma keeps_exchanged:
  assumes "keeps_secret (bo_credential opt) s" and "exchanges opt" and "\<not> betrays (bo_credential opt) (Exchanged r ans now)"
  shows "keeps_secret (bo_credential opt) (exchange_answered opt r ans now s)"
  using assms by (auto simp: exchange_answered_def betrays_def Let_def keeps split: option.split stage.split exchange_answer.split json.split)

lemma keeps_greeting:
  assumes "keeps_secret (bo_credential opt) s" and "exchanges opt"
  shows "keeps_secret (bo_credential opt) (handshake_message opt r t m now s)"
    "keeps_secret (bo_credential opt) (handshake_timeout opt r now s)"
    "keeps_secret (bo_credential opt) (handshake_closed opt r now s)"
    "keeps_secret (bo_credential opt) (socket_failed opt r now s)"
  using assms by (auto simp: handshake_message_def handshake_timeout_def handshake_closed_def socket_failed_def keeps
     split: option.split stage.split)

lemma keeps_connected:
  assumes "keeps_secret x s"
  shows "keeps_secret x (connection_closed opt w code now s)" "keeps_secret x (heartbeat_tick t now s)"
    "keeps_secret x (sdk_close s)" "keeps_secret x (control_message w m s)" "keeps_secret x (offer_dialled m h ok s)"
  using assms by (auto simp: connection_closed_def heartbeat_tick_def sdk_close_def control_message_def offer_dialled_def
     handleOffer_def send_now_def scheduleReconnect_def Let_def keeps split: option.split)

lemma keeps_retry:
  assumes "keeps_secret (bo_credential opt) s" and "exchanges opt"
  shows "keeps_secret (bo_credential opt) (retry_fires opt r now s)" "keeps_secret (bo_credential opt) (connect opt r now s)"
  using assms by (auto simp: retry_fires_def connect_def establish_def Let_def keeps split: option.split)

lemma keeps_step:
  assumes "keeps_secret (bo_credential opt) s" and "exchanges opt" and "\<not> betrays (bo_credential opt) e"
  shows "keeps_secret (bo_credential opt) (sdk_do opt e s)"
  using assms by (cases e) (auto simp: keeps_attempt keeps_opened keeps_exchanged keeps_greeting keeps_connected keeps_retry
     onChannel_def onAnyChannel_def sdk_send_def keeps betrays_def reveals_def split: option.split sum.split)

interpretation secret: event_machine "sdk_do opt" "\<lambda>e. exchanges opt \<and> \<not> betrays (bo_credential opt) e" "keeps_secret (bo_credential opt)" for opt
  by unfold_locales (blast intro: keeps_step)

text \<open>
  C36. With the exchange on and an enrollment credential, the long-lived secret never travels on the control
  connection: whatever calls, answers, timers and socket events there are, no frame the SDK sends carries it as
  its gateway secret (unless the gateway hands it out as the access token, or the application sends it).
\<close>

theorem enrollment_kept:
  assumes "exchanges opt" and "\<forall>e\<in>set evs. \<not> betrays (bo_credential opt) e"
  shows "\<forall>x\<in>set (sk_log (sdk_run opt evs (new_backend ready))). \<not> reveals (bo_credential opt) x"
proof -
  have "keeps_secret (bo_credential opt) (new_backend ready)"
    by (simp add: keeps_secret_def new_backend_def)
  then have "keeps_secret (bo_credential opt) (sdk_run opt evs (new_backend ready))"
    unfolding sdk_run_def by (rule secret.run_inv) (use assms in blast)
  then show ?thesis by (simp add: keeps_secret_def)
qed

section \<open>One activity at a time\<close>

fun stage_socket :: "stage \<Rightarrow> nat option" where
  "stage_socket Exchanging = None"
| "stage_socket (Resolved _ _) = None"
| "stage_socket (Opening w _ _) = Some w"
| "stage_socket (Greeting w _ _ _) = Some w"

definition was_connected :: "sdk \<Rightarrow> bool" where
  "was_connected s \<longleftrightarrow> StateChange SConnected \<in> set (sk_log s)"

text \<open>The phases of an SDK that is not closed: an attempt runs, a retry waits, a connection is up, or \<open>connect\<close> has failed.\<close>

definition attempting :: "sdk \<Rightarrow> bool" where
  "attempting s \<longleftrightarrow> (\<exists>r a st. sk_runs s = [(r, (a, st))] \<and> sk_retries s = [] \<and> sk_state s = SConnecting
     \<and> (a = ByRetry \<longleftrightarrow> was_connected s) \<and> sk_socket s = stage_socket st
     \<and> (\<forall>w. stage_socket st = Some w \<longrightarrow> NewSocket w \<in> set (sk_log s) \<and> w \<notin> set (sk_listening s)))"

definition waiting :: "sdk \<Rightarrow> bool" where
  "waiting s \<longleftrightarrow> (\<exists>due. sk_runs s = [] \<and> sk_retries s = [due] \<and> sk_state s = SConnecting \<and> was_connected s \<and> sk_socket s = None)"

definition online :: "sdk \<Rightarrow> bool" where
  "online s \<longleftrightarrow> (\<exists>w. sk_runs s = [] \<and> sk_retries s = [] \<and> sk_state s = SConnected \<and> was_connected s
     \<and> sk_socket s = Some w \<and> w \<in> set (sk_listening s))"

definition gave_up :: "sdk \<Rightarrow> bool" where
  "gave_up s \<longleftrightarrow> sk_runs s = [] \<and> sk_retries s = [] \<and> \<not> was_connected s \<and> sk_socket s = None"

definition alive :: "sdk \<Rightarrow> bool" where
  "alive s \<longleftrightarrow> \<not> sk_closed s \<and> (\<forall>w\<in>set (sk_listening s). NewSocket w \<in> set (sk_log s))
     \<and> (attempting s \<or> waiting s \<or> online s \<or> gave_up s)"

text \<open>The calls and events the claims leave out: \<open>connect\<close>, \<open>close\<close> and a close with the replaced code.\<close>

definition undisturbed :: "sdk_event \<Rightarrow> bool" where
  "undisturbed e = (case e of Connect _ _ \<Rightarrow> False | Close \<Rightarrow> False | ConnectionClosed _ code _ \<Rightarrow> code \<noteq> 4001 | _ \<Rightarrow> True)"

lemma jm_one [simp]:
  "jm_get [(k, v)] k' = (if k' = k then Some v else None)" "jm_set k v' [(k, v)] = [(k, v')]" "jm_del k [(k, v)] = []"
  "jm_set k v' [] = [(k, v')]" "jm_get [] k = None"
  by (auto simp: jm_get_def jm_set_def jm_del_def)

lemmas alive_defs = alive_def attempting_def waiting_def online_def gave_up_def was_connected_def
lemmas sdk_effects = put_def setState_def set_run_def recordFailure_def scheduleReconnect_def run_rejects_def

text \<open>Between two stages: the run has no socket.\<close>

definition between :: "nat \<Rightarrow> asker \<Rightarrow> sdk \<Rightarrow> bool" where
  "between r a s \<longleftrightarrow> \<not> sk_closed s \<and> (\<forall>w\<in>set (sk_listening s). NewSocket w \<in> set (sk_log s))
     \<and> (\<exists>st. sk_runs s = [(r, (a, st))]) \<and> sk_retries s = [] \<and> sk_state s = SConnecting
     \<and> (a = ByRetry \<longleftrightarrow> was_connected s) \<and> sk_socket s = None"

lemma alive_rejects: "between r a s \<Longrightarrow> alive (run_rejects opt r a e now s)"
  by (cases a) (auto simp: between_def alive_defs sdk_effects Let_def)

lemma alive_resolve: "between r a s \<Longrightarrow> alive (resolveCredential opt r a now s)"
  by (auto simp: between_def alive_defs sdk_effects resolveCredential_def Let_def split: option.split)

lemma between_token: "between r a s \<Longrightarrow> between r a (s\<lparr>sk_accessToken := t\<rparr>)"
  by (simp add: between_def was_connected_def)

text \<open>A run of an SDK that is alive is its only one.\<close>

lemma alive_run:
  assumes "alive s" and "jm_get (sk_runs s) r = Some (a, st)"
  shows "sk_runs s = [(r, (a, st))] \<and> attempting s \<and> sk_socket s = stage_socket st"
  using assms by (auto simp: alive_defs split: if_splits)

lemma alive_between:
  assumes "alive s" and "jm_get (sk_runs s) r = Some (a, st)" and "stage_socket st = None"
  shows "between r a s"
  using assms by (auto simp: between_def alive_defs split: if_splits)

lemma alive_fails:
  assumes "alive s" and "jm_get (sk_runs s) r = Some (a, st)" and "stage_socket st = Some w"
  shows "alive (attempt_fails opt r a w cached e now s)"
proof -
  have "between r a (put (SocketClose w) (s\<lparr>sk_socket := None\<rparr>))" and "sk_socket s = Some w"
    using assms by (auto simp: between_def alive_defs put_def split: if_splits)
  then show ?thesis
    by (auto simp: attempt_fails_def Let_def split: thrown.split option.split intro!: alive_rejects alive_resolve between_token)
qed

lemma alive_established:
  assumes "alive s" and "jm_get (sk_runs s) r = Some (a, st)" and "stage_socket st = Some w"
  shows "alive (established r w t a b s)"
  using assms by (auto simp: established_def Let_def alive_defs sdk_effects split: if_splits asker.split)

lemma alive_handshake:
  assumes "alive s"
  shows "alive (handshake_message opt r t m now s)" "alive (handshake_timeout opt r now s)"
    "alive (handshake_closed opt r now s)" "alive (socket_failed opt r now s)"
  using assms by (auto simp: handshake_message_def handshake_timeout_def handshake_closed_def socket_failed_def
     intro!: alive_fails alive_established split: option.split stage.split)

lemma alive_attempt:
  assumes "alive s" and "\<not> (made \<noteq> None \<and> NewSocket (the made) \<in> set (sk_log s))"
  shows "alive (attempt opt r made now s)"
proof (cases "\<exists>a c k. jm_get (sk_runs s) r = Some (a, Resolved c k)")
  case True
  then obtain a c k where run: "jm_get (sk_runs s) r = Some (a, Resolved c k)" by blast
  then have "between r a s" using assms alive_between by fastforce
  then show ?thesis
    using assms(2) run by (cases made) (auto simp: attempt_def alive_rejects, auto simp: between_def alive_defs sdk_effects)
next
  case False
  then show ?thesis using assms by (auto simp: attempt_def split: option.split stage.split)
qed

lemma alive_exchanged:
  assumes "alive s"
  shows "alive (exchange_answered opt r ans now s)"
proof (cases "\<exists>a. jm_get (sk_runs s) r = Some (a, Exchanging)")
  case True
  then obtain a where run: "jm_get (sk_runs s) r = Some (a, Exchanging)" by blast
  then have b: "between r a s" using assms alive_between by fastforce
  have "alive (set_run r a (Resolved token False) (s\<lparr>sk_accessToken := x\<rparr>))" for token x
    using b by (auto simp: between_def alive_defs sdk_effects)
  then show ?thesis
    using b run by (auto simp: exchange_answered_def alive_rejects Let_def split: exchange_answer.split option.split json.split)
next
  case False
  then show ?thesis using assms by (auto simp: exchange_answered_def split: option.split stage.split)
qed

lemma alive_opened:
  assumes "alive s"
  shows "alive (socket_opened opt r now s)"
proof (cases "\<exists>a w c k. jm_get (sk_runs s) r = Some (a, Opening w c k)")
  case True
  then obtain a w c k where run: "jm_get (sk_runs s) r = Some (a, Opening w c k)" by blast
  then have "alive (set_run r a (Greeting w c k d) (put (SocketSend w m) s))" for d m
    using alive_run [OF assms run] assms by (auto simp: alive_defs sdk_effects)
  then show ?thesis by (simp add: socket_opened_def run)
next
  case False
  then show ?thesis using assms by (auto simp: socket_opened_def split: option.split stage.split)
qed

lemma alive_put: "alive s \<Longrightarrow> x \<noteq> StateChange SConnected \<Longrightarrow> alive (put x s)"
  by (auto simp: alive_defs put_def)

lemma alive_ended:
  assumes "alive s" and "code \<noteq> 4001" and "bo_reconnect opt \<noteq> Some False"
  shows "alive (connection_closed opt w code now s)"
proof (cases "w \<in> set (sk_listening s) \<and> sk_socket s = Some w")
  case True
  then have "online s" using assms(1) by (auto simp: alive_defs)
  then show ?thesis
    using True assms by (auto simp: connection_closed_def alive_defs sdk_effects Let_def)
next
  case False
  then show ?thesis using assms(1) by (auto simp: connection_closed_def)
qed

lemma alive_retry:
  assumes "alive s" and "\<not> jm_has (sk_runs s) r"
  shows "alive (retry_fires opt r now s)"
proof (cases "List.extract (\<lambda>due. due \<le> now) (sk_retries s)")
  case None
  then show ?thesis using assms by (simp add: retry_fires_def)
next
  case (Some x)
  then have "waiting s"
    using assms(1) by (cases x) (auto simp: alive_defs extract_Some_iff)
  then obtain due where w: "sk_retries s = [due]" by (auto simp: waiting_def)
  with Some have due: "sk_retries s = [due]" "x = ([], due, [])"
    by (auto simp: extract_Cons_code extract_Nil_code split: if_splits)
  have "between r ByRetry (set_run r ByRetry Exchanging (setState SConnecting (s\<lparr>sk_retries := []\<rparr>)))"
    using assms(1) \<open>waiting s\<close> by (auto simp: between_def alive_defs sdk_effects)
  then have "alive (resolveCredential opt r ByRetry now (set_run r ByRetry Exchanging (setState SConnecting (s\<lparr>sk_retries := []\<rparr>))))"
    by (rule alive_resolve)
  moreover have "sk_runs s = []" using \<open>waiting s\<close> by (auto simp: waiting_def)
  ultimately show ?thesis
    using Some due assms(1) by (auto simp: retry_fires_def establish_def resolveCredential_def sdk_effects alive_def Let_def split: option.splits if_splits)
qed

lemma alive_other:
  assumes "alive s"
  shows "alive (heartbeat_tick t now s)" "alive (control_message w m s)" "alive (offer_dialled m h ok s)"
    "alive (onChannel k s)" "alive (onAnyChannel s)" "alive (s\<lparr>sk_ready := rd\<rparr>)"
  using assms by (auto simp: heartbeat_tick_def control_message_def offer_dialled_def handleOffer_def send_now_def
     alive_put onChannel_def onAnyChannel_def split: option.split) (auto simp: alive_defs)

lemma alive_step:
  assumes "alive s" and "undisturbed e" and "bo_reconnect opt \<noteq> Some False"
  shows "alive (sdk_do opt e s)"
  using assms by (cases e) (auto simp: undisturbed_def alive_attempt alive_exchanged alive_opened alive_handshake
     alive_ended alive_retry alive_other sdk_send_def alive_put split: option.split)

interpretation lively: event_machine "sdk_do opt" "\<lambda>e. bo_reconnect opt \<noteq> Some False \<and> undisturbed e" alive for opt
  by unfold_locales (blast intro: alive_step)

lemma alive_start: "alive (sdk_do opt (Connect r now) (new_backend ready))"
proof -
  have "between r ByConnect (set_run r ByConnect Exchanging (setState SConnecting (new_backend ready)))"
    by (simp add: between_def sdk_effects new_backend_def was_connected_def)
  from alive_resolve [OF this, of opt now] show ?thesis
    by (simp add: connect_def establish_def new_backend_def jm_has_def resolveCredential_def sdk_effects Let_def split: if_splits)
qed

lemma alive_runs:
  assumes "bo_reconnect opt \<noteq> Some False" and "\<forall>e\<in>set evs. undisturbed e"
  shows "alive (sdk_run opt (Connect r now # evs) (new_backend ready))"
proof -
  have "alive (sdk_run opt evs (sdk_do opt (Connect r now) (new_backend ready)))"
    unfolding sdk_run_def by (rule lively.run_inv [OF alive_start]) (use assms in blast)
  then show ?thesis by simp
qed

text \<open>
  C37. The SDK never stops trying: from the call of \<open>connect\<close>, with no other call of it, no \<open>close\<close>, no
  replacement and reconnection on, an SDK that has been connected once is at any moment either connected, its
  current socket being one whose close it listens to, or has one attempt under way and no timer, or has one
  timer set and no attempt; before the first connection no timer is ever set.
\<close>

theorem keeps_trying:
  assumes "bo_reconnect opt \<noteq> Some False" and "\<forall>e\<in>set evs. undisturbed e"
  shows "let s = sdk_run opt (Connect r now # evs) (new_backend ready) in
    (if was_connected s
     then length (sk_runs s) + length (sk_retries s) + (if sk_state s = SConnected then 1 else 0) = 1
          \<and> sk_state s \<in> {SConnecting, SConnected}
          \<and> (if sk_state s = SConnected then sk_socket s \<noteq> None \<and> the (sk_socket s) \<in> set (sk_listening s) else True)
     else sk_retries s = [] \<and> length (sk_runs s) \<le> 1)"
proof -
  have "alive (sdk_run opt (Connect r now # evs) (new_backend ready))" (is "alive ?s")
    by (rule alive_runs [OF assms])
  then have "attempting ?s \<or> waiting ?s \<or> online ?s \<or> gave_up ?s" by (simp only: alive_def)
  then show ?thesis
    unfolding Let_def by (elim disjE) (auto simp del: sdk_run_simps simp: attempting_def waiting_def online_def gave_up_def)
qed

section \<open>Standing down\<close>

text \<open>At rest: nothing under way that could open a connection.\<close>

definition stood_down :: "sdk_out list \<Rightarrow> sdk \<Rightarrow> bool" where
  "stood_down l s \<longleftrightarrow> sk_runs s = [] \<and> sk_retries s = [] \<and> sk_socket s = None \<and> sk_state s = SClosed
     \<and> filter (\<lambda>x. case x of NewSocket _ \<Rightarrow> True | ExchangeRequest _ \<Rightarrow> True | _ \<Rightarrow> False) (sk_log s) = l"

lemma stood_down_step:
  assumes "stood_down l s" and "case e of Connect _ _ \<Rightarrow> False | _ \<Rightarrow> True"
  shows "stood_down l (sdk_do opt e s)"
  using assms by (cases e) (auto simp: stood_down_def attempt_def exchange_answered_def socket_opened_def socket_failed_def
     handshake_message_def handshake_timeout_def handshake_closed_def control_message_def handleOffer_def send_now_def put_def
     offer_dialled_def connection_closed_def retry_fires_def extract_Nil_code heartbeat_tick_def sdk_close_def setState_def
     onChannel_def onAnyChannel_def sdk_send_def Let_def split: option.split)

interpretation at_rest: event_machine "sdk_do opt" "\<lambda>e. case e of Connect _ _ \<Rightarrow> False | _ \<Rightarrow> True" "stood_down l" for opt l
  by unfold_locales (rule stood_down_step)

text \<open>
  C38. The newest wins, and the replaced SDK stands down.  Take an SDK with reconnection on that was told to
  connect once and has seen, since then, anything but another \<open>connect\<close>, a \<open>close\<close> or an earlier replacement, and
  that is connected.  When the gateway closes its connection with code 4001, then whatever happens afterwards short
  of another \<open>connect\<close>, the SDK stays closed, opens no socket and exchanges no credential; its last error says that
  it was replaced.  (With two calls of \<open>connect\<close> under way at once it does not hold: \<open>overlapping_connects_reopen\<close>.)
\<close>

theorem replaced_stands_down:
  assumes "bo_reconnect opt \<noteq> Some False" and "\<forall>e\<in>set before. undisturbed e"
    and "s = sdk_run opt (Connect r t0 # before) (new_backend ready)" and "sk_state s = SConnected" and "sk_socket s = Some w"
    and "\<forall>e\<in>set after. case e of Connect _ _ \<Rightarrow> False | _ \<Rightarrow> True"
  shows "map_option ei_code (sk_failure (sdk_do opt (ConnectionClosed w 4001 now) s)) = Some REPLACED
    \<and> stood_down (filter (\<lambda>x. case x of NewSocket _ \<Rightarrow> True | ExchangeRequest _ \<Rightarrow> True | _ \<Rightarrow> False) (sk_log s))
        (sdk_run opt (ConnectionClosed w 4001 now # after) s)"
proof -
  have "alive s" using alive_runs [OF assms(1,2)] assms(3) by blast
  with assms(4,5) have s: "sk_runs s = []" "sk_retries s = []" "w \<in> set (sk_listening s)" "\<not> sk_closed s"
    by (auto simp: alive_defs split: if_splits)
  let ?c = "sdk_do opt (ConnectionClosed w 4001 now) s"
  let ?l = "filter (\<lambda>x. case x of NewSocket _ \<Rightarrow> True | ExchangeRequest _ \<Rightarrow> True | _ \<Rightarrow> False) (sk_log s)"
  have c: "stood_down ?l ?c" and f: "map_option ei_code (sk_failure ?c) = Some REPLACED"
    using s assms(5) by (auto simp: connection_closed_def stood_down_def setState_def put_def Let_def)
  have "stood_down ?l (sdk_run opt after ?c)"
    unfolding sdk_run_def by (rule at_rest.run_inv [OF c]) (use assms(6) in blast)
  with f show ?thesis by simp
qed

section \<open>Failures and delays\<close>

definition safe_error :: "error_info option \<Rightarrow> bool" where
  "safe_error f = (case f of None \<Rightarrow> True
     | Some i \<Rightarrow> (case ei_gatewayCode i of
         None \<Rightarrow> ei_message i = ERROR_MESSAGES (ei_code i)
       | Some g \<Rightarrow> g \<in> set KNOWN_GATEWAY_ERROR_CODES
           \<and> ei_message i = (if ei_code i = GATEWAY_REJECTED then ''The gateway rejected the handshake ('' @ g @ '').''
                             else ERROR_MESSAGES (ei_code i))))"

lemma safe_describe [simp]: "safe_error (Some (describeFailure e now))"
  by (simp add: safe_error_def describeFailure_def split: thrown.split option.split)

lemma safe_none [simp]: "safe_error None"
  by (simp add: safe_error_def)

lemma failure_effects [simp]:
  "sk_failure (put x s) = sk_failure s" "sk_failure (setState st s) = sk_failure s" "sk_failure (set_run r a sg s) = sk_failure s"
  "sk_failure (scheduleReconnect opt now s) = sk_failure s" "sk_failure (send_now m s) = sk_failure s"
  "sk_failure (resolveCredential opt r a now s) = sk_failure s"
  by (auto simp: put_def setState_def set_run_def scheduleReconnect_def send_now_def resolveCredential_def Let_def split: option.split)

lemma safe_rejects [simp]: "safe_error (sk_failure s) \<Longrightarrow> safe_error (sk_failure (run_rejects opt r a e now s))"
  by (simp add: run_rejects_def recordFailure_def Let_def split: asker.split)

lemma safe_fails [simp]: "safe_error (sk_failure s) \<Longrightarrow> safe_error (sk_failure (attempt_fails opt r a w c e now s))"
  by (auto simp: attempt_fails_def Let_def split: thrown.split option.split)

lemma safe_attempt:
  assumes "safe_error (sk_failure s)"
  shows "safe_error (sk_failure (attempt opt r made now s))" "safe_error (sk_failure (exchange_answered opt r ans now s))"
    "safe_error (sk_failure (socket_opened opt r now s))" "safe_error (sk_failure (retry_fires opt r now s))"
    "safe_error (sk_failure (connect opt r now s))"
  using assms by (auto simp: attempt_def exchange_answered_def socket_opened_def retry_fires_def connect_def establish_def
     Let_def split: option.split stage.split exchange_answer.split json.split)

lemma safe_handshake:
  assumes "safe_error (sk_failure s)"
  shows "safe_error (sk_failure (handshake_message opt r t m now s))" "safe_error (sk_failure (handshake_timeout opt r now s))"
    "safe_error (sk_failure (handshake_closed opt r now s))" "safe_error (sk_failure (socket_failed opt r now s))"
  using assms by (auto simp: handshake_message_def handshake_timeout_def handshake_closed_def socket_failed_def established_def
     Let_def split: option.split stage.split asker.split)

lemma safe_connected:
  assumes "safe_error (sk_failure s)"
  shows "safe_error (sk_failure (connection_closed opt w code now s))" "safe_error (sk_failure (heartbeat_tick t now s))"
    "safe_error (sk_failure (sdk_close s))" "safe_error (sk_failure (control_message w m s))"
    "safe_error (sk_failure (offer_dialled m h ok s))" "safe_error (sk_failure (onChannel k s))" "safe_error (sk_failure (onAnyChannel s))"
  using assms by (auto simp: connection_closed_def heartbeat_tick_def sdk_close_def control_message_def offer_dialled_def
     handleOffer_def onChannel_def onAnyChannel_def Let_def safe_error_def [of "Some _"] split: option.split)

lemma safe_step: "safe_error (sk_failure s) \<Longrightarrow> safe_error (sk_failure (sdk_do opt e s))"
  by (cases e) (auto simp: safe_attempt safe_handshake safe_connected sdk_send_def split: option.split)

interpretation error_text: event_machine "sdk_do opt" "\<lambda>_. True" "\<lambda>s. safe_error (sk_failure s)" for opt
  by unfold_locales (rule safe_step)

text \<open>
  C39. \<open>lastError\<close> is safe to show: after any events its message is the fixed text of its code, or for a rejected
  handshake the fixed text with the gateway's error code, which is one of the five known codes; no text of the
  gateway's or of an exception gets in.
\<close>

theorem last_error_safe: "safe_error (sk_failure (sdk_run opt evs (new_backend ready)))"
  unfolding sdk_run_def by (rule error_text.run_inv) (simp_all add: new_backend_def)

text \<open>
  The delays of the reconnection: never above the maximum, at least the smaller of the two bounds, growing,
  doubling while below the maximum, and from some attempt on equal to the maximum.
\<close>

theorem reconnect_backoff:
  assumes "0 < or_else (bo_reconnectMinMs opt) 1000"
  shows "reconnect_delay opt n \<le> or_else (bo_reconnectMaxMs opt) 30000
    \<and> min (or_else (bo_reconnectMinMs opt) 1000) (or_else (bo_reconnectMaxMs opt) 30000) \<le> reconnect_delay opt n
    \<and> reconnect_delay opt n \<le> reconnect_delay opt (Suc n)
    \<and> (if reconnect_delay opt (Suc n) < or_else (bo_reconnectMaxMs opt) 30000
       then reconnect_delay opt (Suc n) = 2 * reconnect_delay opt n else True)
    \<and> (\<exists>k. reconnect_delay opt (k + n) = or_else (bo_reconnectMaxMs opt) 30000)"
proof -
  define lo hi where "lo = or_else (bo_reconnectMinMs opt) 1000" and "hi = or_else (bo_reconnectMaxMs opt) 30000"
  have lo: "1 \<le> lo" using assms by (simp add: lo_def)
  have d: "reconnect_delay opt m = min (lo * 2 ^ m) hi" for m by (simp add: reconnect_delay_def lo_def hi_def)
  have grow: "lo * 2 ^ n \<ge> lo" "lo * 2 ^ n \<le> lo * 2 ^ Suc n" using lo by (simp_all add: mult_le_cancel_left1)
  have "hi \<le> 2 ^ nat hi" using of_nat_less_two_power [of "nat hi", where 'a = int] by linarith
  also have "\<dots> \<le> 1 * 2 ^ (nat hi + n)" by simp
  also have "\<dots> \<le> lo * 2 ^ (nat hi + n)" by (rule mult_right_mono) (use lo in simp_all)
  finally have "reconnect_delay opt (nat hi + n) = hi" by (simp add: d)
  then have top: "\<exists>k. reconnect_delay opt (k + n) = hi" by blast
  show ?thesis
    unfolding lo_def [symmetric] hi_def [symmetric] using top grow by (auto simp: d min_def)
qed

section \<open>Closing\<close>

definition ready_message :: "json \<Rightarrow> json" where
  "ready_message b = JObj [(''type'', JStr ''peer_ready''), (''backend'', b)]"

text \<open>
  A \<open>close\<close> does not end a \<open>connect\<close> that still resolves its credential: the call goes on, opens its socket,
  says hello and, once the gateway answers, the closed SDK is connected, with its heartbeat running, and
  \<open>connect\<close> resolves.
\<close>

theorem close_not_final:
  assumes "\<not> exchanges opt" and "js_truthy (Some b)"
  shows "let s = sdk_run opt [Connect r t, Close, Resume r (Some w) t, Opened r t, HandshakeMessage r i (ready_message b) t]
           (new_backend ready)
    in sk_state s = SConnected \<and> sk_closed s \<and> sk_socket s = Some w \<and> sk_heartbeatTimer s = Some i
       \<and> Resolves r (js_field b ''backendId'') (js_field b ''epoch'') \<in> set (sk_log s)"
  using assms by (simp add: connect_def establish_def resolveCredential_def sdk_close_def attempt_def socket_opened_def
     handshake_message_def ready_message_def established_def setState_def put_def set_run_def new_backend_def jm_has_def Let_def)

definition demo_backend :: backend_options where
  "demo_backend = \<lparr>bo_credential = ''zgb_1'', bo_exchangeEnrollment = None, bo_namespace = ''n'', bo_identity = None,
     bo_visible = None, bo_capabilities = None, bo_backendProtocolVersion = None, bo_heartbeatIntervalMs = None,
     bo_reconnect = None, bo_reconnectMinMs = None, bo_reconnectMaxMs = None\<rparr>"

definition demo_connect :: "sdk_event list" where
  "demo_connect = [Exchanged 0 (OkBody (Some (JObj [(''data'', JObj [(''token'', JStr ''zga_1'')])]))) 1, Resume 0 (Some 7) 1,
     Opened 0 2, HandshakeMessage 0 1 (ready_message (JObj [(''backendId'', JStr ''b'')])) 3, HeartbeatTimer 1 9]"

lemma close_not_final_witness:
  "let s = sdk_run (demo_backend\<lparr>bo_exchangeEnrollment := Some False\<rparr>)
        [Connect 0 0, Close, Resume 0 (Some 7) 0, Opened 0 0, HandshakeMessage 0 1 (ready_message (JObj [(''backendId'', JStr ''b'')])) 0]
        (new_backend (\<lambda>_. Open))
   in sk_state s = SConnected \<and> sk_closed s \<and> sk_socket s = Some 7 \<and> sk_heartbeatTimer s = Some 1
      \<and> Resolves 0 (js_field (JObj [(''backendId'', JStr ''b'')]) ''backendId'') (js_field (JObj [(''backendId'', JStr ''b'')]) ''epoch'')
          \<in> set (sk_log s)"
  by (rule close_not_final) (simp_all add: exchanges_def demo_backend_def)

lemma enrollment_kept_witness:
  "\<not> list_ex (reveals ''zgb_1'') (sk_log (sdk_run demo_backend (Connect 0 0 # demo_connect) (new_backend (\<lambda>_. Open))))"
proof -
  have "exchanges demo_backend" by code_simp
  moreover have "\<forall>e\<in>set (Connect 0 0 # demo_connect). \<not> betrays (bo_credential demo_backend) e" by code_simp
  ultimately have "\<forall>x\<in>set (sk_log (sdk_run demo_backend (Connect 0 0 # demo_connect) (new_backend (\<lambda>_. Open)))).
      \<not> reveals (bo_credential demo_backend) x"
    by (rule enrollment_kept)
  then show ?thesis by (simp only: list_ex_iff bex_simps not_not ball_simps demo_backend_def backend_options.simps simp_thms)
qed

lemma keeps_trying_witness:
  "was_connected (sdk_run demo_backend (Connect 0 0 # demo_connect) (new_backend (\<lambda>_. Open)))
   \<and> length (sk_runs (sdk_run demo_backend (Connect 0 0 # demo_connect) (new_backend (\<lambda>_. Open)))) \<le> 1"
proof -
  have u: "\<forall>e\<in>set demo_connect. undisturbed e" by (simp add: demo_connect_def undisturbed_def)
  have w: "was_connected (sdk_run demo_backend (Connect 0 0 # demo_connect) (new_backend (\<lambda>_. Open)))"
    by code_simp
  show ?thesis
    using keeps_trying [of demo_backend demo_connect 0 0 "\<lambda>_. Open"] u w by (simp add: Let_def demo_backend_def split: if_splits)
qed

lemma reconnect_backoff_witness: "reconnect_delay demo_backend 3 \<le> 30000 \<and> reconnect_delay demo_backend 3 = 8000"
  using reconnect_backoff [of demo_backend 3] by (simp add: demo_backend_def reconnect_delay_def)

text \<open>
  Two calls of \<open>connect\<close> at once: the first is connected and replaced, the SDK is closed with the failure
  \<open>REPLACED\<close>, and then the exchange of the second is answered and a new socket is opened, which takes the identity
  back, though nobody called \<open>connect\<close> again.
\<close>

definition overlapping :: "sdk_event list" where
  "overlapping = [Connect 0 0, Connect 9 0] @ demo_connect @ [ConnectionClosed 7 4001 20]"

lemma overlapping_connects_reopen:
  "let s = sdk_run demo_backend overlapping (new_backend (\<lambda>_. Open));
       s' = sdk_run demo_backend [Exchanged 9 (OkBody (Some (JObj [(''data'', JObj [(''token'', JStr ''zga_2'')])]))) 21,
              Resume 9 (Some 8) 21] s
   in sk_state s = SClosed \<and> map_option ei_code (sk_failure s) = Some REPLACED
      \<and> sk_socket s' = Some 8 \<and> last (sk_log s') = NewSocket 8"
  by code_simp

lemma replaced_stands_down_witness:
  "sk_state (sdk_run demo_backend (Connect 0 0 # demo_connect @ [ConnectionClosed 7 4001 20, RetryTimer 1 90000]) (new_backend (\<lambda>_. Open))) = SClosed"
proof -
  let ?s = "sdk_run demo_backend (Connect 0 0 # demo_connect) (new_backend (\<lambda>_. Open))"
  have u: "\<forall>e\<in>set demo_connect. undisturbed e" by (simp add: demo_connect_def undisturbed_def)
  have s: "sk_state ?s = SConnected" "sk_socket ?s = Some 7" by code_simp+
  have "stood_down (filter (\<lambda>x. case x of NewSocket _ \<Rightarrow> True | ExchangeRequest _ \<Rightarrow> True | _ \<Rightarrow> False) (sk_log ?s))
      (sdk_run demo_backend (ConnectionClosed 7 4001 20 # [RetryTimer 1 90000]) ?s)"
    using replaced_stands_down [OF _ u refl s, of "[RetryTimer 1 90000]" 20] by (simp add: demo_backend_def del: sdk_run_simps)
  then show ?thesis by (simp add: stood_down_def sdk_run_def)
qed

end
