(* ===== verification/Sdk_Http.thy ===== *)
theory Sdk_Http
  imports Gw_Http_Proxy Gw_Admin_Api Sdk_Backend
begin

text \<open>
  packages/client/src/channel.ts and socket.ts, the data channel both SDKs use, and \<open>serveHttp\<close> of the
  backend SDK, which answers the gateway's HTTP proxy over one.  Handlers are numbers and what a channel does
  is a log; the URL parser is a parameter.
\<close>

section \<open>Sockets and their URLs\<close>

text \<open>What \<open>new URL\<close> reads from a URL, its protocol and host, or none when it throws.\<close>

type_synonym url_parser = "string \<Rightarrow> (string \<times> string) option"

definition toWsBase :: "url_parser \<Rightarrow> string \<Rightarrow> string option" where
  "toWsBase parse url =
     (case parse url of
        None \<Rightarrow> None
      | Some (protocol, host) \<Rightarrow>
          Some ((if protocol = ''https:'' \<or> protocol = ''wss:'' then ''wss:'' else ''ws:'') @ ''//'' @ host))"

definition toHttpBase :: "url_parser \<Rightarrow> string \<Rightarrow> string option" where
  "toHttpBase parse url =
     (case parse url of
        None \<Rightarrow> None
      | Some (protocol, host) \<Rightarrow>
          Some ((if protocol = ''https:'' \<or> protocol = ''wss:'' then ''https:'' else ''http:'') @ ''//'' @ host))"

text \<open>The payload of a message event: text, an array buffer, or a view of one.\<close>

datatype raw_data = RawText "json option" | ArrayBuffer string | BufferView string nat nat

fun normalizeMessageData :: "raw_data \<Rightarrow> data_frame" where
  "normalizeMessageData (RawText t) = Text t"
| "normalizeMessageData (ArrayBuffer b) = Binary b"
| "normalizeMessageData (BufferView b off len) = Binary (take len (drop off b))"

section \<open>The channel\<close>

datatype chan_out =
    ToMessageHandler nat data_frame
  | ToCloseHandler nat
  | DataSend data_frame
  | DataClose nat

record gchannel =
  gc_channelId :: string
  gc_kind :: "string option"
  gc_messageHandlers :: "nat list"
  gc_closeHandlers :: "nat list"
  gc_closed :: bool
  gc_log :: "chan_out list"

definition new_gchannel :: "string \<Rightarrow> string option \<Rightarrow> gchannel" where
  "new_gchannel channelId kind = \<lparr>gc_channelId = channelId, gc_kind = kind, gc_messageHandlers = [],
     gc_closeHandlers = [], gc_closed = False, gc_log = []\<rparr>"

definition chan_put :: "chan_out list \<Rightarrow> gchannel \<Rightarrow> gchannel" where
  "chan_put xs c = c\<lparr>gc_log := gc_log c @ xs\<rparr>"

definition channel_on_message :: "raw_data \<Rightarrow> gchannel \<Rightarrow> gchannel" where
  "channel_on_message d c = chan_put (map (\<lambda>h. ToMessageHandler h (normalizeMessageData d)) (gc_messageHandlers c)) c"

definition channel_on_close :: "gchannel \<Rightarrow> gchannel" where
  "channel_on_close c =
     (if gc_closed c then c else chan_put (map ToCloseHandler (gc_closeHandlers c)) (c\<lparr>gc_closed := True\<rparr>))"

definition isOpen :: "ready_state \<Rightarrow> gchannel \<Rightarrow> bool" where
  "isOpen ready c \<longleftrightarrow> \<not> gc_closed c \<and> ready = Open"

definition channel_send :: "data_frame \<Rightarrow> gchannel \<Rightarrow> gchannel" where
  "channel_send d c = chan_put [DataSend d] c"

definition onMessage :: "nat \<Rightarrow> gchannel \<Rightarrow> gchannel" where
  "onMessage h c = c\<lparr>gc_messageHandlers := gc_messageHandlers c @ [h]\<rparr>"

definition offMessage :: "nat \<Rightarrow> gchannel \<Rightarrow> gchannel" where
  "offMessage h c = c\<lparr>gc_messageHandlers := filter (\<lambda>k. k \<noteq> h) (gc_messageHandlers c)\<rparr>"

definition onClose :: "nat \<Rightarrow> gchannel \<Rightarrow> gchannel" where
  "onClose h c = c\<lparr>gc_closeHandlers := gc_closeHandlers c @ [h]\<rparr>"

definition offClose :: "nat \<Rightarrow> gchannel \<Rightarrow> gchannel" where
  "offClose h c = c\<lparr>gc_closeHandlers := filter (\<lambda>k. k \<noteq> h) (gc_closeHandlers c)\<rparr>"

definition channel_close :: "gchannel \<Rightarrow> gchannel" where
  "channel_close c = chan_put [DataClose 1000] c"

text \<open>\<open>encodeURIComponent\<close> of text whose characters are below U+0100, in UTF-8.\<close>

definition unreserved :: "char \<Rightarrow> bool" where
  "unreserved c \<longleftrightarrow> c \<in> set (''ABCDEFGHIJKLMNOPQRSTUVWXYZabcdefghijklmnopqrstuvwxyz0123456789-_.!~*'' @ [CHR 0x27] @ ''()'')"

definition hex_char :: "nat \<Rightarrow> char" where
  "hex_char n = ''0123456789ABCDEF'' ! n"

definition encodeURIComponent :: "string \<Rightarrow> string" where
  "encodeURIComponent s = concat (map (\<lambda>c. if unreserved c then [c]
     else concat (map (\<lambda>b. [CHR ''%'', hex_char (b div 16), hex_char (b mod 16)]) (utf8_char c))) s)"

definition dial_url :: "string \<Rightarrow> string \<Rightarrow> string \<Rightarrow> string" where
  "dial_url wsBase dataPath ticket = wsBase @ dataPath @ ''?ticket='' @ encodeURIComponent ticket"

section \<open>Serving HTTP\<close>

record serve_request =
  sq_method :: jsval
  sq_path :: jsval
  sq_headers :: jsval
  sq_body :: string

datatype http_body = BodyText string | BodyBytes string

record serve_response =
  sp_status :: rat
  sp_headers :: "(string \<times> string) list option"
  sp_body :: "http_body option"

text \<open>The handler of one channel: the request's head, the chunks of its body, and the calls it has made.\<close>

record serving =
  sv_meta :: "json option"
  sv_chunks :: "string list"
  sv_calls :: "serve_request list"

definition new_serving :: serving where
  "new_serving = \<lparr>sv_meta = None, sv_chunks = [], sv_calls = []\<rparr>"

definition concat_chunks :: "string list \<Rightarrow> string" where
  "concat_chunks chunks =
     fst (fold (\<lambda>chunk (out, offset). (take offset out @ chunk @ drop (offset + length chunk) out, offset + length chunk))
            chunks (replicate (sum_list (map length chunks)) CHR 0x00, 0))"

text \<open>A message on the channel; text that does not parse, or is null, throws in the listener.\<close>

definition serveHttp :: "data_frame \<Rightarrow> serving \<Rightarrow> unit + serving" where
  "serveHttp m s =
     (case m of
        Binary d \<Rightarrow> Inr (s\<lparr>sv_chunks := sv_chunks s @ [d]\<rparr>)
      | Text None \<Rightarrow> Inl ()
      | Text (Some frame) \<Rightarrow>
          if frame = JNull then Inl ()
          else if js_field frame ''type'' = Some (JStr ''http_request'') then Inr (s\<lparr>sv_meta := Some frame\<rparr>)
          else if js_field frame ''type'' = Some (JStr ''http_request_end'') then
            Inr (case sv_meta s of
                   None \<Rightarrow> s
                 | Some meta \<Rightarrow>
                     s\<lparr>sv_calls := sv_calls s @ [\<lparr>sq_method = js_field meta ''method'', sq_path = js_field meta ''path'',
                        sq_headers = js_field meta ''headers'', sq_body = concat_chunks (sv_chunks s)\<rparr>]\<rparr>)
          else Inr s)"

definition utf8_encode :: "string \<Rightarrow> string" where
  "utf8_encode s = map char_of (concat (map utf8_char s))"

definition body_bytes :: "http_body \<Rightarrow> string" where
  "body_bytes b = (case b of BodyText s \<Rightarrow> utf8_encode s | BodyBytes d \<Rightarrow> d)"

definition response_frame :: "rat \<Rightarrow> (string \<times> string) list \<Rightarrow> json" where
  "response_frame status headers = JObj [(''type'', JStr ''http_response''), (''status'', JNum (NFin status)),
     (''headers'', JObj (map (\<lambda>(k, v). (k, JStr v)) headers))]"

text \<open>The handler settles: with a response, or by throwing.\<close>

definition http_answered :: "serve_response option \<Rightarrow> gchannel \<Rightarrow> gchannel" where
  "http_answered r c =
     channel_close
       (case r of
          None \<Rightarrow> channel_send (Text (Some (response_frame 500 []))) c
        | Some p \<Rightarrow>
            (let c1 = channel_send (Text (Some (response_frame (sp_status p) (or_else (sp_headers p) [])))) c
             in case sp_body p of
                  None \<Rightarrow> c1
                | Some b \<Rightarrow> if body_bytes b \<noteq> [] then channel_send (Binary (body_bytes b)) c1 else c1))"

section \<open>The body is what was sent\<close>

lemma concat_chunks_step:
  "fold (\<lambda>chunk (out, offset). (take offset out @ chunk @ drop (offset + length chunk) out, offset + length chunk))
     chunks (done @ replicate (sum_list (map length chunks)) z, length done)
   = (done @ concat chunks, length (done @ concat chunks))"
proof (induction chunks arbitrary: "done")
  case (Cons x xs)
  from Cons [of "done @ x"] show ?case by (simp add: add.assoc)
qed simp

lemma concat_chunks [simp]: "concat_chunks chunks = concat chunks"
  using concat_chunks_step [of chunks "[]" "CHR 0x00"] by (simp add: concat_chunks_def)

fun serve_all :: "data_frame list \<Rightarrow> serving \<Rightarrow> unit + serving" where
  "serve_all [] s = Inr s"
| "serve_all (f # fs) s = (case serveHttp f s of Inl e \<Rightarrow> Inl e | Inr s' \<Rightarrow> serve_all fs s')"

lemma serve_all_append: "serve_all (xs @ ys) s = (case serve_all xs s of Inl e \<Rightarrow> Inl e | Inr s' \<Rightarrow> serve_all ys s')"
  by (induction xs arbitrary: s) (auto split: sum.split)

lemma serve_body: "serve_all (map Binary ds) s = Inr (s\<lparr>sv_chunks := sv_chunks s @ ds\<rparr>)"
  by (induction ds arbitrary: s) (simp_all add: serveHttp_def)

text \<open>What the gateway has sent on a data socket, as the frames its other end gets.\<close>

definition frame_to :: "ws \<Rightarrow> out \<Rightarrow> data_frame option" where
  "frame_to w x = (case x of
     OFrame v j \<Rightarrow> if v = w then Some (Text (Some j)) else None
   | OBytes v d \<Rightarrow> if v = w then Some (Binary d) else None
   | _ \<Rightarrow> None)"

definition data_frames :: "ws \<Rightarrow> gateway \<Rightarrow> data_frame list" where
  "data_frames w g = List.map_filter (frame_to w) (gw_out g)"

lemma data_frames_emit [simp]:
  "data_frames w (emit x g) = data_frames w g @ (case frame_to w x of None \<Rightarrow> [] | Some f \<Rightarrow> [f])"
  by (simp add: data_frames_def emit_def map_filter_def split: option.split)

lemma data_frames_bridge [simp]: "data_frames w (upd_bridge cid f g) = data_frames w g"
  by (simp add: data_frames_def upd_bridge_def)

definition bridged :: "string \<Rightarrow> ws \<Rightarrow> gateway \<Rightarrow> bool" where
  "bridged cid w g \<longleftrightarrow> (\<exists>br. jm_get (gw_bridges g) cid = Some br \<and> br_ws br = Some w) \<and> gw_ready g w = Open"

lemma data_sent:
  assumes "bridged cid w g"
  shows "bridged cid w (fst (request_data cid d n g)) \<and> data_frames w (fst (request_data cid d n g)) = data_frames w g @ [Binary d]"
  using assms by (auto simp: bridged_def request_data_def Let_def frame_to_def)

lemma body_sent:
  assumes "bridged cid w g"
  shows "bridged cid w (fold (\<lambda>(d, n) g. fst (request_data cid d n g)) body g)
    \<and> data_frames w (fold (\<lambda>(d, n) g. fst (request_data cid d n g)) body g) = data_frames w g @ map Binary (map fst body)"
  using assms
proof (induction body arbitrary: g)
  case (Cons x xs)
  from data_sent [OF Cons.prems, of "fst x" "snd x"] Cons.IH show ?case by (simp add: case_prod_beta)
qed simp

text \<open>
  C30. A proxied request arrives whole: when the gateway bridges a request onto its data socket and its body comes
  in any chunks, with the socket open and whatever its send buffer reports, then what the SDK reads from that
  socket makes \<open>serveHttp\<close> call its handler exactly once, with the request's method and path, the headers the
  gateway lets through, and the concatenation of the chunks as the body.
\<close>

theorem request_delivered:
  assumes "jm_get (gw_bridges g) cid = Some br" and "gw_ready g w = Open" and "data_frames w g = []"
  shows "let sent = data_frames w (request_end cid (fold (\<lambda>(d, n) g. fst (request_data cid d n g)) body (bridgeHttpChannel cf cid w now g)))
    in map_sum (\<lambda>e. e) sv_calls (serve_all sent new_serving) =
      Inr [\<lparr>sq_method = Some (JStr (pq_method (br_request br))), sq_path = Some (JStr (pq_path (br_request br))),
            sq_headers = Some (JObj (request_headers (pq_headers (br_request br)))), sq_body = concat (map fst body)\<rparr>]"
proof -
  let ?b = "bridgeHttpChannel cf cid w now g"
  let ?f = "fold (\<lambda>(d, n) g. fst (request_data cid d n g)) body ?b"
  have b: "bridged cid w ?b" "data_frames w ?b = [Text (Some (http_request_frame (br_request br)))]"
    using assms by (auto simp: bridgeHttpChannel_def frame_to_def) (auto simp: bridged_def upd_bridge_def emit_def)
  have f: "bridged cid w ?f" "data_frames w ?f = Text (Some (http_request_frame (br_request br))) # map Binary (map fst body)"
    using body_sent [OF b(1), of body] b(2) by simp_all
  have "data_frames w (request_end cid ?f) = data_frames w ?f @ [Text (Some (JObj [(''type'', JStr ''http_request_end'')]))]"
    using f(1) by (auto simp: request_end_def bridged_def frame_to_def)
  then show ?thesis
    unfolding Let_def f(2) by (simp add: serve_all_append serve_body serveHttp_def http_request_frame_def new_serving_def del: map_map)
qed

section \<open>The answer is what the handler gave\<close>

text \<open>The frames a channel has sent, and the gateway's bridge reading them with a response that takes every write.\<close>

definition sent_on :: "gchannel \<Rightarrow> data_frame list" where
  "sent_on c = List.map_filter (\<lambda>x. case x of DataSend d \<Rightarrow> Some d | _ \<Rightarrow> None) (gc_log c)"

fun bridge_all :: "config \<Rightarrow> string \<Rightarrow> ws \<Rightarrow> data_frame list \<Rightarrow> int \<Rightarrow> gateway \<Rightarrow> unit + gateway" where
  "bridge_all cf cid w [] now g = Inr g"
| "bridge_all cf cid w (f # fs) now g =
     (case bridge_message cf cid w f True now g of Inl e \<Rightarrow> Inl e | Inr g' \<Rightarrow> bridge_all cf cid w fs now g')"

definition answered_body :: "serve_response \<Rightarrow> string" where
  "answered_body p = (case sp_body p of None \<Rightarrow> [] | Some b \<Rightarrow> body_bytes b)"

lemma sent_answer:
  assumes "gc_log c = []"
  shows "sent_on (http_answered (Some p) c) =
    Text (Some (response_frame (sp_status p) (or_else (sp_headers p) [])))
      # (if answered_body p = [] then [] else [Binary (answered_body p)])"
  using assms by (simp add: sent_on_def http_answered_def answered_body_def channel_close_def channel_send_def chan_put_def
     map_filter_def Let_def split: option.split)

lemma head_relayed:
  assumes br: "jm_get (gw_bridges g) cid = Some br" "\<not> br_metaReceived br"
    and res: "\<not> rs_headersSent (gw_res g (br_res br))" "\<not> rs_writableEnded (gw_res g (br_res br))" "\<not> rs_destroyed (gw_res g (br_res br))"
    and hs: "list_all (\<lambda>(k, v). valid_header_value v) (response_headers (br_request br) m)" and m: "m \<noteq> JNull"
  shows "\<exists>h b. bridge_message cf cid w (Text (Some m)) True now g = Inr h
     \<and> gw_out h = gw_out g @ [OHead (br_res br) (response_status m) (response_headers (br_request br) m)]
     \<and> jm_get (gw_bridges h) cid = Some b \<and> br_metaReceived b \<and> br_res b = br_res br
     \<and> \<not> rs_writableEnded (gw_res h (br_res br)) \<and> \<not> rs_destroyed (gw_res h (br_res br))"
  using assms by (auto simp: bridge_message_def bridge_meta_def Let_def upd_bridge_def header_throws_def write_fails_def
     res_head_def emit_def)

lemma body_relayed:
  assumes "jm_get (gw_bridges g) cid = Some br" "br_metaReceived br"
    and "\<not> rs_writableEnded (gw_res g (br_res br))" "\<not> rs_destroyed (gw_res g (br_res br))"
  shows "\<exists>h b. bridge_message cf cid w (Binary d) True now g = Inr h \<and> gw_out h = gw_out g @ [OWrite (br_res br) d]
     \<and> jm_get (gw_bridges h) cid = Some b \<and> br_metaReceived b \<and> br_res b = br_res br
     \<and> \<not> rs_writableEnded (gw_res h (br_res br)) \<and> \<not> rs_destroyed (gw_res h (br_res br))"
  using assms by (auto simp: bridge_message_def Let_def upd_bridge_def write_fails_def emit_def)

definition extends :: "gateway \<Rightarrow> gateway \<Rightarrow> bool" where
  "extends g h \<longleftrightarrow> (\<exists>rest. gw_out h = gw_out g @ rest)"

lemma extends_refl [simp]: "extends g g"
  by (simp add: extends_def)

lemma extends_trans: "extends g h \<Longrightarrow> extends h k \<Longrightarrow> extends g k"
  by (auto simp: extends_def)

lemma extends_emit [simp]: "extends g (emit x g)"
  by (simp add: extends_def emit_def)

lemma extends_leg [simp]: "extends g (close_leg cf reason leg g)" "extends g (tell_peer sid m g)" "extends g (answer_internal reason ch g)"
  by (auto simp: extends_def close_leg_def tell_peer_def answer_internal_def res_json_def res_destroy_def ws_close_def
      ws_terminate_def emit_def sendToWs_def Let_def split: option.split)

lemma extends_teardown: "extends g (teardownChannel cf cid reason g)"
proof (cases "jm_get (gw_channels g) cid")
  case (Some ch)
  have start: "extends g (g\<lparr>gw_channels := cs, gw_tickets := ts\<rparr>)" for cs ts by (simp add: extends_def)
  from Some show ?thesis
    unfolding teardownChannel_def Let_def option.case
    by (simp only: option.case) (rule extends_trans [OF _ extends_leg(2)] extends_trans [OF _ extends_leg(1)]
      extends_trans [OF _ extends_leg(3)] start)+
qed (simp add: teardownChannel_def)

lemma end_relayed:
  assumes "jm_get (gw_bridges g) cid = Some br" "br_metaReceived br"
    and "\<not> rs_writableEnded (gw_res g (br_res br))" "\<not> rs_destroyed (gw_res g (br_res br))"
  shows "\<exists>rest. gw_out (bridge_closed cf cid g) = gw_out g @ OEnd (br_res br) # rest"
proof -
  define h where "h = (res_end (br_res br) (g\<lparr>gw_bridges := jm_del cid (gw_bridges g)\<rparr>))"
  define k where "k = h\<lparr>gw_channels := jm_upd cid (\<lambda>ch. ch\<lparr>ch_internalRes := None\<rparr>) (gw_channels h)\<rparr>"
  have "gw_out k = gw_out g @ [OEnd (br_res br)]"
    using assms by (simp add: k_def h_def res_end_def emit_def)
  moreover have "bridge_closed cf cid g = teardownChannel cf cid ''closed'' k"
    using assms by (simp add: bridge_closed_def Let_def k_def h_def)
  ultimately show ?thesis using extends_teardown [of k cf cid "''closed''"] by (auto simp: extends_def)
qed

text \<open>
  C31. A proxied response arrives whole: what \<open>serveHttp\<close> sends for the handler's answer, with a status from 100 to 599,
  read by the gateway's bridge before the response began, comes out as the head with that status and the
  headers the gateway lets through, then the body if it is not empty, then, when the channel closes, the end.
\<close>

theorem response_delivered:
  assumes br: "jm_get (gw_bridges g) cid = Some br" "\<not> br_metaReceived br"
    and res: "\<not> rs_headersSent (gw_res g (br_res br))" "\<not> rs_writableEnded (gw_res g (br_res br))" "\<not> rs_destroyed (gw_res g (br_res br))"
    and m: "m = response_frame (of_nat status) (or_else (sp_headers p) [])" and st: "sp_status p = of_nat status" "100 \<le> status" "status \<le> 599"
    and hs: "list_all (\<lambda>(k, v). valid_header_value v) (response_headers (br_request br) m)"
    and c: "gc_log c = []"
  shows "\<exists>h rest. bridge_all cf cid w (sent_on (http_answered (Some p) c)) now g = Inr h
    \<and> gw_out (bridge_closed cf cid h) = gw_out g
        @ OHead (br_res br) status (response_headers (br_request br) m)
        # (if answered_body p = [] then [] else [OWrite (br_res br) (answered_body p)]) @ OEnd (br_res br) # rest"
proof -
  have status: "response_status m = status"
    using st by (simp add: m response_status_def response_frame_def rat_is_int_def)
  have "m \<noteq> JNull" by (simp add: m response_frame_def)
  from head_relayed [OF br res hs this, of cf w now] obtain h b where
    h: "bridge_message cf cid w (Text (Some m)) True now g = Inr h"
      "gw_out h = gw_out g @ [OHead (br_res br) status (response_headers (br_request br) m)]"
      "jm_get (gw_bridges h) cid = Some b" "br_metaReceived b" "br_res b = br_res br"
      "\<not> rs_writableEnded (gw_res h (br_res b))" "\<not> rs_destroyed (gw_res h (br_res b))"
    by (auto simp: status)
  have sent: "sent_on (http_answered (Some p) c) = Text (Some m) # (if answered_body p = [] then [] else [Binary (answered_body p)])"
    by (simp add: sent_answer [OF c] m st)
  show ?thesis
  proof (cases "answered_body p = []")
    case True
    with h end_relayed [OF h(3,4,6,7), of cf] show ?thesis by (auto simp: sent)
  next
    case False
    from body_relayed [OF h(3,4,6,7), of cf w "answered_body p" now] obtain k b' where
      k: "bridge_message cf cid w (Binary (answered_body p)) True now h = Inr k"
        "gw_out k = gw_out h @ [OWrite (br_res br) (answered_body p)]"
        "jm_get (gw_bridges k) cid = Some b'" "br_metaReceived b'" "br_res b' = br_res br"
        "\<not> rs_writableEnded (gw_res k (br_res b'))" "\<not> rs_destroyed (gw_res k (br_res b'))"
      by (auto simp: h(5))
    with h False end_relayed [OF k(3,4,6,7), of cf] show ?thesis by (auto simp: sent)
  qed
qed

definition sample_asked :: gateway where
  "sample_asked = proxyViaChannel sample_config 7 sample_proxy_request ''b1'' 1 sample_host_peer sample_channel_draws 100 sample_online"

lemma request_delivered_witness:
  "let sent = data_frames 8 (request_end ''ch1'' (fold (\<lambda>(d, n) g. fst (request_data ''ch1'' d n g)) [(''ab'', 0), (''c'', 0)]
       (bridgeHttpChannel sample_config ''ch1'' 8 200 sample_asked)))
   in map_sum (\<lambda>e. e) sv_calls (serve_all sent new_serving) =
     Inr [\<lparr>sq_method = Some (JStr ''GET''), sq_path = Some (JStr ''/x''),
           sq_headers = Some (JObj [(''accept'', JStr ''text/html'')]), sq_body = ''abc''\<rparr>]"
proof -
  define br where "br = the (jm_get (gw_bridges sample_asked) ''ch1'')"
  have b: "jm_get (gw_bridges sample_asked) ''ch1'' = Some br" "gw_ready sample_asked 8 = Open" "data_frames 8 sample_asked = []"
    and "br_request br = sample_proxy_request"
    unfolding br_def by code_simp+
  moreover have "request_headers (pq_headers sample_proxy_request) = [(''accept'', JStr ''text/html'')]" by code_simp
  ultimately show ?thesis
    using request_delivered [OF b, where cf = sample_config and now = 200 and body = "[(''ab'', 0), (''c'', 0)]"]
    by (simp only: sample_proxy_request_def proxy_request.simps list.map fst_conv concat.simps append.simps append_Nil2)
qed

definition sample_answer :: serve_response where
  "sample_answer = \<lparr>sp_status = 200, sp_headers = Some [(''content-type'', ''text/html'')], sp_body = Some (BodyText ''hi'')\<rparr>"

lemma response_delivered_witness:
  "\<exists>h rest. bridge_all sample_config ''ch1'' 8 (sent_on (http_answered (Some sample_answer) (new_gchannel ''ch1'' (Some ''http'')))) 300 sample_bridged = Inr h
    \<and> gw_out (bridge_closed sample_config ''ch1'' h) = gw_out sample_bridged
        @ OHead 7 200 [(''content-type'', ''text/html'')] # [OWrite 7 ''hi''] @ OEnd 7 # rest"
proof -
  define br where "br = the (jm_get (gw_bridges sample_bridged) ''ch1'')"
  let ?m = "response_frame (of_nat 200) (or_else (sp_headers sample_answer) [])"
  have b: "jm_get (gw_bridges sample_bridged) ''ch1'' = Some br" "\<not> br_metaReceived br"
    "\<not> rs_headersSent (gw_res sample_bridged (br_res br))" "\<not> rs_writableEnded (gw_res sample_bridged (br_res br))"
    "\<not> rs_destroyed (gw_res sample_bridged (br_res br))"
    and h: "response_headers (br_request br) ?m = [(''content-type'', ''text/html'')]" "br_res br = 7"
    unfolding br_def by code_simp+
  have v: "list_all (\<lambda>(k, v). valid_header_value v) (response_headers (br_request br) ?m)" unfolding h by code_simp
  have s: "sp_status sample_answer = of_nat 200" "100 \<le> (200::nat)" "(200::nat) \<le> 599" by (simp_all add: sample_answer_def)
  have a: "answered_body sample_answer = ''hi''" by code_simp
  have "gc_log (new_gchannel ''ch1'' (Some ''http'')) = []" by (simp add: new_gchannel_def)
  from response_delivered [OF b refl s v this, where cf = sample_config and w = 8 and now = 300] show ?thesis
    by (simp only: h a list.distinct if_False)
qed

end
