(* ===== verification/Sdk_Client.thy ===== *)
theory Sdk_Client
  imports Sdk_Http
begin

text \<open>
  packages/client/src/index.ts: the client SDK, again as a state machine of its own events.  Calls,
  handlers, sockets and channels are numbers; \<open>items\<close> of a registry is an array of objects, as the gateway
  sends it.
\<close>

section \<open>State\<close>

record client_options =
  co_credential :: string
  co_namespace :: string
  co_identity :: "json option"
  co_clientProtocolVersion :: int
  co_reconnect :: bool
  co_reconnectMinMs :: int
  co_reconnectMaxMs :: int

datatype client_state = CIdle | CConnecting | CConnected | CClosed

datatype control_op =
    OpOpen nat string "string option"
  | OpSubscribe nat string string nat
  | OpUnsubscribe nat string string
  | OpResubscribe nat string string

datatype op_error = NotConnected | OpTimedOut | ConnectionLost | DialFailed | Refused jsval jsval

datatype client_stage = COpening nat | CGreeting nat int | CResubscribing "string list"

datatype registry_handler = AppHandler nat | Waiter nat string

datatype client_out =
    COpenSocket nat
  | CSend nat json
  | CCloseSocket nat
  | CState client_state
  | CConnects nat
  | CConnectFails nat
  | RegistryTo nat "json list"
  | WaitResolves nat json
  | WaitRejects nat
  | TopicTo nat jsval
  | CloseChannel nat
  | DialData nat json
  | ChannelFor nat nat
  | Subscribed nat
  | Unsubscribed nat
  | CallFails nat op_error

record client =
  cl_socket :: "nat option"
  cl_state :: client_state
  cl_peerSessionId :: jsval
  cl_registry :: "json list"
  cl_reconnectAttempt :: nat
  cl_userClosed :: bool
  cl_queue :: "control_op list"
  cl_pending :: "(control_op \<times> int) option"
  cl_topicHandlers :: "(string, nat list) jmap"
  cl_registryHandlers :: "registry_handler list"
  cl_waiting :: "(nat \<times> int option) list"
  cl_channels :: "(jsval, nat) jmap"
  cl_dials :: "(nat, jsval) jmap"
  cl_listening :: "nat list"
  cl_runs :: "(nat, asker \<times> client_stage) jmap"
  cl_retries :: "int list"
  cl_log :: "client_out list"

definition new_client :: client where
  "new_client = \<lparr>cl_socket = None, cl_state = CIdle, cl_peerSessionId = Some (JStr []), cl_registry = [],
     cl_reconnectAttempt = 0, cl_userClosed = False, cl_queue = [], cl_pending = None, cl_topicHandlers = [],
     cl_registryHandlers = [], cl_waiting = [], cl_channels = [], cl_dials = [], cl_listening = [], cl_runs = [],
     cl_retries = [], cl_log = []\<rparr>"

definition cput :: "client_out \<Rightarrow> client \<Rightarrow> client" where
  "cput x s = s\<lparr>cl_log := cl_log s @ [x]\<rparr>"

definition client_setState :: "client_state \<Rightarrow> client \<Rightarrow> client" where
  "client_setState st s = cput (CState st) (s\<lparr>cl_state := st\<rparr>)"

section \<open>The registry\<close>

definition item_is :: "string \<Rightarrow> json \<Rightarrow> bool" where
  "item_is backendId item \<longleftrightarrow> js_field item ''backendId'' = Some (JStr backendId)"

text \<open>Every handler of the list at the time of the call is called; a waiter that finds its backend removes itself.\<close>

definition wait_cleanup :: "nat \<Rightarrow> client \<Rightarrow> client" where
  "wait_cleanup n s = s\<lparr>cl_registryHandlers := filter (\<lambda>h. case h of Waiter k _ \<Rightarrow> k \<noteq> n | _ \<Rightarrow> True) (cl_registryHandlers s),
                        cl_waiting := filter (\<lambda>(k, _). k \<noteq> n) (cl_waiting s)\<rparr>"

fun call_registry_handler :: "registry_handler \<Rightarrow> client \<Rightarrow> client" where
  "call_registry_handler (AppHandler n) s = cput (RegistryTo n (cl_registry s)) s"
| "call_registry_handler (Waiter n b) s =
     (case find (item_is b) (cl_registry s) of None \<Rightarrow> s | Some item \<Rightarrow> cput (WaitResolves n item) (wait_cleanup n s))"

definition notify_registry :: "client \<Rightarrow> client" where
  "notify_registry s = fold call_registry_handler (cl_registryHandlers s) s"

definition waitForBackend :: "nat \<Rightarrow> string \<Rightarrow> int option \<Rightarrow> bool \<Rightarrow> int \<Rightarrow> client \<Rightarrow> client" where
  "waitForBackend n backendId timeoutMs aborted now s =
     (case find (item_is backendId) (cl_registry s) of
        Some item \<Rightarrow> cput (WaitResolves n item) s
      | None \<Rightarrow>
          if aborted then cput (WaitRejects n) s
          else s\<lparr>cl_registryHandlers := cl_registryHandlers s @ [Waiter n backendId],
                 cl_waiting := cl_waiting s @ [(n, map_option (\<lambda>ms. now + ms) timeoutMs)]\<rparr>)"

definition wait_timeout :: "nat \<Rightarrow> int \<Rightarrow> client \<Rightarrow> client" where
  "wait_timeout n now s =
     (if list_ex (\<lambda>(k, deadline). k = n \<and> (case deadline of Some d \<Rightarrow> d \<le> now | None \<Rightarrow> False)) (cl_waiting s) then cput (WaitRejects n) (wait_cleanup n s) else s)"

definition wait_abort :: "nat \<Rightarrow> client \<Rightarrow> client" where
  "wait_abort n s = (if n \<in> fst ` set (cl_waiting s) then cput (WaitRejects n) (wait_cleanup n s) else s)"

definition onRegistry :: "nat \<Rightarrow> client \<Rightarrow> client" where
  "onRegistry n s = s\<lparr>cl_registryHandlers := cl_registryHandlers s @ [AppHandler n]\<rparr>"

text \<open>
  \<open>discoverBackends\<close> after its fetch: whether the status is 2xx, the status, and the body, none when it does not parse.  The
  error is what its message is made of: the gateway's code and message, or the status.
\<close>

datatype discover_error = DiscoverRefused json jsval | DiscoverHttp nat

definition discoverBackends :: "bool \<Rightarrow> nat \<Rightarrow> json option \<Rightarrow> discover_error + jsval" where
  "discoverBackends ok status body =
     (if \<not> ok \<or> \<not> js_truthy (opt_field body ''success'') then
        (case opt_field (opt_field body ''error'') ''code'' of
           Some code \<Rightarrow>
             if js_truthy (Some code) then Inl (DiscoverRefused code (opt_field (opt_field body ''error'') ''message''))
             else Inl (DiscoverHttp status)
         | None \<Rightarrow> Inl (DiscoverHttp status))
      else Inr (case opt_field (opt_field body ''data'') ''items'' of
                  None \<Rightarrow> Some (JArr []) | Some JNull \<Rightarrow> Some (JArr []) | Some v \<Rightarrow> Some v))"

section \<open>Topics\<close>

definition topicKey :: "string \<Rightarrow> string \<Rightarrow> string" where
  "topicKey backendId topic = backendId @ [unit_sep] @ topic"

text \<open>\<open>const [backendId, topic] = key.split('\x1f')\<close>.\<close>

definition split_key :: "string \<Rightarrow> string \<times> string" where
  "split_key key = (takeWhile (\<lambda>c. c \<noteq> unit_sep) key, takeWhile (\<lambda>c. c \<noteq> unit_sep) (drop 1 (dropWhile (\<lambda>c. c \<noteq> unit_sep) key)))"

text \<open>
  The iteration over the map's keys of \<open>resubscribeTopics\<close> is live: a key that is added later is visited, one
  that is deleted is not.
\<close>

definition on_iterators :: "(string list \<Rightarrow> string list) \<Rightarrow> client \<Rightarrow> client" where
  "on_iterators f s = s\<lparr>cl_runs := map (\<lambda>(r, (a, st)). (r, (a, case st of CResubscribing ks \<Rightarrow> CResubscribing (f ks) | _ \<Rightarrow> st))) (cl_runs s)\<rparr>"

definition add_topic_handler :: "string \<Rightarrow> nat \<Rightarrow> client \<Rightarrow> client" where
  "add_topic_handler key h s =
     (case jm_get (cl_topicHandlers s) key of
        None \<Rightarrow> on_iterators (\<lambda>ks. ks @ [key]) (s\<lparr>cl_topicHandlers := jm_set key [h] (cl_topicHandlers s)\<rparr>)
      | Some hs \<Rightarrow> s\<lparr>cl_topicHandlers := jm_set key (List.insert h hs) (cl_topicHandlers s)\<rparr>)"

definition topic_message :: "json \<Rightarrow> client \<Rightarrow> client" where
  "topic_message msg s =
     (case (js_field msg ''backendId'', js_field msg ''topic'') of
        (Some (JStr b), Some (JStr t)) \<Rightarrow>
          fold (\<lambda>h. cput (TopicTo h (js_field msg ''payload''))) (or_else (jm_get (cl_topicHandlers s) (topicKey b t)) []) s
      | _ \<Rightarrow> s)"

section \<open>Control operations, one at a time\<close>

fun expects :: "control_op \<Rightarrow> string" where
  "expects (OpOpen _ _ _) = ''channel_ready''"
| "expects (OpSubscribe _ _ _ _) = ''topic_subscribed''"
| "expects (OpUnsubscribe _ _ _) = ''topic_unsubscribed''"
| "expects (OpResubscribe _ _ _) = ''topic_subscribed''"

definition topic_op :: "string \<Rightarrow> string \<Rightarrow> string \<Rightarrow> json" where
  "topic_op type backendId topic = JObj [(''type'', JStr type), (''backendId'', JStr backendId), (''topic'', JStr topic)]"

fun op_message :: "control_op \<Rightarrow> json" where
  "op_message (OpOpen _ target kind) = JObj ([(''type'', JStr ''channel_open''), (''target'', JStr target)]
     @ (case kind of Some k \<Rightarrow> [(''kind'', JStr k)] | None \<Rightarrow> []))"
| "op_message (OpSubscribe _ b t _) = topic_op ''topic_subscribe'' b t"
| "op_message (OpUnsubscribe _ b t) = topic_op ''topic_unsubscribe'' b t"
| "op_message (OpResubscribe _ b t) = topic_op ''topic_subscribe'' b t"

text \<open>The next key of a run's \<open>resubscribeTopics\<close>, or the end of the run.\<close>

definition resubscribe_next :: "nat \<Rightarrow> client \<Rightarrow> client" where
  "resubscribe_next r s =
     (case jm_get (cl_runs s) r of
        Some (a, CResubscribing (key # ks)) \<Rightarrow>
          s\<lparr>cl_runs := jm_set r (a, CResubscribing ks) (cl_runs s),
            cl_queue := cl_queue s @ [OpResubscribe r (fst (split_key key)) (snd (split_key key))]\<rparr>
      | Some (a, CResubscribing []) \<Rightarrow>
          (let s1 = s\<lparr>cl_runs := jm_del r (cl_runs s)\<rparr>
           in case a of ByConnect \<Rightarrow> cput (CConnects r) s1 | ByRetry \<Rightarrow> s1)
      | _ \<Rightarrow> s)"

text \<open>What the caller of an operation does with its outcome.\<close>

fun op_settled :: "control_op \<Rightarrow> op_error + json \<Rightarrow> client \<Rightarrow> client" where
  "op_settled (OpOpen c target kind) (Inr msg) s =
     cput (DialData c msg) (s\<lparr>cl_dials := jm_set c (js_field msg ''channelId'') (cl_dials s)\<rparr>)"
| "op_settled (OpOpen c target kind) (Inl e) s = cput (CallFails c e) s"
| "op_settled (OpSubscribe c b t h) (Inr msg) s = cput (Subscribed c) (add_topic_handler (topicKey b t) h s)"
| "op_settled (OpSubscribe c b t h) (Inl e) s = cput (CallFails c e) s"
| "op_settled (OpUnsubscribe c b t) r s = cput (Unsubscribed c) s"
| "op_settled (OpResubscribe r b t) res s = resubscribe_next r s"

definition usable :: "client \<Rightarrow> nat option" where
  "usable s = (if cl_state s = CConnected then cl_socket s else None)"

text \<open>The queue of operations runs when none is pending; what it still has to do is the measure of its end.\<close>

definition keys_left :: "client \<Rightarrow> nat" where
  "keys_left s = sum_list (map (\<lambda>(r, (a, st)). case st of CResubscribing ks \<Rightarrow> length ks | _ \<Rightarrow> 0) (cl_runs s))"

lemma keys_left_set:
  "jm_get m r = Some (a, CResubscribing (k # ks)) \<Longrightarrow>
   sum_list (map (\<lambda>(r, (a, st)). case st of CResubscribing ks \<Rightarrow> length ks | _ \<Rightarrow> 0) m) =
   Suc (sum_list (map (\<lambda>(r, (a, st)). case st of CResubscribing ks \<Rightarrow> length ks | _ \<Rightarrow> 0) (jm_set r (a, CResubscribing ks) m)))"
  by (induction m) (auto simp: jm_get_def jm_set_def split: if_splits)

lemma keys_left_del:
  "sum_list (map (\<lambda>(r, (a, st)). case st of CResubscribing ks \<Rightarrow> length ks | _ \<Rightarrow> 0) (jm_del r m)) \<le>
   sum_list (map (\<lambda>(r, (a, st)). case st of CResubscribing ks \<Rightarrow> length ks | _ \<Rightarrow> (0::nat)) m)"
  by (induction m) (auto simp: jm_del_def AList.delete_eq)

lemma resubscribe_work: "length (cl_queue (resubscribe_next r s)) + keys_left (resubscribe_next r s) \<le> length (cl_queue s) + keys_left s"
  by (auto simp: resubscribe_next_def keys_left_def keys_left_set keys_left_del Let_def cput_def
      split: option.split client_stage.split list.split asker.split)

lemma failed_work: "length (cl_queue (op_settled op (Inl e) s)) + keys_left (op_settled op (Inl e) s) \<le> length (cl_queue s) + keys_left s"
  using resubscribe_work by (cases op) (auto simp: cput_def keys_left_def)

function drain :: "int \<Rightarrow> client \<Rightarrow> client" where
  "drain now s =
     (if cl_pending s \<noteq> None then s
      else case cl_queue s of
             [] \<Rightarrow> s
           | op # ops \<Rightarrow>
               (case usable s of
                  Some w \<Rightarrow> cput (CSend w (op_message op)) (s\<lparr>cl_queue := ops, cl_pending := Some (op, now + 10000)\<rparr>)
                | None \<Rightarrow> drain now (op_settled op (Inl NotConnected) (s\<lparr>cl_queue := ops\<rparr>))))"
  by auto
termination
proof (relation "measure (\<lambda>(now, s). length (cl_queue s) + keys_left s)")
  fix now :: int and s :: client and op ops
  assume "cl_queue s = op # ops"
  with failed_work [of op NotConnected "s\<lparr>cl_queue := ops\<rparr>"]
  show "((now, op_settled op (Inl NotConnected) (s\<lparr>cl_queue := ops\<rparr>)), (now, s)) \<in> measure (\<lambda>(now, s). length (cl_queue s) + keys_left s)"
    by (simp add: keys_left_def)
qed simp

declare drain.simps [simp del]

definition controlOp :: "control_op \<Rightarrow> int \<Rightarrow> client \<Rightarrow> client" where
  "controlOp op now s = drain now (s\<lparr>cl_queue := cl_queue s @ [op]\<rparr>)"

text \<open>The pending operation settles; its caller goes on, then the next one starts.\<close>

definition settle_op :: "op_error + json \<Rightarrow> int \<Rightarrow> client \<Rightarrow> client" where
  "settle_op res now s =
     (case cl_pending s of
        None \<Rightarrow> s
      | Some (op, _) \<Rightarrow> drain now (op_settled op res (s\<lparr>cl_pending := None\<rparr>)))"

definition settlePending :: "string \<Rightarrow> json \<Rightarrow> int \<Rightarrow> client \<Rightarrow> client" where
  "settlePending type msg now s =
     (case cl_pending s of
        None \<Rightarrow> s
      | Some (op, _) \<Rightarrow> if expects op = type then settle_op (Inr msg) now s else s)"

definition op_timeout :: "int \<Rightarrow> client \<Rightarrow> client" where
  "op_timeout now s =
     (case cl_pending s of
        None \<Rightarrow> s
      | Some (op, deadline) \<Rightarrow> if deadline \<le> now then settle_op (Inl OpTimedOut) now s else s)"

definition openChannel :: "nat \<Rightarrow> string \<Rightarrow> string option \<Rightarrow> int \<Rightarrow> client \<Rightarrow> client" where
  "openChannel c target kind now s = controlOp (OpOpen c target kind) now s"

text \<open>The data socket of a call is up, as a channel by its number, or the dial failed.\<close>

definition channel_dialled :: "nat \<Rightarrow> nat option \<Rightarrow> client \<Rightarrow> client" where
  "channel_dialled c made s =
     (case jm_get (cl_dials s) c of
        None \<Rightarrow> s
      | Some channelId \<Rightarrow>
          (let s1 = s\<lparr>cl_dials := jm_del c (cl_dials s)\<rparr>
           in case made of
                None \<Rightarrow> cput (CallFails c DialFailed) s1
              | Some n \<Rightarrow> cput (ChannelFor c n) (s1\<lparr>cl_channels := jm_set channelId n (cl_channels s1)\<rparr>)))"

definition channel_ended :: "jsval \<Rightarrow> client \<Rightarrow> client" where
  "channel_ended channelId s = s\<lparr>cl_channels := jm_del channelId (cl_channels s)\<rparr>"

definition subscribeTopic :: "nat \<Rightarrow> string \<Rightarrow> string \<Rightarrow> nat \<Rightarrow> int \<Rightarrow> client \<Rightarrow> client" where
  "subscribeTopic c backendId topic h now s = controlOp (OpSubscribe c backendId topic h) now s"

text \<open>The function \<open>subscribeTopic\<close> resolves with.\<close>

definition unsubscribe :: "nat \<Rightarrow> string \<Rightarrow> string \<Rightarrow> nat \<Rightarrow> int \<Rightarrow> client \<Rightarrow> client" where
  "unsubscribe c backendId topic h now s =
     (let key = topicKey backendId topic
      in case jm_get (cl_topicHandlers s) key of
           None \<Rightarrow> cput (Unsubscribed c) s
         | Some hs \<Rightarrow>
             (let hs' = filter (\<lambda>k. k \<noteq> h) hs
              in if hs' \<noteq> [] then cput (Unsubscribed c) (s\<lparr>cl_topicHandlers := jm_set key hs' (cl_topicHandlers s)\<rparr>)
                 else controlOp (OpUnsubscribe c backendId topic) now
                        (on_iterators (filter (\<lambda>k. k \<noteq> key)) (s\<lparr>cl_topicHandlers := jm_del key (cl_topicHandlers s)\<rparr>))))"

section \<open>Connecting\<close>

definition client_delay :: "client_options \<Rightarrow> nat \<Rightarrow> int" where
  "client_delay co n = min (co_reconnectMinMs co * 2 ^ n) (co_reconnectMaxMs co)"

definition client_scheduleReconnect :: "client_options \<Rightarrow> int \<Rightarrow> client \<Rightarrow> client" where
  "client_scheduleReconnect co now s =
     s\<lparr>cl_reconnectAttempt := cl_reconnectAttempt s + 1,
       cl_retries := cl_retries s @ [now + client_delay co (cl_reconnectAttempt s)]\<rparr>"

text \<open>A run rejects: \<open>connect\<close> rejects, the retry loop schedules again.  Nothing else is undone.\<close>

definition client_rejects :: "client_options \<Rightarrow> nat \<Rightarrow> asker \<Rightarrow> int \<Rightarrow> client \<Rightarrow> client" where
  "client_rejects co r a now s =
     (let s1 = s\<lparr>cl_runs := jm_del r (cl_runs s)\<rparr>
      in case a of ByConnect \<Rightarrow> cput (CConnectFails r) s1 | ByRetry \<Rightarrow> client_scheduleReconnect co now s1)"

definition client_establish :: "client_options \<Rightarrow> nat \<Rightarrow> asker \<Rightarrow> nat option \<Rightarrow> int \<Rightarrow> client \<Rightarrow> client" where
  "client_establish co r a made now s =
     (let s1 = client_setState CConnecting s
      in case made of
           None \<Rightarrow> client_rejects co r a now s1
         | Some w \<Rightarrow> cput (COpenSocket w) (s1\<lparr>cl_socket := Some w, cl_runs := jm_set r (a, COpening w) (cl_runs s1)\<rparr>))"

definition client_connect :: "client_options \<Rightarrow> nat \<Rightarrow> nat option \<Rightarrow> int \<Rightarrow> client \<Rightarrow> client" where
  "client_connect co r made now s =
     (if cl_state s = CConnected \<or> cl_state s = CConnecting then cput (CConnects r) s
      else client_establish co r ByConnect made now (s\<lparr>cl_userClosed := False\<rparr>))"

definition client_hello :: "client_options \<Rightarrow> json" where
  "client_hello co = JObj
     ([(''type'', JStr ''peer_hello''), (''protocolVersion'', JNum (NFin 4)), (''namespace'', JStr (co_namespace co)),
       (''clientProtocolVersion'', JNum (NFin (of_int (co_clientProtocolVersion co)))), (''peerType'', JStr ''client-only''),
       (''gatewaySecret'', JStr (co_credential co))]
      @ (case co_identity co of Some i \<Rightarrow> [(''identity'', i)] | None \<Rightarrow> []))"

definition client_opened :: "client_options \<Rightarrow> nat \<Rightarrow> int \<Rightarrow> client \<Rightarrow> client" where
  "client_opened co r now s =
     (case jm_get (cl_runs s) r of
        Some (a, COpening w) \<Rightarrow>
          cput (CSend w (client_hello co)) (s\<lparr>cl_runs := jm_set r (a, CGreeting w (now + 10000)) (cl_runs s)\<rparr>)
      | _ \<Rightarrow> s)"

definition client_open_failed :: "client_options \<Rightarrow> nat \<Rightarrow> int \<Rightarrow> client \<Rightarrow> client" where
  "client_open_failed co r now s =
     (case jm_get (cl_runs s) r of Some (a, COpening w) \<Rightarrow> client_rejects co r a now s | _ \<Rightarrow> s)"

definition client_greet_timeout :: "client_options \<Rightarrow> nat \<Rightarrow> int \<Rightarrow> client \<Rightarrow> client" where
  "client_greet_timeout co r now s =
     (case jm_get (cl_runs s) r of
        Some (a, CGreeting w deadline) \<Rightarrow> if deadline \<le> now then client_rejects co r a now s else s
      | _ \<Rightarrow> s)"

definition items_of :: "jsval \<Rightarrow> json list" where
  "items_of v = (case v of Some (JArr items) \<Rightarrow> items | _ \<Rightarrow> [])"

definition client_ready :: "nat \<Rightarrow> asker \<Rightarrow> nat \<Rightarrow> json list \<Rightarrow> int \<Rightarrow> client \<Rightarrow> client" where
  "client_ready r a w items now s =
     (let s1 = s\<lparr>cl_registry := items, cl_listening := cl_listening s @ [w], cl_reconnectAttempt := 0\<rparr>;
          s2 = notify_registry (client_setState CConnected s1)
      in drain now (resubscribe_next r
           (s2\<lparr>cl_runs := jm_set r (a, CResubscribing (jm_keys (cl_topicHandlers s2))) (cl_runs s2)\<rparr>)))"

text \<open>A text frame that parses, before the session is there; null throws in the listener and settles nothing.\<close>

definition client_greeted :: "client_options \<Rightarrow> nat \<Rightarrow> json \<Rightarrow> int \<Rightarrow> client \<Rightarrow> client" where
  "client_greeted co r msg now s =
     (case jm_get (cl_runs s) r of
        Some (a, CGreeting w deadline) \<Rightarrow>
          if js_field msg ''type'' = Some (JStr ''peer_ready'') then
            (let s1 = s\<lparr>cl_peerSessionId := js_field msg ''peerSessionId''\<rparr>
             in case js_field msg ''registrySync'' of
                  Some sync \<Rightarrow> if sync = JNull then client_rejects co r a now s1
                               else client_ready r a w (items_of (js_field sync ''items'')) now s1
                | None \<Rightarrow> client_rejects co r a now s1)
          else if js_field msg ''type'' = Some (JStr ''gateway_error'') then client_rejects co r a now s
          else s
      | _ \<Rightarrow> s)"

section \<open>The session\<close>

definition close_channels :: "client \<Rightarrow> client" where
  "close_channels s = (fold (\<lambda>n. cput (CloseChannel n)) (jm_vals (cl_channels s)) s)\<lparr>cl_channels := []\<rparr>"

text \<open>A text frame on a socket the session listens to; one that does not parse is ignored, and null throws.\<close>

definition routeMessage :: "nat \<Rightarrow> json \<Rightarrow> int \<Rightarrow> client \<Rightarrow> client" where
  "routeMessage w msg now s =
     (if w \<notin> set (cl_listening s) then s
      else case js_field msg ''type'' of
        Some (JStr t) \<Rightarrow>
          if t = ''registry_snapshot'' then notify_registry (s\<lparr>cl_registry := items_of (js_field msg ''items'')\<rparr>)
          else if t = ''topic_message'' then topic_message msg s
          else if t = ''channel_closed'' then
            (case jm_get (cl_channels s) (js_field msg ''channelId'') of
               None \<Rightarrow> s
             | Some n \<Rightarrow> cput (CloseChannel n) (s\<lparr>cl_channels := jm_del (js_field msg ''channelId'') (cl_channels s)\<rparr>))
          else if t \<in> {''channel_ready'', ''topic_subscribed'', ''topic_unsubscribed''} then settlePending t msg now s
          else if t = ''gateway_error'' then settle_op (Inl (Refused (js_field msg ''code'') (js_field msg ''message''))) now s
          else s
      | _ \<Rightarrow> s)"

text \<open>
  The close event of a socket of a session, which happens once.  What waits for the pending operation goes on
  after the handler has returned.
\<close>

definition client_handleClose :: "client_options \<Rightarrow> nat \<Rightarrow> int \<Rightarrow> client \<Rightarrow> client" where
  "client_handleClose co w now s =
     (if w \<notin> set (cl_listening s) then s
      else
        let s1 = close_channels (s\<lparr>cl_listening := filter (\<lambda>v. v \<noteq> w) (cl_listening s), cl_socket := None, cl_pending := None\<rparr>);
            s2 = (if cl_userClosed s \<or> \<not> co_reconnect co then client_setState CClosed s1
                  else if cl_state s = CConnected \<or> cl_state s = CConnecting
                  then client_scheduleReconnect co now (client_setState CConnecting s1)
                  else s1)
        in case cl_pending s of
             None \<Rightarrow> s2
           | Some (op, _) \<Rightarrow> drain now (op_settled op (Inl ConnectionLost) s2))"

definition client_retry_fires :: "client_options \<Rightarrow> nat \<Rightarrow> nat option \<Rightarrow> int \<Rightarrow> client \<Rightarrow> client" where
  "client_retry_fires co r made now s =
     (case List.extract (\<lambda>d. d \<le> now) (cl_retries s) of
        None \<Rightarrow> s
      | Some (before, d, after) \<Rightarrow>
          (let s1 = s\<lparr>cl_retries := before @ after\<rparr>
           in if cl_userClosed s then s1 else client_establish co r ByRetry made now s1))"

definition client_close :: "client \<Rightarrow> client" where
  "client_close s =
     (let s1 = close_channels (client_setState CClosed (s\<lparr>cl_userClosed := True\<rparr>))
      in (case cl_socket s1 of Some w \<Rightarrow> cput (CCloseSocket w) s1 | None \<Rightarrow> s1)\<lparr>cl_socket := None\<rparr>)"

section \<open>Events\<close>

datatype client_event =
    EConnect nat "nat option" int
  | EOpened nat int
  | EOpenFailed nat int
  | EGreeting nat json int
  | EGreetTimeout nat int
  | EMessage nat json int
  | ESocketClosed nat int
  | ERetry nat "nat option" int
  | EOpTimeout int
  | EOpenChannel nat string "string option" int
  | ESubscribe nat string string nat int
  | EUnsubscribe nat string string nat int
  | EDialled nat "nat option"
  | EChannelEnded jsval
  | EWaitFor nat string "int option" bool int
  | EWaitTimeout nat int
  | EWaitAbort nat
  | EOnRegistry nat
  | EClose

text \<open>Runs, sockets and waits keep the numbers their events give them.\<close>

definition new_socket :: "nat option \<Rightarrow> client \<Rightarrow> bool" where
  "new_socket made s \<longleftrightarrow> (case made of None \<Rightarrow> True | Some w \<Rightarrow> COpenSocket w \<notin> set (cl_log s))"

fun client_do :: "client_options \<Rightarrow> client_event \<Rightarrow> client \<Rightarrow> client" where
  "client_do co (EConnect r made now) s = (if jm_has (cl_runs s) r \<or> \<not> new_socket made s then s else client_connect co r made now s)"
| "client_do co (EOpened r now) s = client_opened co r now s"
| "client_do co (EOpenFailed r now) s = client_open_failed co r now s"
| "client_do co (EGreeting r m now) s = client_greeted co r m now s"
| "client_do co (EGreetTimeout r now) s = client_greet_timeout co r now s"
| "client_do co (EMessage w m now) s = routeMessage w m now s"
| "client_do co (ESocketClosed w now) s = client_handleClose co w now s"
| "client_do co (ERetry r made now) s =
     (if jm_has (cl_runs s) r \<or> \<not> new_socket made s then s else client_retry_fires co r made now s)"
| "client_do co (EOpTimeout now) s = op_timeout now s"
| "client_do co (EOpenChannel c t k now) s = openChannel c t k now s"
| "client_do co (ESubscribe c b t h now) s = subscribeTopic c b t h now s"
| "client_do co (EUnsubscribe c b t h now) s = unsubscribe c b t h now s"
| "client_do co (EDialled c made) s = channel_dialled c made s"
| "client_do co (EChannelEnded ch) s = channel_ended ch s"
| "client_do co (EWaitFor n b t ab now) s = (if n \<in> fst ` set (cl_waiting s) then s else waitForBackend n b t ab now s)"
| "client_do co (EWaitTimeout n now) s = wait_timeout n now s"
| "client_do co (EWaitAbort n) s = wait_abort n s"
| "client_do co (EOnRegistry n) s = onRegistry n s"
| "client_do co EClose s = client_close s"

definition client_run :: "client_options \<Rightarrow> client_event list \<Rightarrow> client \<Rightarrow> client" where
  "client_run co evs s = fold (client_do co) evs s"

lemma client_run_simps [simp]:
  "client_run co [] s = s" "client_run co (e # evs) s = client_run co evs (client_do co e s)"
  by (simp_all add: client_run_def)

end
