(* ===== verification/Sdk_Client_Facts.thy ===== *)
theory Sdk_Client_Facts
  imports Sdk_Client
begin

text \<open>
  What the client SDK guarantees: its control operations are served first come first served and all end, no
  waiter misses its backend, and after a reconnection every topic is subscribed again; and four ways in which
  a session goes wrong.
\<close>

section \<open>Operations are served in order\<close>

definition todo :: "client \<Rightarrow> control_op list" where
  "todo s = (case cl_pending s of None \<Rightarrow> [] | Some (op, _) \<Rightarrow> [op]) @ cl_queue s"

text \<open>The call an operation belongs to, and the calls whose operation has ended, in order.\<close>

fun op_call :: "control_op \<Rightarrow> nat option" where
  "op_call (OpOpen c _ _) = Some c"
| "op_call (OpSubscribe c _ _ _) = Some c"
| "op_call _ = None"

fun outcome :: "client_out \<Rightarrow> nat option" where
  "outcome (DialData c _) = Some c"
| "outcome (Subscribed c) = Some c"
| "outcome (CallFails c e) = (if e = DialFailed then None else Some c)"
| "outcome _ = None"

definition outcomes :: "client \<Rightarrow> nat list" where
  "outcomes s = List.map_filter outcome (cl_log s)"

text \<open>A queue is served: operations leave at the front, with their outcome, and come in at the back.\<close>

definition served :: "client \<Rightarrow> client \<Rightarrow> bool" where
  "served s s' \<longleftrightarrow> (\<exists>gone new. todo s @ new = gone @ todo s' \<and> outcomes s' = outcomes s @ List.map_filter op_call gone)"

lemma served_refl [simp]: "served s s"
  unfolding served_def by (rule exI [of _ "[]"], rule exI [of _ "[]"]) (simp add: map_filter_def)

lemma served_trans: "served s t \<Longrightarrow> served t u \<Longrightarrow> served s u"
proof -
  assume "served s t" "served t u"
  then obtain d1 n1 d2 n2 where "todo s @ n1 = d1 @ todo t" "outcomes t = outcomes s @ List.map_filter op_call d1"
    "todo t @ n2 = d2 @ todo u" "outcomes u = outcomes t @ List.map_filter op_call d2"
    unfolding served_def by blast
  then have "todo s @ (n1 @ n2) = (d1 @ d2) @ todo u" "outcomes u = outcomes s @ List.map_filter op_call (d1 @ d2)"
    by (metis append.assoc, simp add: map_filter_def)
  then show ?thesis unfolding served_def by blast
qed

text \<open>Steps that leave the operations alone.\<close>

definition same_ops :: "client \<Rightarrow> client \<Rightarrow> bool" where
  "same_ops s t \<longleftrightarrow> cl_pending t = cl_pending s \<and> cl_queue t = cl_queue s \<and> outcomes t = outcomes s"

lemma same_served: "same_ops s t \<Longrightarrow> served s t"
  unfolding served_def same_ops_def by (rule exI [of _ "[]"], rule exI [of _ "[]"]) (simp add: todo_def map_filter_def)

lemma same_refl [simp]: "same_ops s s"
  by (simp add: same_ops_def)

lemma same_trans: "same_ops s t \<Longrightarrow> same_ops t u \<Longrightarrow> same_ops s u"
  by (simp add: same_ops_def)

lemma outcomes_put [simp]: "outcomes (cput x s) = outcomes s @ (case outcome x of None \<Rightarrow> [] | Some c \<Rightarrow> [c])"
  by (simp add: outcomes_def cput_def map_filter_def split: option.split)

lemma outcomes_fields [simp]:
  "outcomes (s\<lparr>cl_queue := a\<rparr>) = outcomes s" "outcomes (s\<lparr>cl_pending := b\<rparr>) = outcomes s" "outcomes (s\<lparr>cl_runs := c\<rparr>) = outcomes s"
  "outcomes (s\<lparr>cl_registryHandlers := d\<rparr>) = outcomes s" "outcomes (s\<lparr>cl_waiting := e\<rparr>) = outcomes s"
  "outcomes (s\<lparr>cl_topicHandlers := f\<rparr>) = outcomes s" "outcomes (s\<lparr>cl_channels := g\<rparr>) = outcomes s"
  "outcomes (s\<lparr>cl_dials := h\<rparr>) = outcomes s" "outcomes (s\<lparr>cl_listening := i\<rparr>) = outcomes s" "outcomes (s\<lparr>cl_socket := j\<rparr>) = outcomes s"
  "outcomes (s\<lparr>cl_state := k\<rparr>) = outcomes s" "outcomes (s\<lparr>cl_registry := l\<rparr>) = outcomes s" "outcomes (s\<lparr>cl_retries := m\<rparr>) = outcomes s"
  "outcomes (s\<lparr>cl_reconnectAttempt := n\<rparr>) = outcomes s" "outcomes (s\<lparr>cl_userClosed := p\<rparr>) = outcomes s"
  "outcomes (s\<lparr>cl_peerSessionId := q\<rparr>) = outcomes s"
  by (simp_all add: outcomes_def)

lemma put_fields [simp]:
  "cl_pending (cput x s) = cl_pending s" "cl_queue (cput x s) = cl_queue s" "cl_runs (cput x s) = cl_runs s"
  "cl_registry (cput x s) = cl_registry s" "cl_registryHandlers (cput x s) = cl_registryHandlers s"
  "cl_waiting (cput x s) = cl_waiting s" "cl_topicHandlers (cput x s) = cl_topicHandlers s" "cl_channels (cput x s) = cl_channels s"
  "cl_state (cput x s) = cl_state s" "cl_socket (cput x s) = cl_socket s" "cl_listening (cput x s) = cl_listening s"
  "cl_userClosed (cput x s) = cl_userClosed s" "cl_retries (cput x s) = cl_retries s" "cl_dials (cput x s) = cl_dials s"
  by (simp_all add: cput_def)

lemma same_fold: "(\<And>x s. same_ops s (f x s)) \<Longrightarrow> same_ops s (fold f xs s)"
  by (induction xs arbitrary: s) (auto intro: same_trans)

lemma same_put: "outcome x = None \<Longrightarrow> same_ops s (cput x s)"
  by (simp add: same_ops_def)

lemma same_call_handler: "same_ops s (call_registry_handler h s)"
  by (cases h) (auto simp: same_ops_def wait_cleanup_def split: option.split)

lemma same_notify: "same_ops s (notify_registry s)"
  by (simp add: notify_registry_def same_fold same_call_handler)

lemma same_topic: "same_ops s (topic_message m s)"
  by (auto simp: topic_message_def same_fold same_put split: option.split json.split)

lemma same_close: "same_ops s (close_channels s)"
proof -
  have "same_ops s (fold (\<lambda>n. cput (CloseChannel n)) (jm_vals (cl_channels s)) s)" by (simp add: same_fold same_put)
  then show ?thesis by (simp add: close_channels_def same_ops_def)
qed

lemma same_state: "same_ops s (client_setState st s)"
  by (simp add: client_setState_def same_ops_def)

text \<open>An operation that ends.\<close>

lemma resubscribe_served: "\<exists>new. cl_queue (resubscribe_next r s) = cl_queue s @ new \<and> cl_pending (resubscribe_next r s) = cl_pending s
   \<and> outcomes (resubscribe_next r s) = outcomes s"
  by (auto simp: resubscribe_next_def Let_def split: option.split client_stage.split list.split asker.split)

lemma settled_ops:
  assumes "res \<noteq> Inl DialFailed"
  shows "\<exists>new. cl_queue (op_settled op res s) = cl_queue s @ new \<and> cl_pending (op_settled op res s) = cl_pending s
   \<and> outcomes (op_settled op res s) = outcomes s @ List.map_filter op_call [op]"
  using assms resubscribe_served
  by (cases op; cases res)
    (auto simp: map_filter_def add_topic_handler_def on_iterators_def split: option.split)

lemma served_front:
  assumes "todo s = op # cl_queue t" and "cl_pending t = None" and "outcomes t = outcomes s" and "res \<noteq> Inl DialFailed"
  shows "served s (op_settled op res t)"
proof -
  obtain new where new: "cl_queue (op_settled op res t) = cl_queue t @ new" "cl_pending (op_settled op res t) = None"
      "outcomes (op_settled op res t) = outcomes s @ List.map_filter op_call [op]"
    using settled_ops [OF assms(4), of op t] assms(2,3) by auto
  then have "todo s @ new = [op] @ todo (op_settled op res t)" by (simp add: assms(1)) (simp add: todo_def)
  with new(3) show ?thesis unfolding served_def by blast
qed

lemma drain_served: "served s (drain now s)"
proof (induction now s rule: drain.induct)
  case (1 now s)
  show ?case
  proof (cases "cl_pending s = None \<and> cl_queue s \<noteq> []")
    case False
    then show ?thesis by (subst drain.simps) (auto split: list.split)
  next
    case True
    then obtain op ops where q: "cl_queue s = op # ops" "cl_pending s = None" by (cases "cl_queue s") auto
    show ?thesis
    proof (cases "usable s")
      case None
      have "served s (op_settled op (Inl NotConnected) (s\<lparr>cl_queue := ops\<rparr>))"
        by (rule served_front) (simp_all add: q todo_def)
      with 1 q None served_trans show ?thesis by (subst drain.simps) auto
    next
      case (Some w)
      then have "drain now s = cput (CSend w (op_message op)) (s\<lparr>cl_queue := ops, cl_pending := Some (op, now + 10000)\<rparr>)"
        by (subst drain.simps) (simp add: q)
      then show ?thesis
        unfolding served_def by (intro exI [of _ "[]"]) (simp add: todo_def q map_filter_def)
    qed
  qed
qed

lemma drain_idle: "cl_pending (drain now s) = None \<Longrightarrow> cl_queue (drain now s) = []"
proof (induction now s rule: drain.induct)
  case (1 now s)
  then show ?case
    by (subst (asm) drain.simps, subst drain.simps) (auto split: if_splits list.splits option.splits)
qed

text \<open>A change of other fields before an operation is served.\<close>

lemma same_then: "same_ops s t \<Longrightarrow> served t u \<Longrightarrow> served s u"
  by (rule served_trans [OF same_served])

lemma served_settle: "res \<noteq> Inl DialFailed \<Longrightarrow> served s (settle_op res now s)"
proof (cases "cl_pending s")
  case (Some p)
  assume res: "res \<noteq> Inl DialFailed"
  have "served s (op_settled (fst p) res (s\<lparr>cl_pending := None\<rparr>))"
    by (rule served_front) (use Some res in \<open>simp_all add: todo_def case_prod_beta\<close>)
  with Some show ?thesis by (cases p) (simp add: settle_op_def served_trans drain_served)
qed (simp add: settle_op_def)

lemma served_control: "served s (controlOp op now s)"
proof -
  have "served s (s\<lparr>cl_queue := cl_queue s @ [op]\<rparr>)"
    unfolding served_def by (rule exI [of _ "[]"], rule exI [of _ "[op]"]) (simp add: todo_def map_filter_def)
  then show ?thesis unfolding controlOp_def by (rule served_trans) (rule drain_served)
qed

lemma served_resubscribe: "served s (resubscribe_next r s)"
proof -
  from resubscribe_served [of r s] obtain new where
    "cl_queue (resubscribe_next r s) = cl_queue s @ new" "cl_pending (resubscribe_next r s) = cl_pending s"
    "outcomes (resubscribe_next r s) = outcomes s" by blast
  then show ?thesis unfolding served_def by (intro exI [of _ "[]"] exI [of _ new]) (simp add: todo_def map_filter_def)
qed

lemma same_rejects: "same_ops s (client_rejects co r a now s)"
  by (simp add: client_rejects_def same_ops_def client_scheduleReconnect_def Let_def split: asker.split)

lemma same_establish: "same_ops s (client_establish co r a made now s)"
proof (cases made)
  case None
  then show ?thesis by (simp add: client_establish_def same_trans [OF same_state same_rejects])
next
  case (Some w)
  have "same_ops (client_setState CConnecting s) (client_establish co r a made now s)"
    by (simp add: Some client_establish_def same_ops_def Let_def)
  then show ?thesis using same_trans same_state by blast
qed

lemma same_connecting:
  "same_ops s (client_connect co r made now s)" "same_ops s (client_opened co r now s)" "same_ops s (client_open_failed co r now s)"
  "same_ops s (client_greet_timeout co r now s)" "same_ops s (client_retry_fires co r made now s)"
proof -
  have "same_ops s (client_establish co r a made now (s\<lparr>cl_userClosed := b\<rparr>))" for a b
    by (rule same_trans [OF _ same_establish]) (simp add: same_ops_def)
  then show "same_ops s (client_connect co r made now s)" by (simp add: client_connect_def same_put)
  show "same_ops s (client_opened co r now s)"
    by (simp add: client_opened_def same_ops_def split: option.split client_stage.split)
  show "same_ops s (client_open_failed co r now s)" "same_ops s (client_greet_timeout co r now s)"
    by (simp_all add: client_open_failed_def client_greet_timeout_def same_rejects split: option.split client_stage.split)
  have "same_ops s (client_establish co r a made now (s\<lparr>cl_retries := b\<rparr>))" for a b
    by (rule same_trans [OF _ same_establish]) (simp add: same_ops_def)
  then show "same_ops s (client_retry_fires co r made now s)"
    by (simp add: client_retry_fires_def same_ops_def Let_def split: option.split)
qed

lemma served_ready: "served s (client_ready r a w items now s)"
proof -
  let ?s1 = "s\<lparr>cl_registry := items, cl_listening := cl_listening s @ [w], cl_reconnectAttempt := 0\<rparr>"
  let ?s2 = "notify_registry (client_setState CConnected ?s1)"
  have "same_ops s ?s1" by (simp add: same_ops_def)
  then have "same_ops s ?s2" by (rule same_trans [OF same_trans [OF _ same_state] same_notify])
  then have "same_ops s (?s2\<lparr>cl_runs := rs\<rparr>)" for rs by (simp add: same_ops_def)
  then show ?thesis unfolding client_ready_def Let_def
    by (rule same_then) (rule served_trans [OF served_resubscribe drain_served])
qed

lemma served_greeted: "served s (client_greeted co r m now s)"
proof -
  have 1: "served s (client_ready r a w items now (s\<lparr>cl_peerSessionId := x\<rparr>))" for a w items x
    by (rule same_then [OF _ served_ready]) (simp add: same_ops_def)
  have 2: "served s (client_rejects co r a now (s\<lparr>cl_peerSessionId := x\<rparr>))" for a x
    by (rule same_then [OF _ same_served [OF same_rejects]]) (simp add: same_ops_def)
  show ?thesis
    by (simp add: client_greeted_def 1 2 same_served [OF same_rejects] Let_def split: option.split client_stage.split)
qed

lemma served_route: "served s (routeMessage w m now s)"
proof -
  have "same_ops s (notify_registry (s\<lparr>cl_registry := x\<rparr>))" for x
    by (rule same_trans [OF _ same_notify]) (simp add: same_ops_def)
  moreover have "same_ops s (cput (CloseChannel n) (s\<lparr>cl_channels := x\<rparr>))" for n x
    by (simp add: same_ops_def)
  moreover have "served s (settlePending t m now s)" for t
    by (simp add: settlePending_def served_settle split: option.split)
  ultimately show ?thesis
    by (simp add: routeMessage_def same_served same_topic served_settle split: option.split json.split)
qed

lemma served_lost: "served s (client_handleClose co w now s)"
proof (cases "w \<in> set (cl_listening s)")
  case True
  let ?s1 = "close_channels (s\<lparr>cl_listening := filter (\<lambda>v. v \<noteq> w) (cl_listening s), cl_socket := None, cl_pending := None\<rparr>)"
  let ?s2 = "if cl_userClosed s \<or> \<not> co_reconnect co then client_setState CClosed ?s1
    else if cl_state s = CConnected \<or> cl_state s = CConnecting then client_scheduleReconnect co now (client_setState CConnecting ?s1) else ?s1"
  have "same_ops (s\<lparr>cl_pending := None\<rparr>) ?s1" using same_close by (simp add: same_ops_def)
  then have s2: "same_ops (s\<lparr>cl_pending := None\<rparr>) ?s2"
    using same_state by (simp add: same_ops_def client_scheduleReconnect_def)
  show ?thesis
  proof (cases "cl_pending s")
    case None
    then have "s\<lparr>cl_pending := None\<rparr> = s" by simp
    with s2 None True show ?thesis by (simp add: client_handleClose_def Let_def same_served)
  next
    case (Some p)
    have "served s (op_settled (fst p) (Inl ConnectionLost) ?s2)"
      by (rule served_front) (use s2 Some in \<open>simp_all add: same_ops_def todo_def case_prod_beta\<close>)
    with Some True show ?thesis
      by (cases p) (simp add: client_handleClose_def Let_def served_trans [OF _ drain_served])
  qed
qed (simp add: client_handleClose_def)

lemma same_calls:
  "same_ops s (channel_dialled c made s)" "same_ops s (channel_ended ch s)" "same_ops s (waitForBackend n b t ab now s)"
  "same_ops s (wait_timeout n now s)" "same_ops s (wait_abort n s)" "same_ops s (onRegistry n s)" "same_ops s (client_close s)"
proof -
  have 1: "same_ops s (close_channels (client_setState CClosed (s\<lparr>cl_userClosed := True\<rparr>)))"
    using same_close same_state same_trans by (simp add: same_ops_def)
  then show "same_ops s (client_close s)"
    by (auto simp: client_close_def same_ops_def Let_def split: option.split)
qed (auto simp: channel_dialled_def channel_ended_def waitForBackend_def wait_timeout_def wait_abort_def onRegistry_def
       wait_cleanup_def same_ops_def Let_def split: option.split)

lemma same_on_iterators [simp]:
  "cl_pending (on_iterators f s) = cl_pending s" "cl_queue (on_iterators f s) = cl_queue s" "outcomes (on_iterators f s) = outcomes s"
  by (simp_all add: on_iterators_def)

lemma served_unsubscribe: "served s (unsubscribe c b t h now s)"
proof -
  have "served s (controlOp op now (on_iterators f (s\<lparr>cl_topicHandlers := x\<rparr>)))" for op f x
    by (rule same_then [OF _ served_control]) (simp add: same_ops_def)
  then show ?thesis
    by (auto simp: unsubscribe_def Let_def split: option.split intro: same_served simp: same_ops_def)
qed

lemma served_step: "served s (client_do co e s)"
  by (cases e) (simp_all add: served_control openChannel_def subscribeTopic_def same_served same_connecting served_greeted
      served_route served_lost same_calls served_unsubscribe op_timeout_def served_settle split: option.split)

interpretation fifo: event_preorder "client_do co" served for co
  by unfold_locales (simp, erule (1) served_trans, rule served_step)

text \<open>
  C32. The client SDK is a first-come first-served queue with one control operation in flight: whatever happens,
  operations only leave at the front of what is to be done and come in at its back, and every call whose
  operation leaves has its outcome exactly then, in that order.
\<close>

theorem operations_in_order: "served s (client_run co evs s)"
  unfolding client_run_def by (rule fifo.run_rel)

section \<open>Every operation ends\<close>

definition not_stuck :: "client \<Rightarrow> bool" where
  "not_stuck s \<longleftrightarrow> (cl_pending s = None \<longrightarrow> cl_queue s = [])"

lemma not_stuck_same: "same_ops s t \<Longrightarrow> not_stuck s \<Longrightarrow> not_stuck t"
  by (simp add: same_ops_def not_stuck_def)

lemma not_stuck_drain [simp]: "not_stuck (drain now s)" "not_stuck (controlOp op now s)"
  by (simp_all add: not_stuck_def drain_idle controlOp_def)

lemma not_stuck_settle: "not_stuck s \<Longrightarrow> not_stuck (settle_op res now s)"
  by (simp add: settle_op_def split: option.split)

lemma not_stuck_route:
  assumes "not_stuck s"
  shows "not_stuck (routeMessage w m now s)"
proof -
  have "not_stuck (notify_registry (s\<lparr>cl_registry := x\<rparr>))" for x
    by (rule not_stuck_same [OF same_notify]) (use assms in \<open>simp add: not_stuck_def\<close>)
  moreover have "not_stuck (topic_message m s)" by (rule not_stuck_same [OF same_topic assms])
  moreover have "not_stuck (cput (CloseChannel n) (s\<lparr>cl_channels := x\<rparr>))" for n x
    using assms by (simp add: not_stuck_def)
  moreover have "not_stuck (settlePending t m now s)" for t
    using assms by (simp add: settlePending_def not_stuck_settle split: option.split)
  ultimately show ?thesis
    using assms by (simp add: routeMessage_def not_stuck_settle split: option.split json.split)
qed

lemma not_stuck_greeted: "not_stuck s \<Longrightarrow> not_stuck (client_greeted co r m now s)"
  by (auto simp: client_greeted_def client_ready_def Let_def split: option.split client_stage.split
      intro!: not_stuck_same [OF same_rejects]) (simp_all add: not_stuck_def)

lemma not_stuck_lost:
  assumes "not_stuck s"
  shows "not_stuck (client_handleClose co w now s)"
proof (cases "cl_pending s")
  case None
  then have "cl_queue s = []" using assms by (simp add: not_stuck_def)
  let ?s1 = "close_channels (s\<lparr>cl_listening := filter (\<lambda>v. v \<noteq> w) (cl_listening s), cl_socket := None, cl_pending := None\<rparr>)"
  have "cl_queue ?s1 = []" using same_close [of "s\<lparr>cl_listening := filter (\<lambda>v. v \<noteq> w) (cl_listening s), cl_socket := None, cl_pending := None\<rparr>"]
    \<open>cl_queue s = []\<close> by (simp add: same_ops_def)
  then have "not_stuck ?s1" "not_stuck (client_setState st ?s1)" "not_stuck (client_scheduleReconnect co now (client_setState st ?s1))" for st
    by (simp_all add: not_stuck_def client_setState_def client_scheduleReconnect_def)
  with assms None show ?thesis by (simp add: client_handleClose_def Let_def)
next
  case (Some p)
  with assms show ?thesis by (cases p) (simp add: client_handleClose_def Let_def)
qed

lemma not_stuck_step: "not_stuck s \<Longrightarrow> not_stuck (client_do co e s)"
proof (cases e)
  case (EUnsubscribe c b t h now)
  then show "not_stuck s \<Longrightarrow> not_stuck (client_do co e s)"
    by (simp add: unsubscribe_def Let_def split: option.split) (simp add: not_stuck_def)
qed (auto simp: openChannel_def subscribeTopic_def not_stuck_route not_stuck_greeted not_stuck_lost op_timeout_def
       not_stuck_settle split: option.split
     intro: not_stuck_same [OF same_connecting(1)] not_stuck_same [OF same_connecting(2)] not_stuck_same [OF same_connecting(3)]
       not_stuck_same [OF same_connecting(4)] not_stuck_same [OF same_connecting(5)] not_stuck_same [OF same_calls(1)]
       not_stuck_same [OF same_calls(2)] not_stuck_same [OF same_calls(3)] not_stuck_same [OF same_calls(4)]
       not_stuck_same [OF same_calls(5)] not_stuck_same [OF same_calls(6)] not_stuck_same [OF same_calls(7)])

interpretation progress: event_machine "client_do co" "\<lambda>_. True" not_stuck for co
  by unfold_locales (rule not_stuck_step)

lemma not_stuck_runs: "not_stuck s \<Longrightarrow> not_stuck (client_run co evs s)"
  unfolding client_run_def by (rule progress.run_inv) simp_all

text \<open>What is to be done, the keys the runs have still to subscribe included.\<close>

definition work :: "client \<Rightarrow> nat" where
  "work s = length (todo s) + keys_left s"

lemma keys_left_put [simp]:
  "keys_left (cput x s) = keys_left s" "keys_left (s\<lparr>cl_queue := q\<rparr>) = keys_left s" "keys_left (s\<lparr>cl_pending := p\<rparr>) = keys_left s"
  by (simp_all add: keys_left_def)

lemma work_failed: "cl_pending s = None \<Longrightarrow> e \<noteq> DialFailed \<Longrightarrow> work (op_settled op (Inl e) s) \<le> work s"
  using failed_work [of op e s] settled_ops [of "Inl e" op s] by (auto simp: work_def todo_def)

lemma drain_work: "work (drain now s) \<le> work s"
proof (induction now s rule: drain.induct)
  case (1 now s)
  show ?case
  proof (cases "cl_pending s = None \<and> cl_queue s \<noteq> []")
    case False
    then show ?thesis by (subst drain.simps) (auto split: list.split)
  next
    case True
    then obtain op ops where q: "cl_queue s = op # ops" "cl_pending s = None" by (cases "cl_queue s") auto
    show ?thesis
    proof (cases "usable s")
      case None
      have "work (op_settled op (Inl NotConnected) (s\<lparr>cl_queue := ops\<rparr>)) \<le> work (s\<lparr>cl_queue := ops\<rparr>)"
        by (rule work_failed) (simp_all add: q)
      also have "\<dots> \<le> work s" by (simp add: work_def todo_def q)
      finally show ?thesis using 1 q None by (subst drain.simps) auto
    next
      case (Some w)
      then show ?thesis by (subst drain.simps) (simp add: q work_def todo_def)
    qed
  qed
qed

lemma timeout_work:
  assumes "cl_pending s = Some (op, d)"
  shows "work (op_timeout d s) < work s"
proof -
  have "work (op_timeout d s) \<le> work (op_settled op (Inl OpTimedOut) (s\<lparr>cl_pending := None\<rparr>))"
    using assms drain_work by (simp add: op_timeout_def settle_op_def)
  also have "\<dots> \<le> work (s\<lparr>cl_pending := None\<rparr>)" by (rule work_failed) simp_all
  also have "\<dots> < work s" by (simp add: work_def todo_def assms)
  finally show ?thesis .
qed

lemma ops_end_from: "not_stuck s \<Longrightarrow> \<exists>ts. length ts \<le> work s \<and> todo (client_run co (map EOpTimeout ts) s) = []"
proof (induction "work s" arbitrary: s rule: less_induct)
  case less
  show ?case
  proof (cases "cl_pending s")
    case None
    with less.prems have "todo (client_run co (map EOpTimeout []) s) = []" by (simp add: not_stuck_def todo_def)
    then show ?thesis by (metis le0 list.size(3))
  next
    case (Some p)
    then obtain op d where p: "cl_pending s = Some (op, d)" by (cases p) auto
    have "not_stuck (op_timeout d s)" using not_stuck_step [OF less.prems, of co "EOpTimeout d"] by simp
    with less.hyps [OF timeout_work [OF p]] obtain ts where
      ts: "length ts \<le> work (op_timeout d s)" "todo (client_run co (map EOpTimeout ts) (op_timeout d s)) = []" by blast
    with timeout_work [OF p] have "length (d # ts) \<le> work s" "todo (client_run co (map EOpTimeout (d # ts)) s) = []" by simp_all
    then show ?thesis by blast
  qed
qed

text \<open>
  C33. No call waits for ever: in any state the SDK can be in, if the gateway never answers again, at most as many
  timeouts as there are operations and topics still to subscribe leave nothing to be done.
\<close>

theorem operations_end:
  "let s = client_run co evs new_client
   in \<exists>ts. length ts \<le> length (todo s) + keys_left s \<and> todo (client_run co (map EOpTimeout ts) s) = []"
proof -
  have "not_stuck new_client" by (simp add: not_stuck_def new_client_def)
  then show ?thesis using ops_end_from [OF not_stuck_runs] by (simp add: work_def Let_def)
qed

section \<open>After a reconnection\<close>

definition sends :: "client \<Rightarrow> client_out list" where
  "sends s = filter (\<lambda>x. case x of CSend _ _ \<Rightarrow> True | _ \<Rightarrow> False) (cl_log s)"

lemma sends_put [simp]: "sends (cput x s) = sends s @ (case x of CSend _ _ \<Rightarrow> [x] | _ \<Rightarrow> [])"
  by (simp add: sends_def cput_def split: client_out.split)

lemma takeWhile_sep: "unit_sep \<notin> set b \<Longrightarrow> takeWhile (\<lambda>c. c \<noteq> unit_sep) (b @ unit_sep # t) = b"
  by (induction b) auto

lemma dropWhile_sep: "unit_sep \<notin> set b \<Longrightarrow> dropWhile (\<lambda>c. c \<noteq> unit_sep) (b @ unit_sep # t) = unit_sep # t"
  by (induction b) auto

lemma takeWhile_no_sep: "unit_sep \<notin> set t \<Longrightarrow> takeWhile (\<lambda>c. c \<noteq> unit_sep) t = t"
  by (induction t) auto

lemma split_topicKey [simp]: "unit_sep \<notin> set b \<Longrightarrow> unit_sep \<notin> set t \<Longrightarrow> split_key (topicKey b t) = (b, t)"
  by (simp add: split_key_def topicKey_def takeWhile_sep dropWhile_sep takeWhile_no_sep)

text \<open>What the notification of the registry leaves alone.\<close>

definition same_session :: "client \<Rightarrow> client \<Rightarrow> bool" where
  "same_session s t \<longleftrightarrow> cl_topicHandlers t = cl_topicHandlers s \<and> cl_runs t = cl_runs s \<and> cl_pending t = cl_pending s
     \<and> cl_queue t = cl_queue s \<and> cl_socket t = cl_socket s \<and> cl_state t = cl_state s \<and> cl_listening t = cl_listening s \<and> sends t = sends s"

lemma session_notify: "same_session s (notify_registry s)"
proof -
  have h: "same_session s (call_registry_handler h s)" for h s
    by (cases h) (auto simp: same_session_def wait_cleanup_def sends_def cput_def split: option.split)
  have "same_session s (fold call_registry_handler hs s)" for hs s
  proof (induction hs arbitrary: s)
    case (Cons x xs)
    from Cons [of "call_registry_handler x s"] h [of s x] show ?case by (simp add: same_session_def)
  qed (simp add: same_session_def)
  then show ?thesis by (simp add: notify_registry_def)
qed

definition resubscribing :: "nat \<Rightarrow> asker \<Rightarrow> nat \<Rightarrow> string list \<Rightarrow> client \<Rightarrow> bool" where
  "resubscribing r a w ks s \<longleftrightarrow> jm_get (cl_runs s) r = Some (a, CResubscribing ks) \<and> cl_pending s = None \<and> cl_queue s = []
     \<and> usable s = Some w \<and> w \<in> set (cl_listening s)"

definition subscribe_sent :: "nat \<Rightarrow> string \<Rightarrow> client_out" where
  "subscribe_sent w key = CSend w (topic_op ''topic_subscribe'' (fst (split_key key)) (snd (split_key key)))"

lemma usable_Some: "usable s = Some w \<longleftrightarrow> cl_state s = CConnected \<and> cl_socket s = Some w"
  by (simp add: usable_def)

lemma resubscribe_loop:
  assumes "resubscribing r a w ks s" and "length ms = length ks"
    and "\<forall>m\<in>set ms. js_field m ''type'' = Some (JStr ''topic_subscribed'')"
  shows "let t = fold (\<lambda>m. routeMessage w m now) ms (drain now (resubscribe_next r s))
    in sends t = sends s @ map (subscribe_sent w) ks \<and> jm_get (cl_runs t) r = None \<and> todo t = []"
  using assms
proof (induction ks arbitrary: s ms)
  case Nil
  then show ?case
    by (cases a) (auto simp: resubscribing_def resubscribe_next_def drain.simps todo_def sends_def cput_def)
next
  case (Cons k ks)
  then obtain m ms' where ms: "ms = m # ms'" "length ms' = length ks" "js_field m ''type'' = Some (JStr ''topic_subscribed'')"
      "\<forall>m\<in>set ms'. js_field m ''type'' = Some (JStr ''topic_subscribed'')"
    by (cases ms) auto
  define op where "op = OpResubscribe r (fst (split_key k)) (snd (split_key k))"
  define t where "t = cput (subscribe_sent w k) (s\<lparr>cl_runs := jm_set r (a, CResubscribing ks) (cl_runs s), cl_queue := []\<rparr>)"
  have u: "cl_state s = CConnected" "cl_socket s = Some w"
    using Cons.prems(1) unfolding resubscribing_def by (metis usable_Some)+
  have t: "resubscribing r a w ks t" "sends t = sends s @ [subscribe_sent w k]"
    using Cons.prems(1) u by (auto simp: t_def resubscribing_def usable_def subscribe_sent_def) (simp_all add: sends_def)
  have "drain now (resubscribe_next r s) = t\<lparr>cl_pending := Some (op, now + 10000)\<rparr>"
    using Cons.prems(1) u
    by (simp add: resubscribing_def resubscribe_next_def op_def t_def usable_def drain.simps subscribe_sent_def cput_def)
  moreover have "routeMessage w m now (t\<lparr>cl_pending := Some (op, now + 10000)\<rparr>) = drain now (resubscribe_next r t)"
  proof -
    have "t\<lparr>cl_pending := None\<rparr> = t" "w \<in> set (cl_listening t)" using t(1) by (simp_all add: resubscribing_def)
    then show ?thesis
      by (simp add: routeMessage_def ms(3) settlePending_def settle_op_def op_def)
  qed
  ultimately show ?case
    using Cons.IH [OF t(1) ms(2,4)] t(2) by (simp add: ms(1) Let_def)
qed

text \<open>
  C35. A new session gets all its topics back: when a handshake succeeds with nothing to be done, the SDK subscribes,
  one after the other as the gateway confirms them, to every topic it has handlers for, and then the run is
  over, provided no backend id or topic has the unit separator in it.
\<close>

theorem resubscribes_all:
  assumes "jm_get (cl_runs s) r = Some (a, CGreeting w d)" and "cl_socket s = Some w" and "todo s = []"
    and "js_field msg ''type'' = Some (JStr ''peer_ready'')" and "js_field msg ''registrySync'' = Some (JObj sync)"
    and "jm_keys (cl_topicHandlers s) = map (\<lambda>(b, t). topicKey b t) topics"
    and "\<forall>(b, t)\<in>set topics. unit_sep \<notin> set b \<and> unit_sep \<notin> set t"
    and "length replies = length topics" and "\<forall>m\<in>set replies. js_field m ''type'' = Some (JStr ''topic_subscribed'')"
  shows "let t = fold (\<lambda>m. routeMessage w m now) replies (client_greeted co r msg now s)
    in sends t = sends s @ map (\<lambda>(b, t). CSend w (topic_op ''topic_subscribe'' b t)) topics
       \<and> jm_get (cl_runs t) r = None \<and> todo t = []"
proof -
  define s1 where "s1 = client_setState CConnected (s\<lparr>cl_peerSessionId := js_field msg ''peerSessionId'',
    cl_registry := items_of (map_of sync ''items''), cl_listening := cl_listening s @ [w], cl_reconnectAttempt := 0\<rparr>)"
  define s2 where "s2 = notify_registry s1"
  define s3 where "s3 = s2\<lparr>cl_runs := jm_set r (a, CResubscribing (jm_keys (cl_topicHandlers s2))) (cl_runs s2)\<rparr>"
  have s2: "same_session s1 s2" by (simp add: s2_def session_notify)
  have g: "client_greeted co r msg now s = drain now (resubscribe_next r s3)"
    using assms(1,4,5) by (simp add: client_greeted_def client_ready_def Let_def s3_def s2_def s1_def)
  have keys: "cl_topicHandlers s2 = cl_topicHandlers s" "sends s3 = sends s"
    using s2 by (simp_all add: same_session_def s1_def s3_def client_setState_def) (simp_all add: sends_def cput_def)
  have "resubscribing r a w (jm_keys (cl_topicHandlers s)) s3"
    using s2 assms(2,3) keys by (auto simp: resubscribing_def same_session_def s1_def s3_def client_setState_def usable_def todo_def split: option.splits)
  from resubscribe_loop [OF this _ assms(9), of now] assms(6,8)
  have "let t = fold (\<lambda>m. routeMessage w m now) replies (client_greeted co r msg now s)
    in sends t = sends s @ map (subscribe_sent w) (jm_keys (cl_topicHandlers s)) \<and> jm_get (cl_runs t) r = None \<and> todo t = []"
    by (simp add: g keys)
  moreover have "map (subscribe_sent w) (jm_keys (cl_topicHandlers s)) = map (\<lambda>(b, t). CSend w (topic_op ''topic_subscribe'' b t)) topics"
    using assms(6,7) by (auto simp: subscribe_sent_def)
  ultimately show ?thesis by simp
qed

section \<open>Four ways to lose a session\<close>

definition ready_reply :: "string \<Rightarrow> json" where
  "ready_reply sid = JObj [(''type'', JStr ''peer_ready''), (''peerSessionId'', JStr sid), (''registrySync'', JObj [(''items'', JArr [])])]"

lemmas client_steps = client_connect_def client_establish_def client_opened_def client_greeted_def client_ready_def
  client_close_def client_handleClose_def client_retry_fires_def client_open_failed_def client_greet_timeout_def client_rejects_def
  client_scheduleReconnect_def client_setState_def close_channels_def resubscribe_next_def notify_registry_def
  new_socket_def jm_has_def items_of_def jm_keys_def jm_vals_def

text \<open>
  A reopened SDK loses its new session to its old socket: after close and connect, the close event of the
  first socket, which comes when the closing handshake is done, takes the new socket away and sets a retry,
  although nothing is wrong with it; the new session then comes up connected with no socket, so that every
  operation on it is refused, and the retry opens a third socket.
\<close>

theorem stale_close_kills_session:
  assumes "co_reconnect co" and "w \<noteq> v" and "v \<noteq> u" and "w \<noteq> u" and "0 \<le> co_reconnectMinMs co" and "0 \<le> co_reconnectMaxMs co"
  shows "let s = client_run co [EConnect 0 (Some w) 0, EOpened 0 0, EGreeting 0 (ready_reply ''a'') 0, EClose,
        EConnect 1 (Some v) 0, ESocketClosed w 0, EOpened 1 0, EGreeting 1 (ready_reply ''b'') 0] new_client
    in cl_state s = CConnected \<and> cl_socket s = None \<and> \<not> cl_userClosed s \<and> usable s = None
       \<and> COpenSocket u \<in> set (cl_log (client_do co (ERetry 2 (Some u) (client_delay co 0)) s))"
  using assms
  by (simp add: client_steps new_client_def ready_reply_def Let_def drain.simps usable_def cput_def extract_Cons_code)

text \<open>
  Late replies go to the wrong call: when opening one channel has timed out and the next is pending, the
  gateway's late answer to the first makes the second call dial the first one's channel.
\<close>

theorem late_reply_misattributed:
  assumes "cl_state s = CConnected" and "cl_socket s = Some w" and "w \<in> set (cl_listening s)" and "todo s = []"
    and "js_field late ''type'' = Some (JStr ''channel_ready'')"
  shows "let t = client_run co [EOpenChannel 1 ''A'' None now, EOpTimeout (now + 10000), EOpenChannel 2 ''B'' None (now + 10000),
        EMessage w late (now + 10001)] s
    in cl_log t = cl_log s @ [CSend w (op_message (OpOpen 1 ''A'' None)), CallFails 1 OpTimedOut,
         CSend w (op_message (OpOpen 2 ''B'' None)), DialData 2 late]"
proof -
  have "cl_pending s = None" "cl_queue s = []" using assms(4) by (cases "cl_pending s", auto simp: todo_def)
  with assms show ?thesis
    by (simp add: openChannel_def controlOp_def drain.simps usable_def cput_def op_timeout_def settle_op_def
        routeMessage_def settlePending_def)
qed

text \<open>
  A failed connect is not retried by calling it again: the state stays connecting, so the second call resolves
  although there is no session, no socket was opened, and nothing is under way.
\<close>

theorem failed_connect_sticks:
  "let s = client_run co [EConnect 0 (Some w) 0, EOpenFailed 0 0, EConnect 1 None 0] new_client
   in cl_log s = [CState CConnecting, COpenSocket w, CConnectFails 0, CConnects 1]
      \<and> cl_runs s = [] \<and> cl_retries s = []"
  by (simp add: client_steps new_client_def Let_def cput_def)

text \<open>
  A failed handshake leaves its socket open: a retry that the gateway does not answer in time ends in another
  retry, and the socket it opened is never closed.
\<close>

theorem failed_retry_leaks_socket:
  assumes "cl_retries s = [d]" and "\<not> cl_userClosed s" and "cl_runs s = []" and "COpenSocket w \<notin> set (cl_log s)"
  shows "let t = client_run co [ERetry r (Some w) d, EOpened r d, EGreetTimeout r (d + 10000)] s
    in cl_log t = cl_log s @ [CState CConnecting, COpenSocket w, CSend w (client_hello co)]
       \<and> cl_runs t = [] \<and> cl_retries t = [d + 10000 + client_delay co (cl_reconnectAttempt s)]"
  using assms by (simp add: client_steps Let_def cput_def extract_Cons_code)

section \<open>Waiting for a backend\<close>

definition waiter_id :: "registry_handler \<Rightarrow> nat option" where
  "waiter_id h = (case h of Waiter n _ \<Rightarrow> Some n | AppHandler _ \<Rightarrow> None)"

text \<open>Each call that waits has its one handler, and its backend is not in the registry.\<close>

definition waits_ok :: "client \<Rightarrow> bool" where
  "waits_ok s \<longleftrightarrow> List.map_filter waiter_id (cl_registryHandlers s) = map fst (cl_waiting s) \<and> distinct (map fst (cl_waiting s))
     \<and> (\<forall>n b. Waiter n b \<in> set (cl_registryHandlers s) \<longrightarrow> find (item_is b) (cl_registry s) = None)"

definition same_waits :: "client \<Rightarrow> client \<Rightarrow> bool" where
  "same_waits s t \<longleftrightarrow> cl_registryHandlers t = cl_registryHandlers s \<and> cl_waiting t = cl_waiting s \<and> cl_registry t = cl_registry s"

lemma waits_same: "same_waits s t \<Longrightarrow> waits_ok s \<Longrightarrow> waits_ok t"
  by (simp add: same_waits_def waits_ok_def)

lemma same_waits_trans: "same_waits s t \<Longrightarrow> same_waits t u \<Longrightarrow> same_waits s u"
  by (simp add: same_waits_def)

lemma same_waits_settled: "same_waits s (op_settled op res s)"
  by (cases op; cases res) (auto simp: same_waits_def add_topic_handler_def on_iterators_def resubscribe_next_def Let_def
     split: option.split client_stage.split list.split asker.split)

lemma same_waits_drain: "same_waits s (drain now s)"
proof (induction now s rule: drain.induct)
  case (1 now s)
  have "same_waits s (op_settled op (Inl NotConnected) (s\<lparr>cl_queue := ops\<rparr>))" for op ops
    using same_waits_settled by (simp add: same_waits_def)
  then show ?case
    using 1 same_waits_trans by (subst drain.simps) (auto simp: same_waits_def split: list.split option.split)
qed

lemma waits_cleanup: "waits_ok s \<Longrightarrow> waits_ok (wait_cleanup n s)"
proof -
  have "List.map_filter waiter_id (filter (\<lambda>h. case h of Waiter k _ \<Rightarrow> k \<noteq> n | _ \<Rightarrow> True) hs) = filter (\<lambda>k. k \<noteq> n) (List.map_filter waiter_id hs)" for hs
    by (induction hs) (auto simp: map_filter_def waiter_id_def split: registry_handler.split)
  moreover have "map fst (filter (\<lambda>(k, _). k \<noteq> n) ws) = filter (\<lambda>k. k \<noteq> n) (map fst ws)" for ws :: "(nat \<times> int option) list"
    by (induction ws) auto
  ultimately show "waits_ok s \<Longrightarrow> waits_ok (wait_cleanup n s)" by (simp add: waits_ok_def wait_cleanup_def) blast
qed

text \<open>A new registry is told to every handler, and those whose backend is there are gone.\<close>

definition found_in :: "client \<Rightarrow> registry_handler \<Rightarrow> bool" where
  "found_in s h \<longleftrightarrow> (\<exists>n b. h = Waiter n b \<and> find (item_is b) (cl_registry s) \<noteq> None)"

lemma call_handler_effect:
  "cl_registry (call_registry_handler h s) = cl_registry s
   \<and> (if found_in s h
      then cl_registryHandlers (call_registry_handler h s) = cl_registryHandlers (wait_cleanup (the (waiter_id h)) s)
         \<and> cl_waiting (call_registry_handler h s) = cl_waiting (wait_cleanup (the (waiter_id h)) s)
      else cl_registryHandlers (call_registry_handler h s) = cl_registryHandlers s \<and> cl_waiting (call_registry_handler h s) = cl_waiting s)"
  by (cases h) (auto simp: found_in_def waiter_id_def wait_cleanup_def split: option.split)

definition unique_waiters :: "client \<Rightarrow> bool" where
  "unique_waiters s \<longleftrightarrow> List.map_filter waiter_id (cl_registryHandlers s) = map fst (cl_waiting s) \<and> distinct (map fst (cl_waiting s))"

lemma unique_cleanup: "unique_waiters s \<Longrightarrow> unique_waiters (wait_cleanup n s)"
proof -
  assume u: "unique_waiters s"
  then have "waits_ok (s\<lparr>cl_registry := []\<rparr>)" by (simp add: waits_ok_def unique_waiters_def)
  from waits_cleanup [OF this, of n] show ?thesis by (simp add: waits_ok_def unique_waiters_def wait_cleanup_def)
qed

lemma fold_handlers:
  "unique_waiters s \<Longrightarrow> unique_waiters (fold call_registry_handler hs s) \<and> cl_registry (fold call_registry_handler hs s) = cl_registry s
   \<and> set (cl_registryHandlers (fold call_registry_handler hs s)) \<subseteq> {h \<in> set (cl_registryHandlers s). \<not> (found_in s h \<and> h \<in> set hs)}"
proof (induction hs arbitrary: s)
  case (Cons h hs)
  let ?t = "call_registry_handler h s"
  have e: "cl_registry ?t = cl_registry s" "found_in ?t = found_in s"
    using call_handler_effect [of h s] by (auto simp: found_in_def fun_eq_iff)
  have u: "unique_waiters ?t"
    using Cons.prems unique_cleanup [OF Cons.prems, of "the (waiter_id h)"] call_handler_effect [of h s]
    by (auto simp: unique_waiters_def split: if_splits)
  have "set (cl_registryHandlers ?t) \<subseteq> {k \<in> set (cl_registryHandlers s). \<not> (found_in s h \<and> k = h)}"
    using call_handler_effect [of h s] by (auto simp: wait_cleanup_def found_in_def waiter_id_def split: if_splits)
  with Cons.IH [OF u] show ?case by (auto simp: e)
qed simp

lemma waits_notify:
  assumes "unique_waiters s"
  shows "waits_ok (notify_registry s)"
proof -
  have f: "unique_waiters (notify_registry s)" "cl_registry (notify_registry s) = cl_registry s"
    "set (cl_registryHandlers (notify_registry s)) \<subseteq> {h \<in> set (cl_registryHandlers s). \<not> found_in s h}"
    using fold_handlers [OF assms, of "cl_registryHandlers s"] by (auto simp: notify_registry_def)
  have "find (item_is b) (cl_registry (notify_registry s)) = None" if "Waiter n b \<in> set (cl_registryHandlers (notify_registry s))" for n b
    using f(3) that by (auto simp: found_in_def f(2))
  with f(1) show ?thesis by (auto simp: waits_ok_def unique_waiters_def)
qed

lemma waits_unique: "waits_ok s \<Longrightarrow> unique_waiters s"
  by (simp add: waits_ok_def unique_waiters_def)

lemma unique_same: "same_waits s t \<Longrightarrow> unique_waiters s \<Longrightarrow> unique_waiters t"
  by (simp add: same_waits_def unique_waiters_def)

lemma same_waits_fields [simp]:
  "same_waits s (s\<lparr>cl_queue := a\<rparr>)" "same_waits s (s\<lparr>cl_pending := b\<rparr>)" "same_waits s (s\<lparr>cl_runs := c\<rparr>)" "same_waits s (s\<lparr>cl_channels := d\<rparr>)"
  "same_waits s (s\<lparr>cl_peerSessionId := e\<rparr>)" "same_waits s (cput x s)" "same_waits s s" "same_waits s (client_setState st s)"
  "same_waits s (s\<lparr>cl_dials := f\<rparr>)" "same_waits s (s\<lparr>cl_topicHandlers := g\<rparr>)" "same_waits s (s\<lparr>cl_retries := h\<rparr>)"
  by (simp_all add: same_waits_def client_setState_def)

lemma same_waits_fold: "(\<And>x s. same_waits s (f x s)) \<Longrightarrow> same_waits s (fold f xs s)"
  by (induction xs arbitrary: s) (auto intro: same_waits_trans)

lemma same_waits_settle: "same_waits s (settle_op res now s)" "same_waits s (settlePending t m now s)" "same_waits s (op_timeout now s)"
proof -
  have "same_waits s (drain now (op_settled op r (s\<lparr>cl_pending := None\<rparr>)))" for op r
    using same_waits_trans same_waits_drain same_waits_settled same_waits_fields(2) by blast
  then show s: "same_waits s (settle_op r now s)" for r by (simp add: settle_op_def split: option.split)
  show "same_waits s (settlePending t m now s)" "same_waits s (op_timeout now s)"
    by (simp_all add: settlePending_def op_timeout_def s split: option.split)
qed

lemma same_waits_control: "same_waits s (controlOp op now s)"
  unfolding controlOp_def by (rule same_waits_trans [OF _ same_waits_drain]) simp

lemma same_waits_close: "same_waits s (close_channels s)"
proof -
  have "same_waits s (fold (\<lambda>n. cput (CloseChannel n)) (jm_vals (cl_channels s)) s)" by (simp add: same_waits_fold)
  then show ?thesis by (simp add: close_channels_def same_waits_def)
qed

lemma same_waits_rejects: "same_waits s (client_rejects co r a now s)"
  by (simp add: client_rejects_def same_waits_def client_scheduleReconnect_def Let_def split: asker.split)

lemma same_waits_establish: "same_waits s (client_establish co r a made now s)"
  by (auto simp: client_establish_def client_rejects_def client_setState_def client_scheduleReconnect_def same_waits_def Let_def
      split: option.split asker.split)

lemma same_waits_lost: "same_waits s (client_handleClose co w now s)"
proof -
  let ?s1 = "close_channels (s\<lparr>cl_listening := filter (\<lambda>v. v \<noteq> w) (cl_listening s), cl_socket := None, cl_pending := None\<rparr>)"
  have "same_waits s ?s1" using same_waits_close [of "s\<lparr>cl_listening := filter (\<lambda>v. v \<noteq> w) (cl_listening s), cl_socket := None, cl_pending := None\<rparr>"]
    by (simp add: same_waits_def)
  then have 2: "same_waits s ?s1" "same_waits s (client_setState st ?s1)" "same_waits s (client_scheduleReconnect co now (client_setState st ?s1))" for st
    by (simp_all add: same_waits_def client_setState_def client_scheduleReconnect_def)
  have 3: "same_waits s t \<Longrightarrow> same_waits s (drain now (op_settled op r t))" for t op r
    using same_waits_trans same_waits_drain same_waits_settled by blast
  show ?thesis by (auto simp: client_handleClose_def Let_def 2 intro!: 3 split: option.split)
qed

lemma same_waits_resubscribed: "same_waits t (drain now (resubscribe_next r (t\<lparr>cl_runs := x\<rparr>)))"
proof -
  have "same_waits (t\<lparr>cl_runs := x\<rparr>) (resubscribe_next r (t\<lparr>cl_runs := x\<rparr>))"
    using same_waits_settled [of _ "OpResubscribe r [] []"] by simp
  then show ?thesis
    by (rule same_waits_trans [OF same_waits_trans [OF same_waits_fields(3)] same_waits_drain])
qed

lemma waits_ready:
  assumes "waits_ok s"
  shows "waits_ok (client_ready r a w items now s)"
proof -
  let ?s1 = "client_setState CConnected (s\<lparr>cl_registry := items, cl_listening := cl_listening s @ [w], cl_reconnectAttempt := 0\<rparr>)"
  have "unique_waiters ?s1" using waits_unique [OF assms] by (simp add: unique_waiters_def client_setState_def)
  then have n: "waits_ok (notify_registry ?s1)" by (rule waits_notify)
  show ?thesis unfolding client_ready_def Let_def
    by (rule waits_same [OF same_waits_resubscribed n])
qed

lemma waits_greeted: "waits_ok s \<Longrightarrow> waits_ok (client_greeted co r m now s)"
  by (auto simp: client_greeted_def Let_def split: option.split client_stage.split
      intro!: waits_ready waits_same [OF same_waits_rejects] waits_same [OF same_waits_fields(5)])

lemma waits_route:
  assumes "waits_ok s"
  shows "waits_ok (routeMessage w m now s)"
proof -
  have "waits_ok (notify_registry (s\<lparr>cl_registry := x\<rparr>))" for x
    by (rule waits_notify) (use waits_unique [OF assms] in \<open>simp add: unique_waiters_def\<close>)
  moreover have "waits_ok (topic_message m s)"
    by (rule waits_same [OF _ assms]) (auto simp: topic_message_def same_waits_fold split: option.split json.split)
  moreover have "waits_ok (cput (CloseChannel n) (s\<lparr>cl_channels := x\<rparr>))" for n x
    by (rule waits_same [OF _ assms]) (simp add: same_waits_def)
  moreover have "waits_ok (settlePending t m now s)" "waits_ok (settle_op r now s)" for t r
    by (rule waits_same [OF same_waits_settle(2) assms], rule waits_same [OF same_waits_settle(1) assms])
  ultimately show ?thesis
    using assms by (simp add: routeMessage_def split: option.split json.split)
qed

lemma waits_wait: "waits_ok s \<Longrightarrow> n \<notin> fst ` set (cl_waiting s) \<Longrightarrow> waits_ok (waitForBackend n b t ab now s)"
  by (auto simp: waitForBackend_def waits_ok_def map_filter_def waiter_id_def find_None_iff split: option.split)

lemma waits_end: "waits_ok s \<Longrightarrow> waits_ok (wait_timeout n now s)" "waits_ok s \<Longrightarrow> waits_ok (wait_abort n s)"
  by (auto simp: wait_timeout_def wait_abort_def intro!: waits_same [OF same_waits_fields(6)] waits_cleanup)

lemma waits_connecting:
  assumes "waits_ok s"
  shows "waits_ok (client_connect co r made now s)" "waits_ok (client_opened co r now s)" "waits_ok (client_open_failed co r now s)"
    "waits_ok (client_greet_timeout co r now s)" "waits_ok (client_retry_fires co r made now s)" "waits_ok (client_close s)"
proof -
  have e: "waits_ok (client_establish co r a made now t)" if "same_waits s t" for a t
    by (rule waits_same [OF same_waits_establish waits_same [OF that assms]])
  have r: "waits_ok (client_rejects co r a now s)" for a by (rule waits_same [OF same_waits_rejects assms])
  have p: "waits_ok (cput x s)" for x by (rule waits_same [OF same_waits_fields(6) assms])
  show "waits_ok (client_connect co r made now s)" by (simp add: client_connect_def p e same_waits_def)
  show "waits_ok (client_opened co r now s)"
    by (rule waits_same [OF _ assms]) (simp add: client_opened_def same_waits_def split: option.split client_stage.split)
  show "waits_ok (client_open_failed co r now s)" "waits_ok (client_greet_timeout co r now s)"
    by (simp_all add: client_open_failed_def client_greet_timeout_def r assms split: option.split client_stage.split)
  show "waits_ok (client_retry_fires co r made now s)"
    using waits_same [OF same_waits_fields(11) assms]
    by (simp add: client_retry_fires_def Let_def e assms split: option.split)
  have "same_waits s (close_channels (client_setState CClosed (s\<lparr>cl_userClosed := True\<rparr>)))"
    using same_waits_close same_waits_trans by (simp add: same_waits_def client_setState_def)
  then show "waits_ok (client_close s)"
    by (intro waits_same [OF _ assms]) (auto simp: client_close_def Let_def same_waits_def split: option.split)
qed

lemma waits_calls:
  assumes "waits_ok s"
  shows "waits_ok (unsubscribe c b t h now s)" "waits_ok (channel_dialled c made s)" "waits_ok (channel_ended ch s)" "waits_ok (onRegistry n s)"
proof -
  have "same_waits s (controlOp op now (on_iterators f (s\<lparr>cl_topicHandlers := x\<rparr>)))" for op f x
    by (rule same_waits_trans [OF _ same_waits_control]) (simp add: same_waits_def on_iterators_def)
  then have "same_waits s (unsubscribe c b t h now s)"
    by (auto simp: unsubscribe_def Let_def split: option.split) (simp add: same_waits_def)
  then show "waits_ok (unsubscribe c b t h now s)" by (rule waits_same) (rule assms)
  show "waits_ok (channel_dialled c made s)" "waits_ok (channel_ended ch s)"
    by (rule waits_same [OF _ assms], auto simp: channel_dialled_def channel_ended_def same_waits_def Let_def split: option.split)+
  show "waits_ok (onRegistry n s)" using assms by (auto simp: onRegistry_def waits_ok_def map_filter_def waiter_id_def)
qed

lemma waits_step: "waits_ok s \<Longrightarrow> waits_ok (client_do co e s)"
  by (cases e) (simp_all add: waits_connecting waits_greeted waits_route waits_same [OF same_waits_lost] waits_calls waits_wait waits_end
     waits_same [OF same_waits_control] waits_same [OF same_waits_settle(3)] openChannel_def subscribeTopic_def)

interpretation waits: event_machine "client_do co" "\<lambda>_. True" waits_ok for co
  by unfold_locales (rule waits_step)

text \<open>
  C34. No wait misses its backend and none leaks: in every state of the SDK the calls of \<open>waitForBackend\<close> that still
  wait are exactly those with a registry handler, one each, and the backend of none of them is in the registry.
\<close>

theorem waits_exact:
  "let s = client_run co evs new_client
   in List.map_filter waiter_id (cl_registryHandlers s) = map fst (cl_waiting s) \<and> distinct (map fst (cl_waiting s))
      \<and> list_all (\<lambda>h. case h of Waiter n b \<Rightarrow> find (item_is b) (cl_registry s) = None | AppHandler _ \<Rightarrow> True) (cl_registryHandlers s)"
proof -
  have "waits_ok new_client" by (simp add: waits_ok_def new_client_def map_filter_def)
  then have "waits_ok (client_run co evs new_client)" unfolding client_run_def by (rule waits.run_inv) simp
  then show ?thesis by (auto simp: waits_ok_def Let_def list_all_iff split: registry_handler.split)
qed

section \<open>Concrete runs\<close>

definition demo_client :: client_options where
  "demo_client = \<lparr>co_credential = ''zgd_1'', co_namespace = ''n'', co_identity = None, co_clientProtocolVersion = 1,
     co_reconnect = True, co_reconnectMinMs = 1000, co_reconnectMaxMs = 30000\<rparr>"

definition connected_client :: client where
  "connected_client = client_run demo_client [EConnect 0 (Some 1) 0, EOpened 0 0, EGreeting 0 (ready_reply ''a'') 0] new_client"

definition subscribed_reply :: json where
  "subscribed_reply = JObj [(''type'', JStr ''topic_subscribed'')]"

definition reconnecting_client :: client where
  "reconnecting_client = client_run demo_client [ESubscribe 1 ''b1'' ''news'' 7 1, EMessage 1 subscribed_reply 2, ESocketClosed 1 3,
     ERetry 2 (Some 2) 5000, EOpened 2 5001] connected_client"

lemma stale_close_kills_session_witness:
  "let s = client_run demo_client [EConnect 0 (Some 1) 0, EOpened 0 0, EGreeting 0 (ready_reply ''a'') 0, EClose,
        EConnect 1 (Some 2) 0, ESocketClosed 1 0, EOpened 1 0, EGreeting 1 (ready_reply ''b'') 0] new_client
    in cl_state s = CConnected \<and> cl_socket s = None \<and> \<not> cl_userClosed s \<and> usable s = None
       \<and> COpenSocket 3 \<in> set (cl_log (client_do demo_client (ERetry 2 (Some 3) (client_delay demo_client 0)) s))"
  by (rule stale_close_kills_session) (simp_all add: demo_client_def)

lemma late_reply_misattributed_witness:
  "let t = client_run demo_client [EOpenChannel 1 ''A'' None 50, EOpTimeout (50 + 10000), EOpenChannel 2 ''B'' None (50 + 10000),
        EMessage 1 (JObj [(''type'', JStr ''channel_ready''), (''channelId'', JStr ''of A'')]) (50 + 10001)] connected_client
    in cl_log t = cl_log connected_client @ [CSend 1 (op_message (OpOpen 1 ''A'' None)), CallFails 1 OpTimedOut,
         CSend 1 (op_message (OpOpen 2 ''B'' None)), DialData 2 (JObj [(''type'', JStr ''channel_ready''), (''channelId'', JStr ''of A'')])]"
  by (rule late_reply_misattributed) (code_simp, code_simp, code_simp, code_simp, simp)

lemma failed_retry_leaks_socket_witness:
  "let t = client_run demo_client [ERetry 3 (Some 9) 5, EOpened 3 5, EGreetTimeout 3 (5 + 10000)] (new_client\<lparr>cl_retries := [5]\<rparr>)
    in cl_log t = cl_log (new_client\<lparr>cl_retries := [5]\<rparr>) @ [CState CConnecting, COpenSocket 9, CSend 9 (client_hello demo_client)]
       \<and> cl_runs t = [] \<and> cl_retries t = [5 + 10000 + client_delay demo_client (cl_reconnectAttempt (new_client\<lparr>cl_retries := [5]\<rparr>))]"
  by (rule failed_retry_leaks_socket) (simp_all add: new_client_def)

lemma resubscribes_all_witness:
  "sends (routeMessage 2 subscribed_reply 5003 (client_greeted demo_client 2 (ready_reply ''c'') 5003 reconnecting_client))
     = sends reconnecting_client @ [CSend 2 (topic_op ''topic_subscribe'' ''b1'' ''news'')]"
proof -
  have s: "jm_get (cl_runs reconnecting_client) 2 = Some (ByRetry, CGreeting 2 15001)" "cl_socket reconnecting_client = Some 2"
    "todo reconnecting_client = []"
    by code_simp+
  have k: "jm_keys (cl_topicHandlers reconnecting_client) = map (\<lambda>(b, t). topicKey b t) [(''b1'', ''news'')]"
    by code_simp
  have u: "\<forall>(b, t)\<in>set [(''b1'', ''news'')]. unit_sep \<notin> set b \<and> unit_sep \<notin> set t" by code_simp
  have r: "js_field (ready_reply ''c'') ''type'' = Some (JStr ''peer_ready'')"
    "js_field (ready_reply ''c'') ''registrySync'' = Some (JObj [(''items'', JArr [])])"
    by (simp_all add: ready_reply_def)
  from resubscribes_all [OF s r k u, of "[subscribed_reply]" 5003 demo_client] show ?thesis
    by (simp add: subscribed_reply_def Let_def)
qed

end
