(* ===== verification/Sdk_Wire.thy ===== *)
theory Sdk_Wire
  imports Sdk_Backend Sdk_Client_Facts Gw_Answers
begin

text \<open>
  packages/protocol/src/index.ts, the messages as JSON, and the three programs put together over them: what
  the server sends is read by the SDKs, and what the SDKs send is read by the server.  A message goes through
  \<open>JSON.stringify\<close> and \<open>JSON.parse\<close>, which lose undefined properties and turn an infinity into null.
\<close>

section \<open>Messages as JSON\<close>

fun js_sent :: "json \<Rightarrow> json" where
  "js_sent (JNum (NInf neg)) = JNull"
| "js_sent (JArr xs) = JArr (map js_sent xs)"
| "js_sent (JObj fs) = JObj (map (\<lambda>(k, v). (k, js_sent v)) fs)"
| "js_sent v = v"

definition text_prop :: "string \<Rightarrow> string \<Rightarrow> string \<times> json" where
  "text_prop k s = (k, JStr s)"

definition int_prop :: "string \<Rightarrow> int \<Rightarrow> string \<times> json" where
  "int_prop k n = (k, JNum (NFin (of_int n)))"

text \<open>An optional property is left out when it is undefined.\<close>

definition opt_prop :: "string \<Rightarrow> jsval \<Rightarrow> (string \<times> json) list" where
  "opt_prop k v = (case v of None \<Rightarrow> [] | Some j \<Rightarrow> [(k, js_sent j)])"

definition presence_json :: "presence \<Rightarrow> json" where
  "presence_json p = JObj
     ([text_prop ''namespace'' (pr_namespace p), text_prop ''backendId'' (pr_backendId p),
       text_prop ''instanceId'' (pr_instanceId p), text_prop ''deviceId'' (pr_deviceId p),
       text_prop ''name'' (pr_name p), text_prop ''channel'' (pr_channel p), (''visible'', JBool (pr_visible p)),
       (''capabilities'', js_sent (pr_capabilities p)),
       (''backendProtocolVersion'', js_sent (JNum (pr_backendProtocolVersion p)))]
      @ opt_prop ''minClientProtocolVersion'' (pr_minClientProtocolVersion p)
      @ [int_prop ''epoch'' (pr_epoch p), int_prop ''connectedAt'' (pr_connectedAt p),
         int_prop ''lastSeenAt'' (pr_lastSeenAt p), int_prop ''gatewayProtocolVersion'' (pr_gatewayProtocolVersion p)])"

definition backend_json :: "backend_info \<Rightarrow> json" where
  "backend_json b = JObj [text_prop ''backendId'' (bn_backendId b), int_prop ''epoch'' (bn_epoch b),
     int_prop ''leaseTtlMs'' (bn_leaseTtlMs b)]"

definition typed_json :: "string \<Rightarrow> (string \<times> json) list \<Rightarrow> json" where
  "typed_json type props = JObj (text_prop ''type'' type # props)"

text \<open>One function for each message the server sends.\<close>

definition peer_ready_json :: "int \<Rightarrow> string \<Rightarrow> string \<Rightarrow> backend_info option \<Rightarrow> presence list \<Rightarrow> json" where
  "peer_ready_json version sid tok backend items = typed_json ''peer_ready''
     ([int_prop ''protocolVersion'' version, text_prop ''peerSessionId'' sid, text_prop ''recoveryToken'' tok]
      @ opt_prop ''backend'' (map_option backend_json backend)
      @ [(''registrySync'', JObj [(''items'', JArr (map presence_json items))])])"

definition registry_snapshot_json :: "presence list \<Rightarrow> json" where
  "registry_snapshot_json items = typed_json ''registry_snapshot'' [(''items'', JArr (map presence_json items))]"

definition heartbeat_ack_json :: "int \<Rightarrow> json" where
  "heartbeat_ack_json epoch = typed_json ''heartbeat_ack'' [int_prop ''epoch'' epoch, (''streamDemand'', JBool False)]"

definition gateway_error_json :: "string \<Rightarrow> string \<Rightarrow> json" where
  "gateway_error_json code msg = typed_json ''gateway_error'' [text_prop ''code'' code, text_prop ''message'' msg]"

definition pong_json :: "jsval \<Rightarrow> json" where
  "pong_json ts = typed_json ''pong'' (opt_prop ''ts'' ts)"

definition channel_ready_json :: "string \<Rightarrow> string \<Rightarrow> string \<Rightarrow> json" where
  "channel_ready_json channelId tok dataPath = typed_json ''channel_ready''
     [text_prop ''channelId'' channelId, text_prop ''ticket'' tok, text_prop ''dataPath'' dataPath]"

definition channel_offer_json :: "string \<Rightarrow> string option \<Rightarrow> string option \<Rightarrow> string \<Rightarrow> string \<Rightarrow> json" where
  "channel_offer_json channelId kind source tok dataPath = typed_json ''channel_offer''
     (text_prop ''channelId'' channelId # opt_prop ''kind'' (map_option JStr kind)
      @ opt_prop ''sourcePeerSessionId'' (map_option JStr source) @ [text_prop ''ticket'' tok, text_prop ''dataPath'' dataPath])"

definition channel_closed_json :: "string \<Rightarrow> string \<Rightarrow> json" where
  "channel_closed_json channelId reason = typed_json ''channel_closed'' [text_prop ''channelId'' channelId, text_prop ''reason'' reason]"

definition topic_subscribed_json :: "string \<Rightarrow> string \<Rightarrow> json" where
  "topic_subscribed_json backendId topic = typed_json ''topic_subscribed'' [text_prop ''backendId'' backendId, text_prop ''topic'' topic]"

definition topic_unsubscribed_json :: "string \<Rightarrow> string \<Rightarrow> json" where
  "topic_unsubscribed_json backendId topic = typed_json ''topic_unsubscribed'' [text_prop ''backendId'' backendId, text_prop ''topic'' topic]"

definition topic_message_json :: "string \<Rightarrow> string \<Rightarrow> jsval \<Rightarrow> json" where
  "topic_message_json backendId topic payload = typed_json ''topic_message''
     ([text_prop ''backendId'' backendId, text_prop ''topic'' topic] @ opt_prop ''payload'' payload)"

fun wire_json :: "wire \<Rightarrow> json" where
  "wire_json (PeerReady version sid tok backend items) = peer_ready_json version sid tok backend items"
| "wire_json (RegistrySnapshot items) = registry_snapshot_json items"
| "wire_json (GatewayError code msg) = gateway_error_json code msg"
| "wire_json (HeartbeatAck epoch) = heartbeat_ack_json epoch"
| "wire_json (Pong ts) = pong_json ts"
| "wire_json (ChannelReady channelId tok dataPath) = channel_ready_json channelId tok dataPath"
| "wire_json (ChannelOffer channelId kind source tok dataPath) = channel_offer_json channelId kind source tok dataPath"
| "wire_json (ChannelClosed channelId reason) = channel_closed_json channelId reason"
| "wire_json (TopicSubscribed backendId topic) = topic_subscribed_json backendId topic"
| "wire_json (TopicUnsubscribed backendId topic) = topic_unsubscribed_json backendId topic"
| "wire_json (TopicMessage backendId topic payload) = topic_message_json backendId topic payload"
| "wire_json (Forwarded m) = js_sent m"

lemmas wire_simps = text_prop_def int_prop_def opt_prop_def typed_json_def peer_ready_json_def registry_snapshot_json_def
  heartbeat_ack_json_def gateway_error_json_def pong_json_def channel_ready_json_def channel_offer_json_def
  channel_closed_json_def topic_subscribed_json_def topic_unsubscribed_json_def topic_message_json_def

text \<open>The messages of a control connection reach the client SDK in order.\<close>

definition hears :: "nat \<Rightarrow> int \<Rightarrow> wire list \<Rightarrow> client \<Rightarrow> client" where
  "hears w t ms s = fold (\<lambda>m. routeMessage w (wire_json m) t) ms s"

lemma hears_simps [simp]: "hears w t [] s = s" "hears w t (m # ms) s = hears w t ms (routeMessage w (wire_json m) t s)"
  "hears w t (ms @ ns) s = hears w t ns (hears w t ms s)"
  by (simp_all add: hears_def)

section \<open>Operations\<close>

text \<open>How the client SDK settles an operation with an answer.\<close>

definition verdict :: "wire \<Rightarrow> op_error + json" where
  "verdict a = (case a of GatewayError code message \<Rightarrow> Inl (Refused (Some (JStr code)) (Some (JStr message))) | _ \<Rightarrow> Inr (wire_json a))"

text \<open>What the server holds once it has confirmed an operation.\<close>

fun carried_out :: "control_op \<Rightarrow> wire \<Rightarrow> peer_session \<Rightarrow> gateway \<Rightarrow> bool" where
  "carried_out (OpOpen _ target kind) a p g =
     (case a of
        ChannelReady i tok path \<Rightarrow>
          (case (jm_get (gw_channels g) i, jm_get (gw_tickets g) tok) of
             (Some ch, Some tk) \<Rightarrow> ch_backendId ch = target \<and> ch_kind ch = kind \<and> ch_client ch = ps_id p
                \<and> tk_channelId tk = i \<and> tk_role tk = RClient
           | _ \<Rightarrow> False)
      | _ \<Rightarrow> False)"
| "carried_out (OpSubscribe _ b t _) a p g = (a = TopicSubscribed b t \<and> ps_id p \<in> set (subscribers b t g))"
| "carried_out (OpResubscribe _ b t) a p g = (a = TopicSubscribed b t \<and> ps_id p \<in> set (subscribers b t g))"
| "carried_out (OpUnsubscribe _ b t) a p g = (a = TopicUnsubscribed b t \<and> ps_id p \<notin> set (subscribers b t g))"

lemma op_sent: "js_sent (op_message op) = op_message op"
  by (cases op) (auto simp: topic_op_def split: option.split)

text \<open>The messages that settle nothing leave a client that waits for an operation as it is, but for what they deliver.\<close>

lemma hears_answer:
  assumes "cl_pending s = Some (op, d)" and "w \<in> set (cl_listening s)"
    and "(\<exists>c m. a = GatewayError c m) \<or> js_field (wire_json a) ''type'' = Some (JStr (expects op))"
  shows "routeMessage w (wire_json a) t s = settle_op (verdict a) t s"
  using assms by (cases op; cases a) (auto simp: routeMessage_def verdict_def settlePending_def wire_simps)

text \<open>
  The server's handling of an operation, on the socket it came on: messages that settle nothing, one answer,
  and again messages that settle nothing.
\<close>

definition answers_op :: "control_op \<Rightarrow> peer_session \<Rightarrow> gateway \<Rightarrow> gateway \<Rightarrow> bool" where
  "answers_op op p g h \<longleftrightarrow> (\<exists>before a after.
     received (ps_ws p) h = received (ps_ws p) g @ before @ a # after
     \<and> (before = [] \<or> (\<exists>i k x tok path. before = [ChannelOffer i k x tok path]))
     \<and> ((\<exists>c m. a = GatewayError c m) \<or> carried_out op a p h))"

lemma received_upd [simp]:
  "received w (g\<lparr>gw_channels := x1\<rparr>) = received w g" "received w (g\<lparr>gw_tickets := x2\<rparr>) = received w g"
  "received w (g\<lparr>gw_topicSubs := x3\<rparr>) = received w g"
  "received w (issueChannelTicket cf i r tok now g) = received w g" "received w (add_subscriber b t sid g) = received w g"
  by (simp_all add: received_def sent_def issueChannelTicket_def add_subscriber_def Let_def)

lemma answers_at_once:
  "received (ps_ws p) h = received (ps_ws p) g @ a # after \<Longrightarrow> (\<exists>c m. a = GatewayError c m) \<or> carried_out op a p h \<Longrightarrow> answers_op op p g h"
  unfolding answers_op_def by (rule exI [of _ "[]"]) auto

lemma answers_after_offer:
  "received (ps_ws p) h = received (ps_ws p) g @ [ChannelOffer i k x tok path, a] \<Longrightarrow> carried_out op a p h \<Longrightarrow> answers_op op p g h"
  unfolding answers_op_def by (rule exI [of _ "[ChannelOffer i k x tok path]"]) auto

lemma refused_op: "gw_ready g (ps_ws p) = Open \<Longrightarrow> answers_op op p g (gateway_error p c m g)"
  by (rule answers_at_once [where a = "GatewayError c m" and after = "[]"]) (simp_all add: gateway_error_def received_send)

lemma carried_out_send [simp]: "carried_out op a p (sendToWs w m g) = carried_out op a p g"
  by (cases op) (simp_all add: subscribers_def cong: wire.case_cong split: wire.split)

lemma open_answered:
  assumes w: "gw_ready g (ps_ws p) = Open" and "cd_client dr \<noteq> cd_backend dr"
  shows "answers_op (OpOpen n target kind) p g (handleChannelOpen cf p target kind dr now g)"
proof -
  have granted: "answers_op op p g (sendToWs (ps_ws p) (ChannelReady i tok path) (sendToWs v (ChannelOffer i k x tok' path') h))"
    if "received (ps_ws p) h = received (ps_ws p) g" "gw_ready h = gw_ready g" "carried_out op (ChannelReady i tok path) p h"
    for op i tok path v k x tok' path' h
  proof (cases "v = ps_ws p")
    case True
    with that w show ?thesis by (intro answers_after_offer) (simp_all add: received_send)
  next
    case False
    with that w show ?thesis
      by (intro answers_at_once [where a = "ChannelReady i tok path" and after = "[]"]) (simp_all add: received_send)
  qed
  show ?thesis
    using assms
    by (auto simp: handleChannelOpen_def Let_def new_channel_def issueChannelTicket_def intro!: granted refused_op
        split: option.split)
qed

lemma subscribe_answered:
  assumes w: "gw_ready g (ps_ws p) = Open" and op: "op = OpSubscribe n b t x \<or> op = OpResubscribe n b t"
  shows "answers_op op p g (handleTopicSubscribe p b t g)"
proof -
  let ?k = "add_subscriber b t (ps_id p) g"
  have r: "gw_ready ?k = gw_ready g" by (simp add: add_subscriber_def Let_def)
  have c: "carried_out op (TopicSubscribed b t) p ?k"
    using op by (auto simp: subscribers_def add_subscriber_def set_add_def Let_def)
  have "answers_op op p g (sendToWs (ps_ws p) (TopicSubscribed b t) ?k)"
    by (rule answers_at_once [where a = "TopicSubscribed b t" and after = "[]"]) (simp_all add: received_send r w c)
  moreover have "answers_op op p g (sendToWs (ps_ws p) (TopicMessage b t v) (sendToWs (ps_ws p) (TopicSubscribed b t) ?k))" for v
    by (rule answers_at_once [where a = "TopicSubscribed b t" and after = "[TopicMessage b t v]"]) (simp_all add: received_send r w c)
  ultimately show ?thesis
    by (auto simp: handleTopicSubscribe_def Let_def intro: refused_op [OF w] split: option.split)
qed

lemma unsubscribe_answered:
  assumes "gw_ready g (ps_ws p) = Open"
  shows "answers_op (OpUnsubscribe n b t) p g (handleTopicUnsubscribe p b t g)"
proof (rule answers_at_once [where a = "TopicUnsubscribed b t" and after = "[]"])
  show "received (ps_ws p) (handleTopicUnsubscribe p b t g) = received (ps_ws p) g @ [TopicUnsubscribed b t]"
    using assms by (simp add: handleTopicUnsubscribe_def received_send)
  have "carried_out (OpUnsubscribe n b t) (TopicUnsubscribed b t) p (handleTopicUnsubscribe p b t g)"
    unfolding handleTopicUnsubscribe_def carried_out_send
    by (cases "jm_get (gw_topicSubs g) b"; cases "jm_get (the (jm_get (gw_topicSubs g) b)) t") (auto simp: subscribers_def)
  then show "(\<exists>c m. TopicUnsubscribed b t = GatewayError c m) \<or> carried_out (OpUnsubscribe n b t) (TopicUnsubscribed b t) p (handleTopicUnsubscribe p b t g)"
    by simp
qed

lemma op_answered:
  assumes p: "jm_get (gs_peers g) sid = Some p" and w: "gw_ready g (ps_ws p) = Open" and dr: "cd_client (da_channel rn) \<noteq> cd_backend (da_channel rn)"
  shows "answers_op op p g (handlePeerMessage cf sid (js_sent (op_message op)) rn now g)"
proof (cases "validateGatewayMessage (op_message op)")
  case (Some e)
  then show ?thesis using refused_op [OF w] by (simp add: handlePeerMessage_def p op_sent)
next
  case None
  then show ?thesis
    using open_answered [OF w dr] subscribe_answered [OF w] unsubscribe_answered [OF w]
    by (cases op)
       (auto simp: handlePeerMessage_def p op_sent topic_op_def msg_string_def Let_def split: option.split)
qed

text \<open>
  C6.  An operation of the client SDK is answered.  While it is pending on an open connection, the server's
  handling of its message sends the client, after at most one channel offer, a message that settles it: with
  the server's refusal, or with its confirmation, and then the server holds what was asked for, the
  channel and the ticket of its dial, the subscription or the end of it.
\<close>

theorem operations_answered:
  assumes "cl_pending s = Some (op, deadline)" and "w \<in> set (cl_listening s)"
    and "jm_get (gs_peers g) sid = Some p" and "gw_ready g (ps_ws p) = Open" and "cd_client (da_channel rn) \<noteq> cd_backend (da_channel rn)"
    and h: "h = handlePeerMessage cf sid (js_sent (op_message op)) rn now g"
  shows "\<exists>before a after. received (ps_ws p) h = received (ps_ws p) g @ before @ a # after
     \<and> hears w t before s = s \<and> hears w t [a] s = settle_op (verdict a) t s
     \<and> ((\<exists>code message. verdict a = Inl (Refused (Some (JStr code)) (Some (JStr message)))) \<or> verdict a = Inr (wire_json a) \<and> carried_out op a p h)"
proof -
  from op_answered [OF assms(3-5), of op cf now] obtain before a after where
    r: "received (ps_ws p) h = received (ps_ws p) g @ before @ a # after"
    and b: "before = [] \<or> (\<exists>i k x tok path. before = [ChannelOffer i k x tok path])"
    and a: "(\<exists>c m. a = GatewayError c m) \<or> carried_out op a p h"
    unfolding answers_op_def h by blast
  have "hears w t before s = s" using b by (auto simp: routeMessage_def wire_simps)
  moreover have "(\<exists>c m. a = GatewayError c m) \<or> js_field (wire_json a) ''type'' = Some (JStr (expects op))"
    using a by (cases op; cases a) (auto simp: wire_simps)
  from hears_answer [OF assms(1,2) this] have "hears w t [a] s = settle_op (verdict a) t s" by simp
  moreover have "(\<exists>code message. verdict a = Inl (Refused (Some (JStr code)) (Some (JStr message)))) \<or> verdict a = Inr (wire_json a) \<and> carried_out op a p h"
    using a by (cases a) (auto simp: verdict_def)
  ultimately show ?thesis using r by blast
qed

section \<open>Publications\<close>

lemma js_sent_idem [simp]: "js_sent (js_sent j) = js_sent j"
  by (induction j rule: js_sent.induct) auto

lemma js_field_sent: "js_field (js_sent m) k = map_option js_sent (js_field m k)"
proof (cases m)
  case (JObj fs)
  have "map_of (map (\<lambda>(k, v). (k, js_sent v)) fs) k = map_option js_sent (map_of fs k)" by (induction fs) auto
  with JObj show ?thesis by simp
next
  case (JNum n)
  then show ?thesis by (cases n) simp_all
qed simp_all

lemma put_inj: "put x k = put y k \<longleftrightarrow> x = y"
proof
  assume "put x k = put y k"
  then have "sk_log (put x k) = sk_log (put y k)" by simp
  then show "x = y" by (simp add: put_def)
qed simp

lemma one_notice:
  assumes inv: "gw_inv g" and p: "jm_get (gs_peers g) sid = Some p" "gw_ready g (ps_ws p) = Open" and d: "distinct sids"
  shows "map snd (filter (\<lambda>(v, x). v = ps_ws p) (notices g m sids)) = (if sid \<in> set sids then [m] else [])"
proof -
  have one: "map snd (filter (\<lambda>(v, x). v = ps_ws p) (notices g m [i])) = (if i = sid then [m] else [])" for i
  proof (cases "i = sid")
    case True
    with p show ?thesis by (simp add: notices_def map_filter_def)
  next
    case False
    have "ps_ws q \<noteq> ps_ws p" if "jm_get (gs_peers g) i = Some q" for q
      using inv_peersD(5) [OF inv that] inv_peersD(5) [OF inv p(1)] False by auto
    with False show ?thesis by (auto simp: notices_def map_filter_def split: option.split)
  qed
  have split_off: "notices g m (i # js) = notices g m [i] @ notices g m js" for i js
    by (simp add: notices_def map_filter_def)
  have "map snd (filter (\<lambda>(v, x). v = ps_ws p) (notices g m sids)) = concat (map (\<lambda>i. if i = sid then [m] else []) sids)"
  proof (induction sids)
    case (Cons i js)
    then show ?case unfolding split_off [of i js] by (simp add: one)
  qed (simp add: notices_def map_filter_def)
  also have "\<dots> = (if sid \<in> set sids then [m] else [])" using d by (induction sids) auto
  finally show ?thesis .
qed

lemma hears_topic:
  assumes "w \<in> set (cl_listening s)"
  shows "hears w t [TopicMessage b topic payload] s =
     fold (\<lambda>x. cput (TopicTo x (map_option js_sent payload))) (or_else (jm_get (cl_topicHandlers s) (topicKey b topic)) []) s"
  using assms by (cases payload) (simp_all add: routeMessage_def topic_message_def wire_simps)

text \<open>
  C9.  A publication reaches the handlers.  What the backend SDK publishes on a topic, the server sends to
  every open client once if it is subscribed and not at all if it is not, and the client SDK calls each
  handler of that backend's topic with the payload, as JSON carries it.
\<close>

theorem publication_delivered:
  assumes "reachable cf g" and "publishTopic topic payload retain k = Inr (put (SocketSend u m) k)"
    and "jm_get (gs_peers g) owner = Some q" and "isCurrentBackendOwner q None g" and "ps_backendId q = Some b" and "topic \<noteq> []"
    and "jm_get (gs_peers g) sid = Some p" and "gw_ready g (ps_ws p) = Open" and "distinct (subscribers b topic g)"
    and h: "h = handlePeerMessage cf owner (js_sent m) rn now g" and "w \<in> set (cl_listening s)"
  shows "\<exists>ms. received (ps_ws p) h = received (ps_ws p) g @ ms
     \<and> hears w t ms s =
         (if sid \<in> set (subscribers b topic g)
          then fold (\<lambda>x. cput (TopicTo x (map_option js_sent payload))) (or_else (jm_get (cl_topicHandlers s) (topicKey b topic)) []) s
          else s)"
proof -
  have m: "m = JObj ([(''type'', JStr ''topic_publish''), (''topic'', JStr topic)]
     @ (case payload of Some p \<Rightarrow> [(''payload'', p)] | None \<Rightarrow> [])
     @ (case retain of Some r \<Rightarrow> [(''retain'', JBool r)] | None \<Rightarrow> []))"
    using assms(2) by (auto simp: publishTopic_def sdk_send_def put_inj split: option.splits if_splits)
  have f: "js_field (js_sent m) ''type'' = Some (JStr ''topic_publish'')" "js_field (js_sent m) ''topic'' = Some (JStr topic)"
    "js_field (js_sent m) ''payload'' = map_option js_sent payload" "\<exists>fs. js_sent m = JObj fs"
    by (simp_all add: m js_field_sent split: option.split)
  then have "validateGatewayMessage (js_sent m) = None"
    using assms(6) by (auto simp: validateGatewayMessage_def MESSAGE_SPECS_def checkField_def req_def Let_def)
  then have "\<exists>r. h = handleTopicPublish q topic (map_option js_sent payload) r g"
    using assms(3) f by (auto simp: h handlePeerMessage_def msg_string_def Let_def)
  then obtain r where r: "h = handleTopicPublish q topic (map_option js_sent payload) r g" by blast
  have "sent h = sent g @ notices g (TopicMessage b topic (map_option js_sent payload)) (subscribers b topic g)"
    using publish_exact [of q g topic "map_option js_sent payload" r] assms(4,5) by (auto simp: r)
  then have "received (ps_ws p) h = received (ps_ws p) g
       @ (if sid \<in> set (subscribers b topic g) then [TopicMessage b topic (map_option js_sent payload)] else [])"
    using one_notice [OF gw_reachable [OF assms(1)] assms(7-9), of "TopicMessage b topic (map_option js_sent payload)"]
    by (simp add: received_def)
  then show ?thesis
    using hears_topic [OF assms(11), of t b topic "map_option js_sent payload"] by (auto simp: option.map_comp comp_def)
qed

section \<open>Concrete exchanges\<close>

definition asking_client :: client where
  "asking_client = subscribeTopic 1 ''b3'' ''t'' 7 250 connected_client"

lemma operations_answered_witness:
  "\<exists>before a after. received 2 (handlePeerMessage sample_config ''s2'' (js_sent (op_message (OpSubscribe 1 ''b3'' ''t'' 7))) (sample_all ''4'') 310 run2)
       = received 2 run2 @ before @ a # after
     \<and> hears 1 320 [a] asking_client = settle_op (verdict a) 320 asking_client"
proof -
  have c: "cl_pending asking_client = Some (OpSubscribe 1 ''b3'' ''t'' 7, 10250)" "1 \<in> set (cl_listening asking_client)"
    unfolding asking_client_def by code_simp+
  obtain p where p: "jm_get (gs_peers run2) ''s2'' = Some p" "ps_ws p = 2" "gw_ready run2 (ps_ws p) = Open"
  proof -
    have "map_option ps_ws (jm_get (gs_peers run2) ''s2'') = Some 2" "gw_ready run2 2 = Open" by code_simp+
    with that show thesis by auto
  qed
  have d: "cd_client (da_channel (sample_all ''4'')) \<noteq> cd_backend (da_channel (sample_all ''4''))" by code_simp
  from operations_answered [where cf = sample_config and now = 310 and t = 320, OF c p(1,3) d refl] p(2) show ?thesis by auto
qed

definition listening_client :: client where
  "listening_client = connected_client\<lparr>cl_topicHandlers := [(topicKey ''b3'' ''t'', [7])]\<rparr>"

lemma publication_delivered_witness:
  "\<exists>ms. received 2 (handlePeerMessage sample_config ''s1'' (js_sent (JObj [(''type'', JStr ''topic_publish''), (''topic'', JStr ''t''),
       (''payload'', JBool True)])) (sample_all ''5'') 400 run3) = received 2 run3 @ ms
     \<and> hears 1 410 ms listening_client = cput (TopicTo 7 (Some (JBool True))) listening_client"
proof -
  define k where "k = (new_backend (\<lambda>_. Open))\<lparr>sk_socket := Some 5\<rparr>"
  have k: "publishTopic ''t'' (Some (JBool True)) None k = Inr (put (SocketSend 5 (JObj [(''type'', JStr ''topic_publish''), (''topic'', JStr ''t''),
       (''payload'', JBool True)])) k)"
    by (simp add: publishTopic_def sdk_send_def k_def new_backend_def)
  obtain q where q: "jm_get (gs_peers run3) ''s1'' = Some q" "isCurrentBackendOwner q None run3" "ps_backendId q = Some ''b3''"
  proof -
    have "map_option (\<lambda>q. (isCurrentBackendOwner q None run3, ps_backendId q)) (jm_get (gs_peers run3) ''s1'') = Some (True, Some ''b3'')"
      by code_simp
    with that show thesis by auto
  qed
  obtain p where p: "jm_get (gs_peers run3) ''s2'' = Some p" "ps_ws p = 2" "gw_ready run3 (ps_ws p) = Open"
  proof -
    have "map_option ps_ws (jm_get (gs_peers run3) ''s2'') = Some 2" "gw_ready run3 2 = Open" by code_simp+
    with that show thesis by auto
  qed
  have s: "subscribers ''b3'' ''t'' run3 = [''s2'']" using run3_facts by blast
  have w: "1 \<in> set (cl_listening listening_client)" unfolding listening_client_def by code_simp
  have h: "jm_get (cl_topicHandlers listening_client) (topicKey ''b3'' ''t'') = Some [7]" by (simp add: listening_client_def)
  have "''t'' \<noteq> []" "distinct (subscribers ''b3'' ''t'' run3)" by (simp_all add: s)
  from publication_delivered [where cf = sample_config and rn = "sample_all ''5''" and now = 400 and t = 410, OF reachable_runs(3) k q this(1) p(1,3) this(2) refl w] p(2) s h
  show ?thesis by auto
qed

end
