(* ===== verification/Sdk_Sessions.thy ===== *)
theory Sdk_Sessions
  imports Sdk_Wire
begin

text \<open>
  The handshakes, both ends of them: what the server answers to the hello of a client and of a backend, what the
  SDK makes of the answer, and the heartbeat that keeps what the two have agreed on.
\<close>

section \<open>The handshake of a client\<close>

lemma received_hello [simp]:
  "received w (g\<lparr>gw_storage := x1\<rparr>) = received w g" "received w (g\<lparr>gw_authFailures := x2\<rparr>) = received w g"
  "received w (g\<lparr>gw_recoveryTokens := x3\<rparr>) = received w g" "received w (addPeer p g) = received w g"
  "received w (upd_conn v f g) = received w g" "received w (ws_close cf v n x g) = received w g"
  by (simp_all add: received_def sent_def addPeer_def upd_conn_def ws_close_def emit_def map_filter_def)

text \<open>The server's answer to the hello of a client without a backend: one message, and it says what came of it.\<close>

definition hello_told :: "ws \<Rightarrow> gateway \<Rightarrow> gateway \<Rightarrow> string option \<Rightarrow> bool" where
  "hello_told v g k x \<longleftrightarrow> (\<exists>a. received v k = received v g @ [a] \<and>
     (case x of
        None \<Rightarrow> (\<exists>c m. a = GatewayError c m)
      | Some sid \<Rightarrow> (\<exists>p. a = PeerReady 4 sid (ps_recoveryToken p) None (visibleRegistry p k) \<and> jm_get (gs_peers k) sid = Some p)))"

lemma hello_refused: "gw_ready g v = Open \<Longrightarrow> received v g = received v g0 \<Longrightarrow> hello_told v g0 (refuse_hello cf v c m g) None"
  by (simp add: hello_told_def refuse_hello_def received_send)

lemma hello_admitted:
  assumes "gw_ready g v = Open" and "received v g = received v g0" and p: "p = hello_peer v hi c dr"
  shows "hello_told v g0 (admit_peer cf p g) (Some (hd_session dr))"
proof -
  have f: "ps_backendId p = None" "ps_ws p = v" "ps_id p = hd_session dr" "ps_protocolVersion p = 4" by (simp_all add: p hello_peer_def)
  define g2 where "g2 = (addPeer p g)\<lparr>gw_recoveryTokens := jm_set (ps_recoveryToken p) (ps_id p) (gw_recoveryTokens (addPeer p g))\<rparr>"
  have k: "admit_peer cf p g = sendToWs v (PeerReady 4 (hd_session dr) (ps_recoveryToken p) None (visibleRegistry p g2)) g2"
    by (simp add: admit_peer_def f g2_def Let_def)
  have r: "gw_ready g2 v = Open" using assms(1) by (simp add: g2_def addPeer_def)
  have v: "visibleRegistry p (sendToWs w m g2) = visibleRegistry p g2" for w m by (rule visibleRegistry_cong) simp_all
  have "jm_get (gs_peers g2) (hd_session dr) = Some p" by (simp add: g2_def addPeer_def f)
  moreover have "received v g2 = received v g0" by (simp add: g2_def assms(2))
  ultimately show ?thesis by (simp add: hello_told_def k received_send r v)
qed

lemma hello_outcome:
  assumes "handlePeerHello cf v hi ip dr now g = (k, r)" and "he_peerType hi = ClientOnly" and "gw_ready g v = Open"
  shows "\<exists>x. r = Inr x \<and> hello_told v g k x \<and> gw_conns k = gw_conns g"
proof -
  obtain g1 c where t: "resolveToken cf (he_gatewaySecret hi) now g = (g1, c)" by fastforce
  then have g1: "gw_ready g1 = gw_ready g" "received v g1 = received v g" "gw_conns g1 = gw_conns g"
    by (auto simp: resolveToken_def split: if_splits prod.splits)
  have refused: "hello_told v g (refuse_hello cf v code m g1) None" for code m using hello_refused assms(3) g1 by simp
  have conns: "gw_conns (refuse_hello cf v code m h) = gw_conns h" "gw_conns (admit_peer cf p h) = gw_conns h" for code m h p
    by (simp add: refuse_hello_def) (use core_fields [OF admit_fields] in \<open>simp add: addPeer_def\<close>)
  show ?thesis
  proof (cases c)
    case None
    obtain g2 ok where f: "recordAuthFailure cf ip now g1 = (g2, ok)" by fastforce
    then have "gw_ready g2 = gw_ready g" "received v g2 = received v g" "gw_conns g2 = gw_conns g"
      using g1 by (auto simp: recordAuthFailure_def Let_def split: prod.splits)
    with hello_refused [of g2 v g] assms(1,3) None t f show ?thesis by (auto simp: handlePeerHello_def conns)
  next
    case (Some i)
    with assms t g1 refused hello_admitted [of g1 v g _ hi i dr cf] show ?thesis
      by (auto simp: handlePeerHello_def conns split: option.splits)
  qed
qed

section \<open>The client on its side\<close>

text \<open>What the operations do not touch: the state, the session and the registry.\<close>

definition link :: "client \<Rightarrow> client_state \<times> jsval \<times> json list" where
  "link s = (cl_state s, cl_peerSessionId s, cl_registry s)"

lemma link_upd [simp]:
  "link (cput x s) = link s" "link (s\<lparr>cl_queue := q\<rparr>) = link s" "link (s\<lparr>cl_pending := p\<rparr>) = link s" "link (s\<lparr>cl_runs := rs\<rparr>) = link s"
  "link (s\<lparr>cl_registryHandlers := hs\<rparr>) = link s" "link (s\<lparr>cl_waiting := ws\<rparr>) = link s"
  by (simp_all add: link_def cput_def)

lemma link_resubscribe [simp]: "link (resubscribe_next r s) = link s"
  by (auto simp: resubscribe_next_def Let_def split: option.split client_stage.split list.split asker.split)

lemma link_drain [simp]: "link (drain now s) = link s"
proof (induction now s rule: drain.induct)
  case (1 now s)
  have f: "link (op_settled op (Inl e) s) = link s" for op e s by (cases op) simp_all
  from 1 show ?case by (subst drain.simps) (auto simp: f split: list.split option.split)
qed

lemma link_notify [simp]: "link (notify_registry s) = link s"
proof -
  have h: "link (call_registry_handler h s) = link s" for h s
    by (cases h) (auto simp: wait_cleanup_def link_def cput_def split: option.split)
  have "link (fold call_registry_handler hs s) = link s" for hs by (induction hs arbitrary: s) (simp_all add: h)
  then show ?thesis by (simp add: notify_registry_def)
qed

lemma link_ready: "link (client_ready r a w items now s) = (CConnected, cl_peerSessionId s, items)"
  by (simp add: client_ready_def client_setState_def Let_def) (simp add: link_def cput_def)

lemma hello_type: "he_peerType (parse_hello (js_sent (client_hello co))) = ClientOnly"
  by (simp add: parse_hello_def js_field_sent client_hello_def Let_def split: option.split)

text \<open>
  C7.  The two ends agree on the session.  The server answers the hello of the client SDK with one message, and
  the client that gets it is connected exactly if the server has a session for the connection; then it has that
  session's id, and its registry is the server's registry as that session may see it.
\<close>

theorem session_agreed:
  assumes "jm_get (gw_conns g) v = Some c" and "cn_session c = None" and "gw_ready g v = Open"
    and "jm_get (cl_runs s) r = Some (who, CGreeting w deadline)" and "cl_state s = CConnecting"
    and h: "h = ws_message cf v (Some (js_sent (client_hello co))) rn now g"
  shows "\<exists>a. received v h = received v g @ [a] \<and>
     (let s' = client_greeted co r (wire_json a) t s
      in case session_at h v of
           None \<Rightarrow> cl_state s' = CConnecting
         | Some sid \<Rightarrow> cl_state s' = CConnected \<and> cl_peerSessionId s' = Some (JStr sid)
             \<and> (\<exists>p. jm_get (gs_peers h) sid = Some p \<and> cl_registry s' = map presence_json (visibleRegistry p h)))"
proof -
  have rejected: "cl_state (client_greeted co r (wire_json (GatewayError code m)) t s) = CConnecting" for code m
    using assms(4,5) by (simp add: client_greeted_def wire_simps client_rejects_def client_scheduleReconnect_def cput_def Let_def split: asker.split)
  have ready: "link (client_greeted co r (wire_json (PeerReady n sid tok None items)) t s) = (CConnected, Some (JStr sid), map presence_json items)"
    for n sid tok items
    using assms(4) by (simp add: client_greeted_def wire_simps link_ready items_of_def Let_def)
  show ?thesis
  proof (cases "validatePeerHelloV4 (js_sent (client_hello co))")
    case (Some e)
    then have "h = ws_close cf v 1008 ''Invalid peer_hello'' (sendToWs v (GatewayError ''INVALID_MESSAGE'' e) g)"
      using assms(1,2) by (simp add: h ws_message_def)
    then show ?thesis using assms(1-3) rejected by (simp add: received_send session_at_def)
  next
    case None
    let ?g = "upd_conn v (\<lambda>c. c\<lparr>cn_authAt := None\<rparr>) g"
    obtain k x' where hk: "handlePeerHello cf v (parse_hello (js_sent (client_hello co))) (cn_ip c) (da_hello rn) now ?g = (k, x')"
      by fastforce
    from hello_outcome [OF hk hello_type] assms(3) obtain x where
      x: "x' = Inr x" "hello_told v ?g k x" "gw_conns k = gw_conns ?g" by (auto simp: upd_conn_def)
    have hx: "h = upd_conn v (\<lambda>c. c\<lparr>cn_session := x\<rparr>) k"
      using assms(1,2) None hk x(1) by (simp add: h ws_message_def)
    have s: "session_at h v = x"
      using assms(1) x(3) by (simp add: hx session_at_def upd_conn_def)
    have vis: "visibleRegistry p h = visibleRegistry p k" "gs_peers h = gs_peers k" for p
      by (rule visibleRegistry_cong) (simp_all add: hx upd_conn_def)
    from x(2) obtain a where a: "received v h = received v g @ [a]"
      "case x of None \<Rightarrow> (\<exists>c m. a = GatewayError c m)
        | Some sid \<Rightarrow> (\<exists>p. a = PeerReady 4 sid (ps_recoveryToken p) None (visibleRegistry p k) \<and> jm_get (gs_peers k) sid = Some p)"
      by (auto simp: hello_told_def hx)
    show ?thesis
    proof (cases x)
      case None
      with a rejected s show ?thesis by auto
    next
      case (Some sid)
      with a(2) obtain p where p: "a = PeerReady 4 sid (ps_recoveryToken p) None (visibleRegistry p k)" "jm_get (gs_peers h) sid = Some p"
        by (auto simp: vis)
      with a(1) ready [of 4 sid "ps_recoveryToken p" "visibleRegistry p k"] s Some show ?thesis
        by (simp add: link_def Let_def vis)
    qed
  qed
qed

section \<open>The handshake of a backend\<close>

text \<open>A socket of no session and no channel hears nothing of what happens to them, and stays open.\<close>

definition data_socket :: "ws \<Rightarrow> gateway \<Rightarrow> bool" where
  "data_socket v g \<longleftrightarrow> (\<exists>i ch. jm_get (gw_channels g) i = Some ch \<and> (ch_clientSocket ch = Some v \<or> ch_backendSocket ch = Some v))"

definition stranger :: "ws \<Rightarrow> gateway \<Rightarrow> bool" where
  "stranger v g \<longleftrightarrow> (\<forall>i p. jm_get (gs_peers g) i = Some p \<longrightarrow> ps_ws p \<noteq> v) \<and> \<not> data_socket v g"

lemma stranger_new: "gw_inv g \<Longrightarrow> session_at g v = None \<Longrightarrow> \<not> data_socket v g \<Longrightarrow> stranger v g"
  unfolding stranger_def session_at_def by (metis bind.bind_lunit inv_peersD(3) option.distinct(1))

definition unheard :: "ws \<Rightarrow> gateway \<Rightarrow> gateway \<Rightarrow> bool" where
  "unheard v g h \<longleftrightarrow> received v h = received v g \<and> gw_ready h v = gw_ready g v \<and> (stranger v g \<longrightarrow> stranger v h)"

lemma unheard_trans: "unheard v g h \<Longrightarrow> unheard v h k \<Longrightarrow> unheard v g k"
  by (simp add: unheard_def)

lemma received_effects [simp]:
  "received w (res_json q st c x g) = received w g" "received w (res_destroy q x g) = received w g"
  "received w (emit (OResume v) g) = received w g"
  by (simp_all add: received_def)

lemma unheard_teardown:
  assumes "stranger v g"
  shows "unheard v g (teardownChannel cf cid r g)"
proof (cases "jm_get (gw_channels g) cid")
  case None
  then show ?thesis by (simp add: teardownChannel_def unheard_def)
next
  case (Some ch)
  with assms have legs: "ch_clientSocket ch \<noteq> Some v" "ch_backendSocket ch \<noteq> Some v"
    by (auto simp: stranger_def data_socket_def)
  define g1 where "g1 = g\<lparr>gw_channels := jm_del cid (gw_channels g), gw_tickets := fold jm_del (ch_tickets ch) (gw_tickets g)\<rparr>"
  define g3 where "g3 = close_leg cf r (ch_backendSocket ch) (close_leg cf r (ch_clientSocket ch) (answer_internal r ch g1))"
  have "sent g1 = sent g" by (simp add: g1_def sent_def)
  then have g3: "received v g3 = received v g" "gw_ready g3 v = gw_ready g v" "gs_peers g3 = gs_peers g"
    using legs by (simp_all add: g3_def received_def ready_close_leg) (simp_all add: g1_def)
  have tell: "received v (tell_peer sid m k) = received v k" "gw_ready (tell_peer sid m k) = gw_ready k" if "gs_peers k = gs_peers g" for sid m k
    using assms that by (auto simp: tell_peer_def received_send stranger_def split: option.split)
  have "teardownChannel cf cid r g = tell_peer (ch_backend ch) (ChannelClosed cid r) (tell_peer (ch_client ch) (ChannelClosed cid r) g3)"
    using Some by (simp add: teardownChannel_def g3_def g1_def Let_def)
  then have "received v (teardownChannel cf cid r g) = received v g \<and> gw_ready (teardownChannel cf cid r g) v = gw_ready g v"
    by (simp add: tell g3)
  then show ?thesis by (auto simp: unheard_def stranger_def data_socket_def split: if_splits)
qed

lemma unheard_close:
  assumes "stranger v g"
  shows "unheard v g (closeChannelsForBackend cf b r g)"
proof -
  have "unheard v k (teardown_all cf r P chs k)" if "stranger v k" for P chs k
    using that
  proof (induction cf r P chs k rule: teardown_all.induct)
    case (2 cf r P ch chs k)
    have t: "unheard v k (teardownChannel cf (ch_id ch) r k)" by (rule unheard_teardown) (rule "2.prems")
    with "2.prems" have "stranger v (teardownChannel cf (ch_id ch) r k)" by (simp add: unheard_def)
    with 2 t show ?case by (auto intro: unheard_trans)
  qed (simp add: unheard_def)
  with assms show ?thesis by (simp add: closeChannelsForBackend_def)
qed

text \<open>Steps on the maps alone, of which none gives the socket a session or a channel.\<close>

lemma unheard_maps [simp]:
  "unheard v g (k\<lparr>gw_storage := x\<rparr>) = unheard v g k" "unheard v g (noteOwnerReplaced b now k) = unheard v g k"
  "unheard v g (removeTopicsForBackend b k) = unheard v g k" "unheard v g (removeLease b k) = unheard v g k"
  "unheard v g (addLease l k) = unheard v g k" "unheard v g (registryUpsert pr k) = unheard v g k"
  by (simp_all add: unheard_def stranger_def data_socket_def received_def sent_def noteOwnerReplaced_def
      removeTopicsForBackend_def removeLease_def addLease_def registryUpsert_def Let_def)

lemma unheard_refl: "unheard v g g"
  by (simp add: unheard_def)

lemma unheard_oust:
  assumes "unheard v g k" and "stranger v g"
  shows "unheard v g (handleBackendOwnerReplaced cf b i k)"
proof -
  define k3 where "k3 = removeLease b (removeTopicsForBackend b (closeChannelsForBackend cf b ''epoch_changed'' k))"
  have k: "unheard v k k3" using assms by (simp add: k3_def unheard_def [of v g] unheard_close)
  with assms have k3: "unheard v g k3" "stranger v k3" by (auto intro: unheard_trans simp: unheard_def)
  show ?thesis
  proof (cases "jm_get (gs_peers k3) i")
    case None
    with k3 show ?thesis by (simp add: handleBackendOwnerReplaced_def Let_def k3_def)
  next
    case (Some p)
    with k3(2) have "ps_ws p \<noteq> v" by (auto simp: stranger_def)
    moreover have "stranger v (upd_peer i unown k3)"
      using k3(2) unfolding stranger_def
      by (auto simp: data_socket_def unown_def upd_peer_def split: if_splits) blast
    ultimately have "unheard v k3 (ws_close cf (ps_ws p) n x (upd_peer i unown k3))" for n x
      by (simp add: unheard_def stranger_def data_socket_def) (simp add: upd_peer_def received_def sent_def)
    with unheard_trans [OF k3(1)] Some show ?thesis
      unfolding handleBackendOwnerReplaced_def Let_def k3_def [symmetric] by simp
  qed
qed

lemma unheard_register:
  assumes "register_backend cf hi hb c p u now g = (k, r)" and "stranger v g"
  shows "unheard v g k"
  using assms by (auto simp: register_backend_def Let_def unheard_refl unheard_oust split: prod.splits sum.splits option.splits if_splits)

text \<open>What the server's first message to a backend says, and what it holds when it says so.\<close>

definition owner_told :: "ws \<Rightarrow> gateway \<Rightarrow> gateway \<Rightarrow> string option \<Rightarrow> bool" where
  "owner_told v g k x \<longleftrightarrow> (\<exists>a rest. received v k = received v g @ a # rest \<and>
     (case x of
        None \<Rightarrow> (\<exists>c m. a = GatewayError c m)
      | Some sid \<Rightarrow> (\<exists>p b e ttl tok items. a = PeerReady 4 sid tok (Some \<lparr>bn_backendId = b, bn_epoch = e, bn_leaseTtlMs = ttl\<rparr>) items
          \<and> jm_get (gs_peers k) sid = Some p \<and> ps_id p = sid \<and> ps_backendId p = Some b \<and> ps_epoch p = Some e
          \<and> (\<exists>l. jm_get (gs_leases k) b = Some l \<and> le_peerSessionId l = sid \<and> le_epoch l = e))))"

lemma hello_owner_told: "hello_told v g k None \<Longrightarrow> owner_told v g k None"
  by (auto simp: hello_told_def owner_told_def)

lemma register_result:
  assumes "register_backend cf hi hb c (hello_peer v hi c dr) u now g = (k, Inr q)"
  obtains b e l where "ps_id q = hd_session dr" "ps_ws q = v" "ps_protocolVersion q = 4" "ps_backendId q = Some b" "ps_epoch q = Some e"
    "jm_get (gs_leases k) b = Some l" "le_peerSessionId l = hd_session dr" "le_epoch l = e"
  using assms
  by (auto simp: register_backend_def hello_peer_def addLease_def registryUpsert_def Let_def
      split: prod.splits sum.splits option.splits if_splits)

lemma admitted_owner:
  assumes reg: "register_backend cf hi hb c (hello_peer v hi c dr) u now g = (k, Inr q)"
    and s: "stranger v g" and w: "gw_ready g v = Open" and g0: "received v g = received v g0"
  shows "owner_told v g0 (admit_peer cf q k) (Some (ps_id q))"
proof -
  from reg obtain b e l where q: "ps_id q = hd_session dr" "ps_ws q = v" "ps_protocolVersion q = 4" "ps_backendId q = Some b" "ps_epoch q = Some e"
    and l: "jm_get (gs_leases k) b = Some l" "le_peerSessionId l = hd_session dr" "le_epoch l = e"
    by (rule register_result)
  define g2 where "g2 = (addPeer q k)\<lparr>gw_recoveryTokens := jm_set (ps_recoveryToken q) (ps_id q) (gw_recoveryTokens (addPeer q k))\<rparr>"
  define a where "a = PeerReady 4 (hd_session dr) (ps_recoveryToken q) (Some \<lparr>bn_backendId = b, bn_epoch = e, bn_leaseTtlMs = cf_leaseTtlMs cf\<rparr>) (visibleRegistry q g2)"
  have k: "admit_peer cf q k = (if b \<noteq> [] then broadcastRegistrySnapshot (Some (ps_id q)) (sendToWs v a g2) else sendToWs v a g2)"
    by (simp add: admit_peer_def q g2_def a_def Let_def)
  have more: "\<exists>rest. received v (broadcastRegistrySnapshot x h) = received v h @ rest" for x h
  proof -
    have "\<exists>rest. received v (broadcast_to x ps cache h) = received v h @ rest" for ps cache
    proof (induction x ps cache h rule: broadcast_to.induct)
      case (2 x p ps cache h)
      then show ?case by (auto simp: Let_def received_send)
    qed simp
    then show ?thesis by (simp add: broadcastRegistrySnapshot_def)
  qed
  have "received v (sendToWs v a g2) = received v g0 @ [a]"
    using unheard_register [OF reg s] w by (simp add: received_send g2_def unheard_def g0) (simp add: addPeer_def)
  with more [of "Some (ps_id q)" "sendToWs v a g2"] have "\<exists>rest. received v (admit_peer cf q k) = received v g0 @ a # rest"
    by (auto simp: k)
  moreover have "jm_get (gs_peers (admit_peer cf q k)) (ps_id q) = Some q" "gs_leases (admit_peer cf q k) = gs_leases k"
    using core_fields [OF admit_fields [of cf q k]] by (simp_all add: addPeer_def)
  ultimately show ?thesis using l q by (auto simp: owner_told_def a_def)
qed

lemma conns_register:
  "gw_conns (handleBackendOwnerReplaced cf b i g) = gw_conns g"
  "register_backend cf hi hb c p u now g = (k, r) \<Longrightarrow> gw_conns k = gw_conns g"
proof -
  show o: "gw_conns (handleBackendOwnerReplaced cf b i g) = gw_conns g" for b i g
    by (auto simp: handleBackendOwnerReplaced_def removeLease_def upd_peer_def removeTopicsForBackend_def Let_def split: option.split)
  show "register_backend cf hi hb c p u now g = (k, r) \<Longrightarrow> gw_conns k = gw_conns g"
    by (auto simp: register_backend_def addLease_def registryUpsert_def noteOwnerReplaced_def o Let_def
        split: prod.splits sum.splits option.splits if_splits)
qed

lemma owner_outcome:
  assumes hk: "handlePeerHello cf v hi ip dr now g = (k, r)" and "he_peerType hi = ClientBackend" and "he_backend hi = Some hb"
    and w: "gw_ready g v = Open" and s: "stranger v g"
  shows "case r of Inr x \<Rightarrow> owner_told v g k x \<and> gw_conns k = gw_conns g
     | Inl e \<Rightarrow> received v k = received v g \<and> gw_ready k v = Open \<and> gw_conns k = gw_conns g"
proof -
  obtain g1 c where t: "resolveToken cf (he_gatewaySecret hi) now g = (g1, c)" by fastforce
  have "stranger v (g\<lparr>gw_storage := x\<rparr>) = stranger v g" for x by (simp add: stranger_def data_socket_def)
  with t s have g1: "gw_ready g1 = gw_ready g" "received v g1 = received v g" "gw_conns g1 = gw_conns g" "stranger v g1"
    by (auto simp: resolveToken_def split: if_splits prod.splits)
  have refused: "owner_told v g (refuse_hello cf v code m h) None" "gw_conns (refuse_hello cf v code m h) = gw_conns h"
    if "gw_ready h = gw_ready g" "received v h = received v g" for code m h
    by (rule hello_owner_told, rule hello_refused) (use that w in \<open>simp_all add: refuse_hello_def\<close>)
  show ?thesis
  proof (cases c)
    case None
    obtain g2 ok where f: "recordAuthFailure cf ip now g1 = (g2, ok)" by fastforce
    then have "gw_ready g2 = gw_ready g" "received v g2 = received v g" "gw_conns g2 = gw_conns g"
      using g1 by (auto simp: recordAuthFailure_def Let_def split: prod.splits)
    with refused hk None t f show ?thesis by (auto simp: handlePeerHello_def)
  next
    case (Some i)
    show ?thesis
    proof (cases "hello_refusal hi i")
      case (Some x)
      with hk t \<open>c = Some i\<close> refused g1 show ?thesis by (cases x) (auto simp: handlePeerHello_def)
    next
      case None
      obtain g2 r2 where reg: "register_backend cf hi hb i (hello_peer v hi i dr) (hd_backendId dr) now g1 = (g2, r2)" by fastforce
      note conns = conns_register(2) [OF reg]
      have u: "received v g2 = received v g" "gw_ready g2 v = Open"
        using unheard_register [OF reg g1(4)] g1 w by (simp_all add: unheard_def)
      show ?thesis
      proof (cases r2)
        case (Inl e)
        with hk t \<open>c = Some i\<close> None reg u conns g1 assms(2,3) show ?thesis by (auto simp: handlePeerHello_def)
      next
        case (Inr q)
        with hk t \<open>c = Some i\<close> None reg assms(2,3) have "k = admit_peer cf q g2" "r = Inr (Some (ps_id q))"
          by (simp_all add: handlePeerHello_def)
        moreover have "gw_conns (admit_peer cf q g2) = gw_conns g2"
          using core_fields [OF admit_fields [of cf q g2]] by (simp add: addPeer_def)
        ultimately show ?thesis using admitted_owner [OF reg [unfolded Inr] g1(4)] g1 w conns by simp
      qed
    qed
  qed
qed

lemma owner_hello:
  "validatePeerHelloV4 (js_sent (hello_message bo cred)) = None \<Longrightarrow>
   he_peerType (parse_hello (js_sent (hello_message bo cred))) = ClientBackend \<and> he_backend (parse_hello (js_sent (hello_message bo cred))) \<noteq> None"
  by (simp add: parse_hello_def js_field_sent hello_message_def Let_def split: option.split)

lemma sdk_state_kept [simp]:
  "sk_state (put x s) = sk_state s" "sk_state (set_run r a st s) = sk_state s" "sk_state (recordFailure e now s) = sk_state s"
  "sk_state (scheduleReconnect bo now s) = sk_state s" "sk_state (run_rejects bo r a e now s) = sk_state s"
  "sk_state (resolveCredential bo r a now s) = sk_state s" "sk_state (attempt_fails bo r a w c e now s) = sk_state s"
proof -
  show f: "sk_state (put x s) = sk_state s" "sk_state (set_run r a st s) = sk_state s" "sk_state (recordFailure e now s) = sk_state s"
    "sk_state (scheduleReconnect bo now s) = sk_state s" for x r a st e s
    by (simp_all add: put_def set_run_def recordFailure_def scheduleReconnect_def)
  show rj: "sk_state (run_rejects bo r a e now s) = sk_state s" for e s
    by (simp add: run_rejects_def Let_def f split: asker.split)
  show rc: "sk_state (resolveCredential bo r a now s) = sk_state s" for s
    by (auto simp: resolveCredential_def Let_def f split: option.split)
  show "sk_state (attempt_fails bo r a w c e now s) = sk_state s"
    by (simp add: attempt_fails_def Let_def f rj rc split: thrown.split option.split)
qed

text \<open>
  C8.  The two ends agree on the backend.  The first message the server sends on the connection of the backend
  SDK makes the SDK connected exactly if the server has a session for it; then that session owns the backend
  whose id the SDK has, under the epoch the SDK has, and else the SDK goes on connecting.
\<close>

theorem backend_agreed:
  assumes "reachable cf g" and "fresh_all rn g"
    and "jm_get (gw_conns g) v = Some c" and "cn_session c = None" and "gw_ready g v = Open" and "\<not> data_socket v g"
    and "jm_get (sk_runs s) r = Some (who, Greeting w cred cached deadline)" and "sk_state s = SConnecting"
    and h: "h = ws_message cf v (Some (js_sent (hello_message bo cred))) rn now g"
  shows "\<exists>a rest. received v h = received v g @ a # rest \<and>
     (let s' = handshake_message bo r timer (wire_json a) t s
      in case session_at h v of
           None \<Rightarrow> sk_state s' = SConnecting
         | Some sid \<Rightarrow> sk_state s' = SConnected \<and> (\<exists>p b e. jm_get (gs_peers h) sid = Some p
             \<and> ps_backendId p = Some b \<and> isCurrentBackendOwner p (Some e) h
             \<and> sk_backendId s' = Some (JStr b) \<and> sk_epoch s' = Some (JNum (NFin (of_int e)))))"
proof -
  note inv = gw_reachable [OF assms(1)]
  have inv_h: "gw_inv h" unfolding h by (rule inv_ws_message [OF inv assms(2)])
  have rejected: "sk_state (handshake_message bo r timer (wire_json (GatewayError code m)) t s) = SConnecting" for code m
    using assms(7,8) by (simp add: handshake_message_def wire_simps)
  have ready: "sk_state (handshake_message bo r timer (wire_json (PeerReady n sid tok (Some i) items)) t s) = SConnected
      \<and> sk_backendId (handshake_message bo r timer (wire_json (PeerReady n sid tok (Some i) items)) t s) = Some (JStr (bn_backendId i))
      \<and> sk_epoch (handshake_message bo r timer (wire_json (PeerReady n sid tok (Some i) items)) t s) = Some (JNum (NFin (of_int (bn_epoch i))))"
    for n sid tok i items
    using assms(7) by (simp add: handshake_message_def wire_simps backend_json_def established_def setState_def Let_def split: asker.split)
      (simp add: put_def)
  have told: ?thesis if "owner_told v g h x" "session_at h v = x" for x
  proof (cases x)
    case None
    with that rejected show ?thesis by (fastforce simp: owner_told_def)
  next
    case (Some sid)
    with that obtain a rest p b e ttl tok items l where
      a: "received v h = received v g @ a # rest" "a = PeerReady 4 sid tok (Some \<lparr>bn_backendId = b, bn_epoch = e, bn_leaseTtlMs = ttl\<rparr>) items"
      and p: "jm_get (gs_peers h) sid = Some p" "ps_id p = sid" "ps_backendId p = Some b" "ps_epoch p = Some e"
        "jm_get (gs_leases h) b = Some l" "le_peerSessionId l = sid" "le_epoch l = e"
      by (auto simp: owner_told_def)
    have "b \<noteq> []" using inv_h p(5) by (auto simp: gw_inv_def inv_leases_def)
    with p have "isCurrentBackendOwner p (Some e) h" by (simp add: isCurrentBackendOwner_def)
    moreover have "sk_state (handshake_message bo r timer (wire_json a) t s) = SConnected"
      "sk_backendId (handshake_message bo r timer (wire_json a) t s) = Some (JStr b)"
      "sk_epoch (handshake_message bo r timer (wire_json a) t s) = Some (JNum (NFin (of_int e)))"
      using ready [of 4 sid tok "\<lparr>bn_backendId = b, bn_epoch = e, bn_leaseTtlMs = ttl\<rparr>" items] by (simp_all add: a(2))
    ultimately show ?thesis
      using p(1,3) by (intro exI [of _ a] exI [of _ rest]) (simp add: a(1) that(2) Some Let_def)
  qed
  show ?thesis
  proof (cases "validatePeerHelloV4 (js_sent (hello_message bo cred))")
    case (Some e)
    then have "h = ws_close cf v 1008 ''Invalid peer_hello'' (sendToWs v (GatewayError ''INVALID_MESSAGE'' e) g)"
      using assms(3,4) by (simp add: h ws_message_def)
    then show ?thesis using assms(3-5) by (intro told [of None]) (simp_all add: owner_told_def received_send session_at_def)
  next
    case None
    let ?g = "upd_conn v (\<lambda>c. c\<lparr>cn_authAt := None\<rparr>) g" and ?hi = "parse_hello (js_sent (hello_message bo cred))"
    obtain k x' where hk: "handlePeerHello cf v ?hi (cn_ip c) (da_hello rn) now ?g = (k, x')" by fastforce
    from owner_hello [OF None] obtain hb where hi: "he_peerType ?hi = ClientBackend" "he_backend ?hi = Some hb" by blast
    have "stranger v g" using assms(3,4,6) by (intro stranger_new inv) (simp_all add: session_at_def)
    then have g: "stranger v ?g" "gw_ready ?g v = Open"
      using assms(5) by (simp_all add: stranger_def data_socket_def upd_conn_def)
    have conns: "jm_get (gw_conns ?g) v = Some (c\<lparr>cn_authAt := None\<rparr>)" using assms(3) by (simp add: upd_conn_def)
    note o = owner_outcome [OF hk hi g(2,1)]
    show ?thesis
    proof (cases x')
      case (Inl e)
      then have "h = bad_frame cf v False k" using assms(3,4) None hk by (simp add: h ws_message_def)
      then show ?thesis
        using o Inl conns assms(4) by (intro told [of None]) (simp_all add: bad_frame_def owner_told_def received_send session_at_def Let_def)
    next
      case (Inr x)
      then have hx: "h = upd_conn v (\<lambda>c. c\<lparr>cn_session := x\<rparr>) k" using assms(3,4) None hk by (simp add: h ws_message_def)
      show ?thesis
      proof (rule told)
        show "session_at h v = x" using o Inr assms(3) by (simp add: hx session_at_def upd_conn_def)
        have same: "gs_peers h = gs_peers k" "gs_leases h = gs_leases k" by (simp_all add: hx upd_conn_def)
        have "received v h = received v k" "received v ?g = received v g" by (simp_all add: hx)
        then have "owner_told v g h x = owner_told v ?g k x" unfolding owner_told_def same by simp
        then show "owner_told v g h x" using o Inr by simp
      qed
    qed
  qed
qed

text \<open>And a heartbeat under that epoch renews the lease.\<close>

lemma heartbeat_renews:
  assumes "sk_epoch k = Some (JNum (NFin (of_int e)))" and "heartbeat_tick timer now' k = put (SocketSend u m) k"
    and "jm_get (gs_peers g) sid = Some p" and "isCurrentBackendOwner p (Some e) g" and "ps_backendId p = Some b"
  shows "jm_get (gs_leases (handlePeerMessage cf sid (js_sent m) rn now g)) b
      = map_option (\<lambda>l. l\<lparr>le_lastHeartbeatAt := now\<rparr>) (jm_get (gs_leases g) b)"
proof -
  have "put x k \<noteq> k" for x
  proof
    assume "put x k = k"
    then have "sk_log (put x k) = sk_log k" by simp
    then show False by (simp add: put_def)
  qed
  then have m: "m = JObj [(''type'', JStr ''backend_heartbeat''), (''epoch'', JNum (NFin (of_int e))), (''observedAt'', JNum (NFin (of_int now')))]"
    using assms(1,2) by (auto simp: heartbeat_tick_def put_inj dest: sym split: if_splits option.splits)
  have "validateGatewayMessage (js_sent m) = None"
    by (simp add: m validateGatewayMessage_def MESSAGE_SPECS_def checkField_def req_def opt_def Let_def)
  moreover have "num_int (js_num (js_field (js_sent m) ''epoch'')) = Some e" by (simp add: m num_int_def rat_is_int_def)
  moreover have "jm_has (gs_leases g) b"
    using assms(4,5) by (auto simp: isCurrentBackendOwner_def jm_has_def split: option.splits if_splits)
  ultimately show ?thesis
    using assms(3-5) by (simp add: handlePeerMessage_def msg_string_def handleBackendHeartbeat_def Let_def) (simp add: m)
qed

section \<open>Concrete handshakes\<close>

definition greeting_client :: client where
  "greeting_client = client_run demo_client [EConnect 0 (Some 1) 0, EOpened 0 0] new_client"

definition phone_options :: client_options where
  "phone_options = demo_client\<lparr>co_namespace := ''prod''\<rparr>"

lemma session_agreed_witness:
  "\<exists>a. received 2 (ws_message sample_config 2 (Some (js_sent (client_hello phone_options))) (sample_all ''2'') 200
            (ws_connection sample_config 2 ''10.0.0.2'' 190 run1))
       = received 2 (ws_connection sample_config 2 ''10.0.0.2'' 190 run1) @ [a]
     \<and> cl_state (client_greeted phone_options 0 (wire_json a) 210 greeting_client) = CConnected
     \<and> cl_peerSessionId (client_greeted phone_options 0 (wire_json a) 210 greeting_client) = Some (JStr ''s2'')"
proof -
  let ?g = "ws_connection sample_config 2 ''10.0.0.2'' 190 run1"
  have g: "map_option cn_session (jm_get (gw_conns ?g) 2) = Some None" "gw_ready ?g 2 = Open" by code_simp+
  then obtain c where c: "jm_get (gw_conns ?g) 2 = Some c" "cn_session c = None" by auto
  have s: "jm_get (cl_runs greeting_client) 0 = Some (ByConnect, CGreeting 1 10000)" "cl_state greeting_client = CConnecting"
    unfolding greeting_client_def by code_simp+
  have "session_at (ws_message sample_config 2 (Some (js_sent (client_hello phone_options))) (sample_all ''2'') 200 ?g) 2 = Some ''s2''"
    by code_simp
  with session_agreed [where cf = sample_config and co = phone_options and rn = "sample_all ''2''" and now = 200 and t = 210, OF c g(2) s refl] show ?thesis
    by (auto simp: Let_def)
qed

definition greeting_backend :: sdk where
  "greeting_backend = (new_backend (\<lambda>_. Open))\<lparr>sk_runs := [(0, ByConnect, Greeting 9 ''zgb_3'' False 9000)], sk_state := SConnecting\<rparr>"

lemma backend_agreed_witness:
  "\<exists>a rest. received 5 (ws_message sample_config 5 (Some (js_sent (hello_message (demo_backend\<lparr>bo_namespace := ''prod''\<rparr>) ''zgb_3'')))
            (sample_all ''9'') 500 run1_again) = received 5 run1_again @ a # rest
     \<and> sk_state (handshake_message (demo_backend\<lparr>bo_namespace := ''prod''\<rparr>) 0 1 (wire_json a) 510 greeting_backend) = SConnected"
proof -
  obtain c where c: "jm_get (gw_conns run1_again) 5 = Some c" "cn_session c = None" using run1_again_facts by auto
  have f: "fresh_all (sample_all ''9'') run1_again" using run1_again_facts by (blast intro: fresh_check)
  have "jm_get (gw_conns run1) 5 = None" using run1_facts jm_keys_iff [of 5 "gw_conns run1"] by (simp add: jm_keys_def)
  then have r: "reachable sample_config run1_again"
    unfolding run1_again_def by (blast intro: reachable_step reachable_runs gw_step.connect)
  have w: "gw_ready run1_again 5 = Open" "gw_channels run1_again = []" by code_simp+
  then have d: "\<not> data_socket 5 run1_again" by (simp add: data_socket_def)
  have s: "jm_get (sk_runs greeting_backend) 0 = Some (ByConnect, Greeting 9 ''zgb_3'' False 9000)" "sk_state greeting_backend = SConnecting"
    by (simp_all add: greeting_backend_def)
  have "session_at (ws_message sample_config 5 (Some (js_sent (hello_message (demo_backend\<lparr>bo_namespace := ''prod''\<rparr>) ''zgb_3'')))
      (sample_all ''9'') 500 run1_again) 5 = Some ''s9''"
    by code_simp
  with backend_agreed [where bo = "demo_backend\<lparr>bo_namespace := ''prod''\<rparr>" and now = 500 and timer = 1 and t = 510, OF r f c w(1) d s refl]
  show ?thesis
    by (auto simp: Let_def)
qed

end
