(* ===== verification/Ui_Api.thy ===== *)
theory Ui_Api
  imports Gw_System
begin

text \<open>
  The admin page's modules without React: packages/admin-ui/src/types.ts, api.ts, format.ts and i18n.tsx.
  Text outside ASCII is given by its UTF-8 bytes.  The message tables of i18n.tsx are an argument
  (\<open>messages locale key\<close>), and so is what \<open>fetch\<close> gives: no answer, or a status with a body that is not JSON,
  is JSON \<open>null\<close>, or has the fields of the envelope.
\<close>

section \<open>Locale and messages\<close>

datatype ui_locale = ZhCN | En

definition utf8_text :: "nat list \<Rightarrow> string" where
  "utf8_text bs = map char_of bs"

text \<open>\<open>saved\<close> is what the storage holds, none when it holds nothing or throws; \<open>language\<close> is the navigator's.\<close>

definition toLowerCase :: "string \<Rightarrow> string" where
  "toLowerCase = map (\<lambda>c. let n = (of_char c :: nat)
     in if 65 \<le> n \<and> n \<le> 90 \<or> 192 \<le> n \<and> n \<le> 222 \<and> n \<noteq> 215 then char_of (n + 32) else c)"

definition detectLocale :: "string option \<Rightarrow> string option \<Rightarrow> ui_locale" where
  "detectLocale saved language =
     (if saved = Some ''zh-CN'' then ZhCN
      else if saved = Some ''en'' then En
      else case language of
             Some l \<Rightarrow> if starts_with ''zh'' (toLowerCase l) then ZhCN else En
           | None \<Rightarrow> En)"

text \<open>The provider: the active locale and what is saved of it; saving is best-effort.\<close>

record i18n =
  in_locale :: ui_locale
  in_saved :: "string option"

definition locale_text :: "ui_locale \<Rightarrow> string" where
  "locale_text l = (case l of ZhCN \<Rightarrow> ''zh-CN'' | En \<Rightarrow> ''en'')"

definition setLocale :: "bool \<Rightarrow> ui_locale \<Rightarrow> i18n \<Rightarrow> i18n" where
  "setLocale storable l s = \<lparr>in_locale = l, in_saved = (if storable then Some (locale_text l) else in_saved s)\<rparr>"

lemma locale_kept: "detectLocale (in_saved (setLocale True l s)) language = l"
  by (cases l) (simp_all add: detectLocale_def setLocale_def locale_text_def)

definition is_word :: "char \<Rightarrow> bool" where
  "is_word c = (let n = (of_char c :: nat)
     in 48 \<le> n \<and> n \<le> 57 \<or> 65 \<le> n \<and> n \<le> 90 \<or> 97 \<le> n \<and> n \<le> 122 \<or> n = 95)"

text \<open>\<open>template.replace(/\{(\w+)\}/g, ...)\<close>: what was put in is not looked at again.\<close>

function replace_params :: "(string \<Rightarrow> string option) \<Rightarrow> string \<Rightarrow> string" where
  "replace_params params [] = []"
| "replace_params params (c # cs) =
     (let name = takeWhile is_word cs; rest = drop (length name) cs
      in if c = CHR ''{'' \<and> name \<noteq> [] \<and> starts_with ''}'' rest
         then or_else (params name) (c # name @ ''}'') @ replace_params params (tl rest)
         else c # replace_params params cs)"
  by pat_completeness auto
termination
  by (relation "measure (length \<circ> snd)") auto

definition formatMessage ::
  "(ui_locale \<Rightarrow> string \<Rightarrow> string option) \<Rightarrow> ui_locale \<Rightarrow> string \<Rightarrow> (string \<Rightarrow> string option) option \<Rightarrow> string option" where
  "formatMessage messages locale key params =
     (case (case messages locale key of Some t \<Rightarrow> Some t | None \<Rightarrow> messages ZhCN key) of
        None \<Rightarrow> None
      | Some template \<Rightarrow>
          (case params of None \<Rightarrow> Some template | Some ps \<Rightarrow> Some (replace_params ps template)))"

section \<open>Credentials and identities\<close>

datatype credential_status = StatusActive | StatusRevoked | StatusExpired

definition credentialStatus :: "int \<Rightarrow> credential_info \<Rightarrow> credential_status" where
  "credentialStatus now c =
     (if ci_revokedAt c \<noteq> None then StatusRevoked
      else case ci_expiresAt c of
             Some e \<Rightarrow> if e \<le> now then StatusExpired else StatusActive
           | None \<Rightarrow> StatusActive)"

definition shortId :: "string \<Rightarrow> string" where
  "shortId i = take 8 i @ utf8_text [226, 128, 166]"

definition identityLabel :: "admin_backend \<Rightarrow> string" where
  "identityLabel b =
     (let i = ab_identity b
      in if bi_name i \<noteq> [] then bi_name i else if bi_instanceId i \<noteq> [] then bi_instanceId i else shortId (bi_backendId i))"

text \<open>\<open>new Map(credentials.map((c) => [c.id, c]))\<close>\<close>

definition credentials_by_id :: "credential_info list \<Rightarrow> (string, credential_info) jmap" where
  "credentials_by_id cs = fold (\<lambda>c m. jm_set (ci_id c) c m) cs []"

definition identityReachable :: "int \<Rightarrow> admin_backend \<Rightarrow> (string, credential_info) jmap \<Rightarrow> bool" where
  "identityReachable now b credentialsById =
     (if ab_boundCredentials b > 0 \<or> ab_online b \<noteq> None then True
      else case bi_lastCredentialId (ab_identity b) of
             None \<Rightarrow> True
           | Some i \<Rightarrow>
               (case jm_get credentialsById i of
                  None \<Rightarrow> False
                | Some c \<Rightarrow> credentialStatus now c = StatusActive \<and> ci_backendId c = None))"

section \<open>Requests\<close>

text \<open>\<open>null\<close> is the value \<open>Some None\<close> of \<open>ir_ttlDays\<close>, \<open>undefined\<close> is \<open>None\<close>.\<close>

record issue_request =
  ir_type :: credential_type
  ir_namespace :: string
  ir_name :: "string option"
  ir_ttlDays :: "nat option option"
  ir_backendId :: "string option"
  ir_allowedBackends :: "string list option"

datatype api_call =
    Login string
  | CheckSession
  | Logout
  | GetOverview
  | ListBackends
  | ListCredentials
  | IssueCredential issue_request
  | BindCredential string string
  | UpdateScope string "string list option"
  | DeleteBackend string
  | RevokeCredentials "string list"
  | PurgeCredentials "string list option"

text \<open>\<open>JSON.stringify\<close> leaves out the fields that are \<open>undefined\<close>.\<close>

definition json_strings :: "string list \<Rightarrow> json" where
  "json_strings xs = JArr (map JStr xs)"

fun type_text :: "credential_type \<Rightarrow> string" where
  "type_text Device = ''device''"
| "type_text Backend = ''backend''"
| "type_text BackendAccess = ''backend-access''"

definition issue_body :: "issue_request \<Rightarrow> json" where
  "issue_body r = JObj
     ([(''type'', JStr (type_text (ir_type r))), (''namespace'', JStr (ir_namespace r))]
      @ (case ir_name r of None \<Rightarrow> [] | Some n \<Rightarrow> [(''name'', JStr n)])
      @ (case ir_ttlDays r of
           None \<Rightarrow> []
         | Some None \<Rightarrow> [(''ttlDays'', JNull)]
         | Some (Some d) \<Rightarrow> [(''ttlDays'', JNum (NFin (of_nat d)))])
      @ (case ir_backendId r of None \<Rightarrow> [] | Some b \<Rightarrow> [(''backendId'', JStr b)])
      @ (case ir_allowedBackends r of None \<Rightarrow> [] | Some xs \<Rightarrow> [(''allowedBackends'', json_strings xs)]))"

definition hex_char :: "nat \<Rightarrow> char" where
  "hex_char n = (if n < 10 then char_of (n + 48) else char_of (n + 55))"

definition uri_plain :: "char \<Rightarrow> bool" where
  "uri_plain c = (is_word c \<or> c \<in> set ''-.!~*'' \<or> of_char c \<in> {39, 40, 41 :: nat})"

definition encodeURIComponent :: "string \<Rightarrow> string" where
  "encodeURIComponent s = concat (map (\<lambda>c. if uri_plain c then [c]
     else concat (map (\<lambda>b. [CHR ''%'', hex_char (b div 16), hex_char (b mod 16)]) (utf8_char c))) s)"

record http_call =
  hc_method :: string
  hc_path :: string
  hc_body :: "json option"

definition credential_path :: "string \<Rightarrow> string" where
  "credential_path i = ''/api/admin/credentials/'' @ encodeURIComponent i"

fun api_request :: "api_call \<Rightarrow> http_call" where
  "api_request (Login token) = \<lparr>hc_method = ''POST'', hc_path = ''/api/admin/session'', hc_body = Some (JObj [(''token'', JStr token)])\<rparr>"
| "api_request CheckSession = \<lparr>hc_method = ''GET'', hc_path = ''/api/admin/session'', hc_body = None\<rparr>"
| "api_request Logout = \<lparr>hc_method = ''DELETE'', hc_path = ''/api/admin/session'', hc_body = None\<rparr>"
| "api_request GetOverview = \<lparr>hc_method = ''GET'', hc_path = ''/api/admin/overview'', hc_body = None\<rparr>"
| "api_request ListBackends = \<lparr>hc_method = ''GET'', hc_path = ''/api/admin/backends'', hc_body = None\<rparr>"
| "api_request ListCredentials = \<lparr>hc_method = ''GET'', hc_path = ''/api/admin/credentials'', hc_body = None\<rparr>"
| "api_request (IssueCredential r) = \<lparr>hc_method = ''POST'', hc_path = ''/api/admin/credentials'', hc_body = Some (issue_body r)\<rparr>"
| "api_request (BindCredential i b) = \<lparr>hc_method = ''POST'', hc_path = credential_path i @ ''/bind'', hc_body = Some (JObj [(''backendId'', JStr b)])\<rparr>"
| "api_request (UpdateScope i xs) = \<lparr>hc_method = ''PATCH'', hc_path = credential_path i,
     hc_body = Some (JObj [(''allowedBackends'', case xs of None \<Rightarrow> JNull | Some ids \<Rightarrow> json_strings ids)])\<rparr>"
| "api_request (DeleteBackend b) = \<lparr>hc_method = ''DELETE'', hc_path = ''/api/admin/backends/'' @ encodeURIComponent b, hc_body = None\<rparr>"
| "api_request (RevokeCredentials ids) = \<lparr>hc_method = ''POST'', hc_path = ''/api/admin/credentials/revoke'',
     hc_body = Some (JObj [(''ids'', json_strings ids)])\<rparr>"
| "api_request (PurgeCredentials ids) = \<lparr>hc_method = ''POST'', hc_path = ''/api/admin/credentials/purge'',
     hc_body = Some (JObj (case ids of None \<Rightarrow> [] | Some xs \<Rightarrow> [(''ids'', json_strings xs)]))\<rparr>"

section \<open>Answers\<close>

datatype 'a body = NotJson | NullJson | Envelope bool "'a option" "(string option \<times> string option) option"

datatype 'a fetch_answer = NoAnswer | Answer nat "'a body"

text \<open>\<open>UnauthorizedError\<close> is an \<open>ApiError\<close>; \<open>Thrown\<close> is any other error.\<close>

datatype ui_error = ApiError nat string string | UnauthorizedError | Thrown string

fun err_status :: "ui_error \<Rightarrow> nat" where
  "err_status (ApiError s _ _) = s"
| "err_status UnauthorizedError = 401"
| "err_status (Thrown _) = 0"

fun err_code :: "ui_error \<Rightarrow> string" where
  "err_code (ApiError _ c _) = c"
| "err_code UnauthorizedError = ''UNAUTHORIZED''"
| "err_code (Thrown _) = ''''"

fun err_message :: "ui_error \<Rightarrow> string" where
  "err_message (ApiError _ _ m) = m"
| "err_message UnauthorizedError = ''unauthorized''"
| "err_message (Thrown m) = m"

definition answer_ok :: "nat \<Rightarrow> bool" where
  "answer_ok status = (200 \<le> status \<and> status \<le> 299)"

text \<open>\<open>request\<close>: the data, which may be \<open>undefined\<close>, or what is thrown.\<close>

definition request :: "'a fetch_answer \<Rightarrow> ui_error + 'a option" where
  "request a =
     (case a of
        NoAnswer \<Rightarrow> Inl (ApiError 0 ''NETWORK_ERROR'' ''network error'')
      | Answer status body \<Rightarrow>
          if status = 401 then Inl UnauthorizedError
          else case body of
                 NotJson \<Rightarrow> Inl (ApiError status ''BAD_RESPONSE'' (''unparseable response ('' @ show_nat status @ '')''))
               | NullJson \<Rightarrow> Inl (Thrown ''TypeError'')
               | Envelope success data err \<Rightarrow>
                   if \<not> answer_ok status \<or> \<not> success
                   then Inl (ApiError status (or_else (Option.bind err fst) ''UNKNOWN'')
                              (or_else (Option.bind err snd) (''request failed ('' @ show_nat status @ '')'')))
                   else Inr data)"

text \<open>The keys of the known codes.\<close>

definition known_code :: "string \<Rightarrow> string option" where
  "known_code = map_of [(''NETWORK_ERROR'', ''api.networkError''), (''BAD_RESPONSE'', ''api.badResponse''),
     (''RATE_LIMITED'', ''api.rateLimited''), (''FORBIDDEN'', ''api.forbidden''), (''UNAUTHORIZED'', ''api.unauthorized'')]"

definition localizeApiError :: "(ui_locale \<Rightarrow> string \<Rightarrow> string option) \<Rightarrow> ui_locale \<Rightarrow> ui_error \<Rightarrow> string option" where
  "localizeApiError messages locale err =
     (case err of
        Thrown m \<Rightarrow> Some m
      | _ \<Rightarrow>
          (let status = [''status'' \<mapsto> show_nat (err_status err)] in
           case known_code (err_code err) of
             Some key \<Rightarrow> formatMessage messages locale key (if err_status err \<noteq> 0 then Some status else None)
           | None \<Rightarrow>
               if err_code err = ''UNKNOWN'' \<and> err_status err \<noteq> 0
               then formatMessage messages locale ''api.requestFailed'' (Some status)
               else Some (err_message err)))"

text \<open>What the gateway's replies are to \<open>fetch\<close>: the envelopes that src/server.ts sends.\<close>

fun answer_of :: "'a reply \<Rightarrow> 'a fetch_answer" where
  "answer_of (Fail status code message) = Answer status (Envelope False None (Some (Some code, Some message)))"
| "answer_of (TooMany retryAfter) = Answer 429 (Envelope False None (Some (Some ''RATE_LIMITED'', Some ''Too many requests'')))"
| "answer_of (Reply status data) = Answer status (Envelope True (Some data) None)"

section \<open>Times\<close>

definition RELATIVE_UNITS :: "(string \<times> int) list" where
  "RELATIVE_UNITS = [(''year'', 31536000000), (''month'', 2592000000), (''day'', 86400000), (''hour'', 3600000), (''minute'', 60000)]"

text \<open>\<open>Math.round(delta / ms)\<close> of integers: halves go up.\<close>

definition math_round :: "int \<Rightarrow> int \<Rightarrow> int" where
  "math_round a b = (2 * a + b) div (2 * b)"

text \<open>What \<open>relativeTime\<close> formats: never, just now, or a number of units (negative in the past).\<close>

datatype relative_time = Never | JustNow | Relative int string

definition relativeTime :: "int \<Rightarrow> int option \<Rightarrow> relative_time" where
  "relativeTime now ts =
     (case ts of
        None \<Rightarrow> Never
      | Some t \<Rightarrow>
          (let delta = t - now in
           case find (\<lambda>(unit, ms). \<bar>delta\<bar> \<ge> ms) RELATIVE_UNITS of
             None \<Rightarrow> JustNow
           | Some (unit, ms) \<Rightarrow> Relative (math_round delta ms) unit))"

definition formatUptime :: "ui_locale \<Rightarrow> nat \<Rightarrow> string" where
  "formatUptime locale sec =
     (let days = show_nat (sec div 86400); hours = show_nat (sec mod 86400 div 3600); minutes = show_nat (sec mod 3600 div 60);
          day = utf8_text [32, 229, 164, 169, 32]; hour = utf8_text [32, 229, 176, 143, 230, 151, 182];
          minute = utf8_text [32, 229, 136, 134]; clock = utf8_text [233, 146, 159]
      in case locale of
           ZhCN \<Rightarrow>
             if sec div 86400 > 0 then days @ day @ hours @ hour
             else if sec mod 86400 div 3600 > 0 then hours @ hour @ '' '' @ minutes @ minute
             else minutes @ minute @ clock
         | En \<Rightarrow>
             if sec div 86400 > 0 then days @ ''d '' @ hours @ ''h''
             else if sec mod 86400 div 3600 > 0 then hours @ ''h '' @ minutes @ ''m''
             else minutes @ ''m'')"

section \<open>What these do\<close>

lemma request_Inr_iff: "request a = Inr d \<longleftrightarrow> (\<exists>s e. a = Answer s (Envelope True d e) \<and> answer_ok s)"
  by (auto simp: request_def answer_ok_def split: fetch_answer.splits body.splits if_splits)

lemma request_unauthorized_iff: "request a = Inl UnauthorizedError \<longleftrightarrow> (\<exists>b. a = Answer 401 b)"
  by (auto simp: request_def split: fetch_answer.splits body.splits if_splits)

lemma request_answer [simp]:
  "answer_ok s \<Longrightarrow> request (Answer s (Envelope True d e)) = Inr d"
  "s \<noteq> 401 \<Longrightarrow> request (Answer s (Envelope False d (Some (Some c, Some m)))) = Inl (ApiError s c m)"
  by (auto simp: request_def answer_ok_def)

lemma replace_params_plain: "CHR ''{'' \<notin> set s \<Longrightarrow> replace_params params s = s"
  by (induction s) (auto simp: Let_def)

lemma replace_params_hole:
  assumes "CHR ''{'' \<notin> set pre" "name \<noteq> []" "list_all is_word name"
  shows "replace_params params (pre @ CHR ''{'' # name @ CHR ''}'' # post)
    = pre @ or_else (params name) (CHR ''{'' # name @ ''}'') @ replace_params params post"
  using assms(1)
proof (induction pre)
  case Nil
  have "takeWhile is_word (name @ CHR ''}'' # post) = name"
    using assms(3) by (simp add: takeWhile_append2 list_all_iff is_word_def)
  with assms(2) show ?case by (simp add: Let_def starts_with_def)
next
  case (Cons c pre)
  then have "c \<noteq> CHR ''{''" by auto
  with Cons show ?case by simp
qed

text \<open>The number that is shown is within the next larger unit: at most 12 months, 31 days, 24 hours, 60 minutes.\<close>

lemma math_round_bounds: "b > 0 \<Longrightarrow> \<bar>a\<bar> \<le> k * b \<Longrightarrow> \<bar>math_round a b\<bar> \<le> k"
proof -
  assume b: "b > 0" and "\<bar>a\<bar> \<le> k * b"
  then have a: "- k * b \<le> a" "a \<le> k * b" by auto
  have "(2 * a + b) div (2 * b) \<le> (2 * (k * b) + b) div (2 * b)" using a b by (intro zdiv_mono1) auto
  also have "\<dots> = k" using b by (intro int_div_pos_eq [where r = b]) (auto simp: algebra_simps)
  finally have u: "math_round a b \<le> k" by (simp add: math_round_def)
  have "- k = (2 * (- k * b) + b) div (2 * b)" using b by (intro int_div_pos_eq [where r = b, symmetric]) (auto simp: algebra_simps)
  also have "\<dots> \<le> (2 * a + b) div (2 * b)" using a b by (intro zdiv_mono1) (auto simp: mult.commute)
  finally show ?thesis using u by (simp add: math_round_def)
qed

lemma relativeTime_bounds:
  assumes "relativeTime now ts = Relative n unit"
  shows "\<bar>n\<bar> \<le> (if unit = ''minute'' then 60 else if unit = ''hour'' then 24 else if unit = ''day'' then 30
    else if unit = ''month'' then 13 else \<bar>n\<bar>)"
proof -
  obtain t where t: "ts = Some t" using assms by (auto simp: relativeTime_def split: option.splits)
  let ?d = "\<bar>t - now\<bar>"
  consider "unit = ''year''" | "unit = ''month''" "?d < 31536000000" "n = math_round (t - now) 2592000000"
    | "unit = ''day''" "?d < 2592000000" "n = math_round (t - now) 86400000"
    | "unit = ''hour''" "?d < 86400000" "n = math_round (t - now) 3600000"
    | "unit = ''minute''" "?d < 3600000" "n = math_round (t - now) 60000"
    using assms t by (auto simp: relativeTime_def RELATIVE_UNITS_def Let_def split: if_splits)
  then show ?thesis
    by cases (auto intro!: math_round_bounds)
qed

text \<open>The path parameter that Express decodes is the id that was put in.\<close>

lemma hex_digit_char: "n < 16 \<Longrightarrow> hex_digit (hex_char n) = Some n"
  by (auto simp: hex_digit_def hex_char_def Let_def of_char_of take_bit_nat_def)

lemma pct_byte_hex [simp]:
  "b < 256 \<Longrightarrow> pct_byte (CHR ''%'' # hex_char (b div 16) # hex_char (b mod 16) # rest) = Some (b, rest)"
  by (simp add: hex_digit_char)

definition pct_text :: "nat \<Rightarrow> string" where
  "pct_text b = [CHR ''%'', hex_char (b div 16), hex_char (b mod 16)]"

lemma decode_two:
  assumes "b1 < 256" "b1 \<ge> 128" "b2 < 192" "b2 \<ge> 128" "utf8_lead b1 = Some (v, 1)" "utf8_valid 1 (64 * v + (b2 - 128))"
  shows "decode_uri (pct_text b1 @ pct_text b2 @ rest) = map_option (Cons (64 * v + (b2 - 128))) (decode_uri rest)"
  using assms by (simp add: pct_text_def del: pct_byte.simps)

lemma decode_pair:
  assumes "128 \<le> n" "n < 256"
  shows "decode_uri (pct_text (192 + n div 64) @ pct_text (128 + n mod 64) @ rest) = map_option (Cons n) (decode_uri rest)"
proof -
  have d: "n div 64 < 4" "n mod 64 < 64" "64 * (n div 64) + n mod 64 = n" using assms by auto
  have "decode_uri (pct_text (192 + n div 64) @ pct_text (128 + n mod 64) @ rest)
      = map_option (Cons (64 * (n div 64) + ((128 + n mod 64) - 128))) (decode_uri rest)"
    by (rule decode_two) (use d assms in \<open>auto simp: utf8_lead_def utf8_valid_def\<close>)
  with d(3) show ?thesis by simp
qed

lemma decode_encoded_char:
  "decode_uri (encodeURIComponent [c] @ rest) = map_option (Cons (of_char c)) (decode_uri rest)"
proof -
  let ?n = "of_char c :: nat"
  have n: "?n < 256" by (rule of_char_less)
  consider "uri_plain c" | "\<not> uri_plain c" "?n < 128" | "\<not> uri_plain c" "?n \<ge> 128" by linarith
  then show ?thesis
  proof cases
    case 1
    then have "c \<noteq> CHR ''%''" by (auto simp: uri_plain_def is_word_def)
    with 1 show ?thesis by (simp add: encodeURIComponent_def)
  next
    case 2
    then show ?thesis using n by (simp add: encodeURIComponent_def utf8_char_def Let_def del: pct_byte.simps)
  next
    case 3
    have "decode_uri (pct_text (192 + ?n div 64) @ pct_text (128 + ?n mod 64) @ rest) = map_option (Cons ?n) (decode_uri rest)"
      by (rule decode_pair [OF 3(2) n])
    then show ?thesis using 3 by (simp add: encodeURIComponent_def utf8_char_def Let_def pct_text_def)
  qed
qed

lemma decode_encoded: "decode_uri (encodeURIComponent s) = Some (map of_char s)"
proof (induction s)
  case Nil
  then show ?case by (simp add: encodeURIComponent_def)
next
  case (Cons c s)
  have "encodeURIComponent (c # s) = encodeURIComponent [c] @ encodeURIComponent s" by (simp add: encodeURIComponent_def)
  with Cons show ?case by (simp only: decode_encoded_char) simp
qed

end
