(* ===== verification/Ui_Dialogs.thy ===== *)
theory Ui_Dialogs
  imports Ui_Api
begin

text \<open>
  packages/admin-ui/src/credentialDialogs.tsx and the dialogs of pages/CredentialsPage.tsx and BackendsPage.tsx:
  the local state of each, what its inputs do to it, when its button works and what it then asks of the API; and that
  the gateway's own checks take what the dialogs send.  A dialog has a number, by which an answer finds it.
\<close>

section \<open>Identities of a namespace\<close>

definition backend_key :: "admin_backend \<Rightarrow> string" where
  "backend_key b = bi_backendId (ab_identity b)"

definition nsIdentities :: "string \<Rightarrow> admin_backend list \<Rightarrow> admin_backend list" where
  "nsIdentities ns backends = filter (\<lambda>b. bi_namespace (ab_identity b) = ns) backends"

definition offers :: "admin_backend list \<Rightarrow> string \<Rightarrow> bool" where
  "offers identities i = list_ex (\<lambda>b. backend_key b = i) identities"

section \<open>The scope picker\<close>

definition scope_candidates ::
  "int \<Rightarrow> admin_backend list \<Rightarrow> (string, credential_info) jmap \<Rightarrow> string list \<Rightarrow> admin_backend list" where
  "scope_candidates now identities credentialsById selected =
     filter (\<lambda>b. identityReachable now b credentialsById \<or> backend_key b \<in> set selected) identities"

definition scope_toggle :: "string \<Rightarrow> string list \<Rightarrow> string list" where
  "scope_toggle i selected = (if i \<in> set selected then filter (\<lambda>x. x \<noteq> i) selected else selected @ [i])"

section \<open>Issuing\<close>

definition TTL_CHOICES :: "nat option option list" where
  "TTL_CHOICES = [None, Some (Some 30), Some (Some 90), Some (Some 180), Some (Some 365), Some None]"

record issue_initial =
  ii_type :: credential_type
  ii_namespace :: string
  ii_backendId :: "string option"

record issue_dialog =
  id_instance :: nat
  id_type :: credential_type
  id_namespace :: string
  id_name :: string
  id_ttlChoice :: nat
  id_inherit :: bool
  id_inheritId :: string
  id_specific :: bool
  id_allowed :: "string list"
  id_busy :: bool
  id_error :: "ui_error option"

definition open_issue :: "nat \<Rightarrow> issue_initial option \<Rightarrow> issue_dialog" where
  "open_issue n initial =
     \<lparr>id_instance = n,
      id_type = (case initial of None \<Rightarrow> Device | Some i \<Rightarrow> ii_type i),
      id_namespace = (case initial of None \<Rightarrow> '''' | Some i \<Rightarrow> ii_namespace i),
      id_name = '''', id_ttlChoice = 0,
      id_inherit = (case Option.bind initial ii_backendId of None \<Rightarrow> False | Some b \<Rightarrow> b \<noteq> []),
      id_inheritId = or_else (Option.bind initial ii_backendId) '''',
      id_specific = False, id_allowed = [], id_busy = False, id_error = None\<rparr>"

text \<open>Selections count only while they belong to the namespace that is typed.\<close>

definition issue_identities :: "admin_backend list \<Rightarrow> issue_dialog \<Rightarrow> admin_backend list" where
  "issue_identities backends d = nsIdentities (js_trim (id_namespace d)) backends"

definition effectiveInherit :: "admin_backend list \<Rightarrow> issue_dialog \<Rightarrow> string" where
  "effectiveInherit backends d = (if offers (issue_identities backends d) (id_inheritId d) then id_inheritId d else '''')"

definition effectiveAllowed :: "admin_backend list \<Rightarrow> issue_dialog \<Rightarrow> string list" where
  "effectiveAllowed backends d = filter (offers (issue_identities backends d)) (id_allowed d)"

definition incomplete :: "admin_backend list \<Rightarrow> issue_dialog \<Rightarrow> bool" where
  "incomplete backends d \<longleftrightarrow>
     js_trim (id_namespace d) = []
     \<or> id_type d = Backend \<and> id_inherit d \<and> effectiveInherit backends d = []
     \<or> id_type d = Device \<and> id_specific d \<and> effectiveAllowed backends d = []"

datatype issue_edit =
    EditType credential_type
  | EditNamespace string
  | EditName string
  | EditTtl nat
  | EditInherit bool
  | EditInheritId string
  | EditSpecific bool
  | EditAllowed string

text \<open>An input that is not shown, or an option that is not offered, changes nothing.\<close>

fun edit_issue ::
  "int \<Rightarrow> admin_backend list \<Rightarrow> (string, credential_info) jmap \<Rightarrow> issue_edit \<Rightarrow> issue_dialog \<Rightarrow> issue_dialog" where
  "edit_issue now backends credentialsById (EditType t) d = (if t = BackendAccess then d else d\<lparr>id_type := t\<rparr>)"
| "edit_issue now backends credentialsById (EditNamespace ns) d = d\<lparr>id_namespace := ns\<rparr>"
| "edit_issue now backends credentialsById (EditName n) d = d\<lparr>id_name := n\<rparr>"
| "edit_issue now backends credentialsById (EditTtl i) d = (if i < length TTL_CHOICES then d\<lparr>id_ttlChoice := i\<rparr> else d)"
| "edit_issue now backends credentialsById (EditInherit b) d = (if id_type d = Backend then d\<lparr>id_inherit := b\<rparr> else d)"
| "edit_issue now backends credentialsById (EditInheritId i) d =
     (if id_type d = Backend \<and> id_inherit d \<and> offers (issue_identities backends d) i then d\<lparr>id_inheritId := i\<rparr> else d)"
| "edit_issue now backends credentialsById (EditSpecific b) d = (if id_type d = Device then d\<lparr>id_specific := b\<rparr> else d)"
| "edit_issue now backends credentialsById (EditAllowed i) d =
     (let selected = effectiveAllowed backends d in
      if id_type d = Device \<and> id_specific d
         \<and> offers (scope_candidates now (issue_identities backends d) credentialsById selected) i
      then d\<lparr>id_allowed := scope_toggle i selected\<rparr> else d)"

definition issue_request_of :: "admin_backend list \<Rightarrow> issue_dialog \<Rightarrow> issue_request" where
  "issue_request_of backends d =
     \<lparr>ir_type = id_type d,
      ir_namespace = js_trim (id_namespace d),
      ir_name = (let n = js_trim (id_name d) in if n = [] then None else Some n),
      ir_ttlDays = TTL_CHOICES ! id_ttlChoice d,
      ir_backendId = (if id_type d = Backend \<and> id_inherit d then Some (effectiveInherit backends d) else None),
      ir_allowedBackends = (if id_type d = Device \<and> id_specific d then Some (effectiveAllowed backends d) else None)\<rparr>"

text \<open>Submitting: nothing, or the dialog at work and the request.\<close>

definition submit_issue :: "admin_backend list \<Rightarrow> issue_dialog \<Rightarrow> (issue_dialog \<times> api_call) option" where
  "submit_issue backends d =
     (if incomplete backends d \<or> id_busy d then None
      else Some (d\<lparr>id_busy := True, id_error := None\<rparr>, IssueCredential (issue_request_of backends d)))"

section \<open>Migrating a legacy credential\<close>

record migrate_dialog =
  md_instance :: nat
  md_credential :: credential_info
  md_choice :: string
  md_busy :: bool
  md_error :: "ui_error option"

definition observed :: "admin_backend list \<Rightarrow> credential_info \<Rightarrow> admin_backend list" where
  "observed backends c = filter (\<lambda>b. bi_lastCredentialId (ab_identity b) = Some (ci_id c)) backends"

definition open_migrate :: "nat \<Rightarrow> admin_backend list \<Rightarrow> credential_info \<Rightarrow> migrate_dialog" where
  "open_migrate n backends c =
     \<lparr>md_instance = n, md_credential = c,
      md_choice = (case observed backends c of [b] \<Rightarrow> backend_key b | _ \<Rightarrow> ''''),
      md_busy = False, md_error = None\<rparr>"

definition chosen :: "admin_backend list \<Rightarrow> migrate_dialog \<Rightarrow> admin_backend option" where
  "chosen backends d = find (\<lambda>b. backend_key b = md_choice d) backends"

text \<open>The radio buttons of several observed identities, or the list of the namespace when there are none.\<close>

definition choose_identity :: "admin_backend list \<Rightarrow> string \<Rightarrow> migrate_dialog \<Rightarrow> migrate_dialog" where
  "choose_identity backends i d =
     (let obs = observed backends (md_credential d) in
      if length obs > 1 \<and> offers obs i \<or> obs = [] \<and> offers (nsIdentities (ci_namespace (md_credential d)) backends) i
      then d\<lparr>md_choice := i\<rparr> else d)"

definition confirm_bind :: "admin_backend list \<Rightarrow> migrate_dialog \<Rightarrow> (migrate_dialog \<times> api_call) option" where
  "confirm_bind backends d =
     (case chosen backends d of
        None \<Rightarrow> None
      | Some b \<Rightarrow>
          if md_busy d then None
          else Some (d\<lparr>md_busy := True, md_error := None\<rparr>, BindCredential (ci_id (md_credential d)) (backend_key b)))"

definition can_inherit :: "admin_backend list \<Rightarrow> migrate_dialog \<Rightarrow> string \<Rightarrow> bool" where
  "can_inherit backends d i =
     (let obs = observed backends (md_credential d)
      in length obs > 1 \<and> offers obs i \<or> obs = [] \<and> map_option backend_key (chosen backends d) = Some i)"

section \<open>Changing a scope\<close>

record scope_dialog =
  sd_instance :: nat
  sd_credential :: credential_info
  sd_droppedUnknown :: nat
  sd_specific :: bool
  sd_selected :: "string list"
  sd_busy :: bool
  sd_error :: "ui_error option"

definition open_scope :: "nat \<Rightarrow> admin_backend list \<Rightarrow> credential_info \<Rightarrow> scope_dialog" where
  "open_scope n backends c =
     (let identities = nsIdentities (ci_namespace c) backends; current = or_else (ci_allowedBackends c) []
      in \<lparr>sd_instance = n, sd_credential = c,
          sd_droppedUnknown = length (filter (\<lambda>i. \<not> offers identities i) current),
          sd_specific = (ci_allowedBackends c \<noteq> None),
          sd_selected = filter (offers identities) current,
          sd_busy = False, sd_error = None\<rparr>)"

definition scope_next :: "scope_dialog \<Rightarrow> string list option" where
  "scope_next d = (if sd_specific d then Some (sd_selected d) else None)"

definition scope_unchanged :: "scope_dialog \<Rightarrow> bool" where
  "scope_unchanged d =
     (case scope_next d of
        None \<Rightarrow> ci_allowedBackends (sd_credential d) = None
      | Some new \<Rightarrow>
          (case ci_allowedBackends (sd_credential d) of
             None \<Rightarrow> False
           | Some current \<Rightarrow> length current = length new \<and> list_all (\<lambda>i. i \<in> set current) new))"

definition toggle_scope ::
  "int \<Rightarrow> admin_backend list \<Rightarrow> (string, credential_info) jmap \<Rightarrow> string \<Rightarrow> scope_dialog \<Rightarrow> scope_dialog" where
  "toggle_scope now backends credentialsById i d =
     (let identities = nsIdentities (ci_namespace (sd_credential d)) backends in
      if sd_specific d \<and> offers (scope_candidates now identities credentialsById (sd_selected d)) i
      then d\<lparr>sd_selected := scope_toggle i (sd_selected d)\<rparr> else d)"

definition save_scope :: "scope_dialog \<Rightarrow> (scope_dialog \<times> api_call) option" where
  "save_scope d =
     (if sd_busy d \<or> scope_unchanged d \<or> scope_next d = Some [] then None
      else Some (d\<lparr>sd_busy := True, sd_error := None\<rparr>, UpdateScope (ci_id (sd_credential d)) (scope_next d)))"

section \<open>Revoking, deleting\<close>

record revoke_dialog =
  rd_instance :: nat
  rd_targets :: "credential_info list"
  rd_busy :: bool

definition confirm_revoke :: "revoke_dialog \<Rightarrow> (revoke_dialog \<times> api_call) option" where
  "confirm_revoke d =
     (if rd_busy d then None else Some (d\<lparr>rd_busy := True\<rparr>, RevokeCredentials (map ci_id (rd_targets d))))"

record purge_dialog =
  pd_instance :: nat
  pd_ids :: "string list"
  pd_single :: "credential_info option"
  pd_busy :: bool

definition confirm_purge :: "purge_dialog \<Rightarrow> (purge_dialog \<times> api_call) option" where
  "confirm_purge d = (if pd_busy d then None else Some (d\<lparr>pd_busy := True\<rparr>, PurgeCredentials (Some (pd_ids d))))"

text \<open>\<open>ids.length > requested - result.skipped.length\<close>\<close>

definition cascade_hint :: "nat \<Rightarrow> string list \<times> string list \<Rightarrow> bool" where
  "cascade_hint requested result = (int (length (fst result)) > int requested - int (length (snd result)))"

record delete_dialog =
  dd_instance :: nat
  dd_backend :: admin_backend
  dd_busy :: bool
  dd_error :: "ui_error option"

definition confirm_delete :: "delete_dialog \<Rightarrow> (delete_dialog \<times> api_call) option" where
  "confirm_delete d =
     (if dd_busy d then None
      else Some (d\<lparr>dd_busy := True, dd_error := None\<rparr>, DeleteBackend (backend_key (dd_backend d))))"

section \<open>What the gateway makes of the requests\<close>

text \<open>The page's list holds identities that the gateway knows, each under its namespace.\<close>

definition known_list :: "admin_backend list \<Rightarrow> storage \<Rightarrow> bool" where
  "known_list backends st = list_all (\<lambda>b. isKnownBackend (backend_key b) (bi_namespace (ab_identity b)) st) backends"

lemma distinct_identities:
  assumes "st_ok st"
  shows "distinct (map bi_backendId (listBackendIdentities st))"
proof -
  have "mset (map bi_backendId (listBackendIdentities st)) = mset (map bi_backendId (st_identities st))"
    by (simp add: listBackendIdentities_def order_by_created_desc_def comp_def backend_identity.truncate_def)
  then show ?thesis using assms by (metis mset_eq_imp_distinct_iff st_ok_def)
qed

lemma list_backends_known:
  assumes "st_ok (gw_storage g)"
  shows "known_list (list_backends g) (gw_storage g)"
proof -
  have "getBackendIdentity (bi_backendId i) (gw_storage g) = Some i" if "i \<in> set (listBackendIdentities (gw_storage g))" for i
    using find_key_unique [OF distinct_identities [OF assms] that] by (simp add: getBackendIdentity_def)
  then show ?thesis by (auto simp: known_list_def list_backends_def isKnownBackend_def backend_key_def list_all_iff Let_def)
qed

lemma js_strings_json [simp]: "js_strings (Some (json_strings xs)) = Some xs"
  by (simp add: js_strings_def json_strings_def list_all_iff comp_def)

lemma offers_known: "known_list backends st \<Longrightarrow> offers (nsIdentities ns backends) i \<Longrightarrow> isKnownBackend i ns st"
  by (auto simp: known_list_def offers_def nsIdentities_def list_all_iff list_ex_iff)

lemma scope_known:
  assumes "list_all (\<lambda>i. isKnownBackend i ns st) xs" "xs \<noteq> []"
  shows "parseBackendScope (Some (json_strings xs)) ns st = Inr (Some (js_uniq xs))"
proof -
  have "filter (\<lambda>i. \<not> isKnownBackend i ns st) (js_uniq xs) = []"
    using assms(1) by (auto simp: filter_empty_conv list_all_iff)
  with assms(2) show ?thesis by (simp add: parseBackendScope_def json_strings_def Let_def) (simp add: json_strings_def [symmetric])
qed

definition choice_ttl :: "nat option option \<Rightarrow> ttl" where
  "choice_ttl t = (case t of None \<Rightarrow> TtlDefault | Some None \<Rightarrow> TtlNever | Some (Some d) \<Rightarrow> TtlMs (int d * 86400000))"

lemma issue_fields:
  assumes "hq_body rq = Some (issue_body r)"
  shows "body_field rq ''type'' = Some (JStr (type_text (ir_type r)))"
    and "body_field rq ''namespace'' = Some (JStr (ir_namespace r))"
    and "body_field rq ''name'' = map_option JStr (ir_name r)"
    and "body_field rq ''ttlDays'' = map_option (\<lambda>t. case t of None \<Rightarrow> JNull | Some d \<Rightarrow> JNum (NFin (of_nat d))) (ir_ttlDays r)"
    and "body_field rq ''backendId'' = map_option JStr (ir_backendId r)"
    and "body_field rq ''allowedBackends'' = map_option json_strings (ir_allowedBackends r)"
  using assms by (auto simp: body_field_def issue_body_def map_add_def split: option.splits)

lemma parse_ttl_choice:
  assumes "i < length TTL_CHOICES"
  shows "parse_ttl (map_option (\<lambda>t. case t of None \<Rightarrow> JNull | Some d \<Rightarrow> JNum (NFin (of_nat d))) (TTL_CHOICES ! i))
    = Some (choice_ttl (TTL_CHOICES ! i))"
proof -
  have "i \<in> {0, 1, 2, 3, 4, 5}" using assms by (auto simp: TTL_CHOICES_def)
  then show ?thesis by (auto simp: TTL_CHOICES_def parse_ttl_def choice_ttl_def)
qed

definition issue_input :: "admin_backend list \<Rightarrow> issue_dialog \<Rightarrow> create_input" where
  "issue_input backends d =
     (let r = issue_request_of backends d
      in \<lparr>in_type = id_type d, in_namespace = ir_namespace r, in_name = ir_name r,
          in_ttl = choice_ttl (TTL_CHOICES ! id_ttlChoice d), in_parentId = None,
          in_backendId = ir_backendId r, in_allowedBackends = map_option js_uniq (ir_allowedBackends r)\<rparr>)"

lemma parse_issue_dialog:
  assumes known: "known_list backends st" and ty: "id_type d \<noteq> BackendAccess" and ttl: "id_ttlChoice d < length TTL_CHOICES"
    and complete: "\<not> incomplete backends d" and body: "hq_body rq = Some (issue_body (issue_request_of backends d))"
  shows "parse_issue rq st = Inr (issue_input backends d)"
proof -
  let ?ns = "js_trim (id_namespace d)"
  have ns: "?ns \<noteq> []" using complete by (simp add: incomplete_def)
  have t: "(id_type d = Device \<or> id_type d = Backend)" using ty by (cases "id_type d") auto
  have b: "isKnownBackend (effectiveInherit backends d) ?ns st" if "id_type d = Backend" "id_inherit d"
    using complete that offers_known [OF known, of ?ns "id_inheritId d"]
    by (auto simp: incomplete_def effectiveInherit_def issue_identities_def split: if_splits)
  have s: "parseBackendScope (Some (json_strings (effectiveAllowed backends d))) ?ns st = Inr (Some (js_uniq (effectiveAllowed backends d)))"
    if "id_type d = Device" "id_specific d"
    using complete that offers_known [OF known, of ?ns]
    by (intro scope_known) (auto simp: incomplete_def effectiveAllowed_def issue_identities_def list_all_iff)
  have n: "ir_name (issue_request_of backends d) = None \<or> (\<exists>m. ir_name (issue_request_of backends d) = Some m)" by auto
  note f = issue_fields [OF body]
  from t show ?thesis
  proof
    assume d: "id_type d = Device"
    show ?thesis
      using n ns d s
      by (cases "id_specific d")
         (auto simp: parse_issue_def f issue_input_def parse_ttl_choice [OF ttl] issue_request_of_def Let_def)
  next
    assume d: "id_type d = Backend"
    show ?thesis
      using n ns d b
      by (cases "id_inherit d")
         (auto simp: parse_issue_def f issue_input_def parse_ttl_choice [OF ttl] issue_request_of_def Let_def)
  qed
qed

text \<open>The credential that the dialog showed when it was submitted.\<close>

definition issued_as :: "int \<Rightarrow> admin_backend list \<Rightarrow> issue_dialog \<Rightarrow> credential_info \<Rightarrow> bool" where
  "issued_as now backends d c \<longleftrightarrow>
     ci_type c = id_type d \<and> ci_namespace c = js_trim (id_namespace d) \<and> ci_name c = js_trim (id_name d)
     \<and> ci_createdAt c = now \<and> ci_revokedAt c = None
     \<and> ci_expiresAt c = expiry now (ttl_for (id_type d) (choice_ttl (TTL_CHOICES ! id_ttlChoice d)))
     \<and> (id_type d = Backend \<and> id_inherit d \<longrightarrow> ci_backendId c = Some (effectiveInherit backends d))
     \<and> ci_allowedBackends c = (if id_type d = Device \<and> id_specific d then Some (js_uniq (effectiveAllowed backends d)) else None)"

lemma created_as:
  assumes "createCredential sha (issue_input backends d) rn now st = (st', Inr (c, token))"
  shows "issued_as now backends d c"
proof -
  obtain s1 b where b: "credential_backend (issue_input backends d) rn now st = (s1, Inr b)"
    and c: "c = credential_info.truncate (new_credential sha (issue_input backends d) rn now b)"
    using assms by (auto simp: createCredential_def Let_def split: prod.splits sum.splits)
  have "id_type d = Backend \<and> id_inherit d \<Longrightarrow> b = Some (effectiveInherit backends d)"
    using b by (auto simp: credential_backend_def issue_input_def issue_request_of_def Let_def)
  then show ?thesis
    by (auto simp: issued_as_def c new_credential_def credential_info.truncate_def issue_input_def issue_request_of_def Let_def)
qed

text \<open>
  C22. A complete issue dialog over a list of identities the gateway knows is never refused: the checks of
  the endpoint make of its request exactly what the dialog shows (type, trimmed namespace and name, lifetime,
  inherited identity or scope), and the answer is the new credential with these, but for the 500 when the
  random draws clash with a row.
\<close>

theorem issue_accepted:
  assumes known: "known_list backends (gw_storage g)" and ty: "id_type d \<noteq> BackendAccess"
    and ttl: "id_ttlChoice d < length TTL_CHOICES"
    and sub: "submit_issue backends d = Some (d', call)" and body: "hq_body rq = hc_body (api_request call)"
  shows "parse_issue rq (gw_storage g) = Inr (issue_input backends d)
    \<and> (case request (answer_of (snd (issue_credential cf rq rn now g))) of
         Inr (Some (c, token)) \<Rightarrow> issued_as now backends d c
       | Inr None \<Rightarrow> False
       | Inl e \<Rightarrow> err_status e = 500)"
proof -
  have call: "call = IssueCredential (issue_request_of backends d)" "\<not> incomplete backends d"
    using sub by (auto simp: submit_issue_def split: if_splits)
  have p: "parse_issue rq (gw_storage g) = Inr (issue_input backends d)"
    by (rule parse_issue_dialog [OF known ty ttl call(2)]) (simp add: body call(1))
  obtain st x where c: "createCredential (cf_sha cf) (issue_input backends d) rn now (gw_storage g) = (st, x)"
    by (cases "createCredential (cf_sha cf) (issue_input backends d) rn now (gw_storage g)")
  show ?thesis
  proof (cases x)
    case (Inl e)
    then show ?thesis by (simp add: issue_credential_def p c server_error_def request_def)
  next
    case (Inr ct)
    then show ?thesis using created_as [of "cf_sha cf" backends d rn now "gw_storage g" st "fst ct" "snd ct"]
      by (simp add: issue_credential_def p c answer_ok_def case_prod_beta)
  qed
qed

section \<open>Scopes and bindings\<close>

lemma row_scope:
  "getCredential i (fst (setAllowedBackends j allowed st)) =
     map_option (\<lambda>c. if ci_id c = j \<and> ci_type c = Device \<and> ci_revokedAt c = None then c\<lparr>ci_allowedBackends := allowed\<rparr> else c)
       (getCredential i st)"
  by (cases "getCredentialById i st")
     (auto simp: getCredential_def setAllowedBackends_def Let_def row_update credential_info.truncate_def)

text \<open>
  Saving a scope whose ids are identities of the namespace that the gateway knows, for a device credential
  it still holds, is answered with the credential under exactly the scope on screen.
\<close>

lemma scope_saved:
  assumes known: "known_list backends (gw_storage g)"
    and offered: "list_all (offers (nsIdentities (ci_namespace (sd_credential d)) backends)) (sd_selected d)"
    and held: "getCredential (ci_id (sd_credential d)) (gw_storage g) = Some c"
      "ci_id c = ci_id (sd_credential d)" "ci_type c = Device" "ci_revokedAt c = None" "ci_namespace c = ci_namespace (sd_credential d)"
    and save: "save_scope d = Some (d', call)" and body: "hq_body rq = hc_body (api_request call)"
  shows "request (answer_of (snd (change_scope cf (ci_id (sd_credential d)) rq g)))
      = Inr (Some (Some (c\<lparr>ci_allowedBackends := map_option js_uniq (scope_next d)\<rparr>)))"
proof -
  have call: "call = UpdateScope (ci_id (sd_credential d)) (scope_next d)" "scope_next d \<noteq> Some []"
    using save by (auto simp: save_scope_def split: if_splits)
  have b: "body_field rq ''allowedBackends'' = Some (case scope_next d of None \<Rightarrow> JNull | Some ids \<Rightarrow> json_strings ids)"
    using body by (simp add: call body_field_def)
  have p: "parseBackendScope (body_field rq ''allowedBackends'') (ci_namespace (sd_credential d)) (gw_storage g)
      = Inr (map_option js_uniq (scope_next d))"
  proof (cases "sd_specific d")
    case True
    have "list_all (\<lambda>i. isKnownBackend i (ci_namespace (sd_credential d)) (gw_storage g)) (sd_selected d)"
      using offered offers_known [OF known] by (auto simp: list_all_iff)
    with True call(2) show ?thesis by (simp add: b scope_next_def scope_known)
  next
    case False
    then show ?thesis by (simp add: b scope_next_def parseBackendScope_def)
  qed
  moreover obtain v where "body_field rq ''allowedBackends'' = Some v" using b by simp
  ultimately show ?thesis by (simp add: change_scope_def held Let_def row_scope answer_ok_def)
qed

section \<open>The cascade hint\<close>

definition unrevoked_in :: "string \<Rightarrow> storage \<Rightarrow> bool" where
  "unrevoked_in i st = (case getCredentialById i st of None \<Rightarrow> False | Some r \<Rightarrow> ci_revokedAt r = None)"

lemma revoked_unrevoked:
  assumes "st_ok st" "j \<in> set (snd (revokeCredential i now st))"
  shows "unrevoked_in j st \<and> \<not> unrevoked_in j (fst (revokeCredential i now st))"
  using assms by (auto simp: revoked_ids unrevoked_in_def row_revoke dest: row_id split: if_splits)

lemma unrevoked_before:
  "st_ok st \<Longrightarrow> unrevoked_in j (fst (revokeCredential i now st)) \<Longrightarrow> unrevoked_in j st"
  by (auto simp: unrevoked_in_def row_revoke split: option.splits if_splits)

lemma distinct_revoke: "st_ok st \<Longrightarrow> distinct (snd (revokeCredential i now st))"
proof -
  assume "st_ok st"
  let ?s1 = "update_where (\<lambda>c. ci_id c = i \<and> ci_revokedAt c = None) (\<lambda>c. c\<lparr>ci_revokedAt := Some now\<rparr>) (st_credentials st)"
  have "map ci_id ?s1 = map ci_id (st_credentials st)" unfolding update_where_def map_map by (rule map_cong [OF refl]) simp
  moreover have "distinct (map ci_id (st_credentials st))" using \<open>st_ok st\<close> by (simp add: st_ok_def)
  ultimately have "distinct (map ci_id ?s1)" by (simp only:)
  then have "distinct (map ci_id (filter P ?s1))" for P by (rule distinct_map_filter)
  moreover have "ci_id c \<noteq> i" if c: "c \<in> set ?s1" "ci_revokedAt c = None" for c
  proof -
    obtain r where "c = (if ci_id r = i \<and> ci_revokedAt r = None then r\<lparr>ci_revokedAt := Some now\<rparr> else r)"
      using c(1) unfolding set_update_where by blast
    with c(2) show ?thesis by (simp split: if_splits)
  qed
  then have "i \<notin> ci_id ` {c \<in> set ?s1. ci_parentId c = Some i \<and> ci_revokedAt c = None}" by blast
  ultimately show ?thesis by (simp add: revokeCredential_def Let_def)
qed

lemma revokes_unrevoked:
  "st_ok st \<Longrightarrow> j \<in> set (snd (revokeCredentials ids now st)) \<Longrightarrow> unrevoked_in j st"
proof (induction ids arbitrary: st)
  case Nil
  then show ?case by simp
next
  case (Cons i ids)
  from Cons.prems(2) consider "j \<in> set (snd (revokeCredential i now st))"
    | "j \<in> set (snd (revokeCredentials ids now (fst (revokeCredential i now st))))"
    by (auto simp: Let_def case_prod_beta)
  then show ?case
  proof cases
    case 1
    with Cons.prems(1) show ?thesis by (blast dest: revoked_unrevoked)
  next
    case 2
    then show ?thesis by (intro unrevoked_before [OF Cons.prems(1)] Cons.IH st_ok_revoke) (rule Cons.prems(1))
  qed
qed

lemma distinct_revokes: "st_ok st \<Longrightarrow> distinct (snd (revokeCredentials ids now st))"
proof (induction ids arbitrary: st)
  case Nil
  then show ?case by simp
next
  case (Cons i ids)
  note ok = st_ok_revoke [OF Cons.prems, of i now]
  have "j \<notin> set (snd (revokeCredentials ids now (fst (revokeCredential i now st))))"
    if "j \<in> set (snd (revokeCredential i now st))" for j
    using revoked_unrevoked [OF Cons.prems that] revokes_unrevoked [OF ok] by blast
  with Cons.IH [OF ok] show ?case by (auto simp: Let_def case_prod_beta distinct_revoke [OF Cons.prems])
qed

lemma length_beyond:
  assumes "distinct xs" "distinct ys"
  shows "int (length xs) > int (length ys) - int (length (filter (\<lambda>y. y \<notin> set xs) ys)) \<longleftrightarrow> (\<exists>x\<in>set xs. x \<notin> set ys)"
proof -
  have "length ys = length (filter (\<lambda>y. y \<in> set xs) ys) + length (filter (\<lambda>y. y \<notin> set xs) ys)"
    by (simp add: sum_length_filter_compl)
  moreover have "length (filter (\<lambda>y. y \<in> set xs) ys) = card (set xs \<inter> set ys)"
    using assms(2) distinct_card [of "filter (\<lambda>y. y \<in> set xs) ys"] by (simp add: Int_def conj_commute)
  moreover have "length xs = card (set xs)" using assms(1) by (simp add: distinct_card)
  moreover have "card (set xs \<inter> set ys) < card (set xs) \<longleftrightarrow> (\<exists>x\<in>set xs. x \<notin> set ys)"
  proof
    assume "card (set xs \<inter> set ys) < card (set xs)"
    then have "set xs \<inter> set ys \<noteq> set xs" by auto
    then show "\<exists>x\<in>set xs. x \<notin> set ys" by auto
  next
    assume "\<exists>x\<in>set xs. x \<notin> set ys"
    then show "card (set xs \<inter> set ys) < card (set xs)" by (intro psubset_card_mono) auto
  qed
  ultimately show ?thesis by linarith
qed

text \<open>
  C23. Confirming the revocation of distinct credentials is taken by the gateway, which revokes exactly the
  unrevoked ones and their children; the window with the result then shows the cascade hint exactly when some
  revoked credential was not among the selected ones, and counts as skipped exactly the selected ones that it
  did not revoke.
\<close>

theorem cascade_hint_exact:
  assumes ok: "st_ok (gw_storage g)" and d: "distinct (map ci_id (rd_targets d))" "rd_targets d \<noteq> []"
    and confirm: "confirm_revoke d = Some (d', call)" and body: "hq_body rq = hc_body (api_request call)"
  shows "let ids = map ci_id (rd_targets d); revoked = snd (revokeCredentials ids now (gw_storage g));
             skipped = filter (\<lambda>i. i \<notin> set revoked) ids
    in request (answer_of (snd (bulk_revoke cf rq now g))) = Inr (Some (revoked, skipped))
       \<and> cascade_hint (length (rd_targets d)) (revoked, skipped) = list_ex (\<lambda>i. i \<notin> set ids) revoked"
proof -
  let ?ids = "map ci_id (rd_targets d)"
  have call: "call = RevokeCredentials ?ids" using confirm by (auto simp: confirm_revoke_def split: if_splits)
  have "body_field rq ''ids'' = Some (json_strings ?ids)" using body by (simp add: call body_field_def)
  moreover have "js_uniq ?ids = ?ids" using d(1) by (simp add: js_uniq_def distinct_remdups_id)
  ultimately have "snd (bulk_revoke cf rq now g) = Reply 200 (snd (revokeCredentials ?ids now (gw_storage g)),
      filter (\<lambda>i. i \<notin> set (snd (revokeCredentials ?ids now (gw_storage g)))) ?ids)"
    using d(2) by (simp add: bulk_revoke_def Let_def case_prod_beta)
  moreover have "cascade_hint (length (rd_targets d)) (revoked, filter (\<lambda>i. i \<notin> set revoked) ?ids) = list_ex (\<lambda>i. i \<notin> set ?ids) revoked"
    if "distinct revoked" for revoked
    using length_beyond [OF that d(1)] by (simp add: cascade_hint_def list_ex_iff)
  ultimately show ?thesis using distinct_revokes [OF ok] by (simp add: Let_def answer_ok_def)
qed

section \<open>Concrete dialogs\<close>

definition sample_page_gateway :: gateway where
  "sample_page_gateway = start_gateway sample_config sample_storage"

definition sample_issue :: issue_dialog where
  "sample_issue = (open_issue 0 None)\<lparr>id_namespace := '' prod'', id_name := ''tablet '', id_specific := True, id_allowed := [''b3'', ''b3'']\<rparr>"

definition body_request :: "api_call \<Rightarrow> http_request" where
  "body_request call = (sample_request (hc_method (api_request call)) None)\<lparr>hq_body := hc_body (api_request call)\<rparr>"

lemma body_request_body: "hq_body (body_request call) = hc_body (api_request call)"
  by (simp add: body_request_def)

definition sample_issue_call :: api_call where
  "sample_issue_call = IssueCredential (issue_request_of (list_backends sample_page_gateway) sample_issue)"

lemma sample_page_known: "known_list (list_backends sample_page_gateway) (gw_storage sample_page_gateway)"
  by (rule list_backends_known) (simp add: sample_page_gateway_def start_gateway_def st_ok_sample)

lemma issue_accepted_witness:
  "map_option (\<lambda>x. ci_allowedBackends (fst x))
     (case request (answer_of (snd (issue_credential sample_config (body_request sample_issue_call) (sample_draws ''9'') 50 sample_page_gateway))) of
        Inr r \<Rightarrow> r | Inl _ \<Rightarrow> None) = Some (Some [''b3''])"
proof -
  have t: "id_type sample_issue \<noteq> BackendAccess" "id_ttlChoice sample_issue < length TTL_CHOICES"
    by (simp_all add: sample_issue_def open_issue_def TTL_CHOICES_def)
  have s: "submit_issue (list_backends sample_page_gateway) sample_issue
      = Some (sample_issue\<lparr>id_busy := True, id_error := None\<rparr>, sample_issue_call)"
  proof -
    have "\<not> (incomplete (list_backends sample_page_gateway) sample_issue \<or> id_busy sample_issue)" by code_simp
    then show ?thesis by (simp add: submit_issue_def sample_issue_call_def)
  qed
  have a: "id_type sample_issue = Device \<and> id_specific sample_issue"
    "js_uniq (effectiveAllowed (list_backends sample_page_gateway) sample_issue) = [''b3'']" by code_simp+
  have n: "isl (request (answer_of (snd (issue_credential sample_config (body_request sample_issue_call) (sample_draws ''9'') 50 sample_page_gateway)))) = False"
    by code_simp
  from issue_accepted [OF sample_page_known t s body_request_body, where cf = sample_config and rn = "sample_draws ''9''" and now = 50, THEN conjunct2] n a
  show ?thesis by (auto simp: issued_as_def split: sum.splits option.splits)
qed

definition sample_laptop :: credential_info where
  "sample_laptop = \<lparr>ci_id = ''c2'', ci_type = Device, ci_namespace = ''prod'', ci_name = ''laptop'',
     ci_parentId = None, ci_createdAt = 20, ci_expiresAt = Some (20 + DEFAULT_DEVICE_TTL_MS), ci_revokedAt = None,
     ci_lastUsedAt = None, ci_backendId = None, ci_allowedBackends = None\<rparr>"

definition sample_scope :: scope_dialog where
  "sample_scope = (open_scope 0 (list_backends sample_page_gateway) sample_laptop)\<lparr>sd_specific := True, sd_selected := [''b3'']\<rparr>"

lemma scope_saved_sample:
  "request (answer_of (snd (change_scope sample_config ''c2'' (body_request (UpdateScope ''c2'' (Some [''b3'']))) sample_page_gateway)))
     = Inr (Some (Some (sample_laptop\<lparr>ci_allowedBackends := Some [''b3'']\<rparr>)))"
proof -
  have c: "sd_credential sample_scope = sample_laptop" by (simp add: sample_scope_def open_scope_def Let_def)
  have o: "list_all (offers (nsIdentities (ci_namespace (sd_credential sample_scope)) (list_backends sample_page_gateway))) (sd_selected sample_scope)"
    by code_simp
  have h: "getCredential (ci_id (sd_credential sample_scope)) (gw_storage sample_page_gateway) = Some sample_laptop" by code_simp
  have f: "ci_id sample_laptop = ci_id (sd_credential sample_scope)" "ci_type sample_laptop = Device" "ci_revokedAt sample_laptop = None"
    "ci_namespace sample_laptop = ci_namespace (sd_credential sample_scope)"
    by (simp_all add: c sample_laptop_def)
  have n: "scope_next sample_scope = Some [''b3'']" by (simp add: sample_scope_def scope_next_def)
  have s: "save_scope sample_scope = Some (sample_scope\<lparr>sd_busy := True, sd_error := None\<rparr>, UpdateScope ''c2'' (Some [''b3'']))"
  proof -
    have "\<not> (sd_busy sample_scope \<or> scope_unchanged sample_scope)" by code_simp
    then show ?thesis by (simp add: save_scope_def n c) (simp add: sample_laptop_def)
  qed
  have "js_uniq [''b3''] = [''b3'']" by (simp add: js_uniq_def)
  with scope_saved [OF sample_page_known o h f s body_request_body, of sample_config] show ?thesis
    by (simp add: n c) (simp add: sample_laptop_def)
qed

definition sample_revoke :: revoke_dialog where
  "sample_revoke = \<lparr>rd_instance = 0, rd_targets = [sample_host, sample_laptop], rd_busy = False\<rparr>"

lemma cascade_hint_exact_witness:
  "map_option (cascade_hint 2)
     (case request (answer_of (snd (bulk_revoke sample_config (body_request (RevokeCredentials [''c3'', ''c2''])) 70 (fst sample_exchange)))) of
        Inr r \<Rightarrow> r | Inl _ \<Rightarrow> None) = Some True"
proof -
  have ok: "st_ok (gw_storage (fst sample_exchange))" by code_simp
  have i: "map ci_id (rd_targets sample_revoke) = [''c3'', ''c2'']"
    by (simp add: sample_revoke_def sample_host_def sample_laptop_def)
  have d: "distinct (map ci_id (rd_targets sample_revoke))" "rd_targets sample_revoke \<noteq> []"
    unfolding i by (simp_all add: sample_revoke_def)
  have s: "confirm_revoke sample_revoke = Some (sample_revoke\<lparr>rd_busy := True\<rparr>, RevokeCredentials [''c3'', ''c2''])"
    by (simp add: confirm_revoke_def i) (simp add: sample_revoke_def)
  have r: "snd (revokeCredentials [''c3'', ''c2''] 70 (gw_storage (fst sample_exchange))) = [''c3'', ''c4'', ''c2'']" by code_simp
  have "length (rd_targets sample_revoke) = 2" by (simp add: sample_revoke_def)
  with cascade_hint_exact [OF ok d s body_request_body, of 70 sample_config] show ?thesis
    by (simp add: i r Let_def del: revokeCredentials.simps)
qed

end
