(* ===== verification/Ui_Credentials.thy ===== *)
theory Ui_Credentials
  imports Ui_Dialogs Sdk_Prelude
begin

text \<open>
  packages/admin-ui/src/pages/CredentialsPage.tsx: the state of the credentials page, its lists, the selection,
  and its dialogs, with every input of the user and every answer of the API as an event.  An input whose control
  is not shown or is disabled changes nothing.  A call that is under way is remembered with its number until its
  answer comes; an answer finds its dialog by the dialog's number, for React keeps the closures of a dialog that
  has been closed.  A page left for the login form is not followed further.
\<close>

section \<open>State\<close>

datatype pending = LoadPending | IssuePending nat | RevokePending nat nat | PurgePending nat | BindPending nat | ScopePending nat

record cred_page =
  cp_credentials :: "credential_info list option"
  cp_backends :: "admin_backend list"
  cp_error :: "ui_error option"
  cp_actionError :: "ui_error option"
  cp_typeFilter :: "credential_type option"
  cp_statusFilter :: "credential_status option"
  cp_namespaceFilter :: string
  cp_search :: string
  cp_hideExpiredAccess :: bool
  cp_listedAt :: int
  cp_selected :: "string list"
  cp_issuing :: "issue_dialog option"
  cp_issued :: "(credential_info \<times> string) option"
  cp_revoking :: "revoke_dialog option"
  cp_revokeResult :: "((string list \<times> string list) \<times> nat) option"
  cp_purging :: "purge_dialog option"
  cp_migrating :: "migrate_dialog option"
  cp_editingScope :: "scope_dialog option"
  cp_next :: nat
  cp_pending :: "(nat, pending) jmap"
  cp_sent :: "api_call list"
  cp_left :: bool

text \<open>Sending a call: it is under way under the next number, which then is used up.\<close>

definition call_out :: "api_call list \<Rightarrow> pending \<Rightarrow> cred_page \<Rightarrow> cred_page" where
  "call_out calls what p =
     p\<lparr>cp_sent := cp_sent p @ calls, cp_pending := jm_set (cp_next p) what (cp_pending p), cp_next := cp_next p + 1\<rparr>"

definition load :: "cred_page \<Rightarrow> cred_page" where
  "load p = call_out [ListCredentials, ListBackends] LoadPending p"

text \<open>The page when it appears: its effect has asked for both lists.\<close>

definition new_cred_page :: "int \<Rightarrow> cred_page" where
  "new_cred_page now = load
     \<lparr>cp_credentials = None, cp_backends = [], cp_error = None, cp_actionError = None, cp_typeFilter = None,
      cp_statusFilter = None, cp_namespaceFilter = ''all'', cp_search = '''', cp_hideExpiredAccess = True,
      cp_listedAt = now, cp_selected = [], cp_issuing = None, cp_issued = None, cp_revoking = None,
      cp_revokeResult = None, cp_purging = None, cp_migrating = None, cp_editingScope = None, cp_next = 0,
      cp_pending = [], cp_sent = [], cp_left = False\<rparr>"

definition session_lost :: "ui_error \<Rightarrow> cred_page \<Rightarrow> cred_page" where
  "session_lost e p = (if e = UnauthorizedError then p\<lparr>cp_left := True\<rparr> else p)"

definition show_action_error :: "ui_error \<Rightarrow> cred_page \<Rightarrow> cred_page" where
  "show_action_error e p = session_lost e (p\<lparr>cp_actionError := Some e\<rparr>)"

section \<open>The lists\<close>

fun contains :: "string \<Rightarrow> string \<Rightarrow> bool" where
  "contains s q = (starts_with q s \<or> (case s of [] \<Rightarrow> False | _ # t \<Rightarrow> contains t q))"

definition matches_search :: "string \<Rightarrow> credential_info \<Rightarrow> bool" where
  "matches_search q c \<longleftrightarrow>
     contains (toLowerCase (ci_name c)) q \<or> contains (toLowerCase (ci_namespace c)) q \<or> contains (toLowerCase (ci_id c)) q
     \<or> (case ci_backendId c of None \<Rightarrow> False | Some b \<Rightarrow> contains (toLowerCase b) q)"

text \<open>The filtered list is computed anew when what it depends on changes; its clock is that of the last time.\<close>

definition filtered :: "cred_page \<Rightarrow> credential_info list" where
  "filtered p =
     (let now = cp_listedAt p;
          l0 = or_else (cp_credentials p) [];
          l1 = (case cp_typeFilter p of None \<Rightarrow> l0 | Some t \<Rightarrow> filter (\<lambda>c. ci_type c = t) l0);
          l2 = (case cp_statusFilter p of None \<Rightarrow> l1 | Some s \<Rightarrow> filter (\<lambda>c. credentialStatus now c = s) l1);
          l3 = (if cp_hideExpiredAccess p \<and> cp_statusFilter p \<noteq> Some StatusExpired
                then filter (\<lambda>c. \<not> (ci_type c = BackendAccess \<and> credentialStatus now c = StatusExpired)) l2 else l2);
          l4 = (if cp_namespaceFilter p \<noteq> ''all'' then filter (\<lambda>c. ci_namespace c = cp_namespaceFilter p) l3 else l3);
          q = toLowerCase (js_trim (cp_search p))
      in if q \<noteq> [] then filter (matches_search q) l4 else l4)"

definition revokedAll :: "cred_page \<Rightarrow> credential_info list" where
  "revokedAll p = filter (\<lambda>c. ci_revokedAt c \<noteq> None) (or_else (cp_credentials p) [])"

definition selectable :: "cred_page \<Rightarrow> credential_info list" where
  "selectable p = filter (\<lambda>c. ci_revokedAt c = None) (filtered p)"

definition selectedRows :: "cred_page \<Rightarrow> credential_info list" where
  "selectedRows p = filter (\<lambda>c. ci_id c \<in> set (cp_selected p)) (selectable p)"

definition allSelected :: "cred_page \<Rightarrow> bool" where
  "allSelected p \<longleftrightarrow> selectable p \<noteq> [] \<and> length (selectedRows p) = length (selectable p)"

text \<open>A row of the table, by its key.\<close>

definition row_of :: "string \<Rightarrow> cred_page \<Rightarrow> credential_info option" where
  "row_of i p = find (\<lambda>c. ci_id c = i) (filtered p)"

definition page_by_id :: "cred_page \<Rightarrow> (string, credential_info) jmap" where
  "page_by_id p = credentials_by_id (or_else (cp_credentials p) [])"

text \<open>The namespaces offered, sorted and without repetition.\<close>

definition namespaces :: "cred_page \<Rightarrow> string list" where
  "namespaces p = sort_key (map of_char :: char list \<Rightarrow> nat list) (js_uniq
     (map ci_namespace (or_else (cp_credentials p) []) @ map (\<lambda>b. bi_namespace (ab_identity b)) (cp_backends p)))"

section \<open>Cells\<close>

text \<open>What the column of the backend or scope shows, with how many ids of a scope are stale.\<close>

datatype scope_cell = WholeNamespace | ScopeOf nat nat "(string \<times> string \<times> bool) list" | BoundTo "string option" string | LegacyBadge | Dash

definition backends_by_id :: "admin_backend list \<Rightarrow> (string, admin_backend) jmap" where
  "backends_by_id bs = fold (\<lambda>b m. jm_set (backend_key b) b m) bs []"

definition scope_entry :: "int \<Rightarrow> cred_page \<Rightarrow> string \<Rightarrow> string \<times> string \<times> bool" where
  "scope_entry now p i =
     (case jm_get (backends_by_id (cp_backends p)) i of
        None \<Rightarrow> (i, shortId i, True)
      | Some b \<Rightarrow> (i, identityLabel b, \<not> identityReachable now b (page_by_id p)))"

definition renderBackendOrScope :: "int \<Rightarrow> cred_page \<Rightarrow> credential_info \<Rightarrow> credential_status \<Rightarrow> scope_cell" where
  "renderBackendOrScope now p c status =
     (if ci_type c = Device then
        (case ci_allowedBackends c of
           None \<Rightarrow> WholeNamespace
         | Some ids \<Rightarrow>
             (let entries = map (scope_entry now p) ids
              in ScopeOf (length entries) (length (filter (\<lambda>(_, _, stale). stale) entries)) entries))
      else case ci_backendId c of
        Some b \<Rightarrow> BoundTo (map_option identityLabel (jm_get (backends_by_id (cp_backends p)) b)) (shortId b)
      | None \<Rightarrow> if ci_type c = Backend \<and> status \<noteq> StatusRevoked then LegacyBadge else Dash)"

text \<open>The names listed in the confirmation, and how many more there are.\<close>

definition REVOKE_LIST_LIMIT :: nat where "REVOKE_LIST_LIMIT = 8"

definition revoke_listing :: "revoke_dialog \<Rightarrow> credential_info list \<times> nat option" where
  "revoke_listing d =
     (take REVOKE_LIST_LIMIT (rd_targets d),
      if length (rd_targets d) > REVOKE_LIST_LIMIT then Some (length (rd_targets d) - REVOKE_LIST_LIMIT) else None)"

lemma revoke_listing_complete:
  "length (fst (revoke_listing d)) + or_else (snd (revoke_listing d)) 0 = length (rd_targets d)"
  by (simp add: revoke_listing_def REVOKE_LIST_LIMIT_def)

section \<open>Inputs\<close>

definition set_filters :: "int \<Rightarrow> (cred_page \<Rightarrow> cred_page) \<Rightarrow> cred_page \<Rightarrow> cred_page" where
  "set_filters now f p = (if f p = p then p else (f p)\<lparr>cp_listedAt := now\<rparr>)"

definition toggle_selected :: "string \<Rightarrow> cred_page \<Rightarrow> cred_page" where
  "toggle_selected i p =
     p\<lparr>cp_selected := if i \<in> set (cp_selected p) then filter (\<lambda>x. x \<noteq> i) (cp_selected p) else cp_selected p @ [i]\<rparr>"

definition toggle_all :: "cred_page \<Rightarrow> cred_page" where
  "toggle_all p = p\<lparr>cp_selected := if allSelected p then [] else map ci_id (selectable p)\<rparr>"

text \<open>A dialog that is open keeps its own state when its properties change; one that is not is a new one.\<close>

definition open_issuing :: "issue_initial option \<Rightarrow> cred_page \<Rightarrow> cred_page" where
  "open_issuing initial p =
     (case cp_issuing p of
        Some _ \<Rightarrow> p
      | None \<Rightarrow> p\<lparr>cp_issuing := Some (open_issue (cp_next p) initial), cp_next := cp_next p + 1\<rparr>)"

definition open_revoking :: "credential_info list \<Rightarrow> cred_page \<Rightarrow> cred_page" where
  "open_revoking targets p =
     (case cp_revoking p of
        Some d \<Rightarrow> p\<lparr>cp_revoking := Some (d\<lparr>rd_targets := targets\<rparr>)\<rparr>
      | None \<Rightarrow> p\<lparr>cp_revoking := Some \<lparr>rd_instance = cp_next p, rd_targets = targets, rd_busy = False\<rparr>, cp_next := cp_next p + 1\<rparr>)"

definition open_purging :: "string list \<Rightarrow> credential_info option \<Rightarrow> cred_page \<Rightarrow> cred_page" where
  "open_purging ids single p =
     (case cp_purging p of
        Some d \<Rightarrow> p\<lparr>cp_purging := Some (d\<lparr>pd_ids := ids, pd_single := single\<rparr>)\<rparr>
      | None \<Rightarrow> p\<lparr>cp_purging := Some \<lparr>pd_instance = cp_next p, pd_ids = ids, pd_single = single, pd_busy = False\<rparr>,
                  cp_next := cp_next p + 1\<rparr>)"

definition open_migrating :: "credential_info \<Rightarrow> cred_page \<Rightarrow> cred_page" where
  "open_migrating c p =
     (case cp_migrating p of
        Some d \<Rightarrow> p\<lparr>cp_migrating := Some (d\<lparr>md_credential := c\<rparr>)\<rparr>
      | None \<Rightarrow> p\<lparr>cp_migrating := Some (open_migrate (cp_next p) (cp_backends p) c), cp_next := cp_next p + 1\<rparr>)"

definition open_scoping :: "credential_info \<Rightarrow> cred_page \<Rightarrow> cred_page" where
  "open_scoping c p =
     (case cp_editingScope p of
        Some d \<Rightarrow> p\<lparr>cp_editingScope := Some (d\<lparr>sd_credential := c\<rparr>)\<rparr>
      | None \<Rightarrow> p\<lparr>cp_editingScope := Some (open_scope (cp_next p) (cp_backends p) c), cp_next := cp_next p + 1\<rparr>)"

text \<open>The buttons of a row, each shown for the credentials it is for.\<close>

definition on_row :: "string \<Rightarrow> (credential_info \<Rightarrow> bool) \<Rightarrow> (credential_info \<Rightarrow> cred_page \<Rightarrow> cred_page) \<Rightarrow> cred_page \<Rightarrow> cred_page" where
  "on_row i shown f p = (case row_of i p of None \<Rightarrow> p | Some c \<Rightarrow> if shown c then f c p else p)"

definition unrevoked :: "credential_info \<Rightarrow> bool" where
  "unrevoked c = (ci_revokedAt c = None)"

definition migratable :: "credential_info \<Rightarrow> bool" where
  "migratable c = (ci_type c = Backend \<and> ci_backendId c = None \<and> unrevoked c)"

definition scopable :: "credential_info \<Rightarrow> bool" where
  "scopable c = (ci_type c = Device \<and> unrevoked c)"

datatype cred_input =
    Reload
  | DismissError
  | SetTypeFilter "credential_type option"
  | SetStatusFilter "credential_status option"
  | SetNamespaceFilter string
  | SetSearch string
  | SetHideExpired bool
  | ToggleRow string
  | ToggleAll
  | ClearSelection
  | OpenIssue
  | EditIssue issue_edit
  | SubmitIssue
  | CloseIssue
  | CloseIssued
  | RevokeRow string
  | RevokeSelected
  | ConfirmRevoke
  | CloseRevoke
  | CloseResult
  | PurgeAll
  | PurgeRow string
  | ConfirmPurge
  | ClosePurge
  | MigrateRow string
  | ChooseIdentity string
  | ConfirmBind
  | InheritIdentity string
  | CloseMigrate
  | ScopeRow string
  | PickScope bool
  | ToggleScope string
  | SaveScope
  | CloseScope

text \<open>An update of an open dialog, and of one whose button sends a call.\<close>

definition dialog_call ::
  "(cred_page \<Rightarrow> 'd option) \<Rightarrow> ('d option \<Rightarrow> cred_page \<Rightarrow> cred_page) \<Rightarrow> ('d \<Rightarrow> ('d \<times> api_call) option) \<Rightarrow> ('d \<Rightarrow> pending)
     \<Rightarrow> cred_page \<Rightarrow> cred_page" where
  "dialog_call get put act what p =
     (case get p of
        None \<Rightarrow> p
      | Some d \<Rightarrow> (case act d of None \<Rightarrow> p | Some (d', call) \<Rightarrow> call_out [call] (what d') (put (Some d') p)))"

fun page_input :: "int \<Rightarrow> cred_input \<Rightarrow> cred_page \<Rightarrow> cred_page" where
  "page_input now Reload p = load p"
| "page_input now DismissError p = p\<lparr>cp_actionError := None\<rparr>"
| "page_input now (SetTypeFilter t) p = set_filters now (cp_typeFilter_update (\<lambda>_. t)) p"
| "page_input now (SetStatusFilter s) p = set_filters now (cp_statusFilter_update (\<lambda>_. s)) p"
| "page_input now (SetNamespaceFilter n) p = set_filters now (cp_namespaceFilter_update (\<lambda>_. n)) p"
| "page_input now (SetSearch s) p = set_filters now (cp_search_update (\<lambda>_. s)) p"
| "page_input now (SetHideExpired b) p = set_filters now (cp_hideExpiredAccess_update (\<lambda>_. b)) p"
| "page_input now (ToggleRow i) p = on_row i unrevoked (\<lambda>c. toggle_selected (ci_id c)) p"
| "page_input now ToggleAll p = (if selectable p = [] then p else toggle_all p)"
| "page_input now ClearSelection p = (if selectedRows p = [] then p else p\<lparr>cp_selected := []\<rparr>)"
| "page_input now OpenIssue p = open_issuing None p"
| "page_input now (EditIssue e) p =
     p\<lparr>cp_issuing := map_option (edit_issue now (cp_backends p) (page_by_id p) e) (cp_issuing p)\<rparr>"
| "page_input now SubmitIssue p =
     dialog_call cp_issuing (\<lambda>d. cp_issuing_update (\<lambda>_. d)) (submit_issue (cp_backends p)) (\<lambda>d. IssuePending (id_instance d)) p"
| "page_input now CloseIssue p = p\<lparr>cp_issuing := None\<rparr>"
| "page_input now CloseIssued p = p\<lparr>cp_issued := None\<rparr>"
| "page_input now (RevokeRow i) p = on_row i unrevoked (\<lambda>c. open_revoking [c]) p"
| "page_input now RevokeSelected p = (if selectedRows p = [] then p else open_revoking (selectedRows p) p)"
| "page_input now ConfirmRevoke p =
     dialog_call cp_revoking (\<lambda>d. cp_revoking_update (\<lambda>_. d)) confirm_revoke (\<lambda>d. RevokePending (rd_instance d) (length (rd_targets d))) p"
| "page_input now CloseRevoke p = p\<lparr>cp_revoking := None\<rparr>"
| "page_input now CloseResult p = p\<lparr>cp_revokeResult := None\<rparr>"
| "page_input now PurgeAll p = (if revokedAll p = [] then p else open_purging (map ci_id (revokedAll p)) None p)"
| "page_input now (PurgeRow i) p = on_row i (\<lambda>c. \<not> unrevoked c) (\<lambda>c. open_purging [ci_id c] (Some c)) p"
| "page_input now ConfirmPurge p =
     dialog_call cp_purging (\<lambda>d. cp_purging_update (\<lambda>_. d)) confirm_purge (\<lambda>d. PurgePending (pd_instance d)) p"
| "page_input now ClosePurge p = p\<lparr>cp_purging := None\<rparr>"
| "page_input now (MigrateRow i) p = on_row i migratable open_migrating p"
| "page_input now (ChooseIdentity i) p = p\<lparr>cp_migrating := map_option (choose_identity (cp_backends p) i) (cp_migrating p)\<rparr>"
| "page_input now ConfirmBind p =
     dialog_call cp_migrating (\<lambda>d. cp_migrating_update (\<lambda>_. d)) (confirm_bind (cp_backends p)) (\<lambda>d. BindPending (md_instance d)) p"
| "page_input now (InheritIdentity i) p =
     (case cp_migrating p of
        None \<Rightarrow> p
      | Some d \<Rightarrow>
          if can_inherit (cp_backends p) d i
          then (open_issuing (Some \<lparr>ii_type = Backend, ii_namespace = ci_namespace (md_credential d), ii_backendId = Some i\<rparr>) p)
                 \<lparr>cp_migrating := None\<rparr>
          else p)"
| "page_input now CloseMigrate p = p\<lparr>cp_migrating := None\<rparr>"
| "page_input now (ScopeRow i) p = on_row i scopable open_scoping p"
| "page_input now (PickScope b) p = p\<lparr>cp_editingScope := map_option (sd_specific_update (\<lambda>_. b)) (cp_editingScope p)\<rparr>"
| "page_input now (ToggleScope i) p =
     p\<lparr>cp_editingScope := map_option (toggle_scope now (cp_backends p) (page_by_id p) i) (cp_editingScope p)\<rparr>"
| "page_input now SaveScope p =
     dialog_call cp_editingScope (\<lambda>d. cp_editingScope_update (\<lambda>_. d)) save_scope (\<lambda>d. ScopePending (sd_instance d)) p"
| "page_input now CloseScope p = p\<lparr>cp_editingScope := None\<rparr>"

text \<open>The migrate button is in exactly the rows with the legacy badge.\<close>

lemma legacy_badge_iff:
  "renderBackendOrScope now p c (credentialStatus now c) = LegacyBadge \<longleftrightarrow> migratable c"
  by (auto simp: renderBackendOrScope_def migratable_def unrevoked_def credentialStatus_def Let_def split: option.splits)

section \<open>Answers\<close>

text \<open>
  What the caller of the API function gets; an envelope of success without data, which the gateway never sends,
  counts as the error it leads to.  Both lists come together or not at all: the first failure decides.
\<close>

definition fetched :: "'a fetch_answer \<Rightarrow> ui_error + 'a" where
  "fetched a = (case request a of Inl e \<Rightarrow> Inl e | Inr None \<Rightarrow> Inl (Thrown ''TypeError'') | Inr (Some d) \<Rightarrow> Inr d)"

definition both :: "bool \<Rightarrow> 'a fetch_answer \<Rightarrow> 'b fetch_answer \<Rightarrow> ui_error + 'a \<times> 'b" where
  "both secondFirst a b =
     (case (fetched a, fetched b) of
        (Inr x, Inr y) \<Rightarrow> Inr (x, y)
      | (Inl e, Inr _) \<Rightarrow> Inl e
      | (Inr _, Inl e) \<Rightarrow> Inl e
      | (Inl e1, Inl e2) \<Rightarrow> Inl (if secondFirst then e2 else e1))"

definition loaded :: "int \<Rightarrow> ui_error + credential_info list \<times> admin_backend list \<Rightarrow> cred_page \<Rightarrow> cred_page" where
  "loaded now r p =
     (case r of
        Inl e \<Rightarrow> session_lost e (p\<lparr>cp_error := Some e\<rparr>)
      | Inr (list, backends) \<Rightarrow>
          p\<lparr>cp_credentials := Some (sort_key (\<lambda>c. - ci_createdAt c) list), cp_backends := backends, cp_error := None,
            cp_listedAt := now\<rparr>)"

datatype cred_answer =
    LoadAnswered bool "credential_info list fetch_answer" "admin_backend list fetch_answer"
  | IssueAnswered "(credential_info \<times> string) fetch_answer"
  | RevokeAnswered "(string list \<times> string list) fetch_answer"
  | PurgeAnswered "string list fetch_answer"
  | BindAnswered "credential_info option fetch_answer"
  | ScopeAnswered "credential_info option fetch_answer"

text \<open>A failure shown in the dialog, when it is still the one that asked.\<close>

definition issue_failed :: "nat \<Rightarrow> ui_error \<Rightarrow> cred_page \<Rightarrow> cred_page" where
  "issue_failed n e p = session_lost e (p\<lparr>cp_issuing := map_option (\<lambda>d.
     if id_instance d = n then d\<lparr>id_busy := False, id_error := Some e\<rparr> else d) (cp_issuing p)\<rparr>)"

definition bind_failed :: "nat \<Rightarrow> ui_error \<Rightarrow> cred_page \<Rightarrow> cred_page" where
  "bind_failed n e p = session_lost e (p\<lparr>cp_migrating := map_option (\<lambda>d.
     if md_instance d = n then d\<lparr>md_busy := False, md_error := Some e\<rparr> else d) (cp_migrating p)\<rparr>)"

definition scope_failed :: "nat \<Rightarrow> ui_error \<Rightarrow> cred_page \<Rightarrow> cred_page" where
  "scope_failed n e p = session_lost e (p\<lparr>cp_editingScope := map_option (\<lambda>d.
     if sd_instance d = n then d\<lparr>sd_busy := False, sd_error := Some e\<rparr> else d) (cp_editingScope p)\<rparr>)"

text \<open>The callbacks close whatever dialog of the kind is open.\<close>

fun page_answer :: "int \<Rightarrow> pending \<Rightarrow> cred_answer \<Rightarrow> cred_page \<Rightarrow> cred_page option" where
  "page_answer now LoadPending (LoadAnswered secondFirst a b) p = Some (loaded now (both secondFirst a b) p)"
| "page_answer now (IssuePending n) (IssueAnswered a) p =
     (case fetched a of
        Inl e \<Rightarrow> Some (issue_failed n e p)
      | Inr issued \<Rightarrow> Some (load (p\<lparr>cp_issuing := None, cp_issued := Some issued\<rparr>)))"
| "page_answer now (RevokePending n requested) (RevokeAnswered a) p =
     (case fetched a of
        Inl e \<Rightarrow> Some (show_action_error e (p\<lparr>cp_revoking := None\<rparr>))
      | Inr result \<Rightarrow> Some (load (p\<lparr>cp_revokeResult := Some (result, requested), cp_revoking := None, cp_selected := []\<rparr>)))"
| "page_answer now (PurgePending n) (PurgeAnswered a) p =
     (case fetched a of
        Inl e \<Rightarrow> Some (show_action_error e (p\<lparr>cp_purging := None\<rparr>))
      | Inr deleted \<Rightarrow> Some (load (p\<lparr>cp_purging := None\<rparr>)))"
| "page_answer now (BindPending n) (BindAnswered a) p =
     (case fetched a of
        Inl e \<Rightarrow> Some (bind_failed n e p)
      | Inr c \<Rightarrow> Some (load (p\<lparr>cp_migrating := None\<rparr>)))"
| "page_answer now (ScopePending n) (ScopeAnswered a) p =
     (case fetched a of
        Inl e \<Rightarrow> Some (scope_failed n e p)
      | Inr c \<Rightarrow> Some (load (p\<lparr>cp_editingScope := None\<rparr>)))"
| "page_answer now _ _ p = None"

datatype page_event = Input cred_input | Answered nat cred_answer

fun page_step :: "int \<times> page_event \<Rightarrow> cred_page \<Rightarrow> cred_page" where
  "page_step (now, Input i) p = (if cp_left p \<or> cp_credentials p = None then p else page_input now i p)"
| "page_step (now, Answered k a) p =
     (if cp_left p then p
      else case jm_get (cp_pending p) k of
             None \<Rightarrow> p
           | Some what \<Rightarrow> or_else (page_answer now what a (p\<lparr>cp_pending := jm_del k (cp_pending p)\<rparr>)) p)"

section \<open>Open dialogs\<close>

text \<open>What holds of an open dialog: it is about a credential it is for, and its fields are in range.\<close>

definition issue_fine :: "issue_dialog \<Rightarrow> bool" where
  "issue_fine d \<longleftrightarrow> id_type d \<noteq> BackendAccess \<and> id_ttlChoice d < length TTL_CHOICES"

definition dialogs_fine :: "cred_page \<Rightarrow> bool" where
  "dialogs_fine p \<longleftrightarrow>
     pred_option issue_fine (cp_issuing p)
     \<and> pred_option (\<lambda>d. rd_targets d \<noteq> [] \<and> list_all unrevoked (rd_targets d)) (cp_revoking p)
     \<and> pred_option (\<lambda>d. pd_ids d \<noteq> []) (cp_purging p)
     \<and> pred_option (\<lambda>d. migratable (md_credential d)) (cp_migrating p)
     \<and> pred_option (\<lambda>d. scopable (sd_credential d)) (cp_editingScope p)"

lemma edit_issue_fine: "issue_fine d \<Longrightarrow> issue_fine (edit_issue now backends byId e d)"
  by (cases e) (auto simp: issue_fine_def Let_def)

lemma submit_issue_fine: "submit_issue backends d = Some (d', c) \<Longrightarrow> issue_fine d' = issue_fine d"
  by (auto simp: submit_issue_def issue_fine_def split: if_splits)

lemma open_issue_fine: "(case initial of None \<Rightarrow> True | Some i \<Rightarrow> ii_type i \<noteq> BackendAccess) \<Longrightarrow> issue_fine (open_issue n initial)"
  by (auto simp: issue_fine_def open_issue_def TTL_CHOICES_def split: option.splits)

lemma call_out_fields [simp]:
  "cp_issuing (call_out cs w p) = cp_issuing p" "cp_revoking (call_out cs w p) = cp_revoking p"
  "cp_purging (call_out cs w p) = cp_purging p" "cp_migrating (call_out cs w p) = cp_migrating p"
  "cp_editingScope (call_out cs w p) = cp_editingScope p" "cp_sent (call_out cs w p) = cp_sent p @ cs"
  "cp_credentials (call_out cs w p) = cp_credentials p" "cp_backends (call_out cs w p) = cp_backends p"
  by (simp_all add: call_out_def)

lemma load_fields [simp]:
  "cp_issuing (load p) = cp_issuing p" "cp_revoking (load p) = cp_revoking p"
  "cp_purging (load p) = cp_purging p" "cp_migrating (load p) = cp_migrating p"
  "cp_editingScope (load p) = cp_editingScope p" "cp_sent (load p) = cp_sent p @ [ListCredentials, ListBackends]"
  "cp_credentials (load p) = cp_credentials p" "cp_backends (load p) = cp_backends p"
  by (simp_all add: load_def)

lemma session_lost_fields [simp]:
  "cp_issuing (session_lost e p) = cp_issuing p" "cp_revoking (session_lost e p) = cp_revoking p"
  "cp_purging (session_lost e p) = cp_purging p" "cp_migrating (session_lost e p) = cp_migrating p"
  "cp_editingScope (session_lost e p) = cp_editingScope p" "cp_sent (session_lost e p) = cp_sent p"
  by (simp_all add: session_lost_def)

lemma show_action_error_fields [simp]:
  "cp_issuing (show_action_error e p) = cp_issuing p" "cp_revoking (show_action_error e p) = cp_revoking p"
  "cp_purging (show_action_error e p) = cp_purging p" "cp_migrating (show_action_error e p) = cp_migrating p"
  "cp_editingScope (show_action_error e p) = cp_editingScope p" "cp_sent (show_action_error e p) = cp_sent p"
  by (simp_all add: show_action_error_def)

lemma loaded_fields [simp]:
  "cp_issuing (loaded now r p) = cp_issuing p" "cp_revoking (loaded now r p) = cp_revoking p"
  "cp_purging (loaded now r p) = cp_purging p" "cp_migrating (loaded now r p) = cp_migrating p"
  "cp_editingScope (loaded now r p) = cp_editingScope p" "cp_sent (loaded now r p) = cp_sent p"
  by (auto simp: loaded_def split: sum.splits)

text \<open>What an event does to each dialog: nothing, a local change, an opening, or a closing.\<close>

lemmas page_defs = set_filters_def on_row_def toggle_selected_def toggle_all_def open_issuing_def open_revoking_def open_purging_def
  open_migrating_def open_scoping_def dialog_call_def confirm_revoke_def confirm_purge_def confirm_bind_def save_scope_def
  issue_failed_def bind_failed_def scope_failed_def

lemma page_step_cases:
  assumes "\<And>now i. Q (page_input now i p)"
    and "\<And>now what a k q. page_answer now what a (p\<lparr>cp_pending := jm_del k (cp_pending p)\<rparr>) = Some q \<Longrightarrow> Q q"
    and "Q p"
  shows "Q (page_step ev p)"
proof -
  obtain now e where ev: "ev = (now, e)" by (cases ev)
  show ?thesis
  proof (cases e)
    case (Input i)
    then show ?thesis using assms(1,3) by (simp add: ev)
  next
    case (Answered k a)
    show ?thesis
    proof (cases "jm_get (cp_pending p) k")
      case None
      then show ?thesis using assms(3) by (simp add: ev Answered)
    next
      case (Some what)
      then show ?thesis using assms(2,3)
        by (cases "page_answer now what a (p\<lparr>cp_pending := jm_del k (cp_pending p)\<rparr>)") (auto simp: ev Answered)
    qed
  qed
qed

lemma revoking_step:
  "pred_option (\<lambda>d'. pred_option (\<lambda>d. rd_targets d' = rd_targets d) (cp_revoking p) \<and> cp_revoking p \<noteq> None
     \<or> rd_targets d' = selectedRows p \<and> selectedRows p \<noteq> []
     \<or> (\<exists>i c. rd_targets d' = [c] \<and> row_of i p = Some c \<and> unrevoked c)) (cp_revoking (page_step ev p))"
proof (rule page_step_cases, goal_cases)
  case (1 now i)
  then show ?case by (cases i) (auto simp: page_defs pred_option_def split: option.splits if_splits)
next
  case (2 now what a k q)
  then show ?case by (cases what; cases a) (auto simp: page_defs pred_option_def split: sum.splits)
qed (auto simp: pred_option_def)

lemma purging_step:
  "pred_option (\<lambda>d'. pred_option (\<lambda>d. pd_ids d' = pd_ids d) (cp_purging p) \<and> cp_purging p \<noteq> None
     \<or> pd_ids d' = map ci_id (revokedAll p) \<and> revokedAll p \<noteq> []
     \<or> (\<exists>i c. pd_ids d' = [ci_id c] \<and> row_of i p = Some c \<and> \<not> unrevoked c)) (cp_purging (page_step ev p))"
proof (rule page_step_cases, goal_cases)
  case (1 now i)
  then show ?case by (cases i) (auto simp: page_defs pred_option_def split: option.splits if_splits)
next
  case (2 now what a k q)
  then show ?case by (cases what; cases a) (auto simp: page_defs pred_option_def split: sum.splits)
qed (auto simp: pred_option_def)

lemma migrating_step:
  "pred_option (\<lambda>d'. pred_option (\<lambda>d. md_credential d' = md_credential d) (cp_migrating p) \<and> cp_migrating p \<noteq> None
     \<or> (\<exists>i. row_of i p = Some (md_credential d') \<and> migratable (md_credential d'))) (cp_migrating (page_step ev p))"
proof (rule page_step_cases, goal_cases)
  case (1 now i)
  then show ?case
    by (cases i) (auto simp: page_defs pred_option_def open_migrate_def choose_identity_def Let_def split: option.splits if_splits)
next
  case (2 now what a k q)
  then show ?case by (cases what; cases a) (auto simp: page_defs pred_option_def split: sum.splits)
qed (auto simp: pred_option_def)

lemma scoping_step:
  "pred_option (\<lambda>d'. pred_option (\<lambda>d. sd_credential d' = sd_credential d) (cp_editingScope p) \<and> cp_editingScope p \<noteq> None
     \<or> (\<exists>i. row_of i p = Some (sd_credential d') \<and> scopable (sd_credential d'))) (cp_editingScope (page_step ev p))"
proof (rule page_step_cases, goal_cases)
  case (1 now i)
  then show ?case
    by (cases i) (auto simp: page_defs pred_option_def open_scope_def toggle_scope_def Let_def split: option.splits if_splits)
next
  case (2 now what a k q)
  then show ?case by (cases what; cases a) (auto simp: page_defs pred_option_def split: sum.splits)
qed (auto simp: pred_option_def)

lemma issuing_step:
  "pred_option issue_fine (cp_issuing p) \<Longrightarrow> pred_option issue_fine (cp_issuing (page_step ev p))"
proof (rule page_step_cases [where Q = "\<lambda>q. pred_option issue_fine (cp_issuing q)"], goal_cases)
  case (1 now i)
  then show ?case
    by (cases i) (auto simp: page_defs pred_option_def edit_issue_fine submit_issue_fine open_issue_fine split: option.splits if_splits)
next
  case (2 now what a k q)
  then show ?case by (cases what; cases a) (auto simp: page_defs pred_option_def issue_fine_def split: sum.splits if_splits)
qed

section \<open>What the page asks for was on screen\<close>

text \<open>Why a call may be sent: what the administrator saw, at the moment the dialog was opened (or, to issue, submitted).\<close>

fun justified :: "api_call \<Rightarrow> cred_page \<Rightarrow> bool" where
  "justified (RevokeCredentials ids) p \<longleftrightarrow>
     ids \<noteq> [] \<and> list_all (\<lambda>i. list_ex (\<lambda>c. ci_id c = i \<and> unrevoked c) (filtered p)) ids"
| "justified (PurgeCredentials ids) p \<longleftrightarrow>
     (case ids of
        None \<Rightarrow> False
      | Some xs \<Rightarrow> xs \<noteq> [] \<and> list_all (\<lambda>i. list_ex (\<lambda>c. ci_id c = i \<and> \<not> unrevoked c) (or_else (cp_credentials p) [])) xs)"
| "justified (BindCredential i b) p \<longleftrightarrow> list_ex (\<lambda>c. ci_id c = i \<and> migratable c) (filtered p)"
| "justified (UpdateScope i scope) p \<longleftrightarrow> scope \<noteq> Some [] \<and> list_ex (\<lambda>c. ci_id c = i \<and> scopable c) (filtered p)"
| "justified (IssueCredential r) p \<longleftrightarrow>
     (case cp_issuing p of
        None \<Rightarrow> False
      | Some d \<Rightarrow> issue_fine d \<and> \<not> incomplete (cp_backends p) d \<and> r = issue_request_of (cp_backends p) d)"
| "justified ListCredentials p = True"
| "justified ListBackends p = True"
| "justified _ p = False"

text \<open>What an open dialog is ready to ask for.\<close>

fun intended :: "api_call \<Rightarrow> cred_page \<Rightarrow> bool" where
  "intended (RevokeCredentials ids) p = (map_option (\<lambda>d. map ci_id (rd_targets d)) (cp_revoking p) = Some ids)"
| "intended (PurgeCredentials ids) p = (ids \<noteq> None \<and> map_option pd_ids (cp_purging p) = ids)"
| "intended (BindCredential i b) p = (map_option (ci_id \<circ> md_credential) (cp_migrating p) = Some i)"
| "intended (UpdateScope i scope) p = (scope \<noteq> Some [] \<and> map_option (ci_id \<circ> sd_credential) (cp_editingScope p) = Some i)"
| "intended _ p = False"

text \<open>The calls that answer no dialog of an earlier moment: the lists, and an issue request, which is what the form holds now.\<close>

fun at_once :: "api_call \<Rightarrow> bool" where
  "at_once ListCredentials = True"
| "at_once ListBackends = True"
| "at_once (IssueCredential r) = True"
| "at_once _ = False"

lemma filtered_sub: "set (filtered p) \<subseteq> set (or_else (cp_credentials p) [])"
  by (auto simp: filtered_def Let_def split: option.splits if_splits)

lemma row_of_Some: "row_of i p = Some c \<Longrightarrow> c \<in> set (filtered p)"
  by (auto simp: row_of_def dest: find_SomeD)

lemma sent_step:
  assumes "pred_option issue_fine (cp_issuing p)"
  shows "\<exists>new. cp_sent (page_step ev p) = cp_sent p @ new
     \<and> list_all (\<lambda>call. if at_once call then justified call p else intended call p) new"
proof (rule page_step_cases, goal_cases)
  case (1 now i)
  then show ?case using assms
    by (cases i) (auto simp: page_defs submit_issue_def pred_option_def split: option.splits if_splits)
next
  case (2 now what a k q)
  then show ?case by (cases what; cases a) (auto simp: page_defs split: sum.splits)
qed auto

lemma intended_step:
  assumes "intended call (page_step ev p)"
  shows "intended call p \<or> justified call p"
proof (cases call)
  case (RevokeCredentials ids)
  with assms obtain d' where "cp_revoking (page_step ev p) = Some d'" "ids = map ci_id (rd_targets d')" by auto
  with revoking_step [of p ev] RevokeCredentials show ?thesis
    by (auto simp: pred_option_def selectedRows_def selectable_def unrevoked_def list_all_iff list_ex_iff dest: row_of_Some
        split: option.splits)
next
  case (PurgeCredentials ids)
  with assms obtain d' where "cp_purging (page_step ev p) = Some d'" "ids = Some (pd_ids d')" by auto
  with purging_step [of p ev] PurgeCredentials show ?thesis
    by (auto simp: pred_option_def revokedAll_def unrevoked_def list_all_iff list_ex_iff dest!: row_of_Some subsetD [OF filtered_sub]
        split: option.splits) blast+
next
  case (BindCredential i b)
  with assms obtain d' where "cp_migrating (page_step ev p) = Some d'" "i = ci_id (md_credential d')" by auto
  with migrating_step [of p ev] BindCredential show ?thesis
    by (auto simp: pred_option_def list_ex_iff dest: row_of_Some split: option.splits)
next
  case (UpdateScope i scope)
  with assms obtain d' where "cp_editingScope (page_step ev p) = Some d'" "i = ci_id (sd_credential d')" "scope \<noteq> Some []" by auto
  with scoping_step [of p ev] UpdateScope show ?thesis
    by (auto simp: pred_option_def list_ex_iff dest: row_of_Some split: option.splits)
qed (use assms in auto)

interpretation screen: event_origin page_step "\<lambda>p. pred_option issue_fine (cp_issuing p)" intended justified
  by (unfold_locales, rule issuing_step, assumption) (rule intended_step)

definition page_run :: "int \<Rightarrow> (int \<times> page_event) list \<Rightarrow> cred_page" where
  "page_run start evs = fold page_step evs (new_cred_page start)"

text \<open>
  C24. Whatever the administrator does and in whatever order answers come, every call the credentials page sends
  after the two lists it starts with has its reason.  A call of a dialog (revocation, deletion, binding, scope) is
  what the dialog then held and had held without a break since it was opened, or pointed at these rows, and the page
  on which that happened showed it: a revocation names only credentials that were unrevoked and visible under the
  filters on that page, a deletion only credentials it listed as revoked, a binding an unbound enrollment visible on
  it, a change of scope an unrevoked device visible on it, and never an empty scope.  An issue request is what the
  complete form showed when it was submitted.  But for the two lists nothing else is ever sent.
\<close>

theorem calls_justified:
  "\<exists>new. cp_sent (page_run start (evs @ [ev])) = cp_sent (page_run start evs) @ new
     \<and> (\<forall>call\<in>set new. if at_once call then justified call (page_run start evs)
          else \<exists>before e mid. evs = before @ e # mid \<and> justified call (page_run start before)
                 \<and> \<not> intended call (page_run start before)
                 \<and> (\<forall>m r. mid = m @ r \<longrightarrow> intended call (page_run start (before @ e # m))))"
proof -
  have good: "pred_option issue_fine (cp_issuing (new_cred_page start))" by (simp add: new_cred_page_def)
  have none: "\<not> intended call (new_cred_page start)" for call by (cases call) (auto simp: new_cred_page_def)
  obtain new where new: "cp_sent (page_step ev (page_run start evs)) = cp_sent (page_run start evs) @ new"
    "list_all (\<lambda>call. if at_once call then justified call (page_run start evs) else intended call (page_run start evs)) new"
    using sent_step [OF screen.good_run [OF good, of evs], of ev] unfolding page_run_def by blast
  have "if at_once call then justified call (page_run start evs)
      else \<exists>before e mid. evs = before @ e # mid \<and> justified call (page_run start before)
             \<and> \<not> intended call (page_run start before)
             \<and> (\<forall>m r. mid = m @ r \<longrightarrow> intended call (page_run start (before @ e # m)))" if "call \<in> set new" for call
    using new(2) that screen.run_since [OF good _ none, of call evs] by (auto simp: list_all_iff page_run_def split: if_splits)
  moreover have "page_run start (evs @ [ev]) = page_step ev (page_run start evs)" by (simp add: page_run_def)
  ultimately show ?thesis using new(1) by (intro exI [of _ new]) (simp only: simp_thms, blast)
qed

definition sample_events :: "(int \<times> page_event) list" where
  "sample_events =
     [(60, Answered 0 (LoadAnswered False (answer_of (Reply 200 [sample_host, sample_laptop]))
             (answer_of (Reply 200 (list_backends sample_page_gateway))))),
      (61, Input (SetTypeFilter (Some Device))), (62, Input ToggleAll), (63, Input RevokeSelected), (64, Input ConfirmRevoke)]"

lemma calls_justified_witness:
  "\<exists>before e mid. butlast sample_events = before @ e # mid \<and> justified (RevokeCredentials [''c2'']) (page_run 50 before)
     \<and> \<not> intended (RevokeCredentials [''c2'']) (page_run 50 before)"
proof -
  let ?evs = "butlast sample_events"
  have evs: "sample_events = ?evs @ [last sample_events]" by (simp add: sample_events_def)
  have sent: "list_all (\<lambda>c. c \<noteq> RevokeCredentials [''c2'']) (cp_sent (page_run 50 ?evs))"
    "list_ex (\<lambda>c. c = RevokeCredentials [''c2'']) (cp_sent (page_run 50 sample_events))" by code_simp+
  from calls_justified [of 50 ?evs "last sample_events", folded evs] obtain new where
    new: "cp_sent (page_run 50 sample_events) = cp_sent (page_run 50 ?evs) @ new"
    "\<forall>call\<in>set new. if at_once call then justified call (page_run 50 ?evs)
          else \<exists>before e mid. ?evs = before @ e # mid \<and> justified call (page_run 50 before)
                 \<and> \<not> intended call (page_run 50 before)
                 \<and> (\<forall>m r. mid = m @ r \<longrightarrow> intended call (page_run 50 (before @ e # m)))" by blast
  have "RevokeCredentials [''c2''] \<in> set new" using sent new(1) by (auto simp: list_ex_iff list_all_iff)
  from new(2) [rule_format, OF this] show ?thesis unfolding at_once.simps if_False by blast
qed

section \<open>The selection\<close>

lemma selectedRows_visible: "set (selectedRows p) \<subseteq> {c \<in> set (filtered p). unrevoked c}"
  by (auto simp: selectedRows_def selectable_def unrevoked_def)

text \<open>The box in the head of the table selects every visible unrevoked row, or, when all are selected, none.\<close>

lemma filtered_selected [simp]: "filtered (p\<lparr>cp_selected := xs\<rparr>) = filtered p"
proof -
  have "cp_listedAt (p\<lparr>cp_selected := xs\<rparr>) = cp_listedAt p" "cp_credentials (p\<lparr>cp_selected := xs\<rparr>) = cp_credentials p"
    "cp_typeFilter (p\<lparr>cp_selected := xs\<rparr>) = cp_typeFilter p" "cp_statusFilter (p\<lparr>cp_selected := xs\<rparr>) = cp_statusFilter p"
    "cp_hideExpiredAccess (p\<lparr>cp_selected := xs\<rparr>) = cp_hideExpiredAccess p"
    "cp_namespaceFilter (p\<lparr>cp_selected := xs\<rparr>) = cp_namespaceFilter p" "cp_search (p\<lparr>cp_selected := xs\<rparr>) = cp_search p"
    by simp_all
  then show ?thesis by (simp only: filtered_def)
qed

lemma toggle_all_selects:
  "selectedRows (toggle_all p) = (if allSelected p then [] else selectable p)"
proof (cases "allSelected p")
  case False
  then have "selectedRows (toggle_all p) = filter (\<lambda>c. ci_id c \<in> ci_id ` set (selectable p)) (selectable p)"
    by (simp add: selectedRows_def toggle_all_def selectable_def)
  also have "\<dots> = selectable p" by (rule filter_True) simp
  finally show ?thesis using False by simp
qed (simp add: selectedRows_def toggle_all_def)

lemma toggle_twice:
  assumes "i \<notin> set (cp_selected p)"
  shows "toggle_selected i (toggle_selected i p) = p"
proof -
  have "filter (\<lambda>x. x \<noteq> i) (cp_selected p) = cp_selected p" by (rule filter_True) (use assms in auto)
  then show ?thesis using assms by (simp add: toggle_selected_def)
qed

section \<open>Two loads at once\<close>

text \<open>
  Each load replaces the lists when its answers come: with two under way, the page shows what the one that
  is answered last was given, even when it was asked for first, and a credential that was revoked in between
  is again listed as active.
\<close>

lemma last_answer_shown:
  assumes "jm_get (cp_pending p) k = Some LoadPending" "\<not> cp_left p" "both f a b = Inr (credentials, backends)"
  shows "cp_credentials (page_step (now, Answered k (LoadAnswered f a b)) p) = Some (sort_key (\<lambda>c. - ci_createdAt c) credentials)"
    and "cp_backends (page_step (now, Answered k (LoadAnswered f a b)) p) = backends"
  using assms by (simp_all add: loaded_def)

definition sample_race :: "(int \<times> page_event) list" where
  "sample_race = sample_events @
     [(65, Input CloseRevoke), (65, Input Reload),
      (66, Answered 2 (RevokeAnswered (answer_of (Reply 200 ([''c2''], []))))),
      (67, Answered 4 (LoadAnswered False (answer_of (Reply 200 [sample_host, sample_laptop\<lparr>ci_revokedAt := Some 65\<rparr>])) (answer_of (Reply 200 [])))),
      (68, Answered 3 (LoadAnswered False (answer_of (Reply 200 [sample_host, sample_laptop])) (answer_of (Reply 200 []))))]"

lemma revoked_shown_active:
  "filter unrevoked (filtered (page_run 50 (butlast sample_race))) = []"
  "filter unrevoked (filtered (page_run 50 sample_race)) = [sample_laptop]"
  by code_simp+

end
