(* ===== verification/Ui_Pages.thy ===== *)
theory Ui_Pages
  imports Ui_Credentials
begin

text \<open>
  The rest of the admin page: packages/admin-ui/src/App.tsx, pages/LoginPage.tsx, OverviewPage.tsx and
  BackendsPage.tsx, each as its state and its events; and what signing in and out comes to with the gateway's
  session endpoints.
\<close>

section \<open>The shell\<close>

datatype auth_state = Checking | LoginForm | SignedIn
datatype view = OverviewView | CredentialsView | BackendsView

definition currentView :: "string \<Rightarrow> view" where
  "currentView hash =
     (let v = (if starts_with ''#/'' hash then drop 2 hash else hash)
      in if v = ''credentials'' then CredentialsView else if v = ''backends'' then BackendsView else OverviewView)"

record app =
  ap_auth :: auth_state
  ap_view :: view
  ap_sent :: "api_call list"

text \<open>\<open>AppInner\<close> when it appears, with the session check under way.\<close>

definition new_app :: "string \<Rightarrow> app" where
  "new_app hash = \<lparr>ap_auth = Checking, ap_view = currentView hash, ap_sent = [CheckSession]\<rparr>"

datatype app_event =
    SessionChecked "int option fetch_answer"
  | HashChanged string
  | Navigate view
  | CallFailed ui_error
  | LoginSucceeded
  | LogoutClicked
  | LogoutAnswered "unit fetch_answer"

fun app_step :: "app_event \<Rightarrow> app \<Rightarrow> app" where
  "app_step (SessionChecked a) s = s\<lparr>ap_auth := case request a of Inr _ \<Rightarrow> SignedIn | Inl _ \<Rightarrow> LoginForm\<rparr>"
| "app_step (HashChanged h) s = s\<lparr>ap_view := currentView h\<rparr>"
| "app_step (Navigate v) s = (if ap_auth s = SignedIn then s\<lparr>ap_view := v\<rparr> else s)"
| "app_step (CallFailed e) s = (if e = UnauthorizedError then s\<lparr>ap_auth := LoginForm\<rparr> else s)"
| "app_step LoginSucceeded s = (if ap_auth s = LoginForm then s\<lparr>ap_auth := SignedIn\<rparr> else s)"
| "app_step LogoutClicked s = (if ap_auth s = SignedIn then s\<lparr>ap_sent := ap_sent s @ [Logout]\<rparr> else s)"
| "app_step (LogoutAnswered a) s = s\<lparr>ap_auth := LoginForm\<rparr>"

section \<open>The login form\<close>

record login_page =
  lp_token :: string
  lp_error :: "ui_error option"
  lp_busy :: bool

definition new_login :: login_page where
  "new_login = \<lparr>lp_token = '''', lp_error = None, lp_busy = False\<rparr>"

definition submit_login :: "login_page \<Rightarrow> (login_page \<times> api_call) option" where
  "submit_login p =
     (if js_trim (lp_token p) = [] \<or> lp_busy p then None
      else Some (p\<lparr>lp_busy := True, lp_error := None\<rparr>, Login (js_trim (lp_token p))))"

text \<open>The answer: the page after it, and whether \<open>onLoggedIn\<close> was called.\<close>

definition login_answered :: "'a fetch_answer \<Rightarrow> login_page \<Rightarrow> login_page \<times> bool" where
  "login_answered a p =
     (case request a of
        Inr _ \<Rightarrow> (p\<lparr>lp_token := '''', lp_busy := False\<rparr>, True)
      | Inl e \<Rightarrow> (p\<lparr>lp_error := Some e, lp_busy := False\<rparr>, False))"

definition login_message :: "(ui_locale \<Rightarrow> string \<Rightarrow> string option) \<Rightarrow> ui_locale \<Rightarrow> ui_error \<Rightarrow> string option" where
  "login_message messages locale e =
     (if (case e of Thrown _ \<Rightarrow> False | _ \<Rightarrow> err_code e = ''UNAUTHORIZED'')
      then formatMessage messages locale ''login.invalidToken'' None
      else if (case e of Thrown _ \<Rightarrow> False | _ \<Rightarrow> err_code e = ''RATE_LIMITED'')
      then formatMessage messages locale ''login.rateLimited'' None
      else case localizeApiError messages locale e of
             Some m \<Rightarrow> if m = [] then formatMessage messages locale ''login.failed'' None else Some m
           | None \<Rightarrow> formatMessage messages locale ''login.failed'' None)"

section \<open>The overview\<close>

definition REFRESH_MS :: int where "REFRESH_MS = 30000"

record overview_page =
  op_overview :: "overview option"
  op_error :: "ui_error option"
  op_updatedAt :: "int option"
  op_cancelled :: bool
  op_nextLoad :: int
  op_sent :: nat

definition new_overview :: "int \<Rightarrow> overview_page" where
  "new_overview now = \<lparr>op_overview = None, op_error = None, op_updatedAt = None, op_cancelled = False,
     op_nextLoad = now + REFRESH_MS, op_sent = 1\<rparr>"

text \<open>The interval, which stops with the page, and an answer, which is dropped when the page is gone.\<close>

definition overview_tick :: "int \<Rightarrow> overview_page \<Rightarrow> overview_page" where
  "overview_tick now p =
     (if op_cancelled p \<or> now < op_nextLoad p then p
      else p\<lparr>op_sent := op_sent p + 1, op_nextLoad := op_nextLoad p + REFRESH_MS\<rparr>)"

definition overview_answered :: "int \<Rightarrow> overview fetch_answer \<Rightarrow> overview_page \<Rightarrow> overview_page \<times> ui_error option" where
  "overview_answered now a p =
     (if op_cancelled p then (p, None)
      else case fetched a of
             Inr d \<Rightarrow> (p\<lparr>op_overview := Some d, op_updatedAt := Some now, op_error := None\<rparr>, None)
           | Inl e \<Rightarrow> (p\<lparr>op_error := Some e\<rparr>, Some e))"

definition overview_left :: "overview_page \<Rightarrow> overview_page" where
  "overview_left p = p\<lparr>op_cancelled := True\<rparr>"

section \<open>The backends\<close>

datatype back_pending = BackLoad | BackIssue nat | BackDelete nat

record back_page =
  bp_backends :: "admin_backend list option"
  bp_credentials :: "credential_info list"
  bp_error :: "ui_error option"
  bp_namespaceFilter :: string
  bp_onlineFilter :: "bool option"
  bp_search :: string
  bp_issuing :: "issue_dialog option"
  bp_issued :: "(credential_info \<times> string) option"
  bp_deleting :: "delete_dialog option"
  bp_next :: nat
  bp_pending :: "(nat, back_pending) jmap"
  bp_sent :: "api_call list"
  bp_left :: bool

definition back_call :: "api_call list \<Rightarrow> back_pending \<Rightarrow> back_page \<Rightarrow> back_page" where
  "back_call calls what p =
     p\<lparr>bp_sent := bp_sent p @ calls, bp_pending := jm_set (bp_next p) what (bp_pending p), bp_next := bp_next p + 1\<rparr>"

definition back_load :: "back_page \<Rightarrow> back_page" where
  "back_load p = back_call [ListBackends, ListCredentials] BackLoad p"

definition new_back_page :: back_page where
  "new_back_page = back_load
     \<lparr>bp_backends = None, bp_credentials = [], bp_error = None, bp_namespaceFilter = ''all'', bp_onlineFilter = None,
      bp_search = '''', bp_issuing = None, bp_issued = None, bp_deleting = None, bp_next = 0, bp_pending = [],
      bp_sent = [], bp_left = False\<rparr>"

definition back_matches :: "string \<Rightarrow> admin_backend \<Rightarrow> bool" where
  "back_matches q b \<longleftrightarrow>
     (let i = ab_identity b
      in contains (toLowerCase (bi_name i)) q \<or> contains (toLowerCase (bi_namespace i)) q
         \<or> contains (toLowerCase (bi_instanceId i)) q \<or> contains (toLowerCase (bi_backendId i)) q)"

definition back_filtered :: "back_page \<Rightarrow> admin_backend list" where
  "back_filtered p =
     (let l0 = or_else (bp_backends p) [];
          l1 = (if bp_namespaceFilter p \<noteq> ''all'' then filter (\<lambda>b. bi_namespace (ab_identity b) = bp_namespaceFilter p) l0 else l0);
          l2 = (case bp_onlineFilter p of None \<Rightarrow> l1 | Some on \<Rightarrow> filter (\<lambda>b. (ab_online b \<noteq> None) = on) l1);
          q = toLowerCase (js_trim (bp_search p))
      in if q \<noteq> [] then filter (back_matches q) l2 else l2)"

datatype last_cell = NotObserved | CredentialGone string | LastCredential string string "credential_status option"

definition renderLastCredential :: "int \<Rightarrow> back_page \<Rightarrow> string option \<Rightarrow> last_cell" where
  "renderLastCredential now p i =
     (case i of
        None \<Rightarrow> NotObserved
      | Some c \<Rightarrow>
          (case jm_get (credentials_by_id (bp_credentials p)) c of
             None \<Rightarrow> CredentialGone (shortId c)
           | Some r \<Rightarrow> LastCredential (ci_name r) (shortId (ci_id r))
               (let s = credentialStatus now r in if s = StatusActive then None else Some s)))"

definition issueNamespaces :: "back_page \<Rightarrow> string list" where
  "issueNamespaces p = sort_key (map of_char :: char list \<Rightarrow> nat list) (js_uniq
     (sort_key (map of_char :: char list \<Rightarrow> nat list) (js_uniq (map (\<lambda>b. bi_namespace (ab_identity b)) (or_else (bp_backends p) [])))
      @ map ci_namespace (bp_credentials p)))"

text \<open>Where the delete button is shown.\<close>

definition deletable :: "admin_backend \<Rightarrow> bool" where
  "deletable b \<longleftrightarrow> ab_online b = None \<and> ab_boundCredentials b = 0"

datatype back_input =
    BackReload
  | BackNamespace string
  | BackOnline "bool option"
  | BackSearch string
  | IssueFor string
  | BackEdit issue_edit
  | BackSubmit
  | BackCloseIssue
  | BackCloseIssued
  | DeleteRow string
  | ConfirmDelete
  | CloseDelete

definition back_row :: "string \<Rightarrow> back_page \<Rightarrow> admin_backend option" where
  "back_row i p = find (\<lambda>b. backend_key b = i) (back_filtered p)"

fun back_input_step :: "int \<Rightarrow> back_input \<Rightarrow> back_page \<Rightarrow> back_page" where
  "back_input_step now BackReload p = back_load p"
| "back_input_step now (BackNamespace n) p = p\<lparr>bp_namespaceFilter := n\<rparr>"
| "back_input_step now (BackOnline on) p = p\<lparr>bp_onlineFilter := on\<rparr>"
| "back_input_step now (BackSearch s) p = p\<lparr>bp_search := s\<rparr>"
| "back_input_step now (IssueFor i) p =
     (case (back_row i p, bp_issuing p) of
        (Some b, None) \<Rightarrow>
          p\<lparr>bp_issuing := Some (open_issue (bp_next p)
               (Some \<lparr>ii_type = Backend, ii_namespace = bi_namespace (ab_identity b), ii_backendId = Some (backend_key b)\<rparr>)),
            bp_next := bp_next p + 1\<rparr>
      | _ \<Rightarrow> p)"
| "back_input_step now (BackEdit e) p =
     p\<lparr>bp_issuing := map_option (edit_issue now (or_else (bp_backends p) []) (credentials_by_id (bp_credentials p)) e) (bp_issuing p)\<rparr>"
| "back_input_step now BackSubmit p =
     (case bp_issuing p of
        None \<Rightarrow> p
      | Some d \<Rightarrow>
          (case submit_issue (or_else (bp_backends p) []) d of
             None \<Rightarrow> p
           | Some (d', call) \<Rightarrow> back_call [call] (BackIssue (id_instance d)) (p\<lparr>bp_issuing := Some d'\<rparr>)))"
| "back_input_step now BackCloseIssue p = p\<lparr>bp_issuing := None\<rparr>"
| "back_input_step now BackCloseIssued p = p\<lparr>bp_issued := None\<rparr>"
| "back_input_step now (DeleteRow i) p =
     (case back_row i p of
        None \<Rightarrow> p
      | Some b \<Rightarrow>
          if \<not> deletable b then p
          else case bp_deleting p of
                 Some d \<Rightarrow> p\<lparr>bp_deleting := Some (d\<lparr>dd_backend := b\<rparr>)\<rparr>
               | None \<Rightarrow> p\<lparr>bp_deleting := Some \<lparr>dd_instance = bp_next p, dd_backend = b, dd_busy = False, dd_error = None\<rparr>,
                           bp_next := bp_next p + 1\<rparr>)"
| "back_input_step now ConfirmDelete p =
     (case bp_deleting p of
        None \<Rightarrow> p
      | Some d \<Rightarrow>
          (case confirm_delete d of
             None \<Rightarrow> p
           | Some (d', call) \<Rightarrow> back_call [call] (BackDelete (dd_instance d)) (p\<lparr>bp_deleting := Some d'\<rparr>)))"
| "back_input_step now CloseDelete p = p\<lparr>bp_deleting := None\<rparr>"

definition back_lost :: "ui_error \<Rightarrow> back_page \<Rightarrow> back_page" where
  "back_lost e p = (if e = UnauthorizedError then p\<lparr>bp_left := True\<rparr> else p)"

datatype back_answer =
    BackLoaded bool "admin_backend list fetch_answer" "credential_info list fetch_answer"
  | BackIssued "(credential_info \<times> string) fetch_answer"
  | BackDeleted "unit fetch_answer"

fun back_answered :: "back_pending \<Rightarrow> back_answer \<Rightarrow> back_page \<Rightarrow> back_page option" where
  "back_answered BackLoad (BackLoaded secondFirst a b) p =
     Some (case both secondFirst a b of
             Inl e \<Rightarrow> back_lost e (p\<lparr>bp_error := Some e\<rparr>)
           | Inr (backends, creds) \<Rightarrow> p\<lparr>bp_backends := Some backends, bp_credentials := creds, bp_error := None\<rparr>)"
| "back_answered (BackIssue n) (BackIssued a) p =
     Some (case fetched a of
             Inl e \<Rightarrow> back_lost e (p\<lparr>bp_issuing := map_option (\<lambda>d.
                 if id_instance d = n then d\<lparr>id_busy := False, id_error := Some e\<rparr> else d) (bp_issuing p)\<rparr>)
           | Inr issued \<Rightarrow> back_load (p\<lparr>bp_issuing := None, bp_issued := Some issued\<rparr>))"
| "back_answered (BackDelete n) (BackDeleted a) p =
     Some (case request a of
             Inl e \<Rightarrow> back_lost e (p\<lparr>bp_deleting := map_option (\<lambda>d.
                 if dd_instance d = n then d\<lparr>dd_busy := False, dd_error := Some e\<rparr> else d) (bp_deleting p)\<rparr>)
           | Inr _ \<Rightarrow> back_load (p\<lparr>bp_deleting := None\<rparr>))"
| "back_answered _ _ p = None"

datatype back_event = BackInput back_input | BackAnswered nat back_answer

fun back_step :: "int \<times> back_event \<Rightarrow> back_page \<Rightarrow> back_page" where
  "back_step (now, BackInput i) p = (if bp_left p \<or> bp_backends p = None then p else back_input_step now i p)"
| "back_step (now, BackAnswered k a) p =
     (if bp_left p then p
      else case jm_get (bp_pending p) k of
             None \<Rightarrow> p
           | Some what \<Rightarrow> or_else (back_answered what a (p\<lparr>bp_pending := jm_del k (bp_pending p)\<rparr>)) p)"

section \<open>Signing in and out\<close>

text \<open>
  Signing in with the gateway: the console opens exactly when what was typed, trimmed, is the admin token;
  otherwise the form shows the invalid-token or the too-many-requests message, in every language, and the gateway's
  sessions are unchanged.
\<close>

lemma login_exact:
  assumes "submit_login p = Some (p', call)" and "hq_body rq = hc_body (api_request call)"
  shows "let (g', reply) = admin_login cf rq sid now g; (q, signed_in) = login_answered (answer_of reply) p'
    in signed_in = (js_trim (lp_token p) = cf_adminToken cf)
       \<and> (if signed_in then lp_token q = [] \<and> lp_error q = None
          else gw_adminSessions g' = gw_adminSessions g
            \<and> (\<exists>e. lp_error q = Some e \<and> login_message messages locale e \<in>
                 {formatMessage messages locale ''login.invalidToken'' None, formatMessage messages locale ''login.rateLimited'' None}))"
proof -
  have t: "js_trim (lp_token p) \<noteq> []" "call = Login (js_trim (lp_token p))" "p' = p\<lparr>lp_busy := True, lp_error := None\<rparr>"
    using assms(1) by (auto simp: submit_login_def split: if_splits)
  have b: "js_string (body_field rq ''token'') = Some (js_trim (lp_token p))"
    using assms(2) by (simp add: t(2) body_field_def)
  show ?thesis
  proof (cases "js_trim (lp_token p) = cf_adminToken cf")
    case True
    then show ?thesis using t(1)
      by (simp add: admin_login_def b login_answered_def answer_ok_def t(3) case_prod_beta Let_def)
  next
    case False
    then show ?thesis using t(1)
      by (auto simp: admin_login_def b login_answered_def t(3) denyUnauthorized_def recordAuthFailure_def rateLimited_def
          request_def login_message_def case_prod_beta Let_def)
  qed
qed

text \<open>
  Signing out that does not reach the gateway closes the console and leaves the session: the next visit to the
  page, with the same cookie, is signed in.
\<close>

lemma failed_logout_keeps_session:
  assumes "readSessionCookie (hq_cookie rq) ADMIN_SESSION_COOKIE \<noteq> CookieThrows" "live_session rq now g = Some s"
  shows "ap_auth (app_step (LogoutAnswered NoAnswer) (app_step LogoutClicked a)) = LoginForm"
    and "ap_auth (app_step (SessionChecked (answer_of (snd (session_probe rq now g)))) (new_app h)) = SignedIn"
proof -
  have "snd (cookie_session rq now g) = Inr (Some s)" using assms by (simp add: cookie_session_eq)
  then show "ap_auth (app_step (SessionChecked (answer_of (snd (session_probe rq now g)))) (new_app h)) = SignedIn"
    by (cases "cookie_session rq now g") (simp add: session_probe_def new_app_def answer_ok_def)
qed simp

section \<open>Deleting identities\<close>

definition legacy_in_use :: "storage \<Rightarrow> backend_identity \<Rightarrow> bool" where
  "legacy_in_use st i =
     (case bi_lastCredentialId i of
        None \<Rightarrow> False
      | Some c \<Rightarrow> c \<noteq> [] \<and> (case getCredential c st of None \<Rightarrow> False | Some r \<Rightarrow> ci_revokedAt r = None \<and> ci_backendId r = None))"

lemma listed_identity:
  assumes "st_ok (gw_storage g)" "b \<in> set (list_backends g)"
  shows "getBackendIdentity (backend_key b) (gw_storage g) = Some (ab_identity b)"
    and "ab_online b = map_option (\<lambda>p. (pr_epoch p, pr_connectedAt p)) (jm_get (gs_registry g) (backend_key b))"
    and "ab_boundCredentials b = or_else (jm_get (boundCredentialCounts (gw_storage g)) (backend_key b)) 0"
proof -
  have d: "distinct (map bi_backendId (listBackendIdentities (gw_storage g)))" by (rule distinct_identities [OF assms(1)])
  have "ab_identity b \<in> set (listBackendIdentities (gw_storage g))" using assms(2) by (auto simp: list_backends_def Let_def)
  from find_key_unique [OF d this] show "getBackendIdentity (backend_key b) (gw_storage g) = Some (ab_identity b)"
    by (simp add: getBackendIdentity_def backend_key_def)
qed (use assms(2) in \<open>auto simp: list_backends_def Let_def backend_key_def\<close>)

text \<open>
  The delete button is shown for the identities the gateway would delete and for those it keeps only because the
  legacy credential last seen registering them is unrevoked.
\<close>

lemma delete_offered:
  assumes "st_ok (gw_storage g)" "b \<in> set (list_backends g)"
  shows "(\<exists>x. request (answer_of (snd (delete_backend (backend_key b) g))) = Inr x)
    \<longleftrightarrow> deletable b \<and> \<not> legacy_in_use (gw_storage g) (ab_identity b)"
  using listed_identity [OF assms]
  by (auto simp: delete_backend_def deletable_def legacy_in_use_def jm_has_def request_def answer_ok_def
      split: option.splits if_splits)

section \<open>What the backends page deletes\<close>

definition back_asked :: "string \<Rightarrow> back_page \<Rightarrow> bool" where
  "back_asked i p \<longleftrightarrow> DeleteBackend i \<in> set (bp_sent p) \<or> map_option (backend_key \<circ> dd_backend) (bp_deleting p) = Some i"

definition back_offered :: "string \<Rightarrow> back_page \<Rightarrow> bool" where
  "back_offered i p \<longleftrightarrow> list_ex (\<lambda>b. backend_key b = i \<and> deletable b) (back_filtered p)"

lemma back_row_Some: "back_row i p = Some b \<Longrightarrow> b \<in> set (back_filtered p) \<and> backend_key b = i"
  by (auto simp: back_row_def dest: find_SomeD)

lemma back_load_fields [simp]:
  "bp_deleting (back_load p) = bp_deleting p" "bp_sent (back_load p) = bp_sent p @ [ListBackends, ListCredentials]"
  "bp_deleting (back_call cs w p) = bp_deleting p" "bp_sent (back_call cs w p) = bp_sent p @ cs"
  "bp_deleting (back_lost e p) = bp_deleting p" "bp_sent (back_lost e p) = bp_sent p"
  by (simp_all add: back_load_def back_call_def back_lost_def)

lemma back_input_asked: "back_asked i (back_input_step now e p) \<Longrightarrow> back_asked i p \<or> back_offered i p"
  by (cases e) (auto simp: back_asked_def back_offered_def list_ex_iff submit_issue_def confirm_delete_def
      dest: back_row_Some split: option.splits if_splits)

lemma back_answer_asked: "back_answered w a p = Some q \<Longrightarrow> back_asked i q \<Longrightarrow> back_asked i p"
  by (cases w; cases a) (auto simp: back_asked_def split: option.splits if_splits sum.splits)

interpretation deletions: event_origin back_step "\<lambda>_. True" back_asked back_offered
proof (unfold_locales, goal_cases)
  case (2 p i ev)
  obtain now e where ev: "ev = (now, e)" by (cases ev)
  show ?case
  proof (cases e)
    case (BackInput inp)
    then show ?thesis using 2(2) back_input_asked [of i now inp p] by (auto simp: ev split: if_splits)
  next
    case (BackAnswered k a)
    have "back_asked i (p\<lparr>bp_pending := m\<rparr>) = back_asked i p" for m by (simp add: back_asked_def)
    then show ?thesis using 2(2) back_answer_asked [of _ a "p\<lparr>bp_pending := jm_del k (bp_pending p)\<rparr>" _ i]
      by (auto simp: ev BackAnswered or_else_def split: option.splits if_splits)
  qed
qed simp

text \<open>Only an identity that was visible, offline and without bound credentials is ever asked to be deleted.\<close>

lemma deletions_offered:
  assumes "DeleteBackend i \<in> set (bp_sent (fold back_step evs new_back_page))"
  shows "\<exists>before after. evs = before @ after \<and> back_offered i (fold back_step before new_back_page)"
proof (rule deletions.run_origin [where c = i])
  show "back_asked i (fold back_step evs new_back_page)" using assms by (simp add: back_asked_def)
  show "\<not> back_asked i new_back_page" by (simp add: back_asked_def new_back_page_def)
qed simp

end
