(* ===== verification/Spec2Isabelle.thy ===== *)
theory Spec2Isabelle
  imports Gw_Prelude Gw_Json Gw_Validation Gw_Admin_Session Gw_Storage Gw_Credentials Gw_Memory Gw_State
    Gw_Model Gw_Rate_Limit Gw_Access Gw_Channels Gw_Topics Gw_Peers Gw_Router Gw_Invariant Gw_Hello_Invariant Gw_Admin_Api
    Gw_Http_Proxy Gw_System Gw_Lifecycle Gw_Fencing Gw_Provenance Gw_Answers Gw_Shutdown Gw_Push Gw_Env Sdk_Prelude Sdk_Backend Sdk_Http Sdk_Client Sdk_Client_Facts
    Sdk_Wire Sdk_Sessions
    Ui_Api Ui_Dialogs Ui_Credentials Ui_Pages
begin

text \<open>
  The zclaudia gateway: a relay that backends and clients reach over one authenticated control
  WebSocket each, and that pairs them over one-time-ticket data channels, proxies HTTP to backends,
  relays topics and keeps the registry of who is online.

  \<^bold>\<open>Theories and the code they model\<close>
  \<^item> \<open>Gw_Prelude\<close>: JavaScript maps as association lists in insertion order (\<open>jm_get\<close>, \<open>jm_set\<close>, \<open>jm_del\<close>),
    lemma collections, and the locales \<open>invariant_machine\<close> and \<open>credential_authority\<close>'s generic facts.
  \<^item> \<open>Gw_Json\<close>: JSON values and the JavaScript reads on them (typeof, truthiness, numbers).
  \<^item> \<open>Gw_Validation\<close>: src/validation.ts, the message specs, the validator and the proxy header filters.
  \<^item> \<open>Gw_Admin_Session\<close>: src/admin-session.ts.
  \<^item> \<open>Gw_Storage\<close>, \<open>Gw_Credentials\<close>: src/storage.ts, the SQLite path of every method, as tables in a record;
    \<open>Gw_Memory\<close>: its in-memory path, proved equivalent, with the same laws of a credential authority.
  \<^item> \<open>Gw_State\<close>: src/state.ts, peers, registry and leases.
  \<^item> \<open>Gw_Model\<close>: the configuration and the state of createGatewayServer in src/server.ts, with the effects
    (frames sent, sockets closed, HTTP answers) as a log.
  \<^item> \<open>Gw_Rate_Limit\<close>, \<open>Gw_Access\<close>, \<open>Gw_Channels\<close>, \<open>Gw_Topics\<close>, \<open>Gw_Peers\<close>, \<open>Gw_Router\<close>, \<open>Gw_Admin_Api\<close>,
    \<open>Gw_Http_Proxy\<close>: the handlers of src/server.ts, each an explicit state transformer over the
    record \<open>gateway\<close>; a handler that answers an HTTP request returns the reply as well.
  \<^item> \<open>Gw_Invariant\<close>, \<open>Gw_Hello_Invariant\<close>, \<open>Gw_System\<close>: the invariant of the whole state, that every handler
    keeps it, the step relation \<open>gw_step\<close> of the running server, and what holds in every reachable state.
  \<^item> \<open>Gw_Lifecycle\<close>, \<open>Gw_Fencing\<close>: what disconnection, lease expiry, takeover and deletion do to a state of
    the server, and the abstract fencing machine that the server refines.
  \<^item> \<open>Gw_Provenance\<close>: that every session was opened by a hello with a credential, whose namespace and scope it
    keeps, and so that channels and topics are isolated between credentials.
  \<^item> \<open>Gw_Answers\<close>: which step of the server tells whom the outcome of an operation; \<open>Gw_Shutdown\<close>: the
    upgrades of the HTTP server and its close.
  \<^item> \<open>Gw_Push\<close>: src/push-notification.ts and its two endpoints; \<open>Gw_Env\<close>: src/index.ts, the settings read
    from the environment and the checks at start.
  \<^item> \<open>Sdk_Prelude\<close>: the locales \<open>event_machine\<close> (what an invariant of every event gives), \<open>event_preorder\<close>
    (a relation kept by every event) and \<open>event_origin\<close> (where what is held comes from, and since when), interpreted on
    both SDKs and on the admin pages.
  \<^item> \<open>Sdk_Backend\<close>: packages/backend/src/index.ts, the backend SDK as a state machine of its own events, and
    what it keeps to: its secret, its attempts, standing down, the text of its errors.
  \<^item> \<open>Sdk_Http\<close>: packages/client/src/channel.ts and socket.ts, the channel object both SDKs use, \<open>serveHttp\<close>
    of the backend SDK, and the way of a request and of its answer between it and the gateway's proxy.
  \<^item> \<open>Sdk_Client\<close>, \<open>Sdk_Client_Facts\<close>: packages/client/src/index.ts, the client SDK, its queue of control
    operations as a refinement of a first-come first-served queue, its waits and its topics, and four faults.
  \<^item> \<open>Sdk_Wire\<close>, \<open>Sdk_Sessions\<close>: packages/protocol/src/index.ts, the messages as JSON, and the server composed
    with the SDKs over them: operations, publications, the handshakes of clients and backends.
  \<^item> \<open>Ui_Api\<close>: packages/admin-ui/src/types.ts, api.ts, format.ts and i18n.tsx, with the way of the gateway's
    replies to what a caller of the API gets.
  \<^item> \<open>Ui_Dialogs\<close>: credentialDialogs.tsx and the dialogs of the pages, and that the endpoints take what they send.
  \<^item> \<open>Ui_Credentials\<close>: pages/CredentialsPage.tsx as a machine of inputs and answers; why each call is sent (on what
    page its dialog was opened), the selection, and two loads at once.
  \<^item> \<open>Ui_Pages\<close>: App.tsx and the login, overview and backends pages; signing in and out, deleting identities.

  \<^bold>\<open>Conventions\<close>
  Time is a parameter \<open>now\<close> of each event; the handlers make no assumption on how it runs.  Random draws
  (ids, tokens, tickets) are parameters; the step relation asks only that those that name a new session,
  a recovery token or a channel do not clash with ones in use, nor a session with one a connection still holds.  SHA-256 is the field \<open>cf_sha\<close> of the
  configuration; theorems that need it name the collision freedom they use as a hypothesis.  A socket is a
  number, whether it is open an oracle \<open>gw_ready\<close> that any step may change.  A timer is a deadline in the
  record of what it belongs to and an event that fires when it is due.  An uncaught exception ends the
  process: the handler returns \<open>Inl\<close> and the step relation has no successor.  Every definition is total and
  no fuel is used: the loops of the program are over finite lists, but for the queue of the client SDK
  (\<open>drain\<close>), whose measure is the operations queued and the topics still to subscribe.  In the SDKs an
  asynchronous method is a run that waits in a stage; what the runtime does between two events (promise
  continuations) happens within the event that caused it, and an event that finds nothing to act on changes
  nothing.

  \<^bold>\<open>Not modelled\<close>
  The markup of the admin page and its message tables (an argument), the Python SDK, the file location and schema
  of the database, the log lines, express routing and JSON parsing (a frame is a JSON value or does not parse),
  and the push service's HTTP calls.
\<close>

end
